(* ===== verification/Prelude.thy ===== *)
theory Prelude
  imports Main "HOL-Library.AList"
begin

section \<open>Prelude: shared types, collections and lemmas\<close>

text \<open>
  What every component of the model uses: the collections of lemmas the component proofs
  draw on, JavaScript's nullish operator, insertion-ordered sets and maps, and generic
  facts on lists.

  A JavaScript \<open>Map\<close> is an association list with distinct keys in insertion order:
  \<open>set\<close> is \<^const>\<open>AList.update\<close> (which overwrites in place and appends a new key at the
  end, as \<open>Map.prototype.set\<close> does), \<open>delete\<close> is \<^const>\<open>AList.delete\<close>, \<open>get\<close> is
  \<^const>\<open>map_of\<close>. A list used as a set (\<open>[...new Set(xs)]\<close>, or a push guarded by
  \<open>includes\<close>) keeps first occurrences: \<open>dedup\<close> and \<open>push_new\<close>.
\<close>

named_theorems model_defs "definitions a component unfolds as a group"
named_theorems keeps "preservation lemmas of a component's invariant"

subsection \<open>The nullish operator\<close>

fun nullish :: "'a option \<Rightarrow> 'a \<Rightarrow> 'a" where
  "nullish None d = d"
| "nullish (Some x) _ = x"

lemma nullish_eq_Some_iff: "nullish x d = y \<longleftrightarrow> x = Some y \<or> x = None \<and> d = y"
  by (cases x) auto

subsection \<open>Insertion-ordered sets\<close>

definition push_new :: "'a list \<Rightarrow> 'a \<Rightarrow> 'a list" where
  "push_new xs x = (if x \<in> set xs then xs else xs @ [x])"

definition dedup :: "'a list \<Rightarrow> 'a list" where
  "dedup xs = foldl push_new [] xs"

lemma set_push_new [simp]: "set (push_new xs x) = insert x (set xs)"
  by (auto simp: push_new_def)

lemma distinct_push_new [simp]: "distinct (push_new xs x) = distinct xs"
  by (auto simp: push_new_def)

lemma set_foldl_push_new [simp]: "set (foldl push_new acc xs) = set acc \<union> set xs"
  by (induction xs arbitrary: acc) auto

lemma distinct_foldl_push_new [simp]: "distinct (foldl push_new acc xs) = distinct acc"
  by (induction xs arbitrary: acc) auto

lemma set_dedup [simp]: "set (dedup xs) = set xs"
  by (simp add: dedup_def)

lemma distinct_dedup [simp]: "distinct (dedup xs)"
  by (simp add: dedup_def)

lemma foldl_push_new_fresh:
  "distinct (acc @ xs) \<Longrightarrow> foldl push_new acc xs = acc @ xs"
proof (induction xs arbitrary: acc)
  case Nil
  then show ?case by simp
next
  case (Cons x xs)
  then have "push_new acc x = acc @ [x]" by (simp add: push_new_def)
  with Cons show ?case by simp
qed

lemma dedup_distinct: "distinct xs \<Longrightarrow> dedup xs = xs"
  by (simp add: dedup_def foldl_push_new_fresh)

subsection \<open>Insertion-ordered maps\<close>

type_synonym ('k, 'v) jsmap = "('k \<times> 'v) list"

abbreviation jsmap_wf :: "('k, 'v) jsmap \<Rightarrow> bool" where
  "jsmap_wf m \<equiv> distinct (map fst m)"

lemma jsmap_wf_update [simp]: "jsmap_wf m \<Longrightarrow> jsmap_wf (AList.update k v m)"
  by (rule distinct_update)

lemma jsmap_wf_delete [simp]: "jsmap_wf m \<Longrightarrow> jsmap_wf (AList.delete k m)"
  by (rule distinct_delete)

lemma map_of_update_eq: "map_of (AList.update k v m) = (map_of m)(k \<mapsto> v)"
  by (rule update_conv')

lemma map_of_delete_eq: "map_of (AList.delete k m) = (map_of m)(k := None)"
  by (rule delete_conv')

lemma set_alist_update_subset:
  "set (AList.update k v m) \<subseteq> insert (k, v) (set m)"
  by (induction m) auto

lemma keys_alist_update: "fst ` set (AList.update k v m) = insert k (fst ` set m)"
  by (induction m) auto

lemma alist_update_fresh:
  "k \<notin> fst ` set m \<Longrightarrow> AList.update k v m = m @ [(k, v)]"
  by (induction m) auto

lemma map_of_Some_in: "map_of m k = Some v \<Longrightarrow> (k, v) \<in> set m"
  by (rule map_of_SomeD)

text \<open>Counting the entries of a map that satisfy a predicate, under one update.\<close>

lemma length_filter_update_le:
  "length (filter P (AList.update k v m)) \<le> length (filter P m) + (if P (k, v) then 1 else 0)"
  by (induction m) auto

lemma length_filter_delete_le:
  "length (filter P (AList.delete k m)) \<le> length (filter P m)"
  by (induction m) (auto simp: AList.delete_eq)

subsection \<open>Lists\<close>

lemma find_Some_iff2: "find P xs = Some x \<Longrightarrow> x \<in> set xs \<and> P x"
  by (auto simp: find_Some_iff)

lemma list_all2_replicate_len: "length xs = n \<Longrightarrow> length (map f xs) = n"
  by simp

lemma take_min_length: "length (take n xs) \<le> n"
  by simp

lemma length_filter_split:
  "length (filter P xs) + length (filter (\<lambda>x. \<not> P x) xs) = length xs"
  by (rule sum_length_filter_compl)

lemma sum_list_filter_nat:
  "sum_list (map f (filter P xs)) \<le> (sum_list (map f xs) :: nat)"
  by (induction xs) auto

end
