(* ===== verification/Js_Text.thy ===== *)
theory Js_Text
  imports Prelude "HOL-Library.Char_ord"
begin

section \<open>Strings the way the source uses them\<close>

text \<open>
  The JavaScript string operations the modelled functions call: \<open>trim\<close>, \<open>split\<close> on one
  character, \<open>join\<close>, \<open>includes\<close>, \<open>indexOf\<close>, \<open>startsWith\<close>, \<open>slice\<close> and number
  formatting. A string is a list of 8-bit characters, so the model speaks of strings
  whose code units are below 256; \<open>\\s\<close> and \<open>trim\<close> then agree on the white space set
  below (tab, line feed, vertical tab, form feed, carriage return, space, no-break space).
\<close>

subsection \<open>Character classes\<close>

definition code :: "char \<Rightarrow> nat" where
  "code c = of_char c"

definition is_ws :: "char \<Rightarrow> bool" where
  "is_ws c = (code c \<in> {9, 10, 11, 12, 13, 32, 160})"

definition is_digit :: "char \<Rightarrow> bool" where
  "is_digit c = (48 \<le> code c \<and> code c \<le> 57)"

definition is_lower :: "char \<Rightarrow> bool" where
  "is_lower c = (97 \<le> code c \<and> code c \<le> 122)"

definition is_upper :: "char \<Rightarrow> bool" where
  "is_upper c = (65 \<le> code c \<and> code c \<le> 90)"

definition is_alpha :: "char \<Rightarrow> bool" where
  "is_alpha c = (is_lower c \<or> is_upper c)"

text \<open>The class \<open>\\w\<close>: letters, digits and the underscore.\<close>

definition is_word :: "char \<Rightarrow> bool" where
  "is_word c = (is_alpha c \<or> is_digit c \<or> c = CHR ''_'')"

definition lower_char :: "char \<Rightarrow> char" where
  "lower_char c = (if is_upper c then char_of (code c + 32) else c)"

definition lower :: "string \<Rightarrow> string" where
  "lower s = map lower_char s"

abbreviation newline :: char where
  "newline \<equiv> CHR 0x0A"

abbreviation carriage_return :: char where
  "carriage_return \<equiv> CHR 0x0D"

subsection \<open>Trimming and splitting\<close>

definition trim_start :: "string \<Rightarrow> string" where
  "trim_start s = dropWhile is_ws s"

definition trim :: "string \<Rightarrow> string" where
  "trim s = rev (dropWhile is_ws (rev (trim_start s)))"

fun split_on :: "char \<Rightarrow> string \<Rightarrow> string list" where
  "split_on c [] = [[]]"
| "split_on c (x # xs) =
     (if x = c then [] # split_on c xs
      else (case split_on c xs of [] \<Rightarrow> [[x]] | h # t \<Rightarrow> (x # h) # t))"

fun join :: "string \<Rightarrow> string list \<Rightarrow> string" where
  "join sep [] = []"
| "join sep [x] = x"
| "join sep (x # y # ys) = x @ sep @ join sep (y # ys)"

text \<open>\<open>s.indexOf(sub)\<close>, with None for the source's \<open>-1\<close>.\<close>

fun starts_with :: "string \<Rightarrow> string \<Rightarrow> bool" where
  "starts_with [] s = True"
| "starts_with (p # ps) [] = False"
| "starts_with (p # ps) (x # xs) = (p = x \<and> starts_with ps xs)"

fun index_of :: "string \<Rightarrow> string \<Rightarrow> nat option" where
  "index_of sub [] = (if sub = [] then Some 0 else None)"
| "index_of sub (x # xs) =
     (if starts_with sub (x # xs) then Some 0 else map_option Suc (index_of sub xs))"

definition has_text :: "string \<Rightarrow> string \<Rightarrow> bool" where
  "has_text sub s = (index_of sub s \<noteq> None)"

definition ends_with :: "string \<Rightarrow> string \<Rightarrow> bool" where
  "ends_with suf s = starts_with (rev suf) (rev s)"

subsection \<open>Numbers as text\<close>

fun show_nat :: "nat \<Rightarrow> string" where
  "show_nat n = (if n < 10 then [char_of (48 + n)]
                 else show_nat (n div 10) @ [char_of (48 + n mod 10)])"

declare show_nat.simps [simp del]

fun read_digits :: "nat \<Rightarrow> string \<Rightarrow> nat" where
  "read_digits acc [] = acc"
| "read_digits acc (c # cs) = read_digits (acc * 10 + (code c - 48)) cs"

text \<open>\<open>/^\\d+$/.test(s) ? Number(s) : null\<close>.\<close>

definition parse_decimal :: "string \<Rightarrow> nat option" where
  "parse_decimal s = (if s \<noteq> [] \<and> list_all is_digit s then Some (read_digits 0 s) else None)"

subsection \<open>Facts\<close>

lemma split_on_nonempty [simp]: "split_on c s \<noteq> []"
  by (cases s) (auto split: list.splits)

lemma join_split_on: "join [c] (split_on c s) = s"
proof (induction s)
  case Nil
  then show ?case by simp
next
  case (Cons x xs)
  obtain h t where ht: "split_on c xs = h # t"
    by (cases "split_on c xs") auto
  with Cons show ?case by (cases t) auto
qed

lemma split_on_parts: "p \<in> set (split_on c s) \<Longrightarrow> c \<notin> set p"
proof (induction s arbitrary: p)
  case Nil
  then show ?case by simp
next
  case (Cons x xs)
  then show ?case by (auto split: if_splits list.splits)
qed

lemma split_on_no_sep: "c \<notin> set s \<Longrightarrow> split_on c s = [s]"
  by (induction s) auto

lemma split_on_append:
  "c \<notin> set p \<Longrightarrow> split_on c (p @ c # s) = p # split_on c s"
  by (induction p) auto

lemma split_on_join:
  "ps \<noteq> [] \<Longrightarrow> \<forall>p \<in> set ps. c \<notin> set p \<Longrightarrow> split_on c (join [c] ps) = ps"
proof (induction "[c]" ps rule: join.induct)
  case (3 x y ys)
  then show ?case by (simp add: split_on_append)
qed (auto simp: split_on_no_sep)

lemma starts_with_iff: "starts_with p s \<longleftrightarrow> (\<exists>t. s = p @ t)"
  by (induction p s rule: starts_with.induct) auto

lemma starts_with_append [simp]: "starts_with p (p @ t)"
  by (auto simp: starts_with_iff)

lemma index_of_Some:
  "index_of sub s = Some i \<Longrightarrow> \<exists>t. drop i s = sub @ t"
  by (induction sub s arbitrary: i rule: index_of.induct)
     (auto simp: starts_with_iff split: if_splits)

lemma index_of_le: "index_of sub s = Some i \<Longrightarrow> i + length sub \<le> length s"
proof (induction sub s arbitrary: i rule: index_of.induct)
  case (2 sub x xs)
  then show ?case by (fastforce simp: starts_with_iff dest: arg_cong [where f = length] split: if_splits)
qed (auto split: if_splits)

lemma index_of_append: "\<exists>i. index_of sub (p @ sub @ t) = Some i"
proof (induction p)
  case Nil
  have "starts_with sub (sub @ t)" by simp
  then show ?case by (cases "sub @ t") auto
qed auto

lemma has_text_iff: "has_text sub s \<longleftrightarrow> (\<exists>p t. s = p @ sub @ t)"
proof
  assume "has_text sub s"
  then obtain i where "index_of sub s = Some i" by (auto simp: has_text_def)
  from index_of_Some [OF this] obtain t where "drop i s = sub @ t" ..
  then have "s = take i s @ sub @ t" by (metis append_take_drop_id)
  then show "\<exists>p t. s = p @ sub @ t" by blast
next
  assume "\<exists>p t. s = p @ sub @ t"
  then obtain p t where "s = p @ sub @ t" by blast
  with index_of_append [of sub p t] show "has_text sub s" by (auto simp: has_text_def)
qed

lemma trim_no_ws: "\<forall>c \<in> set s. \<not> is_ws c \<Longrightarrow> trim s = s"
proof -
  assume a: "\<forall>c \<in> set s. \<not> is_ws c"
  then have "dropWhile is_ws s = s" by (cases s) auto
  moreover from a have "dropWhile is_ws (rev s) = rev s" by (cases "rev s") (auto simp: dropWhile_eq_self_iff)
  ultimately show ?thesis by (simp add: trim_def trim_start_def)
qed

lemma code_char_of_digit: "n < 10 \<Longrightarrow> code (char_of (48 + n)) = 48 + (n::nat)"
  by (simp add: code_def)

lemma is_digit_char_of: "n < 10 \<Longrightarrow> is_digit (char_of (48 + (n::nat)))"
  using code_char_of_digit [of n] by (simp add: is_digit_def)

lemma read_digits_append:
  "read_digits acc (xs @ [c]) = read_digits acc xs * 10 + (code c - 48)"
  by (induction xs arbitrary: acc) auto

lemma show_nat_digits: "list_all is_digit (show_nat n) \<and> show_nat n \<noteq> []"
proof (induction n rule: show_nat.induct)
  case (1 n)
  then show ?case
    by (subst (1 2) show_nat.simps) (auto simp: is_digit_char_of)
qed

lemma read_show_nat: "read_digits 0 (show_nat n) = n"
proof (induction n rule: show_nat.induct)
  case (1 n)
  show ?case
  proof (cases "n < 10")
    case True
    then show ?thesis by (subst show_nat.simps) (simp add: code_char_of_digit)
  next
    case False
    with 1 have "read_digits 0 (show_nat (n div 10)) = n div 10" by simp
    moreover have "code (char_of (48 + n mod 10)) - 48 = n mod 10"
      using code_char_of_digit [of "n mod 10"] by simp
    ultimately show ?thesis
      using False by (subst show_nat.simps) (simp add: read_digits_append)
  qed
qed

lemma parse_show_nat [simp]: "parse_decimal (show_nat n) = Some n"
  using show_nat_digits [of n] by (simp add: parse_decimal_def read_show_nat)

lemma show_nat_inj: "show_nat m = show_nat n \<Longrightarrow> m = n"
  by (metis read_show_nat)

lemma show_nat_chars: "c \<in> set (show_nat n) \<Longrightarrow> is_digit c"
  using show_nat_digits [of n] by (simp add: list_all_iff)

end
