(* ===== verification/Regex.thy ===== *)
theory Regex
  imports Js_Text
begin

section \<open>Regular expressions\<close>

text \<open>
  The part of JavaScript's \<open>RegExp\<close> the modelled patterns use: character classes,
  sequences, alternatives, greedy repetition, the anchors \<open>^\<close> and \<open>$\<close> (without the
  \<open>m\<close> flag), \<open>\\b\<close>, both lookaheads and the \<open>i\<close> flag. A pattern is a value of \<open>rx\<close>,
  so a pattern of the source is translated literally and the definitions that test it
  compute. \<open>ends r s i\<close> lists the positions at which a match of \<open>r\<close> that starts at
  \<open>i\<close> may end, in the order a backtracking matcher tries them; \<open>rx_test\<close> is
  \<open>RegExp.prototype.test\<close>. \<open>rx_rel\<close> is the declarative reading (a relation between
  start and end positions, repetition as reflexive transitive closure), and
  \<open>ends_correct\<close> shows that the executable matcher computes exactly it.
\<close>

datatype rx =
    Empty
  | Cls "char \<Rightarrow> bool"
  | Seq rx rx
  | Alt rx rx
  | Star rx
  | Bol
  | Eol
  | WordB
  | Look rx
  | NLook rx

subsection \<open>The matcher\<close>

primrec star_iter :: "(nat \<Rightarrow> nat list) \<Rightarrow> nat \<Rightarrow> nat \<Rightarrow> nat list" where
  "star_iter f 0 i = [i]"
| "star_iter f (Suc n) i =
     concat (map (\<lambda>j. if i < j then star_iter f n j else []) (f i)) @ [i]"

definition word_at :: "string \<Rightarrow> nat \<Rightarrow> bool" where
  "word_at s i = (i < length s \<and> is_word (s ! i))"

definition boundary_at :: "string \<Rightarrow> nat \<Rightarrow> bool" where
  "boundary_at s i = ((0 < i \<and> word_at s (i - 1)) \<noteq> word_at s i)"

primrec ends :: "rx \<Rightarrow> string \<Rightarrow> nat \<Rightarrow> nat list" where
  "ends Empty s i = [i]"
| "ends (Cls p) s i = (if i < length s \<and> p (s ! i) then [Suc i] else [])"
| "ends (Seq a b) s i = concat (map (ends b s) (ends a s i))"
| "ends (Alt a b) s i = ends a s i @ ends b s i"
| "ends (Star a) s i = star_iter (ends a s) (Suc (length s - i)) i"
| "ends Bol s i = (if i = 0 then [i] else [])"
| "ends Eol s i = (if i = length s then [i] else [])"
| "ends WordB s i = (if boundary_at s i then [i] else [])"
| "ends (Look a) s i = (if ends a s i = [] then [] else [i])"
| "ends (NLook a) s i = (if ends a s i = [] then [i] else [])"

definition rx_test :: "rx \<Rightarrow> string \<Rightarrow> bool" where
  "rx_test r s = list_ex (\<lambda>i. ends r s i \<noteq> []) [0..<Suc (length s)]"

subsection \<open>Building patterns\<close>

fun lit :: "string \<Rightarrow> rx" where
  "lit [] = Empty"
| "lit (c # cs) = Seq (Cls (\<lambda>x. x = c)) (lit cs)"

fun seqs :: "rx list \<Rightarrow> rx" where
  "seqs [] = Empty"
| "seqs [r] = r"
| "seqs (r # rs) = Seq r (seqs rs)"

fun alts :: "rx list \<Rightarrow> rx" where
  "alts [] = Cls (\<lambda>_. False)"
| "alts [r] = r"
| "alts (r # rs) = Alt r (alts rs)"

definition words :: "string list \<Rightarrow> rx" where
  "words ws = alts (map lit ws)"

definition opt :: "rx \<Rightarrow> rx" where
  "opt r = Alt r Empty"

definition many1 :: "rx \<Rightarrow> rx" where
  "many1 r = Seq r (Star r)"

text \<open>\<open>{0,n}\<close>\<close>

primrec upto :: "nat \<Rightarrow> rx \<Rightarrow> rx" where
  "upto 0 r = Empty"
| "upto (Suc n) r = opt (Seq r (upto n r))"

definition ws_c :: rx where "ws_c = Cls is_ws"
definition non_ws_c :: rx where "non_ws_c = Cls (\<lambda>c. \<not> is_ws c)"
definition word_c :: rx where "word_c = Cls is_word"
definition alpha_c :: rx where "alpha_c = Cls is_alpha"
definition one_of :: "string \<Rightarrow> rx" where "one_of cs = Cls (\<lambda>c. c \<in> set cs)"
definition none_of :: "string \<Rightarrow> rx" where "none_of cs = Cls (\<lambda>c. c \<notin> set cs)"

definition upper_char :: "char \<Rightarrow> char" where
  "upper_char c = (if is_lower c then char_of (code c - 32) else c)"

text \<open>The \<open>i\<close> flag.\<close>

primrec ignore_case :: "rx \<Rightarrow> rx" where
  "ignore_case Empty = Empty"
| "ignore_case (Cls p) = Cls (\<lambda>c. p c \<or> p (lower_char c) \<or> p (upper_char c))"
| "ignore_case (Seq a b) = Seq (ignore_case a) (ignore_case b)"
| "ignore_case (Alt a b) = Alt (ignore_case a) (ignore_case b)"
| "ignore_case (Star a) = Star (ignore_case a)"
| "ignore_case Bol = Bol"
| "ignore_case Eol = Eol"
| "ignore_case WordB = WordB"
| "ignore_case (Look a) = Look (ignore_case a)"
| "ignore_case (NLook a) = NLook (ignore_case a)"

subsection \<open>The declarative reading\<close>

primrec rx_rel :: "rx \<Rightarrow> string \<Rightarrow> (nat \<times> nat) set" where
  "rx_rel Empty s = Id"
| "rx_rel (Cls p) s = {(i, j). i < length s \<and> p (s ! i) \<and> j = Suc i}"
| "rx_rel (Seq a b) s = rx_rel a s O rx_rel b s"
| "rx_rel (Alt a b) s = rx_rel a s \<union> rx_rel b s"
| "rx_rel (Star a) s = (rx_rel a s)\<^sup>*"
| "rx_rel Bol s = {(0, 0)}"
| "rx_rel Eol s = {(length s, length s)}"
| "rx_rel WordB s = {(i, j). boundary_at s i \<and> j = i}"
| "rx_rel (Look a) s = {(i, j). i \<in> Domain (rx_rel a s) \<and> j = i}"
| "rx_rel (NLook a) s = {(i, j). i \<notin> Domain (rx_rel a s) \<and> j = i}"

lemma rtrancl_first_move:
  "(i, j) \<in> R\<^sup>* \<Longrightarrow> i = j \<or> (\<exists>k. (i, k) \<in> R \<and> k \<noteq> i \<and> (k, j) \<in> R\<^sup>*)"
proof (induction rule: converse_rtrancl_induct)
  case base
  show ?case by simp
next
  case (step y z)
  then show ?case by (cases "z = y") auto
qed

lemma star_iter_correct:
  assumes step: "\<And>a b. b \<in> set (f a) \<Longrightarrow> a \<le> b \<and> (b = a \<or> b \<le> L)"
  shows "L - i < n \<Longrightarrow> set (star_iter f n i) = {j. (i, j) \<in> {(a, b). b \<in> set (f a)}\<^sup>*}"
proof (induction n arbitrary: i)
  case 0
  then show ?case by simp
next
  case (Suc n)
  let ?R = "{(a, b). b \<in> set (f a)}"
  have IH: "set (star_iter f n k) = {j. (k, j) \<in> ?R\<^sup>*}" if "k \<in> set (f i)" "i < k" for k
    using Suc.IH [of k] Suc.prems that step [of k i] by auto
  have "j \<in> set (star_iter f (Suc n) i) \<longleftrightarrow> (i, j) \<in> ?R\<^sup>*" for j
  proof
    assume "j \<in> set (star_iter f (Suc n) i)"
    then consider "j = i" | k where "k \<in> set (f i)" "i < k" "j \<in> set (star_iter f n k)"
      by (auto split: if_splits)
    then show "(i, j) \<in> ?R\<^sup>*"
    proof cases
      case 1
      then show ?thesis by simp
    next
      case 2
      with IH have "(k, j) \<in> ?R\<^sup>*" by blast
      with 2(1) show ?thesis by (simp add: converse_rtrancl_into_rtrancl)
    qed
  next
    assume "(i, j) \<in> ?R\<^sup>*"
    from rtrancl_first_move [OF this] consider "i = j"
      | k where "(i, k) \<in> ?R" "k \<noteq> i" "(k, j) \<in> ?R\<^sup>*" by blast
    then show "j \<in> set (star_iter f (Suc n) i)"
    proof cases
      case 1
      then show ?thesis by simp
    next
      case 2
      with step [of k i] have "k \<in> set (f i)" "i < k" by auto
      moreover from this IH 2(3) have "j \<in> set (star_iter f n k)" by blast
      ultimately show ?thesis by auto
    qed
  qed
  then show ?case by blast
qed

lemma ends_bounds: "j \<in> set (ends r s i) \<Longrightarrow> i \<le> j \<and> (j = i \<or> j \<le> length s)"
proof (induction r arbitrary: i j)
  case (Seq a b)
  then show ?case by fastforce
next
  case (Star a)
  have "j \<in> set (star_iter (ends a s) n i) \<Longrightarrow> i \<le> j \<and> (j = i \<or> j \<le> length s)" for n
  proof (induction n arbitrary: i)
    case (Suc n)
    then show ?case using Star.IH by (fastforce split: if_splits)
  qed auto
  from this [of "Suc (length s - i)"] Star.prems show ?case
    by (simp only: ends.simps)
qed (auto split: if_splits)

theorem ends_correct: "set (ends r s i) = {j. (i, j) \<in> rx_rel r s}"
proof (induction r arbitrary: i)
  case (Star a)
  have "{(x, y). y \<in> set (ends a s x)} = rx_rel a s"
    using Star.IH by auto
  with star_iter_correct [of "ends a s" "length s" i "Suc (length s - i)"] ends_bounds [of _ a s]
  show ?case by simp
next
  case (Look a)
  from Look.IH [of i] have "ends a s i = [] \<longleftrightarrow> (\<forall>j. (i, j) \<notin> rx_rel a s)"
    by (metis Collect_empty_eq set_empty)
  then show ?case by (auto simp: Domain_iff)
next
  case (NLook a)
  from NLook.IH [of i] have "ends a s i = [] \<longleftrightarrow> (\<forall>j. (i, j) \<notin> rx_rel a s)"
    by (metis Collect_empty_eq set_empty)
  then show ?case by (auto simp: Domain_iff)
qed auto

lemma ends_empty_iff: "ends r s i = [] \<longleftrightarrow> i \<notin> Domain (rx_rel r s)"
  using ends_correct [of r s i] by (auto simp: Domain_iff)

lemma rx_test_iff: "rx_test r s \<longleftrightarrow> (\<exists>i \<le> length s. \<exists>j. (i, j) \<in> rx_rel r s)"
  by (auto simp: rx_test_def list_ex_iff ends_empty_iff Domain_iff less_Suc_eq_le
      simp del: upt_Suc)

subsection \<open>Literals\<close>

lemma rx_rel_lit:
  "(i, j) \<in> rx_rel (lit w) s \<longleftrightarrow> j = i + length w \<and> (\<exists>t. drop i s = w @ t) \<and> (w = [] \<or> i \<le> length s)"
proof (induction w arbitrary: i j)
  case Nil
  then show ?case by auto
next
  case (Cons c cs)
  have "(\<exists>t. drop i s = c # cs @ t) \<longleftrightarrow> i < length s \<and> s ! i = c \<and> (\<exists>t. drop (Suc i) s = cs @ t)"
  proof (cases "i < length s")
    case True
    then show ?thesis by (auto simp: Cons_nth_drop_Suc [symmetric])
  qed auto
  with Cons show ?case by (auto simp: relcomp_unfold)
qed

lemma rx_test_lit: "rx_test (lit w) s \<longleftrightarrow> (\<exists>p t. s = p @ w @ t)"
proof
  assume "rx_test (lit w) s"
  then obtain i t where "i \<le> length s" "drop i s = w @ t"
    by (auto simp: rx_test_iff rx_rel_lit)
  then have "s = take i s @ w @ t" by (metis append_take_drop_id)
  then show "\<exists>p t. s = p @ w @ t" by blast
next
  assume "\<exists>p t. s = p @ w @ t"
  then obtain p t where "s = p @ w @ t" by blast
  then show "rx_test (lit w) s"
    by (auto simp: rx_test_iff rx_rel_lit intro!: exI [of _ "length p"])
qed

lemma rx_test_Alt: "rx_test (Alt a b) s \<longleftrightarrow> rx_test a s \<or> rx_test b s"
  by (auto simp: rx_test_iff)

subsection \<open>Introduction rules for pattern matches\<close>

lemma rel_SeqI: "(i, k) \<in> rx_rel a s \<Longrightarrow> (k, j) \<in> rx_rel b s \<Longrightarrow> (i, j) \<in> rx_rel (Seq a b) s"
  by auto

lemma rel_Star_refl: "(i, i) \<in> rx_rel (Star a) s"
  by simp

lemma rel_opt_refl: "(i, i) \<in> rx_rel (opt a) s"
  by (simp add: opt_def)

lemma rel_alts: "r \<in> set rs \<Longrightarrow> (i, j) \<in> rx_rel r s \<Longrightarrow> (i, j) \<in> rx_rel (alts rs) s"
  by (induction rs rule: alts.induct) auto

lemma rel_words: "w \<in> set ws \<Longrightarrow> (i, j) \<in> rx_rel (lit w) s \<Longrightarrow> (i, j) \<in> rx_rel (words ws) s"
  unfolding words_def by (rule rel_alts) auto

lemma rel_lit_at: "(length p, length p + length w) \<in> rx_rel (lit w) (p @ w @ t)"
  by (simp add: rx_rel_lit)

lemma rel_Star_run:
  "list_all q w \<Longrightarrow> (length p, length p + length w) \<in> rx_rel (Star (Cls q)) (p @ w @ t)"
proof (induction w arbitrary: p)
  case Nil
  then show ?case by simp
next
  case (Cons c cs)
  have tail: "(Suc (length p), Suc (length p + length cs)) \<in> rx_rel (Star (Cls q)) (p @ c # cs @ t)"
    using Cons.IH [of "p @ [c]"] Cons.prems by simp
  have "(length p, Suc (length p)) \<in> rx_rel (Cls q) (p @ c # cs @ t)"
    using Cons.prems by simp
  with tail show ?case
    by (simp only: rx_rel.simps append.simps list.size) (simp add: converse_rtrancl_into_rtrancl)
qed

lemma rel_upto_run:
  "list_all q w \<Longrightarrow> length w \<le> n \<Longrightarrow>
   (length p, length p + length w) \<in> rx_rel (upto n (Cls q)) (p @ w @ t)"
proof (induction n arbitrary: p w)
  case (Suc n)
  show ?case
  proof (cases w)
    case Nil
    then show ?thesis by (simp add: opt_def)
  next
    case (Cons c cs)
    have "(Suc (length p), Suc (length p + length cs)) \<in> rx_rel (upto n (Cls q)) (p @ c # cs @ t)"
      using Suc.IH [of cs "p @ [c]"] Suc.prems Cons by simp
    moreover have "(length p, Suc (length p)) \<in> rx_rel (Cls q) (p @ c # cs @ t)"
      using Suc.prems Cons by simp
    ultimately show ?thesis
      using Cons by (simp only: upto.simps opt_def rx_rel.simps append.simps list.size) auto
  qed
qed simp

lemma rel_many1I:
  "(i, j) \<in> rx_rel a s \<Longrightarrow> (j, k) \<in> rx_rel (Star a) s \<Longrightarrow> (i, k) \<in> rx_rel (many1 a) s"
  by (auto simp: many1_def)

lemma rel_many1_run:
  "list_all q w \<Longrightarrow> w \<noteq> [] \<Longrightarrow>
   (length p, length p + length w) \<in> rx_rel (many1 (Cls q)) (p @ w @ t)"
proof -
  assume a: "list_all q w" "w \<noteq> []"
  then obtain c cs where w: "w = c # cs" by (cases w) auto
  have "(Suc (length p), Suc (length p) + length cs) \<in> rx_rel (Star (Cls q)) (p @ w @ t)"
    using rel_Star_run [of q cs "p @ [c]" t] a w by simp
  moreover have "(length p, Suc (length p)) \<in> rx_rel (Cls q) (p @ w @ t)"
    using a w by simp
  ultimately show ?thesis
    unfolding many1_def w by (intro rel_SeqI) simp_all
qed

lemma rel_upto_elim:
  "(i, j) \<in> rx_rel (upto n (Cls q)) s \<Longrightarrow>
     i \<le> j \<and> j \<le> i + n \<and> (\<forall>k. i \<le> k \<and> k < j \<longrightarrow> k < length s \<and> q (s ! k))"
proof (induction n arbitrary: i)
  case (Suc n)
  show ?case
  proof (cases "i = j")
    case False
    with Suc.prems have h: "i < length s" "q (s ! i)" "(Suc i, j) \<in> rx_rel (upto n (Cls q)) s"
      by (auto simp: opt_def)
    have "k < length s \<and> q (s ! k)" if "i \<le> k" "k < j" for k
      using Suc.IH [OF h(3)] h(1,2) that by (cases "k = i") auto
    with Suc.IH [OF h(3)] show ?thesis by auto
  next
    case True
    then show ?thesis by (auto dest: le_less_trans)
  qed
qed auto

lemma rel_mono: "(i, j) \<in> rx_rel r s \<Longrightarrow> i \<le> j"
  using ends_correct [of r s i] ends_bounds [of j r s i] by blast

lemma boundary_after_word:
  assumes "v \<noteq> []" "is_word (last v)" "t = [] \<or> \<not> is_word (hd t)"
  shows "boundary_at (p @ v @ t) (length p + length v)"
proof -
  have "(p @ v @ t) ! (length p + (length v - 1)) = last v"
    using assms(1) by (simp only: nth_append_length_plus) (simp add: nth_append last_conv_nth)
  moreover have "length p + length v - 1 = length p + (length v - 1)"
    using assms(1) by (cases v) auto
  ultimately have "(p @ v @ t) ! (length p + length v - 1) = last v"
    by (simp only:)
  then have "word_at (p @ v @ t) (length p + length v - 1)"
    using assms(1,2) by (cases v) (auto simp: word_at_def)
  moreover have "\<not> word_at (p @ v @ t) (length p + length v)"
    using assms(3) by (cases t) (auto simp: word_at_def nth_append)
  ultimately show ?thesis
    using assms(1) by (simp add: boundary_at_def)
qed

end
