(* ===== verification/Command_Risk.thy ===== *)
theory Command_Risk
  imports Regex
begin

section \<open>Grading a command (shared/commandRisk.ts)\<close>

text \<open>
  The text rules that grade a command as ordinary, elevated or destructive. Every pattern
  of the source is an \<^typ>\<open>rx\<close> value, built by the same helpers (\<open>commandStart\<close>,
  \<open>atCommandStart\<close>, \<open>flagAnywhere\<close>) from the same pieces, and \<open>assessCommand\<close> runs the
  two tables in their order. The lemmas show how the grade and the reasons fit together,
  and that a listed verb at the start of a command is seen whatever text precedes it.
\<close>

datatype BroadcastRisk = Ordinary | Elevated | Destructive

datatype BroadcastConfirmation = NoConfirm | Confirm | TypeToConfirm string

text \<open>The order \<open>['ordinary', 'elevated', 'destructive']\<close> in which risks are compared.\<close>

fun risk_rank :: "BroadcastRisk \<Rightarrow> nat" where
  "risk_rank Ordinary = 0"
| "risk_rank Elevated = 1"
| "risk_rank Destructive = 2"

lemma risk_rank_inj: "risk_rank a = risk_rank b \<longleftrightarrow> a = b"
  by (cases a; cases b) auto

instantiation BroadcastRisk :: linorder
begin

definition less_eq_BroadcastRisk :: "BroadcastRisk \<Rightarrow> BroadcastRisk \<Rightarrow> bool" where
  "less_eq_BroadcastRisk a b = (risk_rank a \<le> risk_rank b)"

definition less_BroadcastRisk :: "BroadcastRisk \<Rightarrow> BroadcastRisk \<Rightarrow> bool" where
  "less_BroadcastRisk a b = (risk_rank a < risk_rank b)"

instance
  by standard (auto simp: less_eq_BroadcastRisk_def less_BroadcastRisk_def risk_rank_inj)

end

lemma risk_top [simp]: "r \<le> Destructive"
  by (cases r) (auto simp: less_eq_BroadcastRisk_def)

lemma risk_bot [simp]: "Ordinary \<le> r"
  by (cases r) (auto simp: less_eq_BroadcastRisk_def)

subsection \<open>The pieces of the patterns\<close>

abbreviation quote1 :: char where "quote1 \<equiv> CHR 0x27"
abbreviation quote2 :: char where "quote2 \<equiv> CHR 0x22"

definition SUDO_VALUE :: rx where
  "SUDO_VALUE = alts
     [seqs [lit [quote1], Star (none_of [quote1]), lit [quote1]],
      seqs [lit [quote2], Star (none_of [quote2]), lit [quote2]],
      many1 non_ws_c]"

definition SUDO_VALUE_SHORT :: string where
  "SUDO_VALUE_SHORT = ''aCcDghpRrtTUu''"

definition SUDO_VALUE_LONG :: "string list" where
  "SUDO_VALUE_LONG =
     [''auth-type'', ''chdir'', ''chroot'', ''close-from'', ''command-timeout'', ''group'',
      ''host'', ''login-class'', ''other-user'', ''prompt'', ''role'', ''type'', ''user'']"

definition SUDO_OPT :: rx where
  "SUDO_OPT = alts
     [seqs [Look (seqs [lit ''-'', Star alpha_c, one_of SUDO_VALUE_SHORT, ws_c]),
            lit ''-'', many1 non_ws_c, many1 ws_c, NLook (lit ''-''), SUDO_VALUE],
      seqs [Look (seqs [lit ''--'', words SUDO_VALUE_LONG, ws_c]),
            lit ''--'', many1 non_ws_c, many1 ws_c, NLook (lit ''-''), SUDO_VALUE],
      seqs [lit ''-'', many1 non_ws_c],
      seqs [many1 word_c, lit ''='', many1 non_ws_c]]"

definition SUDO :: rx where
  "SUDO = seqs [words [''sudo'', ''doas''], many1 ws_c, Star (Seq SUDO_OPT (many1 ws_c))]"

definition commandStart :: "rx \<Rightarrow> rx" where
  "commandStart rest = seqs
     [alts [Bol, one_of '';&|('', lit [newline]],
      Star ws_c,
      Star (seqs [many1 word_c, lit ''='', many1 non_ws_c, many1 ws_c]),
      opt SUDO,
      rest]"

definition atCommandStart :: "rx \<Rightarrow> rx" where
  "atCommandStart verbs = commandStart (Seq verbs WordB)"

definition flagAnywhere :: "rx \<Rightarrow> rx \<Rightarrow> rx" where
  "flagAnywhere verb flags = commandStart (seqs
     [verb, Star (Seq (many1 ws_c) (many1 (Cls (\<lambda>c. \<not> is_ws c \<and> c \<notin> set '';|&'')))),
      many1 ws_c, flags, WordB])"

text \<open>\<open>-[a-zA-Z]*R[a-zA-Z]*|--recursive\<close>\<close>

definition recursive_flag :: rx where
  "recursive_flag = alts
     [seqs [lit ''-'', Star alpha_c, lit ''R'', Star alpha_c], lit ''--recursive'']"

subsection \<open>The tables\<close>

definition DESTRUCTIVE :: "(rx \<times> string) list" where
  "DESTRUCTIVE =
   [(commandStart (seqs [lit ''rm'', many1 ws_c,
       many1 (Seq (alts [seqs [lit ''-'', Star alpha_c, one_of ''rf'', Star alpha_c],
                        lit ''--recursive'', lit ''--force'', lit ''--no-preserve-root''])
                 (many1 ws_c))]),
     ''deletes files recursively or forcibly''),
    (seqs [lit ''-exec'', many1 ws_c, opt SUDO, lit ''rm'', WordB],
     ''deletes files through find -exec''),
    (seqs [WordB, lit ''xargs'', many1 ws_c, Star (seqs [lit ''-'', many1 non_ws_c, many1 ws_c]),
           opt SUDO, lit ''rm'', WordB],
     ''deletes files through xargs''),
    (commandStart (seqs [lit ''find'', ws_c, Star (none_of '';|&''), ws_c, lit ''-delete'', WordB]),
     ''deletes every file find matches''),
    (atCommandStart (alts [Seq (lit ''mkfs'') (opt (Seq (lit ''.'') (many1 word_c))),
                           lit ''fdisk'', lit ''parted'', lit ''wipefs'']),
     ''writes to a partition table or filesystem''),
    (commandStart (seqs [lit ''dd'', ws_c, Star (none_of ''|;''), WordB, lit ''of='']),
     ''writes directly to a device or file with dd''),
    (atCommandStart (words [''shutdown'', ''poweroff'', ''halt'', ''reboot'']),
     ''stops or restarts the machine''),
    (commandStart (seqs [lit ''systemctl'', many1 ws_c,
                         words [''poweroff'', ''reboot'', ''halt'', ''kexec''], WordB]),
     ''stops or restarts the machine''),
    (atCommandStart (words [''userdel'', ''groupdel'']), ''removes an account''),
    (ignore_case (seqs [WordB, lit ''drop'', many1 ws_c, words [''database'', ''table''], WordB]),
     ''drops a database or table''),
    (atCommandStart (words [''truncate'', ''shred'']), ''destroys file contents''),
    (flagAnywhere (lit ''chown'') recursive_flag, ''changes ownership recursively''),
    (flagAnywhere (lit ''chmod'') recursive_flag, ''changes permissions recursively''),
    (commandStart (seqs [words [''kill'', ''killall'', ''pkill''], many1 ws_c,
       alts [lit ''-9'', lit ''-KILL'',
             seqs [lit ''-s'', Star ws_c, words [''9'', ''KILL'', ''SIGKILL'']]], WordB]),
     ''sends SIGKILL''),
    (commandStart (seqs [words [''iptables'', ''ip6tables'', ''nft'', ''ufw''], WordB,
       Star (none_of '';|''),
       alts [seqs [WordB, lit ''flush'', WordB], seqs [ws_c, lit ''-F'', WordB],
             seqs [WordB, lit ''reset'', WordB]]]),
     ''clears firewall rules''),
    (seqs [lit ''>'', Star ws_c, lit ''/dev/'', one_of ''sn'', one_of ''dv''],
     ''redirects output onto a block device''),
    (commandStart (seqs [lit ''systemctl'', many1 ws_c, words [''stop'', ''disable'', ''mask''], WordB]),
     ''stops or disables a service''),
    (commandStart (seqs [lit ''service'', many1 ws_c, many1 non_ws_c, many1 ws_c, lit ''stop'', WordB]),
     ''stops a service''),
    (commandStart (seqs [lit ''crontab'', many1 ws_c, lit ''-'', Star (Cls is_lower), lit ''r'',
                         Star (Cls is_lower), WordB]),
     ''removes the crontab''),
    (atCommandStart (words [''lvremove'', ''vgremove'', ''pvremove'']),
     ''removes a volume or volume group''),
    (commandStart (seqs [words [''zfs'', ''zpool''], many1 ws_c, lit ''destroy'', WordB]),
     ''destroys a dataset or pool''),
    (commandStart (seqs [words [''docker'', ''podman''], many1 ws_c,
       opt (Seq (words [''container'', ''image'', ''volume'', ''network'', ''system'', ''compose''])
                (many1 ws_c)),
       words [''rm'', ''rmi'', ''prune'', ''down''], WordB]),
     ''removes containers, images or volumes'')]"

definition SUDO_REASON :: string where
  "SUDO_REASON = ''runs as root''"

definition ELEVATED :: "(rx \<times> string) list" where
  "ELEVATED =
   [(atCommandStart (words [''sudo'', ''doas'']), SUDO_REASON),
    (commandStart (seqs [lit ''systemctl'', many1 ws_c, words [''restart'', ''reload''], WordB]),
     ''restarts a service''),
    (commandStart (seqs [lit ''service'', many1 ws_c, many1 non_ws_c, many1 ws_c,
                         words [''restart'', ''reload''], WordB]),
     ''restarts a service''),
    (commandStart (seqs [words [''apt'', ''apt-get'', ''yum'', ''dnf'', ''apk'', ''pacman''], many1 ws_c,
       words [''install'', ''remove'', ''purge'', ''autoremove'', ''upgrade'', ''dist-upgrade'',
              ''full-upgrade'', ''update''], WordB]),
     ''changes installed packages''),
    (commandStart (seqs [words [''docker'', ''podman''], many1 ws_c,
       opt (Seq (words [''container'', ''compose'']) (many1 ws_c)), words [''stop'', ''kill''], WordB]),
     ''stops containers''),
    (commandStart (seqs [words [''docker'', ''podman''], many1 ws_c,
       opt (Seq (lit ''compose'') (many1 ws_c)), lit ''build'', WordB]),
     ''runs a Dockerfile, which can execute anything its author wrote'')]"

subsection \<open>The assessment\<close>

record RiskAssessment =
  ra_risk :: BroadcastRisk
  ra_reasons :: "string list"

text \<open>One table: whether some pattern hit, and the reasons of the patterns that did.\<close>

fun scan_table :: "(rx \<times> string) list \<Rightarrow> string \<Rightarrow> BroadcastRisk \<Rightarrow> BroadcastRisk \<times> string list
    \<Rightarrow> BroadcastRisk \<times> string list" where
  "scan_table [] cmd lvl acc = acc"
| "scan_table ((r, why) # rest) cmd lvl (risk, reasons) =
     scan_table rest cmd lvl
       (if rx_test r cmd then (lvl, reasons @ [why]) else (risk, reasons))"

definition assessCommand :: "string \<Rightarrow> RiskAssessment" where
  "assessCommand cmd =
     (let (risk, reasons) = scan_table DESTRUCTIVE cmd Destructive (Ordinary, []);
          (risk, reasons) =
            (if risk \<noteq> Destructive then scan_table ELEVATED cmd Elevated (risk, reasons)
             else (risk, reasons))
      in \<lparr>ra_risk = risk, ra_reasons = reasons\<rparr>)"

subsection \<open>The tables and the grade\<close>

definition rule_hits :: "(rx \<times> string) list \<Rightarrow> string \<Rightarrow> string list" where
  "rule_hits tbl cmd = map snd (filter (\<lambda>(r, why). rx_test r cmd) tbl)"

lemma scan_table_eq:
  "scan_table tbl cmd lvl (risk, reasons) =
     (if rule_hits tbl cmd = [] then risk else lvl, reasons @ rule_hits tbl cmd)"
  by (induction tbl cmd lvl "(risk, reasons)" arbitrary: risk reasons rule: scan_table.induct)
     (auto simp: rule_hits_def)

lemma assessCommand_eq:
  "assessCommand cmd =
     (if rule_hits DESTRUCTIVE cmd \<noteq> []
      then \<lparr>ra_risk = Destructive, ra_reasons = rule_hits DESTRUCTIVE cmd\<rparr>
      else \<lparr>ra_risk = (if rule_hits ELEVATED cmd = [] then Ordinary else Elevated),
            ra_reasons = rule_hits ELEVATED cmd\<rparr>)"
  by (simp add: assessCommand_def scan_table_eq)

lemma rule_hits_nonempty:
  "(r, why) \<in> set tbl \<Longrightarrow> rx_test r cmd \<Longrightarrow> rule_hits tbl cmd \<noteq> []"
  by (force simp: rule_hits_def filter_empty_conv)

subsection \<open>Verbs at a command position\<close>

text \<open>A position where a command can start: the beginning, or after a separator.\<close>

definition command_position :: "string \<Rightarrow> bool" where
  "command_position p = (p = [] \<or> last p \<in> set ('';&|('' @ [newline]))"

lemma rel_command_position:
  "command_position p \<Longrightarrow>
     \<exists>i \<le> length p. (i, length p) \<in> rx_rel (alts [Bol, one_of '';&|('', lit [newline]]) (p @ t)"
proof (cases "p = []")
  case False
  assume a: "command_position p"
  from False have "length p - 1 < length (p @ t)" by (cases p) auto
  moreover have "(p @ t) ! (length p - 1) = last p"
    using False by (simp add: nth_append last_conv_nth)
  ultimately show ?thesis using a False
    by (intro exI [of _ "length p - 1"]) (auto simp: command_position_def one_of_def)
qed auto

lemma atCommandStart_hit:
  assumes "command_position p" "list_all is_ws w" "v \<in> set vs" "v \<noteq> []" "is_word (last v)"
    "t = [] \<or> \<not> is_word (hd t)"
  shows "rx_test (atCommandStart (words vs)) (p @ w @ v @ t)"
proof -
  let ?s = "p @ w @ v @ t"
  let ?a = "length p" and ?b = "length p + length w"
  obtain i where i: "i \<le> ?a" "(i, ?a) \<in> rx_rel (alts [Bol, one_of '';&|('', lit [newline]]) ?s"
    using rel_command_position [OF assms(1)] by blast
  have ws: "(?a, ?b) \<in> rx_rel (Star ws_c) ?s"
    using rel_Star_run [OF assms(2), of p "v @ t"] by (simp add: ws_c_def)
  have verb: "(?b, ?b + length v) \<in> rx_rel (words vs) ?s"
    using rel_words [OF assms(3)] rel_lit_at [of "p @ w" v t] by simp
  have bnd: "(?b + length v, ?b + length v) \<in> rx_rel WordB ?s"
    using boundary_after_word [OF assms(4,5,6), of "p @ w"] by simp
  have "(i, ?b + length v) \<in> rx_rel (atCommandStart (words vs)) ?s"
    unfolding atCommandStart_def commandStart_def seqs.simps
    by (rule rel_SeqI [OF i(2)], rule rel_SeqI [OF ws], rule rel_SeqI [OF rel_Star_refl],
        rule rel_SeqI [OF rel_opt_refl], rule rel_SeqI [OF verb bnd])
  moreover have "i \<le> length ?s" using i(1) by simp
  ultimately show ?thesis by (auto simp: rx_test_iff)
qed

text \<open>The verbs the destructive table lists by name alone.\<close>

definition verb_rows :: "(string list \<times> string) list" where
  "verb_rows =
     [([''shutdown'', ''poweroff'', ''halt'', ''reboot''], ''stops or restarts the machine''),
      ([''userdel'', ''groupdel''], ''removes an account''),
      ([''truncate'', ''shred''], ''destroys file contents''),
      ([''lvremove'', ''vgremove'', ''pvremove''], ''removes a volume or volume group'')]"

definition destructive_verbs :: "string list" where
  "destructive_verbs = concat (map fst verb_rows)"

lemma destructive_verbs_word: "v \<in> set destructive_verbs \<Longrightarrow> v \<noteq> [] \<and> is_word (last v)"
  by (auto simp: destructive_verbs_def verb_rows_def is_word_def is_alpha_def is_lower_def code_def)

lemma DESTRUCTIVE_rows:
  "(atCommandStart (words [''shutdown'', ''poweroff'', ''halt'', ''reboot'']),
    ''stops or restarts the machine'') \<in> set DESTRUCTIVE"
  "(atCommandStart (words [''userdel'', ''groupdel'']), ''removes an account'') \<in> set DESTRUCTIVE"
  "(atCommandStart (words [''truncate'', ''shred'']), ''destroys file contents'') \<in> set DESTRUCTIVE"
  "(atCommandStart (words [''lvremove'', ''vgremove'', ''pvremove'']),
    ''removes a volume or volume group'') \<in> set DESTRUCTIVE"
  unfolding DESTRUCTIVE_def by ((rule list.set_intros(1) | rule list.set_intros(2))+)

lemma verb_rows_listed:
  "r \<in> set verb_rows \<Longrightarrow> (atCommandStart (words (fst r)), snd r) \<in> set DESTRUCTIVE"
  by (simp only: verb_rows_def list.set insert_iff empty_iff simp_thms)
     (elim disjE; simp only: fst_conv snd_conv DESTRUCTIVE_rows)

lemma destructive_verbs_row:
  "v \<in> set destructive_verbs \<Longrightarrow>
     \<exists>vs why. v \<in> set vs \<and> (atCommandStart (words vs), why) \<in> set DESTRUCTIVE"
  unfolding destructive_verbs_def using verb_rows_listed by fastforce

lemma assess_listed_verb:
  assumes "command_position p" "list_all is_ws w" "v \<in> set destructive_verbs"
    "t = [] \<or> \<not> is_word (hd t)"
  shows "ra_risk (assessCommand (p @ w @ v @ t)) = Destructive"
proof -
  obtain vs why where row: "v \<in> set vs" "(atCommandStart (words vs), why) \<in> set DESTRUCTIVE"
    using destructive_verbs_row [OF assms(3)] by blast
  from atCommandStart_hit [OF assms(1,2) row(1)] destructive_verbs_word [OF assms(3)] assms(4)
  have "rx_test (atCommandStart (words vs)) (p @ w @ v @ t)" by blast
  with rule_hits_nonempty [OF row(2)] show ?thesis by (simp add: assessCommand_eq)
qed

lemma assess_escalation:
  assumes "command_position p" "list_all is_ws w" "v \<in> {''sudo'', ''doas''}"
    "t = [] \<or> \<not> is_word (hd t)"
  shows "ra_risk (assessCommand (p @ w @ v @ t)) \<noteq> Ordinary"
proof -
  have row: "(atCommandStart (words [''sudo'', ''doas'']), SUDO_REASON) \<in> set ELEVATED"
    by (simp add: ELEVATED_def)
  have v: "v \<noteq> [] \<and> is_word (last v)"
    using assms(3) by (auto simp: is_word_def is_alpha_def is_lower_def code_def)
  with atCommandStart_hit [OF assms(1,2), of v "[''sudo'', ''doas'']"] assms(3,4)
  have "rx_test (atCommandStart (words [''sudo'', ''doas''])) (p @ w @ v @ t)" by auto
  with rule_hits_nonempty [OF row] show ?thesis by (simp add: assessCommand_eq)
qed

subsection \<open>Properties\<close>

text \<open>
  A listed verb is seen wherever a command can start. Whatever text stands before it (a
  pipeline, a substitution, an earlier line), if that text ends at a command position then
  white space, one of the verbs the destructive table lists by name alone and a word
  boundary make the whole line destructive.\<close>

theorem listed_verb_is_destructive:
  assumes "command_position p" "list_all is_ws w" "v \<in> set destructive_verbs"
    "t = [] \<or> \<not> is_word (hd t)"
  shows "ra_risk (assessCommand (p @ w @ v @ t)) = Destructive"
  using assms by (rule assess_listed_verb)

theorem listed_verb_is_destructive_witness:
  "ra_risk (assessCommand (''uptime;'' @ '' '' @ ''reboot'' @ '' -f'')) = Destructive"
  by (rule listed_verb_is_destructive)
     (simp_all add: command_position_def is_ws_def code_def destructive_verbs_def verb_rows_def
        is_word_def is_alpha_def is_lower_def is_upper_def is_digit_def)

text \<open>
  The grade and its explanation agree. A command is ordinary exactly when no reason is
  given; it is destructive exactly when some destructive pattern matches, and then its
  reasons are those patterns' reasons in table order and no milder one; and a command that
  starts \<open>sudo\<close> or \<open>doas\<close> anywhere a command can start is never ordinary.\<close>

theorem grade_matches_reasons:
  "(ra_risk (assessCommand cmd) = Ordinary \<longleftrightarrow> ra_reasons (assessCommand cmd) = [])
   \<and> (ra_risk (assessCommand cmd) = Destructive \<longleftrightarrow> (\<exists>row \<in> set DESTRUCTIVE. rx_test (fst row) cmd))
   \<and> ra_reasons (assessCommand cmd) =
       rule_hits (if ra_risk (assessCommand cmd) = Destructive then DESTRUCTIVE else ELEVATED) cmd
   \<and> (command_position p \<and> cmd = p @ v @ '' '' @ t \<and> v \<in> {''sudo'', ''doas''}
        \<longrightarrow> ra_risk (assessCommand cmd) \<noteq> Ordinary)"
proof -
  have "rule_hits DESTRUCTIVE cmd \<noteq> [] \<longleftrightarrow> (\<exists>row \<in> set DESTRUCTIVE. rx_test (fst row) cmd)"
    by (force simp: rule_hits_def filter_empty_conv)
  moreover have "command_position p \<and> cmd = p @ v @ '' '' @ t \<and> v \<in> {''sudo'', ''doas''}
      \<longrightarrow> ra_risk (assessCommand cmd) \<noteq> Ordinary"
    using assess_escalation [of p "[]" v "'' '' @ t"]
    by (auto simp: is_word_def is_alpha_def is_lower_def is_upper_def is_digit_def code_def)
  ultimately show ?thesis by (auto simp: assessCommand_eq)
qed

theorem grade_matches_reasons_witness:
  "ra_risk (assessCommand (''ls |'' @ ''sudo'' @ '' '' @ ''id'')) \<noteq> Ordinary"
  using grade_matches_reasons [of "''ls |'' @ ''sudo'' @ '' '' @ ''id''" "''ls |''" "''sudo''" "''id''",
      THEN conjunct2, THEN conjunct2, THEN conjunct2]
  by (simp add: command_position_def)

end
