(* ===== verification/Policy_Core.thy ===== *)
theory Policy_Core
  imports Js_Text
begin

section \<open>Access groups and decisions (main/services/policyEngine.ts)\<close>

text \<open>
  What an agent may do: the value a group gives each capability, the restriction a target
  carries, the per-action evaluators that turn an allow into a question, and the session
  mode applied last. The permission values are ordered from deny to allow. The locale
  \<open>confirmed_action\<close> is the contract of an evaluator for a risky action; the tunnel,
  server, VPN and pipeline evaluators satisfy it.
\<close>

subsection \<open>Values\<close>

datatype PermissionValue = Allow | Ask | Deny

fun RANK :: "PermissionValue \<Rightarrow> nat" where
  "RANK Deny = 0"
| "RANK Ask = 1"
| "RANK Allow = 2"

lemma RANK_inj: "RANK a = RANK b \<longleftrightarrow> a = b"
  by (cases a; cases b) auto

instantiation PermissionValue :: linorder
begin

definition less_eq_PermissionValue :: "PermissionValue \<Rightarrow> PermissionValue \<Rightarrow> bool" where
  "less_eq_PermissionValue a b = (RANK a \<le> RANK b)"

definition less_PermissionValue :: "PermissionValue \<Rightarrow> PermissionValue \<Rightarrow> bool" where
  "less_PermissionValue a b = (RANK a < RANK b)"

instance
  by standard (auto simp: less_eq_PermissionValue_def less_PermissionValue_def RANK_inj)

end

lemma Deny_least [simp]: "Deny \<le> v" and Allow_greatest [simp]: "v \<le> Allow"
  by (cases v; simp add: less_eq_PermissionValue_def)+

lemma permission_le_simps [simp]:
  "v \<le> Deny \<longleftrightarrow> v = Deny" "Allow \<le> v \<longleftrightarrow> v = Allow" "Ask \<le> v \<longleftrightarrow> v \<noteq> Deny" "v \<le> Ask \<longleftrightarrow> v \<noteq> Allow"
  by (cases v; simp add: less_eq_PermissionValue_def)+

fun value_name :: "PermissionValue \<Rightarrow> string" where
  "value_name Allow = ''allow''"
| "value_name Ask = ''ask''"
| "value_name Deny = ''deny''"

datatype AiCapability =
    ViewServer | Terminal | ReadFiles | WriteFiles | SftpDownload | SftpUpload | SshTunnel
  | DatabaseAccess | Sudo | ServerMetrics | HostFacts | FirewallRules | SudoersRead
  | ManageServers | VpnControl | Containers | ContainerControl | FleetRead | BackupRead
  | CiRead | CiTrigger

fun capability_name :: "AiCapability \<Rightarrow> string" where
  "capability_name ViewServer = ''viewServer''"
| "capability_name Terminal = ''terminal''"
| "capability_name ReadFiles = ''readFiles''"
| "capability_name WriteFiles = ''writeFiles''"
| "capability_name SftpDownload = ''sftpDownload''"
| "capability_name SftpUpload = ''sftpUpload''"
| "capability_name SshTunnel = ''sshTunnel''"
| "capability_name DatabaseAccess = ''databaseAccess''"
| "capability_name Sudo = ''sudo''"
| "capability_name ServerMetrics = ''serverMetrics''"
| "capability_name HostFacts = ''hostFacts''"
| "capability_name FirewallRules = ''firewallRules''"
| "capability_name SudoersRead = ''sudoersRead''"
| "capability_name ManageServers = ''manageServers''"
| "capability_name VpnControl = ''vpnControl''"
| "capability_name Containers = ''containers''"
| "capability_name ContainerControl = ''containerControl''"
| "capability_name FleetRead = ''fleetRead''"
| "capability_name BackupRead = ''backupRead''"
| "capability_name CiRead = ''ciRead''"
| "capability_name CiTrigger = ''ciTrigger''"

datatype SessionMode = ReadOnly | AskFirst | Auto | Bypass | Custom

record FilePathRule =
  fr_id :: string
  fr_pattern :: string
  fr_read :: "PermissionValue option"
  fr_write :: "PermissionValue option"

text \<open>A stored group may lack a capability added since: the record is a partial map.\<close>

record AccessGroup =
  ag_id :: string
  ag_name :: string
  ag_builtIn :: bool
  ag_capabilities :: "AiCapability \<Rightarrow> PermissionValue option"
  ag_filePolicies :: "FilePathRule list"
  ag_confirmRisky :: "bool option"

datatype PolicyScope = ScopeWorkspace string | ScopeServer string

record PolicyAssignment =
  pa_id :: string
  pa_scope :: PolicyScope
  pa_groupId :: "string option"

record Decision =
  decision :: PermissionValue
  reason :: string
  outOfScope :: bool
  bypassed :: bool
  protectedTarget :: bool

abbreviation decide :: "PermissionValue \<Rightarrow> string \<Rightarrow> Decision" where
  "decide v why \<equiv> \<lparr>decision = v, reason = why, outOfScope = False, bypassed = False, protectedTarget = False\<rparr>"

definition confirmsRisky :: "AccessGroup \<Rightarrow> bool" where
  "confirmsRisky grp = (ag_confirmRisky grp \<noteq> Some False)"

subsection \<open>The restriction a target carries\<close>

datatype Restriction = NoRestriction | NoAiAccess | InGroup string

definition UNKNOWN_WORKSPACE :: string where
  "UNKNOWN_WORKSPACE = CHR 0x00 # ''unknown-workspace''"

definition truthy :: "string option \<Rightarrow> string option" where
  "truthy s = (case s of None \<Rightarrow> None | Some v \<Rightarrow> if v = [] then None else Some v)"

definition restriction_of :: "PolicyAssignment \<Rightarrow> Restriction" where
  "restriction_of a = (case truthy (pa_groupId a) of Some g \<Rightarrow> InGroup g | None \<Rightarrow> NoAiAccess)"

definition server_assignment :: "PolicyAssignment list \<Rightarrow> string \<Rightarrow> PolicyAssignment option" where
  "server_assignment assignments serverId = find (\<lambda>a. pa_scope a = ScopeServer serverId) assignments"

definition workspace_assignment :: "PolicyAssignment list \<Rightarrow> string \<Rightarrow> PolicyAssignment option" where
  "workspace_assignment assignments ws = find (\<lambda>a. pa_scope a = ScopeWorkspace ws) assignments"

definition resolveRestriction :: "PolicyAssignment list \<Rightarrow> string \<Rightarrow> string \<Rightarrow> string option \<Rightarrow> Restriction" where
  "resolveRestriction assignments serverId workspaceId formerWorkspaceId =
     (case server_assignment assignments serverId of
        Some own \<Rightarrow> restriction_of own
      | None \<Rightarrow>
          let now = workspace_assignment assignments workspaceId in
          if formerWorkspaceId = Some UNKNOWN_WORKSPACE then NoAiAccess
          else
            let before = Option.bind (truthy formerWorkspaceId) (workspace_assignment assignments);
                current = (case now of None \<Rightarrow> NoRestriction | Some n \<Rightarrow> restriction_of n)
            in (case before of
                  None \<Rightarrow> current
                | Some b \<Rightarrow>
                    (case now of
                       None \<Rightarrow> restriction_of b
                     | Some n \<Rightarrow> if pa_groupId b \<noteq> pa_groupId n then NoAiAccess else current)))"

definition resolveGroupId :: "PolicyAssignment list \<Rightarrow> string \<Rightarrow> string \<Rightarrow> string option" where
  "resolveGroupId assignments serverId workspaceId =
     (case server_assignment assignments serverId of
        Some a \<Rightarrow> pa_groupId a
      | None \<Rightarrow> Option.bind (workspace_assignment assignments workspaceId) pa_groupId)"

subsection \<open>One capability\<close>

definition evaluateCapability :: "AccessGroup option \<Rightarrow> AiCapability \<Rightarrow> Decision" where
  "evaluateCapability grp cap =
     (case grp of
        None \<Rightarrow> decide Deny ''No AI access is assigned to this server.''
      | Some g \<Rightarrow>
          let value = nullish (ag_capabilities g cap) Deny
          in decide value (ag_name g @ '': '' @ capability_name cap @ '' = '' @ value_name value))"

definition mostRestrictive :: "Decision \<Rightarrow> Decision \<Rightarrow> Decision" where
  "mostRestrictive a b = (if RANK (decision a) \<le> RANK (decision b) then a else b)"

subsection \<open>The evaluators of single actions\<close>

abbreviation no_workspace_access :: Decision where
  "no_workspace_access \<equiv> decide Deny ''No AI access is assigned to this workspace.''"

definition confirm_suffix :: "AccessGroup \<Rightarrow> string" where
  "confirm_suffix g = ''(Confirm risky actions is on for '' @ ag_name g @ '').''"

definition evaluateTunnelOpen :: "AccessGroup option \<Rightarrow> Decision" where
  "evaluateTunnelOpen grp =
     (case grp of None \<Rightarrow> no_workspace_access
      | Some g \<Rightarrow>
          let tunnel = evaluateCapability grp SshTunnel in
          if decision tunnel = Deny then decide Deny ''SSH tunnels are denied for this access group.''
          else if decision tunnel = Allow \<and> confirmsRisky g then
            decide Ask (''Opening a tunnel binds a port on your machine and requires approval '' @ confirm_suffix g)
          else tunnel)"

definition evaluateTunnelDefine :: "AccessGroup option \<Rightarrow> Decision" where
  "evaluateTunnelDefine grp =
     (case grp of None \<Rightarrow> no_workspace_access
      | Some g \<Rightarrow>
          let tunnel = evaluateCapability grp SshTunnel in
          if decision tunnel = Deny then decide Deny ''SSH tunnels are denied for this access group.''
          else if decision tunnel = Allow \<and> confirmsRisky g then
            decide Ask (''Defining or removing a tunnel requires approval '' @ confirm_suffix g)
          else tunnel)"

datatype ServerAct = ActChange | ActDelete

definition evaluateServerWrite :: "AccessGroup option \<Rightarrow> ServerAct \<Rightarrow> Decision" where
  "evaluateServerWrite grp act =
     (case grp of None \<Rightarrow> no_workspace_access
      | Some g \<Rightarrow>
          let manage = evaluateCapability grp ManageServers in
          if decision manage = Deny then decide Deny ''Managing servers is denied for this access group.''
          else if decision manage = Allow \<and> confirmsRisky g then
            decide Ask ((if act = ActDelete then ''Deleting'' else ''Changing'')
              @ '' a saved connection requires approval '' @ confirm_suffix g)
          else manage)"

datatype VpnKind = Wireguard | Openvpn | Frp | Tailscale | Ngrok

definition isVpnKindRefusedForAi :: "VpnKind \<Rightarrow> bool" where
  "isVpnKindRefusedForAi kind = (kind = Frp)"

datatype VpnAction = VpnStart | VpnStop

definition evaluateVpnControl :: "AccessGroup option \<Rightarrow> VpnAction \<Rightarrow> bool \<Rightarrow> Decision" where
  "evaluateVpnControl grp action hasLiveDependents =
     (case grp of None \<Rightarrow> no_workspace_access
      | Some g \<Rightarrow>
          let cap = evaluateCapability grp VpnControl in
          if decision cap = Deny then decide Deny ''VPN control is denied for this access group.''
          else if action = VpnStart then
            (if decision cap = Allow \<and> confirmsRisky g then
               decide Ask (''Starting a VPN changes where your traffic goes and requires approval '' @ confirm_suffix g)
             else cap)
          else if hasLiveDependents \<and> decision cap = Allow \<and> confirmsRisky g then
            decide Ask ''Stopping this VPN will close sessions that depend on it.''
          else cap)"

definition evaluateCiTrigger :: "AccessGroup option \<Rightarrow> Decision" where
  "evaluateCiTrigger grp =
     (case grp of None \<Rightarrow> no_workspace_access
      | Some g \<Rightarrow>
          let cap = evaluateCapability grp CiTrigger in
          if decision cap = Deny then decide Deny ''CI/CD control is denied for this access group.''
          else if decision cap = Allow \<and> confirmsRisky g then
            decide Ask (''Starting a build runs whatever that pipeline says, on infrastructure OpsMaxx cannot ''
              @ ''inspect and cannot stop once it has begun, so it requires approval '' @ confirm_suffix g)
          else cap)"

definition MUTATING_CAPABILITIES :: "AiCapability list" where
  "MUTATING_CAPABILITIES =
     [Terminal, Sudo, WriteFiles, SftpUpload, SshTunnel, ManageServers, VpnControl, ContainerControl,
      CiTrigger]"

definition evaluateAsEnforced :: "AccessGroup option \<Rightarrow> AiCapability \<Rightarrow> Decision" where
  "evaluateAsEnforced grp cap =
     (if grp = None then decide Deny ''No AI access is assigned to this server.''
      else case cap of
          CiTrigger \<Rightarrow> evaluateCiTrigger grp
        | SshTunnel \<Rightarrow> evaluateTunnelOpen grp
        | VpnControl \<Rightarrow> evaluateVpnControl grp VpnStart False
        | _ \<Rightarrow> evaluateCapability grp cap)"

subsection \<open>The session mode, applied last\<close>

definition applyEffectiveMode :: "Decision \<Rightarrow> SessionMode \<Rightarrow> bool \<Rightarrow> bool \<Rightarrow> Decision" where
  "applyEffectiveMode d mode protectedT mutating =
     (case mode of
        Bypass \<Rightarrow>
          if decision d = Allow then d
          else \<lparr>decision = Allow, reason = ''Bypass mode: '' @ reason d, outOfScope = False, bypassed = True,
                protectedTarget = False\<rparr>
      | ReadOnly \<Rightarrow>
          if mutating \<and> decision d \<noteq> Deny
          then decide Deny ''Read-only mode: this session can look but not change anything.''
          else d
      | AskFirst \<Rightarrow>
          if mutating \<and> decision d = Allow then
            (if protectedT then
               \<lparr>decision = Ask,
                reason = ''This target is Protected: every change is approved first here, whatever the profile.'',
                outOfScope = False, bypassed = False, protectedTarget = True\<rparr>
             else decide Ask ''Ask-first mode: every change is approved first.'')
          else d
      | _ \<Rightarrow> d)"

definition applyMode :: "Decision \<Rightarrow> SessionMode \<Rightarrow> bool \<Rightarrow> bool \<Rightarrow> Decision" where
  "applyMode d mode isProtected mutating =
     (if outOfScope d then d
      else
        let capped = (isProtected \<and> (mode = Auto \<or> mode = Custom \<or> mode = Bypass));
            out = applyEffectiveMode d (if capped then AskFirst else mode) capped mutating
        in if capped \<and> decision out = Ask \<and> \<not> protectedTarget out then out\<lparr>protectedTarget := True\<rparr>
           else out)"

subsection \<open>The contract of a risky action\<close>

text \<open>
  An evaluator of a risky action follows one capability: no group and a denied capability
  deny, and an allowed one becomes a question while the group confirms risky actions. The
  client's lemmas: it never gives more than the capability, and what the session mode can
  still make of it.
\<close>

definition capability_value :: "AccessGroup \<Rightarrow> AiCapability \<Rightarrow> PermissionValue" where
  "capability_value g cap = nullish (ag_capabilities g cap) Deny"

lemma decision_evaluateCapability:
  "decision (evaluateCapability grp cap) = (case grp of None \<Rightarrow> Deny | Some g \<Rightarrow> capability_value g cap)"
  by (simp add: evaluateCapability_def capability_value_def Let_def split: option.splits)

lemma flags_evaluateCapability [simp]:
  "\<not> outOfScope (evaluateCapability grp cap)" "\<not> bypassed (evaluateCapability grp cap)"
  "\<not> protectedTarget (evaluateCapability grp cap)"
  by (simp_all add: evaluateCapability_def Let_def split: option.splits)

lemma applyMode_mutating:
  "\<not> outOfScope d \<Longrightarrow>
   decision (applyMode d mode isProtected True) =
     (case mode of
        ReadOnly \<Rightarrow> Deny
      | AskFirst \<Rightarrow> min Ask (decision d)
      | Bypass \<Rightarrow> if isProtected then min Ask (decision d) else Allow
      | _ \<Rightarrow> if isProtected then min Ask (decision d) else decision d)"
  by (cases mode; cases "decision d")
     (auto simp: applyMode_def applyEffectiveMode_def Let_def min_def less_eq_PermissionValue_def)

lemma applyMode_reading:
  "\<not> outOfScope d \<Longrightarrow>
   decision (applyMode d mode isProtected False) =
     (if mode = Bypass \<and> \<not> isProtected then Allow else decision d)"
  by (cases mode) (auto simp: applyMode_def applyEffectiveMode_def Let_def)

locale confirmed_action =
  fixes eval :: "AccessGroup option \<Rightarrow> Decision"
    and cap :: AiCapability
  assumes no_group: "decision (eval None) = Deny"
    and by_capability: "decision (eval (Some g)) =
      (if capability_value g cap = Allow \<and> confirmsRisky g then Ask else capability_value g cap)"
    and plain: "\<not> outOfScope (eval grp)"
begin

lemma never_above: "decision (eval grp) \<le> decision (evaluateCapability grp cap)"
  by (cases grp) (auto simp: no_group by_capability decision_evaluateCapability)

lemma allow_iff:
  "decision (eval grp) = Allow \<longleftrightarrow> (\<exists>g. grp = Some g \<and> capability_value g cap = Allow \<and> \<not> confirmsRisky g)"
  by (cases grp) (auto simp: no_group by_capability)

lemma deny_iff:
  "decision (eval grp) = Deny \<longleftrightarrow> (\<forall>g. grp = Some g \<longrightarrow> capability_value g cap = Deny)"
  by (cases grp) (auto simp: no_group by_capability)

lemma unasked_iff:
  "decision (applyMode (eval grp) mode isProtected True) = Allow \<longleftrightarrow>
     \<not> isProtected \<and> (mode = Bypass \<or> mode \<in> {Auto, Custom} \<and> decision (eval grp) = Allow)"
  by (cases mode; cases "decision (eval grp)")
     (simp_all add: applyMode_mutating plain min_def less_eq_PermissionValue_def)

lemma verdicts:
  "(decision (applyMode (eval grp) mode isProtected True) = Allow \<longleftrightarrow>
      \<not> isProtected \<and> (mode = Bypass \<or> mode \<in> {Auto, Custom}
        \<and> (\<exists>g. grp = Some g \<and> ag_capabilities g cap = Some Allow \<and> ag_confirmRisky g = Some False)))
    \<and> (decision (eval grp) = Deny \<longleftrightarrow> (\<forall>g. grp = Some g \<longrightarrow> capability_value g cap = Deny))"
proof -
  have "capability_value g cap = Allow \<longleftrightarrow> ag_capabilities g cap = Some Allow" for g
    by (auto simp: capability_value_def nullish_eq_Some_iff)
  then show ?thesis
    by (simp add: unasked_iff allow_iff deny_iff confirmsRisky_def)
qed

end

lemmas evaluator_defs = evaluateTunnelOpen_def evaluateTunnelDefine_def evaluateServerWrite_def
  evaluateVpnControl_def evaluateCiTrigger_def decision_evaluateCapability Let_def

interpretation tunnel_open: confirmed_action evaluateTunnelOpen SshTunnel
  by unfold_locales (auto simp: evaluator_defs split: option.splits)

interpretation tunnel_define: confirmed_action evaluateTunnelDefine SshTunnel
  by unfold_locales (auto simp: evaluator_defs split: option.splits)

interpretation server_write: confirmed_action "\<lambda>grp. evaluateServerWrite grp act" ManageServers for act
  by unfold_locales (auto simp: evaluator_defs split: option.splits)

interpretation vpn_start: confirmed_action "\<lambda>grp. evaluateVpnControl grp VpnStart live" VpnControl for live
  by unfold_locales (auto simp: evaluator_defs split: option.splits)

interpretation ci_trigger: confirmed_action evaluateCiTrigger CiTrigger
  by unfold_locales (auto simp: evaluator_defs split: option.splits)

subsection \<open>Where a restriction comes from\<close>

lemma resolveRestriction_source:
  assumes "resolveRestriction assignments serverId ws former = InGroup g"
  shows "\<exists>a. restriction_of a = InGroup g \<and>
    (server_assignment assignments serverId = Some a \<or> workspace_assignment assignments ws = Some a
     \<or> (\<exists>f. truthy former = Some f \<and> workspace_assignment assignments f = Some a))"
proof (cases "server_assignment assignments serverId")
  case (Some own)
  with assms show ?thesis by (auto simp: resolveRestriction_def)
next
  case None
  show ?thesis
  proof (cases "workspace_assignment assignments ws")
    case (Some n)
    with None assms show ?thesis
      by (intro exI [of _ n]) (simp add: resolveRestriction_def Let_def split: if_splits option.splits)
  next
    case n: None
    with None assms obtain b where "Option.bind (truthy former) (workspace_assignment assignments) = Some b"
      "restriction_of b = InGroup g"
      by (simp add: resolveRestriction_def Let_def split: if_splits option.splits)
    then show ?thesis by (auto simp: bind_eq_Some_conv)
  qed
qed

lemma restriction_of_group: "restriction_of a = InGroup g \<Longrightarrow> pa_groupId a = Some g"
  by (simp add: restriction_of_def truthy_def split: option.splits if_splits)

lemma assignment_found:
  "server_assignment assignments i = Some a \<Longrightarrow> a \<in> set assignments \<and> pa_scope a = ScopeServer i"
  "workspace_assignment assignments i = Some a \<Longrightarrow> a \<in> set assignments \<and> pa_scope a = ScopeWorkspace i"
  unfolding server_assignment_def workspace_assignment_def by (drule find_Some_iff2, simp)+

subsection \<open>Properties\<close>

text \<open>C18:
  No session mode widens a decision except Bypass on an unprotected target: a changing
  action on a Protected target is never allowed unasked in any mode, Read-only denies every
  change, Ask-first never allows one unasked, what is out of scope stays exactly as decided
  in every mode, Bypass included, and in all other cases the outcome is at most what the
  policy decided.\<close>

theorem modes_never_widen:
  "(\<not> (mode = Bypass \<and> \<not> isProtected) \<longrightarrow> decision (applyMode d mode isProtected mutating) \<le> decision d)
   \<and> (outOfScope d \<longrightarrow> applyMode d mode isProtected mutating = d)
   \<and> (\<not> outOfScope d \<and> mutating \<and> (isProtected \<or> mode = ReadOnly \<or> mode = AskFirst)
        \<longrightarrow> decision (applyMode d mode isProtected mutating) \<noteq> Allow)
   \<and> (\<not> outOfScope d \<and> mutating \<and> mode = ReadOnly \<longrightarrow> decision (applyMode d mode isProtected mutating) = Deny)"
proof (cases "outOfScope d")
  case False
  then show ?thesis
    by (cases mutating; cases mode; cases "decision d")
       (simp_all add: applyMode_mutating applyMode_reading min_def less_eq_PermissionValue_def)
qed (simp add: applyMode_def)

theorem modes_never_widen_witness:
  "decision (applyMode (decide Allow ''terminal'') Bypass True True) \<noteq> Allow"
  using modes_never_widen [of Bypass True "decide Allow ''terminal''" True] by simp

text \<open>C19:
  A risky action runs unasked only by explicit choice: opening or defining a tunnel,
  changing or deleting a saved connection, starting a VPN and triggering a pipeline are
  allowed without a question only on an unprotected target, and then only in Bypass or when
  the profile is Auto or Custom, the group allows the capability and its confirmation of
  risky actions has been switched off.\<close>

theorem risky_actions_ask:
  assumes "(eval, cap) \<in> {(evaluateTunnelOpen, SshTunnel), (evaluateTunnelDefine, SshTunnel),
      (\<lambda>grp. evaluateServerWrite grp act, ManageServers), (\<lambda>grp. evaluateVpnControl grp VpnStart live, VpnControl),
      (evaluateCiTrigger, CiTrigger)}"
  shows "(decision (applyMode (eval grp) mode isProtected True) = Allow \<longleftrightarrow>
      \<not> isProtected \<and> (mode = Bypass \<or> mode \<in> {Auto, Custom}
        \<and> (\<exists>g. grp = Some g \<and> ag_capabilities g cap = Some Allow \<and> ag_confirmRisky g = Some False)))
    \<and> (decision (eval grp) = Deny \<longleftrightarrow> (\<forall>g. grp = Some g \<longrightarrow> capability_value g cap = Deny))"
proof -
  from assms consider
      "eval = evaluateTunnelOpen" "cap = SshTunnel"
    | "eval = evaluateTunnelDefine" "cap = SshTunnel"
    | "eval = (\<lambda>grp. evaluateServerWrite grp act)" "cap = ManageServers"
    | "eval = (\<lambda>grp. evaluateVpnControl grp VpnStart live)" "cap = VpnControl"
    | "eval = evaluateCiTrigger" "cap = CiTrigger" by blast
  then show ?thesis
  proof cases
    case 1
    show ?thesis unfolding 1 by (rule tunnel_open.verdicts)
  next
    case 2
    show ?thesis unfolding 2 by (rule tunnel_define.verdicts)
  next
    case 3
    show ?thesis unfolding 3 by (rule server_write.verdicts)
  next
    case 4
    show ?thesis unfolding 4 by (rule vpn_start.verdicts)
  next
    case 5
    show ?thesis unfolding 5 by (rule ci_trigger.verdicts)
  qed
qed

theorem risky_actions_ask_witness:
  "decision (applyMode (evaluateCiTrigger None) Auto False True) \<noteq> Allow"
  using risky_actions_ask [of evaluateCiTrigger CiTrigger ActChange False None Auto False] by simp

text \<open>
  A move between workspaces never unlocks a server. Its own assignment always wins; while
  it is not known where it came from there is no access; when the workspace it left and the
  one it is in name different groups there is no access; a restriction of the workspace it
  left survives when the new one has none; and a group is only ever the one a matching
  assignment names.\<close>

theorem moved_server_stays_restricted:
  "(\<forall>own. server_assignment assignments serverId = Some own \<longrightarrow>
      resolveRestriction assignments serverId ws former = restriction_of own)
   \<and> (server_assignment assignments serverId = None \<longrightarrow>
      resolveRestriction assignments serverId ws (Some UNKNOWN_WORKSPACE) = NoAiAccess)
   \<and> (server_assignment assignments serverId = None \<and> former = Some f \<and> f \<noteq> []
        \<and> workspace_assignment assignments f = Some b \<longrightarrow>
      resolveRestriction assignments serverId ws former \<in> {restriction_of b, NoAiAccess})
   \<and> (resolveRestriction assignments serverId ws former = InGroup g \<longrightarrow>
      (\<exists>a \<in> set assignments. pa_groupId a = Some g \<and>
         (pa_scope a = ScopeServer serverId \<or> pa_scope a = ScopeWorkspace ws
          \<or> (\<exists>f. former = Some f \<and> pa_scope a = ScopeWorkspace f))))"
proof -
  have same: "pa_groupId a = pa_groupId b \<Longrightarrow> restriction_of a = restriction_of b" for a b
    by (simp add: restriction_of_def)
  have "\<exists>a \<in> set assignments. pa_groupId a = Some g \<and>
         (pa_scope a = ScopeServer serverId \<or> pa_scope a = ScopeWorkspace ws
          \<or> (\<exists>f. former = Some f \<and> pa_scope a = ScopeWorkspace f))"
    if r: "resolveRestriction assignments serverId ws former = InGroup g"
  proof -
    from resolveRestriction_source [OF r] obtain a where a: "restriction_of a = InGroup g"
      "server_assignment assignments serverId = Some a \<or> workspace_assignment assignments ws = Some a
       \<or> (\<exists>f. truthy former = Some f \<and> workspace_assignment assignments f = Some a)" by blast
    moreover have "truthy former = Some f \<Longrightarrow> former = Some f" for f
      by (simp add: truthy_def split: option.splits if_splits)
    ultimately show ?thesis
      using restriction_of_group [OF a(1)] assignment_found by blast
  qed
  moreover have "resolveRestriction assignments serverId ws former \<in> {restriction_of b, NoAiAccess}"
    if "server_assignment assignments serverId = None" "former = Some f" "f \<noteq> []"
      "workspace_assignment assignments f = Some b"
  proof (cases "workspace_assignment assignments ws")
    case (Some n)
    with that same [of b n] show ?thesis by (simp add: resolveRestriction_def Let_def truthy_def)
  qed (use that in \<open>simp add: resolveRestriction_def Let_def truthy_def\<close>)
  moreover have "\<forall>own. server_assignment assignments serverId = Some own \<longrightarrow>
      resolveRestriction assignments serverId ws former = restriction_of own"
    by (simp add: resolveRestriction_def)
  moreover have "server_assignment assignments serverId = None \<longrightarrow>
      resolveRestriction assignments serverId ws (Some UNKNOWN_WORKSPACE) = NoAiAccess"
    by (simp add: resolveRestriction_def Let_def)
  ultimately show ?thesis by blast
qed

theorem moved_server_stays_restricted_witness:
  "resolveRestriction [\<lparr>pa_id = ''a'', pa_scope = ScopeWorkspace ''old'', pa_groupId = None\<rparr>] ''h'' ''new'' (Some ''old'')
     = NoAiAccess"
  using moved_server_stays_restricted
    [of "[\<lparr>pa_id = ''a'', pa_scope = ScopeWorkspace ''old'', pa_groupId = None\<rparr>]" "''h''" "''new''" "Some ''old''" "''old''"
      "\<lparr>pa_id = ''a'', pa_scope = ScopeWorkspace ''old'', pa_groupId = None\<rparr>"]
  by (simp add: server_assignment_def workspace_assignment_def restriction_of_def truthy_def)

end
