(* ===== verification/Policy_Path.thy ===== *)
theory Policy_Path
  imports Policy_Core Regex
begin

section \<open>Path rules (main/services/policyEngine.ts)\<close>

text \<open>
  How a rule's pattern becomes a regular expression and which rule decides a path. The
  source rewrites the pattern text in five steps and hands the result to \<open>RegExp\<close>;
  \<open>glob_toks\<close> reads the pattern into the pieces those steps leave, and \<open>tok_rx\<close> is what
  each piece is once parsed. The last step replaces every question mark, including the two
  that the step before it wrote for \<open>**/\<close>, and the model keeps that. Patterns are taken to
  hold no NUL character, which the source uses as a marker.
\<close>

subsection \<open>Paths\<close>

definition drive_letter :: "string \<Rightarrow> bool" where
  "drive_letter t = (case t of c # d # e # _ \<Rightarrow> is_alpha c \<and> d = CHR '':'' \<and> e \<in> {CHR 0x5C, CHR ''/''} | _ \<Rightarrow> False)"

definition unc_path :: "string \<Rightarrow> bool" where
  "unc_path t = (case t of c # d # e # _ \<Rightarrow>
      c \<in> {CHR 0x5C, CHR ''/''} \<and> d \<in> {CHR 0x5C, CHR ''/''} \<and> e \<notin> {CHR 0x5C, CHR ''/''} | _ \<Rightarrow> False)"

definition isAbsolute :: "string \<Rightarrow> bool" where
  "isAbsolute t = (starts_with ''/'' t \<or> drive_letter t \<or> unc_path t)"

definition isWindowsPath :: "string \<Rightarrow> bool" where
  "isWindowsPath t = (drive_letter t \<or> (unc_path t \<and> CHR 0x5C \<in> set t))"

definition toMatchPath :: "string \<Rightarrow> string" where
  "toMatchPath t = map (\<lambda>c. if c = CHR 0x5C then CHR ''/'' else c) t"

subsection \<open>Patterns\<close>

datatype gtok = GLit char | GAny | GStar | GStar2 | GStar2Slash

fun glob_toks :: "string \<Rightarrow> gtok list" where
  "glob_toks [] = []"
| "glob_toks (c # cs) =
     (if c = CHR ''*'' then
        (case cs of
           d # ds \<Rightarrow>
             if d = CHR ''*'' then
               (case ds of
                  e # es \<Rightarrow> if e = CHR ''/'' then GStar2Slash # glob_toks es else GStar2 # glob_toks (e # es)
                | [] \<Rightarrow> [GStar2])
             else GStar # glob_toks (d # ds)
         | [] \<Rightarrow> [GStar])
      else if c = CHR ''?'' then GAny # glob_toks cs
      else GLit c # glob_toks cs)"

text \<open>The class \<open>.\<close>, which leaves out the line terminators.\<close>

definition dot_c :: rx where
  "dot_c = Cls (\<lambda>c. c \<noteq> newline \<and> c \<noteq> carriage_return)"

fun tok_rx :: "gtok \<Rightarrow> rx" where
  "tok_rx (GLit c) = lit [c]"
| "tok_rx GAny = none_of ''/''"
| "tok_rx GStar = Star (none_of ''/'')"
| "tok_rx GStar2 = Star dot_c"
| "tok_rx GStar2Slash =
     seqs [seqs [none_of ''/'', lit '':'', Star dot_c, lit ''/''], none_of ''/'']"

definition globToRegExp :: "string \<Rightarrow> bool \<Rightarrow> rx" where
  "globToRegExp glob insensitive =
     (let r = seqs (Bol # map tok_rx (glob_toks glob) @ [Eol])
      in if insensitive then ignore_case r else r)"

subsection \<open>Which rule decides\<close>

datatype FileMode = ModeRead | ModeWrite

fun rule_value :: "FileMode \<Rightarrow> FilePathRule \<Rightarrow> PermissionValue option" where
  "rule_value ModeRead r = fr_read r"
| "rule_value ModeWrite r = fr_write r"

fun mode_name :: "FileMode \<Rightarrow> string" where
  "mode_name ModeRead = ''read''"
| "mode_name ModeWrite = ''write''"

definition rule_matches :: "string \<Rightarrow> FilePathRule \<Rightarrow> bool" where
  "rule_matches path r =
     rx_test (globToRegExp (toMatchPath (fr_pattern r)) (isWindowsPath (fr_pattern r) \<or> isWindowsPath path))
       (toMatchPath path)"

definition deciding_rules :: "AccessGroup \<Rightarrow> string \<Rightarrow> FileMode \<Rightarrow> FilePathRule list" where
  "deciding_rules g path mode =
     filter (\<lambda>r. rule_value mode r \<noteq> None) (filter (rule_matches path) (ag_filePolicies g))"

definition file_capability :: "FileMode \<Rightarrow> AiCapability" where
  "file_capability mode = (if mode = ModeRead then ReadFiles else WriteFiles)"

definition evaluateFilePath :: "AccessGroup option \<Rightarrow> string \<Rightarrow> FileMode \<Rightarrow> Decision" where
  \<open>evaluateFilePath grp path mode =
     (case grp of
        None \<Rightarrow> decide Deny ''No AI access is assigned to this server.''
      | Some g \<Rightarrow>
          let blanket = evaluateCapability grp (file_capability mode);
              matches = sort_key (\<lambda>r. - int (length (fr_pattern r))) (deciding_rules g path mode)
          in (case matches of
                best # _ \<Rightarrow>
                  let value = nullish (rule_value mode best) Deny
                  in decide value (''Path rule "'' @ fr_pattern best @ ''" ('' @ mode_name mode @ '') = '' @ value_name value)
              | [] \<Rightarrow>
                  if decision blanket = Deny then
                    decide Deny ((if mode = ModeRead then ''Reading'' else ''Writing'')
                      @ '' files is denied for this access group.'')
                  else blanket))\<close>

subsection \<open>What a pattern matches\<close>

fun nonslash :: "char \<Rightarrow> bool" where
  "nonslash c = (c \<noteq> CHR ''/'')"

fun one_line :: "char \<Rightarrow> bool" where
  "one_line c = (c \<noteq> newline \<and> c \<noteq> carriage_return)"

text \<open>
  The documented meaning: a star stays within one segment, a double star crosses
  segments, a question mark is one character of a segment.
\<close>

inductive gmatch :: "gtok list \<Rightarrow> string \<Rightarrow> bool" where
  gm_nil: "gmatch [] []"
| gm_lit: "gmatch ts s \<Longrightarrow> gmatch (GLit c # ts) (c # s)"
| gm_any: "gmatch ts s \<Longrightarrow> nonslash c \<Longrightarrow> gmatch (GAny # ts) (c # s)"
| gm_star: "gmatch ts s \<Longrightarrow> list_all nonslash w \<Longrightarrow> gmatch (GStar # ts) (w @ s)"
| gm_star2: "gmatch ts s \<Longrightarrow> list_all one_line w \<Longrightarrow> gmatch (GStar2 # ts) (w @ s)"

inductive_cases gmatch_LitE: "gmatch (GLit c # ts) s"
inductive_cases gmatch_AnyE: "gmatch (GAny # ts) s"
inductive_cases gmatch_StarE: "gmatch (GStar # ts) s"
inductive_cases gmatch_Star2E: "gmatch (GStar2 # ts) s"
inductive_simps gmatch_Nil [simp]: "gmatch [] s"

lemma rel_Star_Cls:
  "(i, j) \<in> rx_rel (Star (Cls q)) s \<Longrightarrow>
   i \<le> length s \<Longrightarrow> i \<le> j \<and> j \<le> length s \<and> list_all q (drop i (take j s))"
proof -
  assume st: "(i, j) \<in> rx_rel (Star (Cls q)) s" and i: "i \<le> length s"
  have "(i, j) \<in> (rx_rel (Cls q) s)\<^sup>* \<Longrightarrow> i \<le> length s \<Longrightarrow>
      i \<le> j \<and> j \<le> length s \<and> list_all q (drop i (take j s))"
  proof (induction rule: rtrancl_induct)
    case (step y z)
    then have z: "z = Suc y" "y < length s" "q (s ! y)" by auto
    with step have ih: "i \<le> y" "list_all q (drop i (take y s))" by auto
    have "drop i (take z s) = drop i (take y s) @ [s ! y]"
      using z ih(1) by (simp add: take_Suc_conv_app_nth)
    with z ih show ?case by simp
  qed simp
  with st i show ?thesis by simp
qed

lemma seqs_snoc [simp]: "seqs (r # rs @ [e]) = Seq r (seqs (rs @ [e]))"
  by (cases rs) auto

lemma drop_run:
  "i \<le> j \<Longrightarrow> j \<le> length s \<Longrightarrow> drop i s = drop i (take j s) @ drop j s"
  by (metis append_take_drop_id drop_append drop_take length_take min.absorb2 diff_is_0_eq drop0)

lemma rel_run_from:
  "list_all q w \<Longrightarrow> drop i s = w @ t \<Longrightarrow> i \<le> length s \<Longrightarrow>
   (i, i + length w) \<in> rx_rel (Star (Cls q)) s \<and> drop (i + length w) s = t"
proof -
  assume a: "list_all q w" "drop i s = w @ t" "i \<le> length s"
  then have s: "s = take i s @ w @ t" by (metis append_take_drop_id)
  have "length (take i s) = i" using a(3) by simp
  with rel_Star_run [OF a(1), of "take i s" t] s have "(i, i + length w) \<in> rx_rel (Star (Cls q)) s" by simp
  moreover have "drop (i + length w) s = t"
    using a(2) by (metis append_eq_conv_conj drop_drop add.commute)
  ultimately show ?thesis by blast
qed

lemma tok_star:
  assumes "\<And>j. i \<le> j \<Longrightarrow> j \<le> length s \<Longrightarrow> (j, length s) \<in> R \<longleftrightarrow> gmatch ts (drop j s)" "i \<le> length s"
  shows "(\<exists>j. (i, j) \<in> rx_rel (Star (Cls q)) s \<and> (j, length s) \<in> R)
    \<longleftrightarrow> (\<exists>w t. drop i s = w @ t \<and> list_all q w \<and> gmatch ts t)"
proof
  assume "\<exists>j. (i, j) \<in> rx_rel (Star (Cls q)) s \<and> (j, length s) \<in> R"
  then obtain j where j: "(i, j) \<in> rx_rel (Star (Cls q)) s" "(j, length s) \<in> R" by blast
  from rel_Star_Cls [OF j(1) assms(2)] have b: "i \<le> j" "j \<le> length s" "list_all q (drop i (take j s))" by auto
  with assms(1) [OF b(1,2)] j(2) drop_run [OF b(1,2)]
  show "\<exists>w t. drop i s = w @ t \<and> list_all q w \<and> gmatch ts t" by blast
next
  assume "\<exists>w t. drop i s = w @ t \<and> list_all q w \<and> gmatch ts t"
  then obtain w t where w: "drop i s = w @ t" "list_all q w" "gmatch ts t" by blast
  from rel_run_from [OF w(2,1) assms(2)] have r: "(i, i + length w) \<in> rx_rel (Star (Cls q)) s"
    "drop (i + length w) s = t" by auto
  have "i + length w \<le> length s"
    using arg_cong [OF w(1), of length] assms(2) by simp
  with assms(1) [of "i + length w"] r w(3) show "\<exists>j. (i, j) \<in> rx_rel (Star (Cls q)) s \<and> (j, length s) \<in> R"
    by auto
qed

lemma drop_Cons: "i < length s \<Longrightarrow> drop i s = s ! i # drop (Suc i) s"
  by (rule Cons_nth_drop_Suc [symmetric])

lemma tok_rel:
  "GStar2Slash \<notin> set ts \<Longrightarrow> i \<le> length s \<Longrightarrow>
   (i, length s) \<in> rx_rel (seqs (map tok_rx ts @ [Eol])) s \<longleftrightarrow> gmatch ts (drop i s)"
proof (induction ts arbitrary: i)
  case Nil
  then show ?case by auto
next
  case (Cons t ts)
  have IH: "(j, length s) \<in> rx_rel (seqs (map tok_rx ts @ [Eol])) s \<longleftrightarrow> gmatch ts (drop j s)"
    if "j \<le> length s" for j
    using Cons that by simp
  have step: "(i, length s) \<in> rx_rel (seqs (map tok_rx (t # ts) @ [Eol])) s \<longleftrightarrow>
      (\<exists>j. (i, j) \<in> rx_rel (tok_rx t) s \<and> (j, length s) \<in> rx_rel (seqs (map tok_rx ts @ [Eol])) s)"
    by auto
  show ?case
  proof (cases t)
    case (GLit c)
    then show ?thesis
      unfolding step using IH [of "Suc i"] Cons.prems(2)
      by (cases "i < length s") (auto simp: drop_Cons intro: gmatch.intros elim: gmatch_LitE)
  next
    case GAny
    then show ?thesis
      unfolding step using IH [of "Suc i"] Cons.prems(2)
      by (cases "i < length s") (auto simp: drop_Cons none_of_def intro: gmatch.intros elim: gmatch_AnyE)
  next
    case GStar
    have "gmatch (GStar # ts) u \<longleftrightarrow> (\<exists>w t. u = w @ t \<and> list_all nonslash w \<and> gmatch ts t)" for u
      by (rule iffI, erule gmatch_StarE, blast) (auto intro: gm_star)
    moreover have "nonslash = (\<lambda>c. c \<notin> set ''/'')" by (rule ext) simp
    ultimately show ?thesis
      unfolding step unfolding GStar using tok_star [OF IH Cons.prems(2), of nonslash] by (simp add: none_of_def)
  next
    case GStar2
    have "gmatch (GStar2 # ts) u \<longleftrightarrow> (\<exists>w t. u = w @ t \<and> list_all one_line w \<and> gmatch ts t)" for u
      by (rule iffI, erule gmatch_Star2E, blast) (auto intro: gm_star2)
    moreover have "one_line = (\<lambda>c. c \<noteq> newline \<and> c \<noteq> carriage_return)" by (rule ext) simp
    ultimately show ?thesis
      unfolding step unfolding GStar2 using tok_star [OF IH Cons.prems(2), of one_line] by (simp add: dot_c_def)
  next
    case GStar2Slash
    with Cons.prems show ?thesis by simp
  qed
qed

lemma glob_matches:
  assumes "GStar2Slash \<notin> set (glob_toks g)"
  shows "rx_test (globToRegExp g False) s \<longleftrightarrow> gmatch (glob_toks g) s"
proof -
  have e: "(0, j) \<in> rx_rel (seqs (map tok_rx ts @ [Eol])) s \<Longrightarrow> j = length s" for j ts
  proof -
    have "(i, j) \<in> rx_rel (seqs (map tok_rx ts @ [Eol])) s \<Longrightarrow> j = length s" for i
      by (induction ts arbitrary: i) auto
    then show "(0, j) \<in> rx_rel (seqs (map tok_rx ts @ [Eol])) s \<Longrightarrow> j = length s" .
  qed
  have "rx_test (globToRegExp g False) s \<longleftrightarrow> (\<exists>j. (0, j) \<in> rx_rel (seqs (map tok_rx (glob_toks g) @ [Eol])) s)"
    by (auto simp: globToRegExp_def rx_test_iff)
  also have "\<dots> \<longleftrightarrow> (0, length s) \<in> rx_rel (seqs (map tok_rx (glob_toks g) @ [Eol])) s"
    using e by auto
  also have "\<dots> \<longleftrightarrow> gmatch (glob_toks g) s"
    using tok_rel [OF assms, of 0 s] by simp
  finally show ?thesis .
qed

subsection \<open>The pattern that never fits\<close>

lemma rel_lit_char: "(i, j) \<in> rx_rel (lit [c]) s \<Longrightarrow> i < length s \<and> s ! i = c"
  by auto

lemma slash_needs_colon:
  assumes "GStar2Slash \<in> set ts" "(i, j) \<in> rx_rel (seqs (map tok_rx ts @ [Eol])) s"
  shows "CHR '':'' \<in> set s"
  using assms
proof (induction ts arbitrary: i)
  case (Cons t ts)
  from Cons.prems(2) obtain k where k: "(i, k) \<in> rx_rel (tok_rx t) s"
    "(k, j) \<in> rx_rel (seqs (map tok_rx ts @ [Eol])) s" by auto
  show ?case
  proof (cases "t = GStar2Slash")
    case True
    with k(1) obtain m where "m < length s" "s ! m = CHR '':''"
      by (auto simp: none_of_def)
    then show ?thesis by (metis nth_mem)
  next
    case False
    with Cons.prems(1) have "GStar2Slash \<in> set ts" by auto
    from Cons.IH [OF this k(2)] show ?thesis .
  qed
qed simp

lemma colon_case:
  "lower_char c = CHR '':'' \<Longrightarrow> c = CHR '':''" "upper_char c = CHR '':'' \<Longrightarrow> c = CHR '':''"
proof -
  have "is_upper c \<Longrightarrow> code (lower_char c) = code c + 32" "is_lower c \<Longrightarrow> code (upper_char c) = code c - 32"
    by (auto simp: lower_char_def upper_char_def is_upper_def is_lower_def code_def intro!: mod_less)
  moreover have "code (CHR '':'') = 58" by (simp add: code_def)
  ultimately have "is_upper c \<Longrightarrow> lower_char c \<noteq> CHR '':''" "is_lower c \<Longrightarrow> upper_char c \<noteq> CHR '':''"
    by (auto simp: is_upper_def is_lower_def)
  then show "lower_char c = CHR '':'' \<Longrightarrow> c = CHR '':''" "upper_char c = CHR '':'' \<Longrightarrow> c = CHR '':''"
    by (auto simp: lower_char_def upper_char_def split: if_splits)
qed

lemma rel_ignore_case_colon:
  assumes "GStar2Slash \<in> set ts" "(i, j) \<in> rx_rel (ignore_case (seqs (map tok_rx ts @ [Eol]))) s"
  shows "CHR '':'' \<in> set s"
  using assms
proof (induction ts arbitrary: i)
  case (Cons t ts)
  from Cons.prems(2) obtain k where k: "(i, k) \<in> rx_rel (ignore_case (tok_rx t)) s"
    "(k, j) \<in> rx_rel (ignore_case (seqs (map tok_rx ts @ [Eol]))) s" by auto
  show ?case
  proof (cases "t = GStar2Slash")
    case True
    from True k(1) obtain m where "m < length s" "s ! m = CHR '':''"
      by (auto simp: none_of_def dest: colon_case)
    then show ?thesis by (metis nth_mem)
  next
    case False
    with Cons.prems(1) have "GStar2Slash \<in> set ts" by auto
    from Cons.IH [OF this k(2)] show ?thesis .
  qed
qed simp

lemma globToRegExp_colon:
  assumes "GStar2Slash \<in> set (glob_toks g)" "rx_test (globToRegExp g ins) s"
  shows "CHR '':'' \<in> set s"
  using assms slash_needs_colon [OF assms(1), of 0 _ s] rel_ignore_case_colon [OF assms(1), of 0 _ s]
  by (cases ins) (auto simp: globToRegExp_def rx_test_iff)

subsection \<open>The deciding rule\<close>

lemma hd_sort_key:
  assumes "xs \<noteq> []"
  shows "hd (sort_key f xs) \<in> set xs \<and> (\<forall>x \<in> set xs. f (hd (sort_key f xs)) \<le> f x)
    \<and> hd (sort_key f xs) = hd (filter (\<lambda>x. f x = f (hd (sort_key f xs))) xs)"
proof -
  define h where "h = hd (sort_key f xs)"
  have ne: "sort_key f xs \<noteq> []" using assms by (metis length_0_conv length_sort)
  then obtain ys where ys: "sort_key f xs = h # ys" unfolding h_def by (metis list.collapse)
  have "h \<in> set xs" using hd_in_set [OF ne] by (simp add: h_def)
  moreover have "\<forall>x \<in> set (h # ys). f h \<le> f x"
    using sorted_sort_key [of f xs] by (simp add: ys)
  then have "\<forall>x \<in> set xs. f h \<le> f x" by (metis set_sort ys)
  moreover have "hd (filter (\<lambda>x. f x = f h) xs) = h"
    using sort_key_stable [of f "f h" xs] by (simp add: ys eq_commute)
  ultimately show ?thesis by (simp add: h_def)
qed

subsection \<open>Properties\<close>



text \<open>A rule whose pattern holds \<open>**/\<close> applies only to paths that contain a colon: the last
  rewriting step replaces the question marks the step before it wrote, so the pattern
  demands a colon between two characters. Such a rule never decides anything about a POSIX
  path without one, whatever it denies.\<close>

theorem doublestar_slash_rule_is_dead:
  assumes "GStar2Slash \<in> set (glob_toks (toMatchPath (fr_pattern r)))" "CHR '':'' \<notin> set path"
  shows "\<not> rule_matches path r"
proof
  assume "rule_matches path r"
  then have "CHR '':'' \<in> set (toMatchPath path)"
    unfolding rule_matches_def using globToRegExp_colon [OF assms(1)] by blast
  with assms(2) show False by (auto simp: toMatchPath_def split: if_splits)
qed

theorem doublestar_slash_rule_is_dead_witness:
  "\<not> rule_matches ''/home/u/.ssh/id_rsa''
      \<lparr>fr_id = ''r'', fr_pattern = ''/home/**/.ssh/*'', fr_read = Some Deny, fr_write = Some Deny\<rparr>"
  by (rule doublestar_slash_rule_is_dead) (simp_all add: toMatchPath_def)

text \<open>
  The longest applicable rule decides a path. Among the rules that match and set the
  mode, the value is that of a longest one, the first of those in the group's order; only
  when there is none does the blanket capability decide, and with no group nothing is
  allowed.\<close>

theorem longest_rule_decides:
  "decision (evaluateFilePath None path mode) = Deny
   \<and> (deciding_rules g path mode = [] \<longrightarrow>
        decision (evaluateFilePath (Some g) path mode) = capability_value g (file_capability mode))
   \<and> (deciding_rules g path mode \<noteq> [] \<longrightarrow>
        (\<exists>best \<in> set (deciding_rules g path mode).
           rule_value mode best = Some (decision (evaluateFilePath (Some g) path mode))
           \<and> (\<forall>r \<in> set (deciding_rules g path mode). length (fr_pattern r) \<le> length (fr_pattern best))
           \<and> best = hd (filter (\<lambda>r. length (fr_pattern r) = length (fr_pattern best)) (deciding_rules g path mode))))"
proof -
  have blanket: "decision (evaluateFilePath (Some g) path mode) = capability_value g (file_capability mode)"
    if "deciding_rules g path mode = []"
    using that by (simp add: evaluateFilePath_def Let_def decision_evaluateCapability)
  have "\<exists>best \<in> set (deciding_rules g path mode).
      rule_value mode best = Some (decision (evaluateFilePath (Some g) path mode))
      \<and> (\<forall>r \<in> set (deciding_rules g path mode). length (fr_pattern r) \<le> length (fr_pattern best))
      \<and> best = hd (filter (\<lambda>r. length (fr_pattern r) = length (fr_pattern best)) (deciding_rules g path mode))"
    if ne: "deciding_rules g path mode \<noteq> []"
  proof -
    let ?f = "\<lambda>r. - int (length (fr_pattern r))"
    let ?best = "hd (sort_key ?f (deciding_rules g path mode))"
    from hd_sort_key [OF ne, of ?f] have b: "?best \<in> set (deciding_rules g path mode)"
      "\<forall>r \<in> set (deciding_rules g path mode). length (fr_pattern r) \<le> length (fr_pattern ?best)"
      "?best = hd (filter (\<lambda>r. length (fr_pattern r) = length (fr_pattern ?best)) (deciding_rules g path mode))"
      by auto
    have "sort_key ?f (deciding_rules g path mode) \<noteq> []" using ne by (metis length_0_conv length_sort)
    then obtain ys where ys: "sort_key ?f (deciding_rules g path mode) = ?best # ys" by (metis list.collapse)
    obtain v where v: "rule_value mode ?best = Some v"
      using b(1) by (auto simp: deciding_rules_def)
    have "decision (evaluateFilePath (Some g) path mode) = v"
      unfolding evaluateFilePath_def Let_def option.case by (subst ys) (simp add: v)
    with b v show ?thesis by blast
  qed
  with blanket show ?thesis by (simp add: evaluateFilePath_def)
qed

theorem longest_rule_decides_witness:
  "decision (evaluateFilePath (Some \<lparr>ag_id = ''g'', ag_name = ''G'', ag_builtIn = False,
      ag_capabilities = (\<lambda>_. Some Deny), ag_filePolicies = [], ag_confirmRisky = None\<rparr>) ''/etc/passwd'' ModeRead) = Deny"
  using longest_rule_decides [of "''/etc/passwd''" ModeRead "\<lparr>ag_id = ''g'', ag_name = ''G'', ag_builtIn = False,
      ag_capabilities = (\<lambda>_. Some Deny), ag_filePolicies = [], ag_confirmRisky = None\<rparr>"]
  by (simp add: deciding_rules_def capability_value_def)

end
