(* ===== verification/Shell_Text.thy ===== *)
theory Shell_Text
  imports Command_Risk Policy_Path
begin

section \<open>Reading a command line as text (main/services/policyEngine.ts)\<close>

text \<open>
  The scanners below the command walk: where a quoted run or a parenthesis closes, the
  command substitutions of a line, the segments between its separators, the words of a
  segment, its redirections, and the name a command word stands for. The source scans with
  an index; here the rest of the line is the argument, and a position that the source
  returns is an offset into it. A character the source looks back at is passed along.
\<close>

abbreviation backslash :: char where "backslash \<equiv> CHR 0x5C"
abbreviation backtick :: char where "backtick \<equiv> CHR 0x60"

subsection \<open>Names\<close>

definition baseName :: "string \<Rightarrow> string" where
  "baseName t = last (split_on CHR ''/'' t)"

definition script_suffixes :: "string list" where
  "script_suffixes = [''.exe'', ''.com'', ''.cmd'', ''.bat'', ''.ps1'']"

definition strip_suffix :: "string \<Rightarrow> string" where
  "strip_suffix t =
     (if list_ex (\<lambda>e. ends_with e (lower t)) script_suffixes then take (length t - 4) t else t)"

definition commandName :: "string \<Rightarrow> string" where
  "commandName token = strip_suffix (last (split_on CHR ''/'' (toMatchPath token)))"

subsection \<open>Closing quotes and parentheses\<close>

fun closingQuote :: "char \<Rightarrow> string \<Rightarrow> nat option" where
  "closingQuote q [] = None"
| "closingQuote q (c # cs) =
     (if q \<noteq> quote1 \<and> c = backslash then map_option (\<lambda>n. n + 2) (closingQuote q (tl cs))
      else if c = q then Some 0
      else map_option Suc (closingQuote q cs))"

lemma closingQuote_bound: "closingQuote q s = Some n \<Longrightarrow> n < length s"
proof (induction q s arbitrary: n rule: closingQuote.induct)
  case (2 q c cs)
  then show ?case
    by (cases cs) (fastforce split: if_splits)+
qed simp

text \<open>
  The arguments are the character before, the open parentheses and the depths at which a
  \<open>case\<close> is open, the innermost first.
\<close>

function closingParen :: "char \<Rightarrow> nat \<Rightarrow> nat list \<Rightarrow> string \<Rightarrow> nat option" where
  "closingParen p depth caseAt [] = None"
| "closingParen p depth caseAt (c # cs) =
     (if c = backslash then
        map_option (\<lambda>n. n + 2) (closingParen (if cs = [] then c else hd cs) depth caseAt (tl cs))
      else if c \<in> {quote1, quote2, backtick} then
        (case closingQuote c cs of
           None \<Rightarrow> None
         | Some n \<Rightarrow> map_option (\<lambda>m. m + n + 2) (closingParen c depth caseAt (drop (Suc n) cs)))
      else if (is_alpha c \<or> c = CHR ''_'') \<and> (is_ws p \<or> p \<in> set '';&|('') then
        (let w = c # takeWhile is_word cs;
             cases = (if w = ''case'' then depth # caseAt else if w = ''esac'' then tl caseAt else caseAt)
         in map_option (\<lambda>n. n + length w) (closingParen (last w) depth cases (dropWhile is_word cs)))
      else if c = CHR ''('' then map_option Suc (closingParen c (Suc depth) caseAt cs)
      else if c = CHR '')'' then
        (if caseAt \<noteq> [] \<and> hd caseAt = depth then map_option Suc (closingParen c depth caseAt cs)
         else if depth = 1 then Some 0
         else map_option Suc (closingParen c (depth - 1) caseAt cs))
      else map_option Suc (closingParen c depth caseAt cs))"
  by pat_completeness auto
termination
  by (relation "measure (\<lambda>(p, d, k, s). length s)") (auto simp: length_dropWhile_le le_imp_less_Suc)

subsection \<open>Substitutions\<close>

fun unescape :: "char list \<Rightarrow> string \<Rightarrow> string" where
  "unescape K (c # d # cs) =
     (if c = backslash \<and> d \<in> set K then d # unescape K cs else c # unescape K (d # cs))"
| "unescape K s = s"

definition backtick_escapes :: "char option \<Rightarrow> char list" where
  "backtick_escapes q =
     (if q = Some quote2 then [backtick, CHR ''$'', backslash, quote2] else [backtick, CHR ''$'', backslash])"

definition opens_at :: "char option \<Rightarrow> string \<Rightarrow> bool" where
  "opens_at q s = (starts_with ''$('' s \<or> (q = None \<and> (starts_with ''<('' s \<or> starts_with ''>('' s)))"

text \<open>The bodies in order, and whether every construct closes.\<close>

function subs :: "char option \<Rightarrow> string \<Rightarrow> string list \<times> bool" where
  "subs q [] = ([], q = None)"
| "subs q (c # cs) =
     (if q = Some quote1 then subs (if c = quote1 then None else q) cs
      else if c = backslash then subs q (tl cs)
      else if c = backtick then
        (case closingQuote c cs of
           None \<Rightarrow> ([], False)
         | Some n \<Rightarrow>
             let (inner, ok) = subs q (drop (Suc n) cs)
             in (unescape (backtick_escapes q) (take n cs) # inner, ok))
      else if opens_at q (c # cs) then
        (case closingParen CHR ''('' 1 [] (tl cs) of
           None \<Rightarrow> ([], False)
         | Some n \<Rightarrow>
             let body = take n (tl cs); rest = drop (Suc n) (tl cs) in
             if starts_with ''$(('' (c # cs) then
               (let (deeper, fine) = subs None (butlast (tl body)) in
                if \<not> fine then ([], False)
                else let (inner, ok) = subs q rest in (deeper @ inner, ok))
             else let (inner, ok) = subs q rest in (body # inner, ok))
      else if q = Some quote2 then subs (if c = quote2 then None else q) cs
      else subs (if c = quote2 \<or> c = quote1 then Some c else q) cs)"
  by pat_completeness auto
termination
  by (relation "measure (\<lambda>(q, s). length s)") auto

definition substitutions :: "string \<Rightarrow> string list \<times> bool" where
  "substitutions command = subs None command"

subsection \<open>Segments\<close>

text \<open>
  Each segment comes with whether a pipe feeds it. The arguments are the character before,
  the open quote, what feeds the current segment, and its text so far.
\<close>

fun split_raw :: "char option \<Rightarrow> char option \<Rightarrow> bool \<Rightarrow> string \<Rightarrow> string \<Rightarrow> (string \<times> bool) list" where
  "split_raw p q fed cur [] = [(cur, fed)]"
| "split_raw p q fed cur (c # cs) =
     (if q = Some quote1 then split_raw (Some c) (if c = quote1 then None else q) fed (cur @ [c]) cs
      else if c = backslash \<and> cs \<noteq> [] then split_raw (Some (hd cs)) q fed (cur @ [c, hd cs]) (tl cs)
      else if q \<noteq> None then split_raw (Some c) (if q = Some c then None else q) fed (cur @ [c]) cs
      else if c = quote2 \<or> c = quote1 then split_raw (Some c) (Some c) fed (cur @ [c]) cs
      else if starts_with ''&&'' (c # cs) \<or> starts_with ''||'' (c # cs) then
        (cur, fed) # split_raw (Some c) None False [] (tl cs)
      else if c = CHR ''&'' \<and> p \<noteq> Some CHR ''>'' \<and> p \<noteq> Some CHR ''<'' \<and> (cs = [] \<or> hd cs \<noteq> CHR ''>'') then
        (cur, fed) # split_raw (Some c) None False [] cs
      else if c = CHR '';'' \<or> c = CHR ''|'' \<or> c = newline then
        (cur, fed) # split_raw (Some c) None (c = CHR ''|'') [] cs
      else split_raw (Some c) None fed (cur @ [c]) cs)"

definition splitSegments :: "string \<Rightarrow> (string \<times> bool) list" where
  "splitSegments command = filter (\<lambda>(segment, piped). trim segment \<noteq> []) (split_raw None None False [] command)"

subsection \<open>Words\<close>

definition windows_literal :: "string \<Rightarrow> bool" where
  "windows_literal s = (case s of
      a # b # cs \<Rightarrow> (is_alpha a \<and> b = CHR '':'' \<and> cs \<noteq> [] \<and> hd cs = backslash) \<or> (a = backslash \<and> b = backslash)
    | _ \<Rightarrow> False)"

definition dq_escapable :: "char list" where
  "dq_escapable = [quote2, backslash, CHR ''$'', backtick, newline]"

text \<open>The arguments are the word so far, whether it has begun, whether it is a Windows path, and the open quote.\<close>

fun tokenise :: "string \<Rightarrow> bool \<Rightarrow> bool \<Rightarrow> char option \<Rightarrow> string \<Rightarrow> string list" where
  "tokenise cur started literal q [] = (if started then [cur] else [])"
| "tokenise cur started literal q (c # cs) =
     (if q = Some quote1 then
        (if c = quote1 then tokenise cur started literal None cs else tokenise (cur @ [c]) started literal q cs)
      else if q = Some quote2 then
        (if c = backslash \<and> cs \<noteq> [] \<and> hd cs \<in> set dq_escapable then
           tokenise (if hd cs \<noteq> newline then cur @ [hd cs] else cur) started literal q (tl cs)
         else if c = quote2 then tokenise cur started literal None cs
         else tokenise (cur @ [c]) started literal q cs)
      else
        let literal = (if started then literal else windows_literal (c # cs)) in
        if c = backslash \<and> \<not> literal then
          tokenise (if cs \<noteq> [] \<and> hd cs \<noteq> newline then cur @ [hd cs] else cur) True literal q (tl cs)
        else if c = quote2 \<or> c = quote1 then tokenise cur True literal (Some c) cs
        else if is_ws c then (if started then [cur] else []) @ tokenise [] False literal q cs
        else tokenise (cur @ [c]) True literal q cs)"

definition tokenize :: "string \<Rightarrow> string list" where
  "tokenize segment = tokenise [] False False None segment"

fun balanced :: "char option \<Rightarrow> bool \<Rightarrow> char option \<Rightarrow> string \<Rightarrow> bool" where
  "balanced p literal q [] = (q = None)"
| "balanced p literal q (c # cs) =
     (if q = Some quote1 then balanced (Some c) literal (if c = quote1 then None else q) cs
      else
        let literal = (if q = None \<and> (p = None \<or> is_ws (the p)) then windows_literal (c # cs) else literal) in
        if c = backslash \<and> (q \<noteq> None \<or> \<not> literal) then
          (cs \<noteq> [] \<and> balanced (Some (hd cs)) literal q (tl cs))
        else if q = Some quote2 then balanced (Some c) literal (if c = quote2 then None else q) cs
        else balanced (Some c) literal (if c = quote2 \<or> c = quote1 then Some c else q) cs)"

definition quotesBalanced :: "string \<Rightarrow> bool" where
  "quotesBalanced line = balanced None False None line"

subsection \<open>Redirections\<close>

definition redirect_op :: rx where
  "redirect_op = alts
     [seqs [opt (Cls is_digit), lit ''>'', opt (lit ''>'')], lit ''<<<'', seqs [lit ''<<'', opt (lit ''-'')], lit ''<'']"

definition single_quoted :: rx where
  "single_quoted = seqs [lit [quote1], Star (none_of [quote1]), lit [quote1]]"

definition double_quoted :: rx where
  "double_quoted = seqs
     [lit [quote2], Star (Alt (none_of [quote2, backslash]) (Seq (lit [backslash]) dot_c)), lit [quote2]]"

text \<open>The targets of \<open>REDIRECTION\<close> and of \<open>withoutRedirections\<close>.\<close>

definition redirect_target :: rx where
  "redirect_target = alts
     [seqs [lit [quote2], Star (none_of [quote2]), lit [quote2]], single_quoted, many1 non_ws_c]"

definition stripped_target :: rx where
  "stripped_target = alts
     [double_quoted, single_quoted, many1 (Cls (\<lambda>c. \<not> is_ws c \<and> c \<noteq> quote1 \<and> c \<noteq> quote2))]"

text \<open>
  A match at a position, as the ends of its operator and of its target and the start of the
  target: the first in the order a backtracking matcher tries them.
\<close>

definition redirect_at :: "rx \<Rightarrow> rx \<Rightarrow> string \<Rightarrow> nat \<Rightarrow> (nat \<times> nat \<times> nat) option" where
  "redirect_at op target s i =
     (case concat (map (\<lambda>j. concat (map (\<lambda>k. map (\<lambda>e. (j, k, e)) (ends target s k)) (ends (Star ws_c) s j)))
            (ends op s i)) of
        [] \<Rightarrow> None
      | m # _ \<Rightarrow> Some m)"

definition text_slice :: "nat \<Rightarrow> nat \<Rightarrow> string \<Rightarrow> string" where
  "text_slice i j s = drop i (take j s)"

text \<open>\<open>segment.matchAll(REDIRECTION)\<close>: each match as its operator and its target.\<close>

function redirections_from :: "string \<Rightarrow> nat \<Rightarrow> (string \<times> string) list" where
  "redirections_from s i =
     (if length s \<le> i then []
      else case redirect_at redirect_op redirect_target s i of
             None \<Rightarrow> redirections_from s (Suc i)
           | Some (j, k, e) \<Rightarrow> (text_slice i j s, text_slice k e s) # redirections_from s (max (Suc i) e))"
  by pat_completeness auto
termination
  by (relation "measure (\<lambda>(s, i). length s - i)") auto

declare redirections_from.simps [simp del]

definition REDIRECTION_matches :: "string \<Rightarrow> (string \<times> string) list" where
  "REDIRECTION_matches segment = redirections_from segment 0"

definition kept_piece :: rx where
  "kept_piece = alts [single_quoted, double_quoted, Seq (lit [backslash]) dot_c]"

function without_from :: "string \<Rightarrow> nat \<Rightarrow> string" where
  "without_from s i =
     (if length s \<le> i then []
      else case ends kept_piece s i of
             j # _ \<Rightarrow> text_slice i (max (Suc i) j) s @ without_from s (max (Suc i) j)
           | [] \<Rightarrow>
               (case redirect_at (Seq redirect_op (NLook (lit ''(''))) stripped_target s i of
                  Some (j, k, e) \<Rightarrow> '' '' @ without_from s (max (Suc i) e)
                | None \<Rightarrow> s ! i # without_from s (Suc i)))"
  by pat_completeness auto
termination
  by (relation "measure (\<lambda>(s, i). length s - i)") auto

declare without_from.simps [simp del]

definition withoutRedirections :: "string \<Rightarrow> string" where
  "withoutRedirections segment = without_from segment 0"

end
