(* ===== verification/Shell_Words.thy ===== *)
theory Shell_Words
  imports Shell_Text "HOL-Library.Monad_Syntax"
begin

section \<open>What a segment's words run (main/services/policyEngine.ts)\<close>

text \<open>
  The steps of the command walk that look at words: shell grammar and wrappers stepped over
  (\<open>stripRunners\<close>), the line a shell is given with \<open>-c\<close>, whether a command is an
  interactive shell, and what an escalator runs. The tables are object literals, so looking
  up a name of \<open>Object.prototype\<close> yields a function instead of nothing, and testing an
  option against it throws: these steps return None where the source throws a TypeError. A
  list that the source appends to while it reads (\<open>nested\<close>) is passed along and returned.
\<close>

type_synonym nested = "string list"

subsection \<open>Tables\<close>

definition ESCALATORS :: "string list" where
  "ESCALATORS = [''sudo'', ''doas'', ''su'', ''pkexec'', ''run0'', ''runuser'', ''systemd-run'', ''runas'',
     ''gsudo'', ''nsenter'']"

definition WINDOWS_ESCALATORS :: "string list" where
  "WINDOWS_ESCALATORS = [''runas'', ''gsudo'', ''sudo'']"

definition WINDOWS_SHELLS :: "string list" where
  "WINDOWS_SHELLS = [''cmd'', ''powershell'', ''pwsh'']"

definition SHELLS :: "string list" where
  "SHELLS = [''sh'', ''bash'', ''zsh'', ''dash'', ''ksh'', ''mksh'', ''ash'', ''fish'', ''csh'', ''tcsh'']"

definition GRAMMAR :: "string list" where
  "GRAMMAR = [''!'', ''{'', ''}'', ''('', '')'', ''if'', ''then'', ''do'', ''else'', ''elif'', ''while'',
     ''until'', ''fi'', ''done'', ''esac'']"

definition RUNNER_FLAGS :: "(string \<times> string list) list" where
  "RUNNER_FLAGS =
   [(''env'', [''-u'', ''-C'', ''-S'']), (''command'', []), (''exec'', [''-a'']), (''builtin'', []),
    (''nohup'', []), (''time'', [''-f'', ''-o'']), (''nice'', [''-n'']),
    (''ionice'', [''-c'', ''-n'', ''-p'']), (''stdbuf'', [''-i'', ''-o'', ''-e'']),
    (''timeout'', [''-s'', ''-k'']),
    (''xargs'', [''-a'', ''-d'', ''-E'', ''-I'', ''-L'', ''-n'', ''-P'', ''-s'']),
    (''busybox'', []), (''chroot'', [''--userspec'', ''--groups'']),
    (''strace'', [''-e'', ''-o'', ''-p'', ''-s'', ''-u'', ''-E'', ''-I'', ''-b'', ''-a'', ''-O'', ''-S'',
       ''-X'', ''-P'', ''-U'']),
    (''ltrace'', [''-e'', ''-o'', ''-p'', ''-s'', ''-u'', ''-n'', ''-a'', ''-A'', ''-D'', ''-F'', ''-l'',
       ''-w'', ''-x'']),
    (''firejail'', []),
    (''bwrap'', [''--chdir'', ''--uid'', ''--gid'', ''--tmpfs'', ''--proc'', ''--dev'', ''--dir'', ''--unsetenv'',
       ''--hostname'', ''--remount-ro'', ''--mqueue'', ''--lock-file'', ''--sync-fd'', ''--info-fd'',
       ''--block-fd'', ''--userns'', ''--userns2'', ''--pidns'', ''--seccomp'', ''--add-seccomp-fd'',
       ''--exec-label'', ''--file-label'', ''--cap-add'', ''--cap-drop'', ''--argv0'', ''--perms'', ''--size'',
       ''--json-status-fd'']),
    (''setarch'', []), (''prlimit'', [''-p'']), (''.'', []), (''setsid'', []), (''unbuffer'', []),
    (''watch'', [''-n'', ''-q'']), (''flock'', [''-w'', ''-E'', ''-c'']), (''chrt'', [''-T'', ''-P'', ''-D'']),
    (''taskset'', [])]"

text \<open>What \<open>Object.prototype\<close> answers to.\<close>

definition prototype_names :: "string list" where
  "prototype_names =
   [''constructor'', ''__defineGetter__'', ''__defineSetter__'', ''hasOwnProperty'', ''__lookupGetter__'',
    ''__lookupSetter__'', ''isPrototypeOf'', ''propertyIsEnumerable'', ''toString'', ''valueOf'',
    ''__proto__'', ''toLocaleString'']"

definition RUNNERS :: "string \<Rightarrow> string list option" where
  "RUNNERS name = (case map_of RUNNER_FLAGS name of
      Some flags \<Rightarrow> Some flags
    | None \<Rightarrow> if name \<in> set prototype_names then Some [] else None)"

definition RUNNER_OPERAND :: "string list" where
  "RUNNER_OPERAND = [''timeout'', ''flock'', ''chrt'', ''taskset'', ''chroot'', ''setarch'']"

definition SETPRIV_VALUE_OPTIONS :: "string list" where
  "SETPRIV_VALUE_OPTIONS =
   [''--reuid'', ''--regid'', ''--groups'', ''--inh-caps'', ''--ambient-caps'', ''--bounding-set'',
    ''--securebits'', ''--pdeathsig'', ''--selinux-label'', ''--apparmor-profile'', ''--landlock-access'',
    ''--landlock-rule'']"

definition UNSHARE_VALUE_OPTIONS :: "string list" where
  "UNSHARE_VALUE_OPTIONS = [''-S'', ''-G'', ''--setuid'', ''--setgid'', ''--map-user'', ''--map-group'']"

definition RUNNER_TWO_VALUES :: "string \<Rightarrow> string list" where
  "RUNNER_TWO_VALUES name =
     (if name = ''bwrap'' then
        [''--bind'', ''--ro-bind'', ''--dev-bind'', ''--bind-try'', ''--ro-bind-try'', ''--dev-bind-try'',
         ''--symlink'', ''--setenv'', ''--file'', ''--bind-data'', ''--ro-bind-data'', ''--chmod'']
      else [])"

definition RUNNER_COMMAND_FLAGS :: "string \<Rightarrow> string list" where
  "RUNNER_COMMAND_FLAGS name =
     (if name = ''env'' then [''-S'', ''--split-string'']
      else if name = ''flock'' then [''-c'', ''--command''] else [])"

definition RUN0_VALUE_FLAGS :: "string list" where
  "RUN0_VALUE_FLAGS =
   [''-u'', ''-g'', ''-D'', ''-p'', ''-E'', ''-M'', ''-H'', ''--user'', ''--group'', ''--chdir'', ''--unit'',
    ''--property'', ''--setenv'', ''--slice'', ''--description'', ''--nice'', ''--machine'', ''--host'',
    ''--uid'', ''--gid'']"

definition ESCALATOR_VALUE_FLAGS :: "string \<Rightarrow> string list" where
  "ESCALATOR_VALUE_FLAGS name =
     (if name = ''sudo'' then [''-u'', ''-g'', ''-C'', ''-D'', ''-h'', ''-p'', ''-r'', ''-t'', ''-U'', ''-R'', ''-T'']
      else if name = ''gsudo'' then [''-u'', ''-i'', ''--user'', ''--integrity'', ''--loglevel'']
      else if name = ''nsenter'' then [''-t'', ''-S'', ''-G'', ''--target'', ''--setuid'', ''--setgid'']
      else if name = ''doas'' then [''-u'', ''-C'']
      else if name = ''pkexec'' then [''--user'']
      else if name = ''run0'' \<or> name = ''systemd-run'' then RUN0_VALUE_FLAGS
      else if name = ''su'' then
        [''-c'', ''-s'', ''-g'', ''-G'', ''-w'', ''--command'', ''--shell'', ''--group'', ''--supp-group'',
         ''--session-command'', ''--whitelist-environment'']
      else if name = ''runuser'' then
        [''-c'', ''-s'', ''-g'', ''-G'', ''-u'', ''-w'', ''--command'', ''--shell'', ''--group'', ''--supp-group'',
         ''--user'', ''--session-command'', ''--whitelist-environment'']
      else [])"

definition MAX_DEPTH :: nat where "MAX_DEPTH = 3"

subsection \<open>Word shapes\<close>

definition starts_dash :: "string \<Rightarrow> bool" where
  "starts_dash w = starts_with ''-'' w"

abbreviation name_start :: "char \<Rightarrow> bool" where
  "name_start c \<equiv> is_alpha c \<or> c = CHR ''_''"

definition name_char :: "char \<Rightarrow> bool" where
  "name_char c = (is_word c \<or> c \<in> set ''.:-'')"

text \<open>\<open>ASSIGNMENT\<close>, \<open>FUNCTION_NAME\<close> and the shape of a function's name on its own.\<close>

definition ASSIGNMENT :: "string \<Rightarrow> bool" where
  "ASSIGNMENT w = (w \<noteq> [] \<and> name_start (hd w) \<and> starts_with ''='' (dropWhile is_word w))"

definition FUNCTION_NAME :: "string \<Rightarrow> bool" where
  "FUNCTION_NAME w = (w \<noteq> [] \<and> name_start (hd w) \<and> dropWhile name_char w \<in> {''()'', ''(){''})"

definition function_word :: "string \<Rightarrow> bool" where
  "function_word w = (w \<noteq> [] \<and> name_start (hd w) \<and> list_all name_char w)"

text \<open>A \<open>case\<close> label, a word glued to an opening parenthesis, a last word glued to closing ones.\<close>

definition case_label :: "string \<Rightarrow> bool" where
  "case_label w = (w \<noteq> [] \<and> last w = CHR '')'' \<and> list_all (\<lambda>c. c \<noteq> CHR ''('' \<and> c \<noteq> CHR '')'') (butlast w))"

definition opens_group :: "string \<Rightarrow> bool" where
  "opens_group w = (case w of a # b # _ \<Rightarrow> a = CHR ''('' \<and> b \<noteq> newline \<and> b \<noteq> carriage_return | _ \<Rightarrow> False)"

definition closes_group :: "string \<Rightarrow> bool" where
  "closes_group w = (2 \<le> length w \<and> last w = CHR '')'' \<and> CHR ''('' \<notin> set w)"

definition strip_close :: "string \<Rightarrow> string" where
  "strip_close w = rev (dropWhile (\<lambda>c. c = CHR '')'') (rev w))"

definition at_index :: "'a list \<Rightarrow> nat \<Rightarrow> 'a option" where
  "at_index xs i = (if i < length xs then Some (xs ! i) else None)"

definition words_size :: "string list \<Rightarrow> nat" where
  "words_size t = sum_list (map (\<lambda>w. Suc (length w)) t)"

lemma words_size_simps [simp]:
  "words_size [] = 0" "words_size (w # t) = Suc (length w) + words_size t"
  by (simp_all add: words_size_def)

lemma words_size_append: "words_size (xs @ ys) = words_size xs + words_size ys"
  by (induction xs) auto

lemma words_size_split: "words_size t = words_size (takeWhile P t) + words_size (dropWhile P t)"
  using words_size_append [of "takeWhile P t" "dropWhile P t"] by simp

lemma words_size_drop: "words_size (drop n t) \<le> words_size t"
proof (induction t arbitrary: n)
  case (Cons w t)
  show ?case
  proof (cases n)
    case (Suc m)
    then show ?thesis using Cons [of m] by simp
  qed simp
qed simp

lemma words_size_tl: "words_size (tl t) \<le> words_size t"
  by (cases t) auto

lemma words_size_drop_less: "t \<noteq> [] \<Longrightarrow> 0 < n \<Longrightarrow> words_size (drop n t) < words_size t"
  using words_size_drop [of "n - 1" "tl t"] by (cases t; cases n) auto

subsection \<open>Shell grammar\<close>

text \<open>One round of the loop over the words in front of a command: go on with the rest, or stop.\<close>

datatype round = Again "string list" | Stop "string list"

fun grammar_step :: "string list \<Rightarrow> round" where
  "grammar_step [] = Stop []"
| "grammar_step (w # ts) =
     (if w = ''[['' \<or> starts_with ''(('' w \<or> w = ''for'' \<or> w = ''select'' then Stop []
      else if w \<in> set GRAMMAR \<or> ASSIGNMENT w \<or> FUNCTION_NAME w then Again ts
      else if function_word w \<and> at_index ts 0 = Some ''('' \<and> at_index ts 1 = Some '')'' then Again (drop 2 ts)
      else if function_word w \<and> at_index ts 0 = Some ''()'' then Again (drop 1 ts)
      else if w = ''case'' then
        Again (if ''in'' \<in> set ts then tl (dropWhile (\<lambda>x. x \<noteq> ''in'') ts) else [])
      else if case_label w \<and> ts \<noteq> [] then Again ts
      else if w = ''function'' then Again (drop 1 ts)
      else if w = ''coproc'' then Again (if at_index ts 1 = Some ''{'' then drop 1 ts else ts)
      else if opens_group w then Again (dropWhile (\<lambda>c. c = CHR ''('') w # ts)
      else if ts = [] \<and> closes_group w then Again [strip_close w]
      else Stop (w # ts))"

lemma words_size_dropWhile: "words_size (dropWhile P t) \<le> words_size t"
  by (induction t) auto

lemma strip_close_less: "closes_group w \<Longrightarrow> length (strip_close w) < length w"
proof -
  assume "closes_group w"
  then have "w \<noteq> []" "last w = CHR '')''" by (auto simp: closes_group_def)
  then have w: "w = butlast w @ [CHR '')'']" by (metis append_butlast_last_id)
  have "strip_close w = rev (dropWhile (\<lambda>c. c = CHR '')'') (rev (butlast w)))"
    by (subst w) (simp add: strip_close_def)
  moreover have "length (butlast w) < length w" using \<open>w \<noteq> []\<close> by simp
  ultimately show ?thesis
    using length_dropWhile_le [of "\<lambda>c. c = CHR '')''" "rev (butlast w)"] by simp
qed

lemma opens_group_less: "opens_group w \<Longrightarrow> length (dropWhile (\<lambda>c. c = CHR ''('') w) < length w"
  by (cases w) (auto simp: opens_group_def length_dropWhile_le le_imp_less_Suc split: list.splits)

lemma if_branch: "(if b then x else y) = z \<Longrightarrow> (b \<Longrightarrow> x = z \<Longrightarrow> P) \<Longrightarrow> (y = z \<Longrightarrow> P) \<Longrightarrow> P"
  by (cases b) auto

lemma grammar_step_less:
  "grammar_step t = Again t' \<Longrightarrow> words_size t' < words_size t"
proof (cases t)
  case (Cons w ts)
  assume again: "grammar_step t = Again t'"
  have d: "words_size (drop n ts) \<le> words_size ts" for n by (rule words_size_drop)
  have c: "words_size (tl (dropWhile P ts)) \<le> words_size ts" for P
    using words_size_tl [of "dropWhile P ts"] words_size_dropWhile [of P ts] by simp
  have "words_size t' \<le> words_size ts \<or> (opens_group w \<and> t' = dropWhile (\<lambda>c. c = CHR ''('') w # ts)
      \<or> (closes_group w \<and> ts = [] \<and> t' = [strip_close w])"
    using again unfolding Cons grammar_step.simps 
    by (elim if_branch; (simp only: round.inject round.distinct)?; hypsubst?; simp add: d c)
  then show ?thesis
    using strip_close_less [of w] opens_group_less [of w] by (auto simp: Cons)
qed simp

lemma grammar_step_stop: "grammar_step t = Stop r \<Longrightarrow> r = [] \<or> r = t"
proof (cases t)
  case (Cons w ts)
  show "grammar_step t = Stop r \<Longrightarrow> r = [] \<or> r = t"
    unfolding Cons grammar_step.simps by (elim if_branch; (simp only: round.inject round.distinct)?; hypsubst?; simp)
qed simp

function skip_grammar :: "string list \<Rightarrow> string list" where
  "skip_grammar t = (case grammar_step t of Again t' \<Rightarrow> skip_grammar t' | Stop r \<Rightarrow> r)"
  by pat_completeness auto
termination
  by (relation "measure words_size") (auto simp: grammar_step_less)

declare skip_grammar.simps [simp del]

lemma skip_grammar_size: "words_size (skip_grammar t) \<le> words_size t"
proof (induction t rule: skip_grammar.induct)
  case (1 t)
  then show ?case
    using grammar_step_less [of t] grammar_step_stop [of t]
    by (subst skip_grammar.simps) (fastforce split: round.splits)
qed

subsection \<open>Wrappers\<close>

text \<open>
  The options of a wrapper. The result is None for the TypeError, \<open>Some (None, _)\<close> for the
  \<open>null\<close> of \<open>command -v\<close>, which runs nothing, and otherwise the words after the options.
\<close>

definition verbose_flag :: "string \<Rightarrow> bool" where
  "verbose_flag flag = (list_ex (\<lambda>c. c = CHR ''v'' \<or> c = CHR ''V'') (takeWhile is_alpha (tl flag)))"

definition before_eq :: "string \<Rightarrow> string" where
  "before_eq flag = takeWhile (\<lambda>c. c \<noteq> CHR ''='') flag"

definition after_eq :: "string \<Rightarrow> string option" where
  "after_eq flag = (if CHR ''='' \<in> set flag then Some (tl (dropWhile (\<lambda>c. c \<noteq> CHR ''='') flag)) else None)"

function runner_options :: "string \<Rightarrow> string list \<Rightarrow> nested \<Rightarrow> (string list option \<times> nested) option" where
  "runner_options name [] nested = Some (Some [], nested)"
| "runner_options name (flag # ts) nested =
     (if \<not> starts_dash flag \<or> flag = ''-'' then Some (Some (flag # ts), nested)
      else if flag = ''--'' then Some (Some ts, nested)
      else if name = ''command'' \<and> verbose_flag flag then Some (None, nested)
      else if name \<in> set prototype_names then None
      else if before_eq flag \<in> set (RUNNER_COMMAND_FLAGS name) then
        (case after_eq flag of
           Some line \<Rightarrow> runner_options name ts (nested @ [line])
         | None \<Rightarrow> runner_options name (drop 1 ts) (nested @ take 1 ts))
      else runner_options name
             (drop (if flag \<in> set (RUNNER_TWO_VALUES name) then 2
                    else if flag \<in> set (nullish (RUNNERS name) []) then 1 else 0) ts) nested)"
  by pat_completeness auto
termination
  by (relation "measure (\<lambda>(name, t, nested). length t)") auto

lemma runner_options_size:
  "runner_options name t nested = Some (Some t', nested') \<Longrightarrow> words_size t' \<le> words_size t"
proof (induction name t nested rule: runner_options.induct)
  case (2 name flag ts nested)
  have d: "words_size t' \<le> words_size (drop n ts) \<Longrightarrow> words_size t' \<le> words_size (flag # ts)" for n
    using words_size_drop [of n ts] by simp
  have f: "words_size t' \<le> words_size (x # t')" for x by simp
  have e: "words_size t' \<le> words_size ts \<Longrightarrow> words_size t' \<le> words_size (flag # ts)" by simp
  show ?case
    using "2.prems" "2.IH" by (auto simp del: words_size_simps intro: d e f split: if_splits option.splits)
qed simp

definition runner_rest :: "string \<Rightarrow> string list \<Rightarrow> nested \<Rightarrow> (string list option \<times> nested) option" where
  "runner_rest name t nested =
     do {
       (rest, nested) \<leftarrow> runner_options name t nested;
       case rest of
         None \<Rightarrow> Some (None, nested)
       | Some t \<Rightarrow>
           if name \<in> set RUNNER_OPERAND \<and> t \<noteq> [] then runner_options name (tl t) nested
           else Some (Some t, nested)
     }"

lemma runner_rest_size:
  assumes "runner_rest name t nested = Some (Some t', nested')"
  shows "words_size t' \<le> words_size t"
proof -
  from assms obtain u n where u: "runner_options name t nested = Some (Some u, n)"
    by (auto simp: runner_rest_def bind_eq_Some_conv split: option.splits)
  with assms have "t' = u \<or> runner_options name (tl u) n = Some (Some t', nested')"
    by (auto simp: runner_rest_def split: if_splits)
  with runner_options_size [OF u] runner_options_size [of name "tl u" n t' nested'] words_size_tl [of u]
  show ?thesis by auto
qed

text \<open>\<open>stripRunners\<close>: None for the TypeError, \<open>Some (None, _)\<close> for \<open>null\<close>.\<close>

function stripRunners :: "string list \<Rightarrow> nested \<Rightarrow> (string list option \<times> nested) option" where
  "stripRunners tokens nested =
     (case skip_grammar tokens of
        [] \<Rightarrow> Some (Some [], nested)
      | w # ts \<Rightarrow>
          let name = baseName w in
          if RUNNERS name = None then Some (Some (w # ts), nested)
          else
            (case runner_rest name ts nested of
               None \<Rightarrow> None
             | Some (None, nested') \<Rightarrow> Some (None, nested')
             | Some (Some t, nested') \<Rightarrow>
                 stripRunners t (if name = ''watch'' \<and> t \<noteq> [] then nested' @ [join '' '' t] else nested')))"
  by pat_completeness auto
termination
proof (relation "measure (\<lambda>(t, nested). words_size t)")
  fix tokens nested w ts name r a n t
  assume "skip_grammar tokens = w # ts" "runner_rest name ts nested = Some r" "(a, n) = r" "a = Some t"
  then have "words_size t \<le> words_size ts" "Suc (length w) + words_size ts \<le> words_size tokens"
    using skip_grammar_size [of tokens] by (auto dest: runner_rest_size)
  then show "((t, if name = ''watch'' \<and> t \<noteq> [] then n @ [join '' '' t] else n), tokens, nested)
      \<in> measure (\<lambda>(t, nested). words_size t)" by simp
qed simp

declare stripRunners.simps [simp del]

lemma stripRunners_size:
  "stripRunners t nested = Some (Some t', nested') \<Longrightarrow> words_size t' \<le> words_size t"
proof (induction t nested rule: stripRunners.induct)
  case (1 t nested)
  show ?case
  proof (cases "skip_grammar t")
    case Nil
    with "1.prems" show ?thesis by (simp add: stripRunners.simps [of t])
  next
    case (Cons w ts)
    note size = skip_grammar_size [of t, unfolded Cons]
    show ?thesis
    proof (cases "RUNNERS (baseName w) = None")
      case True
      with "1.prems" Cons size show ?thesis by (simp add: stripRunners.simps [of t])
    next
      case False
      with "1.prems" Cons obtain u n where u: "runner_rest (baseName w) ts nested = Some (Some u, n)"
        by (auto simp: stripRunners.simps [of t] Let_def split: option.splits)
      with "1.prems" Cons False
      have "stripRunners u (if baseName w = ''watch'' \<and> u \<noteq> [] then n @ [join '' '' u] else n) = Some (Some t', nested')"
        by (simp add: stripRunners.simps [of t])
      from "1.IH" [OF Cons refl False u refl refl this] runner_rest_size [OF u] size show ?thesis by simp
    qed
  qed
qed

subsection \<open>Options of one program\<close>

fun options_loop :: "string list \<Rightarrow> string list \<Rightarrow> string list" where
  "options_loop valued [] = []"
| "options_loop valued (a # rest) =
     (if starts_dash a \<and> a \<noteq> ''-'' then
        (if a = ''--'' then rest
         else options_loop valued (if a \<in> set valued then tl rest else rest))
      else a # rest)"

definition afterOptions :: "string list \<Rightarrow> string list \<Rightarrow> string list" where
  "afterOptions argv valueOptions = options_loop valueOptions (tl argv)"

text \<open>The letters of a short option cluster, up to the first that takes a value.\<close>

fun short_letters :: "string list \<Rightarrow> string \<Rightarrow> string \<times> bool" where
  "short_letters valued [] = ([], False)"
| "short_letters valued (l # ls) =
     (if [CHR ''-'', l] \<in> set valued then ([l], ls = [])
      else let (letters, takesNext) = short_letters valued ls in (l # letters, takesNext))"

definition shortLetters :: "string \<Rightarrow> string list \<Rightarrow> string \<times> bool" where
  "shortLetters token valueFlags = short_letters valueFlags (tl token)"

subsection \<open>The line or the script a shell is given\<close>

definition set_option :: "string \<Rightarrow> bool" where
  "set_option a = (a \<in> {''-o'', ''-O'', ''+o'', ''+O''} \<or> a = ''--rcfile'' \<or> a = ''--init-file'')"

definition letter_cluster :: "string \<Rightarrow> bool" where
  "letter_cluster a = (2 \<le> length a \<and> hd a = CHR ''-'' \<and> list_all is_alpha (tl a))"

definition skipped_option :: "string \<Rightarrow> bool" where
  "skipped_option a = (starts_dash a \<or> (starts_with ''+'' a \<and> 1 < length a))"

fun command_string :: "bool \<Rightarrow> bool \<Rightarrow> string list \<Rightarrow> string option" where
  "command_string isScript flagged [] = None"
| "command_string isScript flagged (a # rest) =
     (if starts_with ''--command='' a then Some (drop 10 a)
      else if a = ''--command'' then at_index rest 0
      else if a = ''--'' then (if flagged then at_index rest 0 else None)
      else if set_option a then command_string isScript flagged (tl rest)
      else if letter_cluster a \<and> CHR ''c'' \<in> set a then
        (if isScript then
           (if last a = CHR ''c'' then at_index rest 0 else Some (tl (dropWhile (\<lambda>x. x \<noteq> CHR ''c'') a)))
         else command_string isScript True rest)
      else if skipped_option a then command_string isScript flagged rest
      else if flagged then Some a else None)"

definition commandString :: "string list \<Rightarrow> string option" where
  "commandString argv = command_string (baseName (hd argv) = ''script'') False (tl argv)"

fun script_operand :: "string list \<Rightarrow> string option" where
  "script_operand [] = None"
| "script_operand (a # rest) =
     (if letter_cluster a \<and> CHR ''s'' \<in> set a then None
      else if set_option a then script_operand (tl rest)
      else if a = ''--'' then at_index rest 0
      else if skipped_option a then script_operand rest
      else Some a)"

definition scriptOperand :: "string list \<Rightarrow> string option" where
  "scriptOperand argv = script_operand (tl argv)"

subsection \<open>Interactive shells\<close>

text \<open>\<open>/^(?:\\/[cr].*|-c|-command|-file|-encodedcommand)$/i\<close>\<close>

definition windows_shell_line :: "string \<Rightarrow> bool" where
  "windows_shell_line a = rx_test (ignore_case (seqs [Bol,
     alts [seqs [lit ''/'', one_of ''cr'', Star dot_c], lit ''-c'', lit ''-command'', lit ''-file'', lit ''-encodedcommand''],
     Eol])) a"

fun some_m :: "('a \<Rightarrow> bool option) \<Rightarrow> 'a list \<Rightarrow> bool option" where
  "some_m f [] = Some False"
| "some_m f (x # xs) =
     (case f x of None \<Rightarrow> None | Some True \<Rightarrow> Some True | Some False \<Rightarrow> some_m f xs)"

text \<open>
  \<open>runsBareShell\<close> over what decides about one argument vector, and \<open>isBareShell\<close> over what
  decides about a line. The number is what is left of \<open>MAX_DEPTH\<close>.
\<close>

definition bare_in :: "(string list \<Rightarrow> bool option) \<Rightarrow> string \<Rightarrow> bool option" where
  "bare_in bare line =
     some_m (\<lambda>(segment, piped).
       case stripRunners (tokenize segment) [] of
         None \<Rightarrow> None
       | Some (Some (w # argv), _) \<Rightarrow> bare (w # argv)
       | Some _ \<Rightarrow> Some False) (splitSegments line)"

definition bare_shell :: "(string \<Rightarrow> bool option) \<Rightarrow> string list \<Rightarrow> bool option" where
  "bare_shell deeper argv =
     (if lower (commandName (hd argv)) \<in> set WINDOWS_SHELLS then
        Some (\<not> list_ex windows_shell_line (tl argv))
      else if baseName (hd argv) \<notin> set SHELLS then Some False
      else case commandString argv of None \<Rightarrow> Some True | Some line \<Rightarrow> deeper line)"

primrec isBareShell :: "nat \<Rightarrow> string list \<Rightarrow> bool option" where
  "isBareShell 0 = bare_shell (\<lambda>line. Some False)"
| "isBareShell (Suc n) = bare_shell (bare_in (isBareShell n))"

definition runsBareShell :: "string \<Rightarrow> bool option" where
  "runsBareShell line = bare_in (isBareShell MAX_DEPTH) line"

subsection \<open>Escalators\<close>

record escalation_state =
  es_target :: "string list option"
  es_shellFlag :: bool
  es_command :: "string option"
  es_namedUser :: bool

definition sudo_like :: "string \<Rightarrow> bool" where
  "sudo_like name = (name = ''sudo'' \<or> name = ''doas'')"

definition su_like :: "string \<Rightarrow> bool" where
  "su_like name = (name = ''su'' \<or> name = ''runuser'')"

definition long_option :: "string \<Rightarrow> string \<Rightarrow> string list \<Rightarrow> escalation_state \<Rightarrow> escalation_state" where
  "long_option name flag rest st =
     (let long = before_eq flag in
      st\<lparr>es_shellFlag := es_shellFlag st \<or> long = ''--login'' \<or> (long = ''--shell'' \<and> sudo_like name),
         es_command := (if long = ''--command'' \<or> long = ''--session-command''
                        then Some (case after_eq flag of Some v \<Rightarrow> v | None \<Rightarrow> nullish (at_index rest 0) [])
                        else es_command st),
         es_namedUser := es_namedUser st \<or> long = ''--user''\<rparr>)"

definition short_option :: "string \<Rightarrow> string \<Rightarrow> string list \<Rightarrow> string \<times> bool \<Rightarrow> escalation_state \<Rightarrow> escalation_state" where
  "short_option name flag rest lt st =
     (let (letters, takesNext) = lt in
      st\<lparr>es_shellFlag := es_shellFlag st \<or> (sudo_like name \<and> (CHR ''i'' \<in> set letters \<or> CHR ''s'' \<in> set letters))
           \<or> (su_like name \<and> CHR ''l'' \<in> set letters),
         es_namedUser := es_namedUser st \<or> (su_like name \<and> CHR ''u'' \<in> set letters),
         es_command := (if su_like name \<and> letters \<noteq> [] \<and> last letters = CHR ''c''
                        then Some (if takesNext then nullish (at_index rest 0) []
                                   else tl (dropWhile (\<lambda>x. x \<noteq> CHR ''c'') flag))
                        else es_command st)\<rparr>)"

function escalation_loop :: "string \<Rightarrow> string list \<Rightarrow> escalation_state \<Rightarrow> escalation_state" where
  "escalation_loop name [] st = st"
| "escalation_loop name (flag # rest) st =
     (if flag = ''--'' then st\<lparr>es_target := Some rest\<rparr>
      else if \<not> starts_dash flag \<or> flag = ''-'' then
        (if \<not> su_like name \<or> (name = ''runuser'' \<and> es_namedUser st) then st\<lparr>es_target := Some (flag # rest)\<rparr>
         else escalation_loop name rest st)
      else if starts_with ''--'' flag then
        escalation_loop name
          (if after_eq flag = None \<and> before_eq flag \<in> set (ESCALATOR_VALUE_FLAGS name) then tl rest else rest)
          (long_option name flag rest st)
      else
        let lt = shortLetters flag (ESCALATOR_VALUE_FLAGS name)
        in escalation_loop name (if snd lt then tl rest else rest) (short_option name flag rest lt st))"
  by pat_completeness auto
termination
  by (relation "measure (\<lambda>(name, rest, st). length rest)") auto

abbreviation runs_shell :: "string \<Rightarrow> nested \<Rightarrow> (bool \<times> string list \<times> nested) option" where
  "runs_shell line nested \<equiv>
     (case runsBareShell line of None \<Rightarrow> None | Some sh \<Rightarrow> Some (sh, [], nested @ [line]))"

definition asks_help :: "string list \<Rightarrow> bool" where
  "asks_help argv = (length argv = 2 \<and> (argv ! 1 = ''--help'' \<or> argv ! 1 = ''--version''))"

text \<open>Whether a shell starts, what is run instead, and the lines to read.\<close>

definition escalation :: "string list \<Rightarrow> nested \<Rightarrow> string \<Rightarrow> (bool \<times> string list \<times> nested) option" where
  "escalation argv nested name =
     (if asks_help argv then Some (False, [], nested)
      else if name = ''runas'' then
        (let program = filter (\<lambda>a. \<not> starts_with ''/'' a) (tl argv) in
         if program = [] then Some (False, [], nested) else runs_shell (join '' '' program) nested)
      else if name = ''gsudo'' \<and> list_all (\<lambda>a. a = ''-k'' \<or> a = ''-K'') (tl argv) then
        Some (length argv = 1, [], nested)
      else
        let st = escalation_loop name (tl argv)
                   \<lparr>es_target = None, es_shellFlag = False, es_command = None, es_namedUser = False\<rparr>;
            target = nullish (es_target st) []
        in (case es_command st of
              Some line \<Rightarrow> runs_shell line nested
            | None \<Rightarrow>
                if name = ''su'' then Some (True, [], nested)
                else if name = ''runuser'' then
                  Some (if es_namedUser st \<and> target \<noteq> [] then (False, target, nested) else (True, [], nested))
                else if name \<in> {''pkexec'', ''run0'', ''systemd-run'', ''gsudo'', ''nsenter''} then
                  Some (target = [], target, nested)
                else Some (es_shellFlag st, target, nested)))"

end
