(* ===== verification/Shell_Walk.thy ===== *)
theory Shell_Walk
  imports Shell_Words "HOL-Library.Multiset"
begin

section \<open>The command walk (main/services/policyEngine.ts)\<close>

text \<open>
  What one segment runs once its wrappers and escalators are stepped through
  (\<open>unwrapSegment\<close>), the walk over a line and every line it hands to another program
  (\<open>walkCommand\<close>), and the verdict on the line (\<open>classifyCommand\<close>). The walk calls a visitor
  for each argument vector; here it returns the facts it would visit, in order. None is the
  TypeError of \<open>stripRunners\<close>.
\<close>

subsection \<open>What is known of a segment\<close>

record SegmentFacts =
  sf_segment :: string
  sf_head :: "string list"
  sf_escalated :: bool
  sf_shell :: bool
  sf_computed :: bool
  sf_nsRoot :: bool
  sf_argv :: "string list"

definition UNREADABLE_WORD :: "string \<Rightarrow> bool" where
  "UNREADABLE_WORD w = (list_ex (\<lambda>c. c \<in> set ''(){}$`*?[]<>%!'') w \<or> starts_with ''='' w)"

definition PARALLEL_VALUE_OPTIONS :: "string list" where
  "PARALLEL_VALUE_OPTIONS =
     [''-j'', ''-S'', ''-a'', ''-I'', ''-n'', ''-N'', ''-P'', ''--jobs'', ''--sshlogin'', ''--arg-file'']"

definition SCRIPTBLOCK_RUNNERS :: "string list" where
  "SCRIPTBLOCK_RUNNERS = [''invoke-command'', ''icm'', ''start-job'', ''sajb'', ''start-threadjob'']"

definition POWERSHELL_VALUE_OPTIONS :: "string \<Rightarrow> bool" where
  "POWERSHELL_VALUE_OPTIONS a =
     (lower a \<in> (\<lambda>n. CHR ''-'' # n) ` set [''ex'', ''executionpolicy'', ''ep'', ''w'', ''windowstyle'', ''v'', ''version'',
        ''wd'', ''workingdirectory'', ''o'', ''outputformat'', ''of'', ''i'', ''inputformat'', ''if'', ''config'',
        ''configurationname'', ''psconsolefile'', ''settingsfile'', ''custompipename''])"

text \<open>The variables of \<open>unwrapSegment\<close> beside the words.\<close>

record unwrapping =
  uw_escalated :: bool
  uw_shell :: bool
  uw_unreadable :: bool
  uw_nsRoot :: bool
  uw_nested :: "string list"
  uw_siblings :: "string list list"

definition push_nested :: "string list \<Rightarrow> unwrapping \<Rightarrow> unwrapping" where
  "push_nested lines u = u\<lparr>uw_nested := uw_nested u @ lines\<rparr>"

abbreviation push_option :: "string option \<Rightarrow> unwrapping \<Rightarrow> unwrapping" where
  "push_option line u \<equiv> push_nested (case line of None \<Rightarrow> [] | Some l \<Rightarrow> [l]) u"

definition unreadable_if :: "bool \<Rightarrow> unwrapping \<Rightarrow> unwrapping" where
  "unreadable_if b u = u\<lparr>uw_unreadable := uw_unreadable u \<or> b\<rparr>"

definition escalate_if :: "bool \<Rightarrow> unwrapping \<Rightarrow> unwrapping" where
  "escalate_if b u = u\<lparr>uw_escalated := uw_escalated u \<or> b\<rparr>"

definition shell_if :: "bool \<Rightarrow> unwrapping \<Rightarrow> unwrapping" where
  "shell_if b u = u\<lparr>uw_shell := uw_shell u \<or> b\<rparr>"

subsection \<open>The command word\<close>

definition strip_home :: "string \<Rightarrow> string" where
  "strip_home w =
     (if starts_with ''$HOME/'' w then drop 5 w
      else if starts_with ''${HOME}/'' w then drop 7 w
      else if starts_with ''~/'' w then drop 1 w else w)"

text \<open>\<open>/^(.*\\bcmd(?:\\.exe)?)(\\/[a-z].*)$/i\<close>, the first split a backtracking matcher finds.\<close>

definition glued_prefix :: rx where
  "glued_prefix = ignore_case (seqs [Bol, Star dot_c, WordB, lit ''cmd'', opt (lit ''.exe'')])"

definition glued_suffix :: rx where
  "glued_suffix = ignore_case (seqs [lit ''/'', Cls is_lower, Star dot_c, Eol])"

definition split_glued :: "string \<Rightarrow> string list" where
  "split_glued w =
     (case find (\<lambda>j. ends glued_suffix w j \<noteq> []) (ends glued_prefix w 0) of
        None \<Rightarrow> [w]
      | Some j \<Rightarrow> [take j w, drop j w])"

definition command_word :: "string list \<Rightarrow> string list" where
  "command_word stripped = split_glued (strip_home (hd stripped)) @ tl stripped"

definition program_name :: "string list \<Rightarrow> string" where
  "program_name argv =
     (let windowsName = lower (commandName (hd argv)) in
      if baseName (hd argv) \<notin> set ESCALATORS \<and> windowsName \<in> set WINDOWS_ESCALATORS then windowsName
      else baseName (hd argv))"

subsection \<open>What the programs that run lines are given\<close>

text \<open>\<open>/^(?:-|\\/dev\\/stdin|\\/dev\\/fd\\/\\d+|<\\(.*)$/\<close>\<close>

definition stdin_script :: "string \<Rightarrow> bool" where
  "stdin_script = rx_test (seqs [Bol,
     alts [lit ''-'', lit ''/dev/stdin'', seqs [lit ''/dev/fd/'', many1 (Cls is_digit)], seqs [lit ''<('', Star dot_c]],
     Eol])"

definition read_shell :: "string \<Rightarrow> string list \<Rightarrow> bool \<Rightarrow> unwrapping \<Rightarrow> unwrapping" where
  "read_shell name argv stdinFed u =
     (if name \<notin> set SHELLS then u
      else case commandString argv of
             Some line \<Rightarrow> push_nested [line] u
           | None \<Rightarrow> unreadable_if (case scriptOperand argv of None \<Rightarrow> stdinFed | Some s \<Rightarrow> stdin_script s) u)"

definition findAction :: "string \<Rightarrow> bool" where
  "findAction a = (a \<in> {''-exec'', ''-execdir'', ''-ok'', ''-okdir''})"

abbreviation ends_action :: "string \<Rightarrow> bool" where
  "ends_action a \<equiv> a = '';'' \<or> a = ''+''"

function find_targets :: "string list \<Rightarrow> string list list" where
  "find_targets [] = []"
| "find_targets (a # rest) =
     (if \<not> findAction a then find_targets rest
      else
        let cmd = takeWhile (\<lambda>x. \<not> ends_action x) rest
        in (if cmd = [] then [] else [cmd]) @ find_targets (tl (dropWhile (\<lambda>x. \<not> ends_action x) rest)))"
  by pat_completeness auto
termination
  by (relation "measure length") (auto intro: le_imp_less_Suc order_trans [OF diff_le_self length_dropWhile_le])

definition find_siblings :: "string \<Rightarrow> string list \<Rightarrow> string list list" where
  "find_siblings name argv =
     (if name = ''find'' then find_targets (tl argv)
      else if starts_dash (hd argv) \<and> list_ex findAction argv then find_targets argv
      else [])"

definition read_sg :: "string \<Rightarrow> string list \<Rightarrow> unwrapping \<Rightarrow> unwrapping" where
  "read_sg name argv u =
     (if name \<noteq> ''sg'' then u
      else
        let cmd = filter (\<lambda>a. a \<noteq> ''-c'') (tl (filter (\<lambda>a. a \<noteq> ''-'') (tl argv))) in
        if cmd = [] then u else push_nested [join '' '' cmd] u)"

definition parallel_source :: "string \<Rightarrow> bool" where
  "parallel_source a = (a \<in> {'':::'', ''::::'', '':::+'', ''::::+''})"

fun parallel_options :: "string list \<Rightarrow> string list" where
  "parallel_options [] = []"
| "parallel_options (a # rest) =
     (if starts_dash a then parallel_options (if a \<in> set PARALLEL_VALUE_OPTIONS then tl rest else rest)
      else a # rest)"

definition read_parallel :: "string \<Rightarrow> string list \<Rightarrow> unwrapping \<Rightarrow> unwrapping" where
  "read_parallel name argv u =
     (if name \<noteq> ''parallel'' then u
      else
        let rest = parallel_options (tl argv);
            template = takeWhile (\<lambda>a. \<not> parallel_source a) rest
        in if template \<noteq> [] then push_nested [join '' '' template] u
           else push_nested (filter (\<lambda>a. \<not> parallel_source a) (tl rest)) u)"

text \<open>One switch of \<open>cmd\<close>: its letter, its value, and what follows.\<close>

definition cmd_switch :: "string \<Rightarrow> (char \<times> string \<times> string) option" where
  "cmd_switch line =
     (case dropWhile is_ws line of
        s # l # r \<Rightarrow>
          if s = CHR ''/'' \<and> is_alpha l then
            (if starts_with '':'' r \<and> takeWhile is_word (tl r) \<noteq> []
             then Some (l, CHR '':'' # takeWhile is_word (tl r), dropWhile is_word (tl r))
             else Some (l, [], r))
          else None
      | _ \<Rightarrow> None)"

lemma cmd_switch_less: "cmd_switch line = Some (l, v, r) \<Longrightarrow> length r < length line"
proof -
  assume a: "cmd_switch line = Some (l, v, r)"
  then obtain s t where d: "dropWhile is_ws line = s # l # t" "r = t \<or> r = dropWhile is_word (tl t)"
    by (auto simp: cmd_switch_def split: list.splits if_splits)
  have "length (dropWhile is_word (tl t)) \<le> length t"
    using length_dropWhile_le [of is_word "tl t"] by simp
  with d length_dropWhile_le [of is_ws line] show ?thesis by auto
qed

function cmd_switches :: "string \<Rightarrow> bool \<Rightarrow> bool \<Rightarrow> string \<times> bool \<times> bool" where
  "cmd_switches line runs unreadable =
     (case cmd_switch line of
        None \<Rightarrow> (line, runs, unreadable)
      | Some (l, v, r) \<Rightarrow>
          cmd_switches r (runs \<or> lower_char l \<in> set ''ckr'')
            (unreadable \<or> (lower_char l = CHR ''v'' \<and> lower v = '':on'')))"
  by pat_completeness auto
termination
  by (relation "measure (\<lambda>(line, runs, unreadable). length line)") (auto dest: cmd_switch_less)

declare cmd_switches.simps [simp del]

definition read_cmd :: "string \<Rightarrow> string list \<Rightarrow> unwrapping \<Rightarrow> unwrapping" where
  "read_cmd windows argv u =
     (if windows \<noteq> ''cmd'' then u
      else
        let rest = dropWhile (\<lambda>a. \<not> starts_with ''/'' a) (tl argv) in
        if rest = [] then u
        else
          let (line, runs, unreadable) = cmd_switches (join '' '' rest) False False;
              line = trim line; u = unreadable_if unreadable u
          in if runs \<and> line \<noteq> [] then
               push_nested [filter (\<lambda>c. c \<noteq> CHR ''^'') line]
                 (unreadable_if (list_ex (\<lambda>c. c \<in> set ''^%!'') line) u)
             else u)"

definition encoded_flag :: "string \<Rightarrow> bool" where
  "encoded_flag a = (lower a = ''-e'' \<or> lower a = ''-ec'' \<or> (starts_with ''-en'' (lower a) \<and> list_all is_word (drop 3 a)))"

definition flag_prefix :: "string \<Rightarrow> string \<Rightarrow> bool" where
  "flag_prefix full a = (2 \<le> length a \<and> starts_with (lower a) full)"

fun powershell_line :: "string list \<Rightarrow> string option" where
  "powershell_line [] = None"
| "powershell_line (a # rest) =
     (if flag_prefix ''-command'' a then (if rest = [] then None else Some (join '' '' rest))
      else if flag_prefix ''-file'' a then None
      else if starts_dash a then powershell_line (if POWERSHELL_VALUE_OPTIONS a then tl rest else rest)
      else Some (join '' '' (a # rest)))"

definition read_powershell :: "string \<Rightarrow> string list \<Rightarrow> unwrapping \<Rightarrow> unwrapping" where
  "read_powershell windows argv u =
     (if windows \<noteq> ''powershell'' \<and> windows \<noteq> ''pwsh'' then u
      else push_option (powershell_line (tl argv)) (unreadable_if (list_ex encoded_flag argv) u))"

definition read_iex :: "string \<Rightarrow> string list \<Rightarrow> unwrapping \<Rightarrow> unwrapping" where
  "read_iex windows argv u =
     (if (windows = ''iex'' \<or> windows = ''invoke-expression'') \<and> 1 < length argv
      then push_nested [join '' '' (tl argv)] u else u)"

definition read_scriptblock :: "string \<Rightarrow> string list \<Rightarrow> unwrapping \<Rightarrow> unwrapping" where
  "read_scriptblock windows argv u =
     (if windows \<notin> set SCRIPTBLOCK_RUNNERS then u
      else
        let opened = dropWhile (\<lambda>c. c \<noteq> CHR ''{'') (join '' '' (tl argv)) in
        if opened \<noteq> [] \<and> CHR ''}'' \<in> set (tl opened)
        then push_nested [rev (tl (dropWhile (\<lambda>c. c \<noteq> CHR ''}'') (rev (tl opened))))] u
        else unreadable_if True u)"

fun verb_runas :: "string list \<Rightarrow> bool" where
  "verb_runas [] = False"
| "verb_runas (a # rest) =
     (lower a = ''-verb:runas'' \<or> (lower a = ''-verb'' \<and> rest \<noteq> [] \<and> lower (hd rest) = ''runas'') \<or> verb_runas rest)"

definition value_after :: "string \<Rightarrow> string list \<Rightarrow> string option option" where
  "value_after wanted argv =
     (case dropWhile (\<lambda>a. lower a \<noteq> wanted) argv of [] \<Rightarrow> None | _ # rest \<Rightarrow> Some (at_index rest 0))"

definition started_line :: "string list \<Rightarrow> string option" where
  "started_line argv =
     (let file = (case value_after ''-filepath'' argv of
                    Some f \<Rightarrow> f | None \<Rightarrow> find (\<lambda>a. \<not> starts_dash a) (tl argv));
          args = (case value_after ''-argumentlist'' argv of Some a \<Rightarrow> nullish a [] | None \<Rightarrow> [])
      in (case truthy file of None \<Rightarrow> None | Some f \<Rightarrow> Some (trim (f @ '' '' @ args))))"

subsection \<open>One pass\<close>

datatype pass_result = Done "string list" unwrapping | Continue "string list" unwrapping

text \<open>\<open>machinectl shell\<close>, \<open>capsh\<close>, \<open>setpriv\<close> and \<open>unshare\<close>: what each runs.\<close>

definition machinectl_target :: "string list \<Rightarrow> string list" where
  "machinectl_target argv = drop 1 (dropWhile starts_dash (drop 2 argv))"

definition capsh_user :: "string \<Rightarrow> bool" where
  "capsh_user a = (starts_with ''--user='' a \<or> starts_with ''--uid='' a \<or> starts_with ''--gid='' a \<or> a = ''--'')"

definition setpriv_identity :: "string \<Rightarrow> bool" where
  "setpriv_identity = rx_test (seqs [Bol, lit ''--'',
     words [''reuid'', ''regid'', ''ruid'', ''euid'', ''rgid'', ''egid'', ''init-groups'', ''clear-groups'',
            ''keep-groups'', ''groups''], WordB])"

definition unshare_root :: "string \<Rightarrow> bool" where
  "unshare_root a = (a = ''--map-root-user'' \<or> (letter_cluster a \<and> CHR ''r'' \<in> set a))"

definition ns_root_if :: "bool \<Rightarrow> unwrapping \<Rightarrow> unwrapping" where
  "ns_root_if b u = u\<lparr>uw_nsRoot := uw_nsRoot u \<or> b\<rparr>"

abbreviation go_on :: "string list \<Rightarrow> unwrapping \<Rightarrow> pass_result option" where
  "go_on target u \<equiv> Some (if target = [] then Done [] u else Continue target u)"

text \<open>The programs of the last part of the pass: none of them steps aside for another.\<close>

definition read_programs :: "string \<Rightarrow> string \<Rightarrow> string list \<Rightarrow> unwrapping \<Rightarrow> unwrapping" where
  "read_programs name windows argv u =
     read_scriptblock windows argv (read_iex windows argv (read_powershell windows argv
       (read_cmd windows argv (read_parallel name argv (read_sg name argv u)))))"

definition start_process :: "string list \<Rightarrow> unwrapping \<Rightarrow> pass_result option" where
  "start_process argv u =
     (let u = escalate_if True u in
      case started_line argv of
        None \<Rightarrow> Some (Done [] u)
      | Some line \<Rightarrow>
          (case runsBareShell line of
             None \<Rightarrow> None
           | Some sh \<Rightarrow> Some (Done [] (shell_if sh (push_nested [line] u)))))"

definition last_reads :: "string \<Rightarrow> string list \<Rightarrow> unwrapping \<Rightarrow> unwrapping" where
  "last_reads name argv u =
     push_nested ((if name = ''eval'' \<and> 1 < length argv then [join '' '' (tl argv)] else [])
       @ (if name = ''script'' then (case commandString argv of None \<Rightarrow> [] | Some l \<Rightarrow> [l]) else [])) u"

definition run_program :: "string \<Rightarrow> bool \<Rightarrow> string list \<Rightarrow> unwrapping \<Rightarrow> pass_result option" where
  "run_program name stdinFed argv u =
     (let windows = lower (commandName (hd argv));
          u = read_shell name argv stdinFed u;
          targets = find_siblings name argv
      in if targets \<noteq> [] then Some (Done [] (u\<lparr>uw_siblings := uw_siblings u @ targets\<rparr>))
         else
           let u = read_programs name windows argv u in
           if windows \<in> {''start-process'', ''saps'', ''start''} \<and> verb_runas argv then start_process argv u
           else
             (case (if uw_escalated u then isBareShell MAX_DEPTH argv else Some False) of
                None \<Rightarrow> None
              | Some sh \<Rightarrow> Some (Done argv (last_reads name argv (shell_if sh u)))))"

definition step_through :: "bool \<Rightarrow> string list \<Rightarrow> unwrapping \<Rightarrow> pass_result option" where
  "step_through stdinFed argv u =
     (let name = program_name argv in
      if name = ''sudoedit'' then Some (Done [] (escalate_if True u))
      else if name = ''machinectl'' \<and> at_index argv 1 = Some ''shell'' then
        (let u = escalate_if True u; cmd = machinectl_target argv
         in Some (if cmd = [] then Done [] (shell_if True u) else Continue cmd u))
      else if (name \<in> set ESCALATORS \<or> name \<in> {''capsh'', ''setpriv'', ''unshare''}) \<and> asks_help argv then
        Some (Done [] u)
      else if name = ''capsh'' then
        (let u = escalate_if (list_ex capsh_user argv) u
         in Some (if ''--'' \<in> set argv then Continue (''bash'' # tl (dropWhile (\<lambda>a. a \<noteq> ''--'') argv)) u else Done argv u))
      else if name = ''setpriv'' then
        go_on (afterOptions argv SETPRIV_VALUE_OPTIONS) (escalate_if (list_ex setpriv_identity argv) u)
      else if name = ''unshare'' then
        go_on (afterOptions argv UNSHARE_VALUE_OPTIONS) (ns_root_if (list_ex unshare_root argv) u)
      else if name \<in> set ESCALATORS then
        (case escalation argv (uw_nested u) name of
           None \<Rightarrow> None
         | Some (shell, target, nested) \<Rightarrow>
             go_on target (shell_if shell (escalate_if True (u\<lparr>uw_nested := nested\<rparr>))))
      else run_program name stdinFed argv u)"

definition unwrap_pass :: "bool \<Rightarrow> bool \<Rightarrow> string list \<Rightarrow> unwrapping \<Rightarrow> pass_result option" where
  "unwrap_pass first stdinFed t u =
     (case (if first then Some (Some t, uw_nested u) else stripRunners t (uw_nested u)) of
        None \<Rightarrow> None
      | Some (stripped, nested) \<Rightarrow>
          let u = u\<lparr>uw_nested := nested\<rparr> in
          (case nullish stripped [] of
             [] \<Rightarrow> Some (Done [] u)
           | w # ts \<Rightarrow> step_through stdinFed (command_word (w # ts)) u))"

primrec unwrap_loop :: "nat \<Rightarrow> bool \<Rightarrow> bool \<Rightarrow> string list \<Rightarrow> unwrapping \<Rightarrow> (string list \<times> unwrapping) option" where
  "unwrap_loop 0 first stdinFed t u = Some ([], u)"
| "unwrap_loop (Suc n) first stdinFed t u =
     (case unwrap_pass first stdinFed t u of
        None \<Rightarrow> None
      | Some (Done argv u') \<Rightarrow> Some (argv, u')
      | Some (Continue t' u') \<Rightarrow> unwrap_loop n False stdinFed t' u')"

definition segment_facts :: "string list \<Rightarrow> string list \<Rightarrow> unwrapping \<Rightarrow> SegmentFacts" where
  "segment_facts head argv u =
     \<lparr>sf_segment = [], sf_head = head, sf_escalated = uw_escalated u, sf_shell = uw_shell u,
      sf_computed = (uw_unreadable u \<or> (argv \<noteq> [] \<and> hd argv \<noteq> ''['' \<and> UNREADABLE_WORD (hd argv))),
      sf_nsRoot = uw_nsRoot u, sf_argv = argv\<rparr>"

definition unwrapSegment :: "string list \<Rightarrow> nested \<Rightarrow> bool \<Rightarrow> (SegmentFacts \<times> nested \<times> string list list) option" where
  "unwrapSegment tokens nested stdinFed =
     do {
       (stripped, nested) \<leftarrow> stripRunners tokens nested;
       let head = nullish stripped [];
       (argv, u) \<leftarrow> unwrap_loop (Suc (MAX_DEPTH * 3)) True stdinFed head
         \<lparr>uw_escalated = False, uw_shell = False, uw_unreadable = False, uw_nsRoot = False,
          uw_nested = nested, uw_siblings = []\<rparr>;
       Some (segment_facts head argv u, uw_nested u, uw_siblings u)
     }"

subsection \<open>A sibling is smaller than its segment\<close>

lemma command_word_size: "s \<noteq> [] \<Longrightarrow> words_size (command_word s) \<le> Suc (words_size s)"
proof -
  assume s: "s \<noteq> []"
  have h: "length (strip_home w) \<le> length w" for w by (auto simp: strip_home_def)
  have "words_size (split_glued w) \<le> Suc (Suc (length w))" for w
    by (auto simp: split_glued_def split: option.splits)
  from this [of "strip_home (hd s)"] h [of "hd s"] s show ?thesis
    by (cases s) (auto simp: command_word_def words_size_def)
qed

lemma dropWhile_hit: "x \<in> set xs \<Longrightarrow> \<exists>ys. dropWhile (\<lambda>a. a \<noteq> x) xs = x # ys"
  by (induction xs) auto

lemma baseName_length: "length (baseName t) \<le> length t"
proof -
  have "length (last (split_on c s)) \<le> length s" for c s
    by (induction s) (auto split: list.splits if_splits)
  then show ?thesis by (simp add: baseName_def)
qed

lemma find_targets_size: "t \<in> set (find_targets argv) \<Longrightarrow> words_size t + 4 \<le> words_size argv"
proof (induction argv rule: find_targets.induct)
  case (2 a rest)
  let ?P = "\<lambda>x. \<not> ends_action x"
  have split: "words_size rest = words_size (takeWhile ?P rest) + words_size (dropWhile ?P rest)"
    by (rule words_size_split)
  show ?case
  proof (cases "findAction a")
    case False
    with 2 show ?thesis by auto
  next
    case True
    then have a: "3 \<le> length a" by (auto simp: findAction_def)
    have tl: "words_size (tl (dropWhile ?P rest)) \<le> words_size (dropWhile ?P rest)" by (rule words_size_tl)
    from "2.prems" True consider "t = takeWhile ?P rest" | "t \<in> set (find_targets (tl (dropWhile ?P rest)))"
      by (auto simp: Let_def split: if_splits)
    then show ?thesis
    proof cases
      case 1
      with split a show ?thesis by simp
    next
      case 2
      with "2.IH" True have "words_size t + 4 \<le> words_size (tl (dropWhile ?P rest))" by (simp add: Let_def)
      with tl split a show ?thesis by simp
    qed
  qed
qed simp

lemma find_siblings_size: "t \<in> set (find_siblings name argv) \<Longrightarrow> words_size t + 4 \<le> words_size argv"
  using find_targets_size [of t argv] find_targets_size [of t "tl argv"] words_size_tl [of argv]
  by (auto simp: find_siblings_def split: if_splits)

lemma options_loop_size: "words_size (options_loop valued t) \<le> words_size t"
proof (induction valued t rule: options_loop.induct)
  case (2 valued a rest)
  then show ?case using words_size_tl [of rest] by auto
qed simp

lemma escalation_loop_target:
  "es_target (escalation_loop name rest st) = Some r \<Longrightarrow> es_target st = Some r \<or> words_size r \<le> words_size rest"
proof (induction name rest st rule: escalation_loop.induct)
  case (2 name flag rest st)
  have e: "es_target (long_option name flag rest st) = es_target st"
    "es_target (short_option name flag rest lt st) = es_target st" for lt
    by (auto simp: long_option_def short_option_def Let_def split: prod.splits)
  show ?case
    using 2 words_size_tl [of rest] by (auto simp: e Let_def split: if_splits)
qed simp

lemma escalation_size:
  assumes "escalation argv nested name = Some (sh, target, nested')" "argv \<noteq> []"
  shows "Suc (words_size target) \<le> words_size argv"
proof -
  have bound: "Suc (words_size (tl argv)) \<le> words_size argv" using assms(2) by (cases argv) auto
  let ?st = "escalation_loop name (tl argv) \<lparr>es_target = None, es_shellFlag = False, es_command = None, es_namedUser = False\<rparr>"
  have t: "words_size (nullish (es_target ?st) []) \<le> words_size (tl argv)"
    using escalation_loop_target [of name "tl argv" "\<lparr>es_target = None, es_shellFlag = False, es_command = None, es_namedUser = False\<rparr>"]
    by (cases "es_target ?st") auto
  have "target = [] \<or> target = nullish (es_target ?st) []"
    using assms(1) by (auto simp: escalation_def Let_def split: if_splits option.splits)
  with t bound show ?thesis by auto
qed

lemma siblings_kept [simp]:
  "uw_siblings (push_nested ls u) = uw_siblings u" "uw_siblings (unreadable_if b u) = uw_siblings u"
  "uw_siblings (escalate_if b u) = uw_siblings u" "uw_siblings (shell_if b u) = uw_siblings u"
  "uw_siblings (ns_root_if b u) = uw_siblings u"
  by (auto simp: push_nested_def unreadable_if_def escalate_if_def shell_if_def ns_root_if_def)

lemma reads_keep_siblings [simp]:
  "uw_siblings (read_shell name argv fed u) = uw_siblings u"
  "uw_siblings (read_programs name windows argv u) = uw_siblings u"
  "uw_siblings (last_reads name argv u) = uw_siblings u"
  by (auto simp: read_shell_def read_programs_def read_scriptblock_def read_iex_def read_powershell_def
      read_cmd_def read_parallel_def read_sg_def last_reads_def Let_def split: option.splits prod.splits)

fun pass_ok :: "nat \<Rightarrow> unwrapping \<Rightarrow> pass_result \<Rightarrow> bool" where
  "pass_ok n u (Continue t u') = (Suc (words_size t) \<le> n \<and> uw_siblings u' = uw_siblings u)"
| "pass_ok n u (Done argv u') =
     (\<forall>s \<in> set (uw_siblings u'). s \<in> set (uw_siblings u) \<or> words_size s + 4 \<le> n)"

lemma run_program_ok:
  "run_program name fed argv u = Some r \<Longrightarrow> pass_ok (words_size argv) u r"
  using find_siblings_size [of _ name argv]
  by (auto simp: run_program_def start_process_def Let_def split: if_splits option.splits)

lemma step_through_ok:
  assumes "argv \<noteq> []" "step_through fed argv u = Some r"
  shows "pass_ok (words_size argv) u r"
proof -
  have tl: "Suc (words_size (tl argv)) \<le> words_size argv" using assms(1) by (cases argv) auto
  have opt: "Suc (words_size (afterOptions argv v)) \<le> words_size argv" for v
    using options_loop_size [of v "tl argv"] tl by (simp add: afterOptions_def)
  have mc: "Suc (words_size (machinectl_target argv)) \<le> words_size argv"
  proof -
    have "words_size (machinectl_target argv) \<le> words_size (drop 2 argv)"
      using words_size_drop [of 1 "dropWhile starts_dash (drop 2 argv)"] words_size_dropWhile [of starts_dash "drop 2 argv"]
      by (simp add: machinectl_target_def)
    also have "\<dots> \<le> words_size (tl argv)" using words_size_drop [of 1 "tl argv"] by (simp add: drop_Suc numeral_2_eq_2)
    finally show ?thesis using tl by simp
  qed
  have cap: "Suc (words_size (''bash'' # tl (dropWhile (\<lambda>a. a \<noteq> ''--'') argv))) \<le> words_size argv"
    if n: "program_name argv = ''capsh''" and d: "''--'' \<in> set argv"
  proof -
    let ?D = "dropWhile (\<lambda>a. a \<noteq> ''--'') argv"
    have "baseName (hd argv) = ''capsh''"
      using n by (auto simp: program_name_def Let_def WINDOWS_ESCALATORS_def split: if_splits)
    with baseName_length [of "hd argv"] have l: "5 \<le> length (hd argv)" by simp
    then obtain w ts where w0: "argv = w # ts" "5 \<le> length w"
      using assms(1) by (cases argv) auto
    then have w: "argv = w # ts" "w \<noteq> ''--''" "5 \<le> length w" by auto
    from dropWhile_hit [OF d] obtain ds where ds: "?D = ''--'' # ds" by blast
    have "words_size (dropWhile (\<lambda>a. a \<noteq> ''--'') ts) \<le> words_size ts" by (rule words_size_dropWhile)
    with ds w show ?thesis by simp
  qed
  show ?thesis
    using assms(2) unfolding step_through_def Let_def
    by (elim if_branch; auto simp: opt mc cap simp del: words_size_simps
        dest: escalation_size [OF _ assms(1)] run_program_ok split: option.splits if_splits)
qed

lemma unwrap_pass_ok:
  assumes "unwrap_pass first fed t u = Some r"
  shows "pass_ok (Suc (words_size t)) u r"
proof -
  obtain stripped nested where s: "(if first then Some (Some t, uw_nested u) else stripRunners t (uw_nested u)) = Some (stripped, nested)"
    using assms by (auto simp: unwrap_pass_def split: option.splits)
  have size: "words_size (nullish stripped []) \<le> words_size t"
    using s stripRunners_size [of t "uw_nested u"] by (cases stripped) (auto split: if_splits)
  let ?u = "u\<lparr>uw_nested := nested\<rparr>"
  show ?thesis
  proof (cases "nullish stripped []")
    case Nil
    with assms s show ?thesis by (auto simp: unwrap_pass_def split: if_splits)
  next
    case (Cons w ts)
    let ?a = "command_word (w # ts)"
    have "?a \<noteq> []" by (auto simp: command_word_def split_glued_def split: option.splits)
    moreover have "step_through fed ?a ?u = Some r"
      using assms s Cons by (auto simp: unwrap_pass_def split: if_splits)
    ultimately have "pass_ok (words_size ?a) ?u r" by (rule step_through_ok)
    moreover have "words_size ?a \<le> Suc (words_size t)"
      using command_word_size [of "w # ts"] size Cons by simp
    ultimately show ?thesis by (cases r) fastforce+
  qed
qed

lemma unwrap_loop_siblings:
  "unwrap_loop n first fed t u = Some (argv, u') \<Longrightarrow> s \<in> set (uw_siblings u') \<Longrightarrow>
     s \<in> set (uw_siblings u) \<or> words_size s + 3 \<le> words_size t"
proof (induction n arbitrary: first t u)
  case (Suc n)
  from Suc.prems(1) obtain r where r: "unwrap_pass first fed t u = Some r" by (auto split: option.splits)
  note ok = unwrap_pass_ok [OF r]
  show ?case
  proof (cases r)
    case (Done v w)
    with r ok Suc.prems show ?thesis by auto
  next
    case (Continue v w)
    with r ok Suc.prems Suc.IH [of False v w] show ?thesis by auto
  qed
qed simp

lemma unwrapSegment_siblings:
  assumes "unwrapSegment tokens nested fed = Some (f, nested', siblings)" "s \<in> set siblings"
  shows "words_size s < words_size tokens"
proof -
  let ?u0 = "\<lambda>n. \<lparr>uw_escalated = False, uw_shell = False, uw_unreadable = False, uw_nsRoot = False,
      uw_nested = n, uw_siblings = []\<rparr>"
  from assms(1) obtain stripped n argv u where
    u: "stripRunners tokens nested = Some (stripped, n)"
       "unwrap_loop (Suc (MAX_DEPTH * 3)) True fed (nullish stripped []) (?u0 n) = Some (argv, u)"
       "siblings = uw_siblings u"
    by (auto simp: unwrapSegment_def bind_eq_Some_conv Let_def simp del: unwrap_loop.simps)
  have "words_size (nullish stripped []) \<le> words_size tokens"
    using u(1) stripRunners_size [of tokens nested] by (cases stripped) auto
  moreover have "words_size s + 3 \<le> words_size (nullish stripped [])"
    using unwrap_loop_siblings [OF u(2)] assms(2) u(3) by auto
  ultimately show ?thesis by simp
qed

subsection \<open>The walk\<close>

text \<open>
  The argument vectors still to visit, with the text each was written in and whether its
  input is fed. The siblings a visit finds come first, as the recursive call does them
  before the next one.
\<close>

type_synonym work_item = "string \<times> string list \<times> bool"

function walk_argvs :: "work_item list \<Rightarrow> nested \<Rightarrow> (SegmentFacts list \<times> nested) option" where
  "walk_argvs [] nested = Some ([], nested)"
| "walk_argvs (item # work) nested =
     (case unwrapSegment (fst (snd item)) nested (snd (snd item)) of
        None \<Rightarrow> None
      | Some (f, nested', siblings) \<Rightarrow>
          map_option (\<lambda>(facts, nested''). (f\<lparr>sf_segment := fst item\<rparr> # facts, nested''))
            (walk_argvs (map (\<lambda>s. ([], s, False)) siblings @ work) nested'))"
  by pat_completeness auto

definition work_size :: "work_item list \<Rightarrow> nat multiset" where
  "work_size work = mset (map (\<lambda>item. words_size (fst (snd item))) work)"

termination walk_argvs
proof (relation "inv_image (mult less_than) (\<lambda>(work, nested). work_size work)")
  show "wf (inv_image (mult less_than) (\<lambda>(work, nested). work_size work))"
    by (intro wf_inv_image wf_mult) simp
next
  fix item :: work_item and work nested r f p nested' siblings
  assume "unwrapSegment (fst (snd item)) nested (snd (snd item)) = Some r" "(f, p) = r" "(nested', siblings) = p"
  then have less: "words_size s < words_size (fst (snd item))" if "s \<in> set siblings" for s
    using that unwrapSegment_siblings by blast
  let ?K = "mset (map words_size siblings)" and ?I = "work_size work"
  have "(?I + ?K, ?I + {#words_size (fst (snd item))#}) \<in> mult less_than"
    using less by (intro one_step_implies_mult) auto
  moreover have "work_size (map (\<lambda>s. ([], s, False)) siblings @ work) = ?I + ?K"
    by (simp add: work_size_def comp_def union_commute del: mset_map)
  moreover have "work_size (item # work) = ?I + {#words_size (fst (snd item))#}"
    by (simp add: work_size_def)
  ultimately show "((map (\<lambda>s. ([], s, False)) siblings @ work, nested'), item # work, nested)
      \<in> inv_image (mult less_than) (\<lambda>(work, nested). work_size work)"
    by simp
qed

fun concat_m :: "('a \<Rightarrow> 'b list option) \<Rightarrow> 'a list \<Rightarrow> 'b list option" where
  "concat_m f [] = Some []"
| "concat_m f (x # xs) =
     (case f x of None \<Rightarrow> None | Some ys \<Rightarrow> map_option (\<lambda>zs. ys @ zs) (concat_m f xs))"

definition unreadable_facts :: SegmentFacts where
  "unreadable_facts =
     \<lparr>sf_segment = [], sf_head = [], sf_escalated = False, sf_shell = False, sf_computed = True,
      sf_nsRoot = False, sf_argv = []\<rparr>"

definition redirectedIn :: "string \<Rightarrow> bool" where
  "redirectedIn segment =
     list_ex (\<lambda>(op, target). starts_with ''<'' op \<and> \<not> starts_with ''('' target) (REDIRECTION_matches segment)"

definition segment_work :: "string \<times> bool \<Rightarrow> work_item" where
  "segment_work = (\<lambda>(segment, piped). (segment, tokenize (withoutRedirections segment), piped \<or> redirectedIn segment))"

text \<open>The walk of one line, given what becomes of the lines nested in it.\<close>

definition walk_line :: "(nested \<Rightarrow> SegmentFacts list option) \<Rightarrow> string \<Rightarrow> SegmentFacts list option" where
  "walk_line deeper command =
     (let (inner, ok) = substitutions command;
          unread = (if \<not> ok \<or> \<not> quotesBalanced command then [unreadable_facts] else [])
      in (case walk_argvs (map segment_work (splitSegments command)) inner of
            None \<Rightarrow> None
          | Some (facts, nested) \<Rightarrow> map_option (\<lambda>more. unread @ facts @ more) (deeper nested)))"

text \<open>\<open>walkCommand\<close>, with what is left of \<open>MAX_DEPTH\<close>.\<close>

primrec walkCommand :: "nat \<Rightarrow> string \<Rightarrow> SegmentFacts list option" where
  "walkCommand 0 = walk_line (\<lambda>nested. Some (if nested = [] then [] else [unreadable_facts]))"
| "walkCommand (Suc n) = walk_line (concat_m (walkCommand n))"

subsection \<open>The verdict\<close>

record CommandClassification =
  cc_isSudo :: bool
  cc_isUnrestrictedShell :: bool
  cc_namespaceRoot :: bool
  cc_computedCommand :: bool

definition UNRESTRICTED_SHELL_PATTERNS :: "rx list" where
  "UNRESTRICTED_SHELL_PATTERNS =
   [seqs [Bol, lit ''sudo'', many1 ws_c, lit ''-i'', WordB],
    seqs [Bol, lit ''sudo'', many1 ws_c, lit ''su'', WordB],
    seqs [Bol, lit ''sudo'', many1 ws_c, lit ''-s'', WordB],
    seqs [Bol, lit ''sudo'', many1 ws_c, opt (Seq (opt (lit ''/usr'')) (lit ''/bin/'')),
          opt (words [''ba'', ''z'', ''da'']), lit ''sh'', WordB],
    seqs [Bol, lit ''sudo'', many1 ws_c, lit ''su'', many1 ws_c, lit ''-''],
    seqs [Bol, lit ''su'', many1 ws_c, opt (lit ''-''), Star ws_c, Eol],
    seqs [Bol, lit ''su'', many1 ws_c, lit ''-'', Star ws_c, Star word_c, Eol]]"

definition unrestricted_text :: "string \<Rightarrow> bool" where
  "unrestricted_text s = list_ex (\<lambda>r. rx_test r s) UNRESTRICTED_SHELL_PATTERNS"

definition sudo_text :: "string \<Rightarrow> bool" where
  "sudo_text s = (rx_test (seqs [Bol, lit ''sudo'', WordB]) s \<or> rx_test (seqs [Bol, lit ''doas'', WordB]) s)"

text \<open>What the visitor of \<open>classifyCommand\<close> does with the facts of one argument vector.\<close>

definition note_facts :: "SegmentFacts \<Rightarrow> CommandClassification \<Rightarrow> CommandClassification" where
  "note_facts f out =
     out\<lparr>cc_isSudo := cc_isSudo out \<or> sf_escalated f,
         cc_isUnrestrictedShell := cc_isUnrestrictedShell out \<or> sf_shell f
           \<or> (sf_head f \<noteq> [] \<and> unrestricted_text (join '' '' (baseName (hd (sf_head f)) # tl (sf_head f)))),
         cc_namespaceRoot := cc_namespaceRoot out \<or> sf_nsRoot f,
         cc_computedCommand := cc_computedCommand out \<or> sf_computed f\<rparr>"

definition classifyCommand :: "string \<Rightarrow> CommandClassification option" where
  "classifyCommand command =
     (let trimmed = trim command in
      case walkCommand MAX_DEPTH trimmed of
        None \<Rightarrow> None
      | Some facts \<Rightarrow>
          let out = foldl (\<lambda>out f. note_facts f out)
                \<lparr>cc_isSudo = sudo_text trimmed, cc_isUnrestrictedShell = unrestricted_text trimmed,
                 cc_namespaceRoot = False, cc_computedCommand = False\<rparr> facts
          in Some (if cc_isUnrestrictedShell out then out\<lparr>cc_isSudo := True\<rparr> else out))"

end
