(* ===== verification/Policy_Command.thy ===== *)
theory Policy_Command
  imports Shell_Walk
begin

section \<open>The verdict on a shell command (main/services/policyEngine.ts)\<close>

text \<open>
  The paths a command line reads and writes (\<open>extractPathAccesses\<close>, from the facts of the
  same walk that classifies it) and \<open>evaluateCommand\<close>, which combines the group's
  capabilities, the classification, the grade of the command text and the path rules into
  one decision. None is the TypeError of the walk.
\<close>

subsection \<open>Tables\<close>

definition READ_COMMANDS :: "string list" where
  "READ_COMMANDS =
   [''cat'', ''bat'', ''head'', ''tail'', ''less'', ''more'', ''nl'', ''tac'', ''rev'', ''strings'', ''xxd'',
    ''od'', ''hexdump'', ''base64'', ''md5sum'', ''sha1sum'', ''sha256sum'', ''sha512sum'', ''cksum'', ''wc'',
    ''cut'', ''sort'', ''uniq'', ''grep'', ''egrep'', ''fgrep'', ''rgrep'', ''awk'', ''diff'', ''cmp'', ''file'',
    ''stat'', ''readlink'', ''realpath'']"

definition WINDOWS_READ_COMMANDS :: "string list" where
  "WINDOWS_READ_COMMANDS =
   [''type'', ''get-content'', ''gc'', ''select-string'', ''get-filehash'', ''format-hex'', ''import-csv'']"

definition WINDOWS_WRITE_COMMANDS :: "string list" where
  "WINDOWS_WRITE_COMMANDS =
   [''del'', ''erase'', ''rd'', ''rmdir'', ''ren'', ''rename'', ''move'', ''copy'', ''xcopy'', ''robocopy'',
    ''set-content'', ''add-content'', ''out-file'', ''remove-item'', ''ri'', ''new-item'', ''set-acl'']"

definition WRITE_COMMANDS :: "string list" where
  "WRITE_COMMANDS =
   [''tee'', ''truncate'', ''shred'', ''rm'', ''unlink'', ''install'', ''ln'', ''touch'', ''mkdir'', ''rmdir'',
    ''chmod'', ''chown'', ''chgrp'', ''dd'']"

definition COPY_COMMANDS :: "string list" where
  "COPY_COMMANDS = [''cp'', ''mv'', ''rsync'', ''scp'']"

definition PREFIXES :: "string list" where
  "PREFIXES = [''sudo'', ''doas'', ''command'', ''env'', ''nohup'', ''time'', ''nice'', ''ionice'', ''stdbuf'']"

definition PREFIX_VALUE_FLAGS :: "string \<Rightarrow> string list" where
  "PREFIX_VALUE_FLAGS wrapper =
     (if wrapper = ''sudo'' then [''-u'', ''-g'', ''-C'', ''-D'', ''-h'', ''-p'', ''-r'', ''-t'', ''-U'', ''-R'']
      else if wrapper = ''doas'' then [''-u'', ''-C'']
      else if wrapper = ''env'' then [''-u'', ''-C'', ''-S'']
      else if wrapper = ''nice'' then [''-n'']
      else if wrapper = ''ionice'' then [''-c'', ''-n'', ''-p'']
      else if wrapper = ''stdbuf'' then [''-i'', ''-o'', ''-e''] else [])"

definition CONTAINER_LIFECYCLE :: rx where
  "CONTAINER_LIFECYCLE = alts
     [seqs [WordB, words [''docker'', ''podman'', ''nerdctl''], opt (Seq (many1 ws_c) (lit ''compose'')),
        opt (Seq (many1 ws_c) (lit ''container'')), many1 ws_c,
        words [''stop'', ''kill'', ''restart'', ''rm'', ''start'', ''pause'', ''unpause'', ''down'', ''prune''], WordB],
      seqs [WordB, lit ''kubectl'', many1 ws_c, words [''delete'', ''scale'', ''drain'', ''cordon'', ''rollout''], WordB]]"

definition STREAM_DEVICE :: rx where
  "STREAM_DEVICE = seqs [Bol, lit ''/dev/'',
     alts [words [''null'', ''zero'', ''stdin'', ''stdout'', ''stderr'', ''tty''], Seq (lit ''fd/'') (many1 (Cls is_digit))],
     Eol]"

subsection \<open>Paths of one argument vector\<close>

type_synonym PathAccess = "string \<times> FileMode"

definition windows_switch :: "string \<Rightarrow> bool" where
  "windows_switch t = (length t = 2 \<and> hd t = CHR ''/'' \<and> (is_alpha (t ! 1) \<or> t ! 1 = CHR ''?''))"

definition inplace_flag :: "string \<Rightarrow> bool" where
  "inplace_flag t = (starts_dash t \<and> CHR ''i'' \<in> set (takeWhile is_word (tl t)))"

fun copy_accesses :: "bool \<Rightarrow> string list \<Rightarrow> PathAccess list" where
  "copy_accesses several [] = []"
| "copy_accesses several (t # ts) =
     (if isAbsolute t then [(t, if ts = [] \<and> several then ModeWrite else ModeRead)] else [])
     @ copy_accesses several ts"

definition dd_operand :: "string \<Rightarrow> PathAccess list" where
  "dd_operand t =
     (let v = drop 3 t in
      if (starts_with ''if='' t \<or> starts_with ''of='' t) \<and> v \<noteq> [] \<and> list_all one_line v \<and> isAbsolute v
      then [(v, if starts_with ''of='' t then ModeWrite else ModeRead)] else [])"

definition argv_mode :: "string list \<Rightarrow> FileMode option" where
  "argv_mode tokens =
     (let name = commandName (hd tokens); lowered = lower name in
      if name = ''sed'' \<or> name = ''perl'' then Some (if list_ex inplace_flag tokens then ModeWrite else ModeRead)
      else if name \<in> set READ_COMMANDS \<or> lowered \<in> set WINDOWS_READ_COMMANDS then Some ModeRead
      else if name \<in> set WRITE_COMMANDS \<or> lowered \<in> set WINDOWS_WRITE_COMMANDS then Some ModeWrite
      else None)"

definition operands_of :: "string list \<Rightarrow> string list" where
  "operands_of tokens =
     (let lowered = lower (commandName (hd tokens));
          isWindowsCmd = (lowered \<in> set WINDOWS_READ_COMMANDS \<or> lowered \<in> set WINDOWS_WRITE_COMMANDS)
      in filter (\<lambda>t. \<not> (isWindowsCmd \<and> windows_switch t)) (filter (\<lambda>t. \<not> starts_dash t) (tl tokens)))"

definition pathsFromArgv :: "string list \<Rightarrow> PathAccess list" where
  "pathsFromArgv tokens =
     (if tokens = [] then []
      else
        let operands = operands_of tokens in
        if commandName (hd tokens) \<in> set COPY_COMMANDS then copy_accesses (1 < length operands) operands
        else
          (case argv_mode tokens of
             None \<Rightarrow> []
           | Some mode \<Rightarrow>
               concat (map (\<lambda>t. (if isAbsolute t then [(t, mode)] else []) @ dd_operand t) operands)))"

subsection \<open>Paths of a command line\<close>

fun prefix_options :: "string list \<Rightarrow> string list \<Rightarrow> string list" where
  "prefix_options valued [] = []"
| "prefix_options valued (a # rest) =
     (if starts_dash a then prefix_options valued (if a \<in> set valued then tl rest else rest) else a # rest)"

lemma prefix_options_length: "length (prefix_options valued t) \<le> length t"
proof (induction valued t rule: prefix_options.induct)
  case (2 valued a rest)
  have "length (tl rest) \<le> length rest" by simp
  with 2 show ?case by (auto split: if_splits intro: order_trans)
qed simp

function strip_prefixes :: "string list \<Rightarrow> string list" where
  "strip_prefixes [] = []"
| "strip_prefixes (w # ts) =
     (if commandName w \<in> set PREFIXES
      then strip_prefixes (dropWhile ASSIGNMENT (prefix_options (PREFIX_VALUE_FLAGS (commandName w)) ts))
      else w # ts)"
  by pat_completeness auto
termination
  by (relation "measure length")
     (auto intro: le_imp_less_Suc order_trans [OF length_dropWhile_le prefix_options_length])

definition is_quote :: "char \<Rightarrow> bool" where
  "is_quote c = (c = quote1 \<or> c = quote2)"

text \<open>\<open>m[2].replace(/^["']|["']$/g, '')\<close>\<close>

definition unquote_ends :: "string \<Rightarrow> string" where
  "unquote_ends t =
     (let s = (if t \<noteq> [] \<and> is_quote (hd t) then tl t else t)
      in if s \<noteq> [] \<and> is_quote (last s) then butlast s else s)"

definition redirect_accesses :: "string \<Rightarrow> PathAccess list" where
  "redirect_accesses segment =
     concat (map (\<lambda>(op, m).
       if isAbsolute (unquote_ends m)
       then [(unquote_ends m, if CHR ''>'' \<in> set op then ModeWrite else ModeRead)] else [])
       (REDIRECTION_matches segment))"

abbreviation joined :: "string list \<Rightarrow> string" where
  "joined ts \<equiv> join [CHR 0x00] ts"

definition fact_accesses :: "SegmentFacts \<Rightarrow> PathAccess list" where
  "fact_accesses f =
     (let tokens = strip_prefixes (tokenize (withoutRedirections (sf_segment f)))
      in redirect_accesses (sf_segment f) @ pathsFromArgv tokens
         @ (if joined (sf_argv f) \<noteq> joined tokens then pathsFromArgv (sf_argv f) else []))"

definition extractPathAccesses :: "string \<Rightarrow> PathAccess list option" where
  "extractPathAccesses command =
     map_option (\<lambda>facts. dedup (filter (\<lambda>(path, mode). \<not> rx_test STREAM_DEVICE path) (concat (map fact_accesses facts))))
       (walkCommand MAX_DEPTH command)"

subsection \<open>The decision\<close>

abbreviation allows :: "AccessGroup \<Rightarrow> AiCapability \<Rightarrow> bool" where
  "allows g cap \<equiv> decision (evaluateCapability (Some g) cap) = Allow"

text \<open>The base decision, before anything turns an allow into a question.\<close>

definition command_base :: "AccessGroup \<Rightarrow> bool \<Rightarrow> Decision" where
  "command_base g isSudo =
     (if isSudo then
        (if decision (evaluateCapability (Some g) Sudo) = Ask then decide Ask ''Sudo commands require approval.''
         else decide Allow ''Sudo allowed by access group.'')
      else
        (if decision (evaluateCapability (Some g) Terminal) = Ask
         then decide Ask ''Terminal commands require approval for this access group.''
         else decide Allow ''Allowed by access group.''))"

definition ask_if :: "bool \<Rightarrow> string \<Rightarrow> Decision \<Rightarrow> Decision" where
  "ask_if b why base = (if b \<and> decision base = Allow then decide Ask why else base)"

definition beyond_sudo :: "RiskAssessment \<Rightarrow> string list" where
  "beyond_sudo a = filter (\<lambda>r. r \<noteq> SUDO_REASON) (ra_reasons a)"

definition risk_asks :: "AccessGroup \<Rightarrow> bool \<Rightarrow> RiskAssessment \<Rightarrow> bool" where
  "risk_asks g isSudo a =
     (let sudoGranted = (isSudo \<and> allows g Sudo);
          waived = (sudoGranted \<and> ra_risk a = Elevated);
          walksPastWrites = (ra_risk a = Destructive \<and> \<not> allows g WriteFiles)
      in (confirmsRisky g \<or> walksPastWrites) \<and> ra_risk a \<noteq> Ordinary \<and> beyond_sudo a \<noteq> [] \<and> \<not> waived)"

definition path_verdict :: "AccessGroup option \<Rightarrow> Decision \<Rightarrow> PathAccess \<Rightarrow> Decision" where
  "path_verdict grp acc access =
     (let byPath = evaluateFilePath grp (fst access) (snd access) in
      if decision acc = Ask \<and> decision byPath = Ask \<and> starts_with ''Path rule '' (reason byPath) then byPath
      else mostRestrictive acc byPath)"

definition command_asks :: "AccessGroup \<Rightarrow> string \<Rightarrow> CommandClassification \<Rightarrow> Decision" where
  "command_asks g command c =
     (let a = assessCommand command;
          base = command_base g (cc_isSudo c);
          base = ask_if (confirmsRisky g \<and> cc_namespaceRoot c)
                   ''Requires approval: it runs as root inside a new user namespace (unshare -r).'' base;
          base = ask_if ((confirmsRisky g \<or> \<not> allows g Sudo) \<and> cc_computedCommand c)
                   ''Requires approval: the command it runs is computed when it runs, so OpsMaxx cannot tell what it is.'' base;
          base = ask_if (risk_asks g (cc_isSudo c) a)
                   (''Requires approval: this command '' @ join '', and '' (beyond_sudo a) @ ''.'') base
      in ask_if (rx_test CONTAINER_LIFECYCLE command \<and> \<not> allows g ContainerControl)
           ''Requires approval: it starts, stops or removes containers, and this access group does not allow Container control.'' base)"

definition evaluateCommand :: "AccessGroup option \<Rightarrow> string \<Rightarrow> Decision option" where
  "evaluateCommand grp command =
     (case grp of
        None \<Rightarrow> Some (decide Deny ''No AI access is assigned to this server.'')
      | Some g \<Rightarrow>
          if decision (evaluateCapability grp Terminal) = Deny then
            Some (decide Deny ''Terminal access is denied for this access group.'')
          else
            (case classifyCommand command of
               None \<Rightarrow> None
             | Some c \<Rightarrow>
                 if cc_isUnrestrictedShell c then
                   Some (decide Deny ''Unrestricted privilege-escalation shells (sudo -i, su, sudo bash, ...) are blocked outside Bypass mode.'')
                 else if cc_isSudo c \<and> decision (evaluateCapability grp Sudo) = Deny then
                   Some (decide Deny ''Sudo is denied for this access group.'')
                 else map_option (foldl (path_verdict grp) (command_asks g command c)) (extractPathAccesses command)))"

end
