(* ===== verification/Json.thy ===== *)
theory Json
  imports Js_Text Complex_Main
begin

section \<open>Untyped values\<close>

text \<open>
  The values that reach the modelled functions as \<open>unknown\<close>: what \<open>JSON.parse\<close> returned, a
  row of a store, a message from another process. Numbers are JavaScript numbers with
  their three non-finite values; a finite number is a rational (the source only compares,
  floors and adds values far below \<open>2^53\<close>, where doubles are exact). An absent field reads
  as None, the source's \<open>undefined\<close>.
\<close>

datatype jsnum = Fin rat | PosInf | NegInf | NaN

datatype json =
    JNull
  | JBool bool
  | JNum jsnum
  | JStr string
  | JArr "json list"
  | JObj "(string \<times> json) list"

fun field_of :: "json \<Rightarrow> string \<Rightarrow> json option" where
  "field_of (JObj kvs) k = map_of kvs k"
| "field_of _ k = None"

text \<open>\<open>typeof v === 'object' && v !== null\<close>: arrays answer yes as well.\<close>

fun is_object :: "json \<Rightarrow> bool" where
  "is_object (JObj _) = True"
| "is_object (JArr _) = True"
| "is_object _ = False"

fun as_string :: "json option \<Rightarrow> string option" where
  "as_string (Some (JStr s)) = Some s"
| "as_string _ = None"

text \<open>\<open>typeof v === 'number' && Number.isFinite(v)\<close>\<close>

fun as_finite :: "json option \<Rightarrow> rat option" where
  "as_finite (Some (JNum (Fin x))) = Some x"
| "as_finite _ = None"

fun as_array :: "json option \<Rightarrow> json list option" where
  "as_array (Some (JArr xs)) = Some xs"
| "as_array _ = None"

text \<open>Every element converts, or nothing does (\<open>every\<close> guarding a cast).\<close>

fun all_some :: "'a option list \<Rightarrow> 'a list option" where
  "all_some [] = Some []"
| "all_some (None # _) = None"
| "all_some (Some x # xs) = map_option (Cons x) (all_some xs)"

lemma all_some_map_Some [simp]: "all_some (map (\<lambda>x. Some (f x)) xs) = Some (map f xs)"
  by (induction xs) auto

lemma all_some_length: "all_some xs = Some ys \<Longrightarrow> length ys = length xs"
  by (induction xs arbitrary: ys rule: all_some.induct) auto

lemma all_some_eq_Some_iff: "all_some xs = Some ys \<longleftrightarrow> xs = map Some ys"
  by (induction xs arbitrary: ys rule: all_some.induct) (auto simp: map_eq_Cons_conv)

end
