(* ===== verification/Broadcast.thy ===== *)
theory Broadcast
  imports Command_Risk Json
begin

section \<open>Running one command on many hosts (shared/broadcast.ts)\<close>

text \<open>
  The confirmation a broadcast needs, the classification of what each host answered, the
  summary of a run, and the approval record: minted when a person answers the dialog
  (\<open>approvalFor\<close>), stored, read back as an untyped value and checked against the run
  about to start (\<open>verifyApproval\<close>). A refusal is a value of \<open>ApprovalRefusal\<close>, one
  constructor per sentence of the source, carrying what the sentence interpolates. The
  locale \<open>run_approval\<close> states the contract of an approval surface; a broadcast
  satisfies it here and a job in \<open>Jobs\<close>.
\<close>

subsection \<open>The confirmation\<close>

definition CONFIRM_ABOVE_HOSTS :: nat where "CONFIRM_ABOVE_HOSTS = 1"
definition TYPE_ABOVE_HOSTS :: nat where "TYPE_ABOVE_HOSTS = 5"

definition confirmationFor :: "BroadcastRisk \<Rightarrow> nat \<Rightarrow> BroadcastConfirmation" where
  "confirmationFor risk hostCount =
     (if hostCount = 0 then Confirm
      else if risk = Destructive then TypeToConfirm ''RUN''
      else if risk = Elevated \<and> hostCount > TYPE_ABOVE_HOSTS then TypeToConfirm ''RUN''
      else if hostCount > TYPE_ABOVE_HOSTS then TypeToConfirm ''RUN''
      else if risk = Elevated \<or> hostCount > CONFIRM_ABOVE_HOSTS then Confirm
      else NoConfirm)"

record ApprovalTargetRef =
  serverId :: string
  serverName :: string
  cohort :: "string option"

record BroadcastPlan =
  bp_command :: string
  bp_risk :: BroadcastRisk
  bp_targets :: "ApprovalTargetRef list"
  bp_confirmation :: BroadcastConfirmation
  bp_reasons :: "string list"

definition planBroadcast :: "string \<Rightarrow> ApprovalTargetRef list \<Rightarrow> BroadcastPlan" where
  "planBroadcast command targets =
     (let a = assessCommand command in
      \<lparr>bp_command = command, bp_risk = ra_risk a, bp_targets = targets,
       bp_confirmation = confirmationFor (ra_risk a) (length targets),
       bp_reasons = ra_reasons a\<rparr>)"

text \<open>How much friction a confirmation is.\<close>

fun conf_rank :: "BroadcastConfirmation \<Rightarrow> nat" where
  "conf_rank NoConfirm = 0"
| "conf_rank Confirm = 1"
| "conf_rank (TypeToConfirm _) = 2"

lemma confirmation_mono:
  assumes "r \<le> r'" "n \<le> n'" "0 < n"
  shows "conf_rank (confirmationFor r n) \<le> conf_rank (confirmationFor r' n')"
  using assms
  by (cases r; cases r')
     (auto simp: confirmationFor_def less_eq_BroadcastRisk_def TYPE_ABOVE_HOSTS_def
        CONFIRM_ABOVE_HOSTS_def)

subsection \<open>What a host answered\<close>

datatype BroadcastHostState = BPending | BRunning | BOk | BFailed | BSkipped

datatype BroadcastHostOutcome =
  OutOk | OutNonzero | OutMissingCommand | OutPermissionDenied | OutTimeout | OutUnreachable
  | OutCancelled

record BroadcastHostResult =
  bh_serverId :: string
  bh_serverName :: string
  bh_state :: BroadcastHostState
  bh_exitCode :: "int option"
  bh_stdout :: "string option"
  bh_stderr :: "string option"
  bh_error :: "string option"
  bh_ms :: "int option"
  bh_truncated :: "bool option"
  bh_outcome :: "BroadcastHostOutcome option"

definition MISSING_COMMAND :: "rx list" where
  "MISSING_COMMAND =
     [ignore_case (lit ''command not found''),
      seqs [lit '':'', Star ws_c, lit ''not found''],
      ignore_case (lit ''is not recognized as an internal or external command''),
      ignore_case (lit ''unknown command'')]"

definition PERMISSION :: "rx list" where
  "PERMISSION =
     [ignore_case (lit ''permission denied''),
      ignore_case (lit ''operation not permitted''),
      ignore_case (seqs [lit ''must be '', alts [lit ''run as '', Empty], lit ''root'']),
      ignore_case (lit ''is not in the sudoers file''),
      ignore_case (seqs [lit ''sudo: a '', words [''password'', ''terminal''], lit '' is required'']),
      ignore_case (lit ''sudo: no tty present'')]"

definition TIMED_OUT :: rx where
  "TIMED_OUT = ignore_case (alts [lit ''timed out'', lit ''never answered''])"

definition classifyBroadcastResult :: "BroadcastHostResult \<Rightarrow> BroadcastHostOutcome option" where
  "classifyBroadcastResult r =
     (if bh_state r = BPending \<or> bh_state r = BRunning then None
      else if bh_state r = BSkipped then Some OutCancelled
      else if bh_state r = BFailed then
        Some (if rx_test TIMED_OUT (nullish (bh_error r) []) then OutTimeout else OutUnreachable)
      else
        let stderr = nullish (bh_stderr r) []; stdout = nullish (bh_stdout r) [] in
        if list_ex (\<lambda>re. rx_test re stderr) MISSING_COMMAND then Some OutMissingCommand
        else if bh_exitCode r = Some 126 then Some OutPermissionDenied
        else if trim stdout = [] \<and> list_ex (\<lambda>re. rx_test re stderr) PERMISSION
          then Some OutPermissionDenied
        else if bh_exitCode r = Some 127 then Some OutMissingCommand
        else Some (if nullish (bh_exitCode r) 0 = 0 then OutOk else OutNonzero))"

lemma classify_None_iff:
  "classifyBroadcastResult r = None \<longleftrightarrow> bh_state r \<in> {BPending, BRunning}"
  by (auto simp: classifyBroadcastResult_def Let_def)

subsection \<open>The summary\<close>

record BroadcastSummary =
  bs_total :: nat
  bs_running :: nat
  bs_counts :: "BroadcastHostOutcome \<Rightarrow> nat"

definition summarise_step :: "BroadcastHostResult \<Rightarrow> nat \<times> (BroadcastHostOutcome \<Rightarrow> nat)
    \<Rightarrow> nat \<times> (BroadcastHostOutcome \<Rightarrow> nat)" where
  "summarise_step r acc =
     (case (case bh_outcome r of Some out \<Rightarrow> Some out | None \<Rightarrow> classifyBroadcastResult r) of
        None \<Rightarrow> (Suc (fst acc), snd acc)
      | Some out \<Rightarrow> (fst acc, (snd acc)(out := Suc (snd acc out))))"

definition summariseBroadcast :: "BroadcastHostResult list \<Rightarrow> BroadcastSummary" where
  "summariseBroadcast results =
     (let acc = fold summarise_step results (0, \<lambda>_. 0) in
      \<lparr>bs_total = length results, bs_running = fst acc, bs_counts = snd acc\<rparr>)"

definition all_outcomes :: "BroadcastHostOutcome list" where
  "all_outcomes = [OutOk, OutNonzero, OutMissingCommand, OutPermissionDenied, OutTimeout,
     OutUnreachable, OutCancelled]"

lemma summarise_fold_total:
  "fst (fold summarise_step rs acc) + sum_list (map (snd (fold summarise_step rs acc)) all_outcomes)
     = fst acc + sum_list (map (snd acc) all_outcomes) + length rs"
proof (induction rs arbitrary: acc)
  case (Cons r rs)
  have "fst (summarise_step r acc) + sum_list (map (snd (summarise_step r acc)) all_outcomes)
      = Suc (fst acc + sum_list (map (snd acc) all_outcomes))"
    by (auto simp: summarise_step_def all_outcomes_def split: option.splits
        BroadcastHostOutcome.splits) (rename_tac out; case_tac out; simp)+
  with Cons show ?case by simp
qed simp

subsection \<open>The approval record\<close>

datatype ApprovalSurface = SurfBroadcast | SurfJob | SurfK8sExec | SurfAccess | SurfK8s | SurfDbStatement

fun surface_name :: "ApprovalSurface \<Rightarrow> string" where
  "surface_name SurfBroadcast = ''broadcast''"
| "surface_name SurfJob = ''job''"
| "surface_name SurfK8sExec = ''k8s-exec''"
| "surface_name SurfAccess = ''access''"
| "surface_name SurfK8s = ''k8s''"
| "surface_name SurfDbStatement = ''db-statement''"

definition APPROVAL_SURFACES :: "ApprovalSurface list" where
  "APPROVAL_SURFACES =
     [SurfBroadcast, SurfJob, SurfK8sExec, SurfAccess, SurfK8s, SurfDbStatement]"

fun risk_name :: "BroadcastRisk \<Rightarrow> string" where
  "risk_name Ordinary = ''ordinary''"
| "risk_name Elevated = ''elevated''"
| "risk_name Destructive = ''destructive''"

definition risk_of_name :: "json option \<Rightarrow> BroadcastRisk option" where
  "risk_of_name v =
     (if v = Some (JStr ''ordinary'') then Some Ordinary
      else if v = Some (JStr ''elevated'') then Some Elevated
      else if v = Some (JStr ''destructive'') then Some Destructive
      else None)"

fun conf_json :: "BroadcastConfirmation \<Rightarrow> json" where
  "conf_json NoConfirm = JObj [(''kind'', JStr ''none'')]"
| "conf_json Confirm = JObj [(''kind'', JStr ''confirm'')]"
| "conf_json (TypeToConfirm w) = JObj [(''kind'', JStr ''type-to-confirm''), (''phrase'', JStr w)]"

text \<open>
  A record that passed \<open>isCommandApproval\<close>, field by field: only what that function has
  checked is typed; a target's \<open>cohort\<close>, the confirmation's fields and the gate are still
  whatever was stored.
\<close>

record CommandApproval =
  ca_commands :: "string list"
  ca_targets :: "(string \<times> string \<times> json option) list"
  ca_risk :: BroadcastRisk
  ca_confirmation :: json
  ca_phrase :: "string option"
  ca_confirmedAt :: rat
  ca_gate :: "json option"

definition read_target :: "json \<Rightarrow> (string \<times> string \<times> json option) option" where
  "read_target t =
     (if is_object t then
        (case (as_string (field_of t ''serverId''), as_string (field_of t ''serverName'')) of
           (Some i, Some n) \<Rightarrow> Some (i, n, field_of t ''cohort'')
         | _ \<Rightarrow> None)
      else None)"

fun read_phrase :: "json option \<Rightarrow> string option option" where
  "read_phrase (Some JNull) = Some None"
| "read_phrase (Some (JStr s)) = Some (Some s)"
| "read_phrase _ = None"

definition isCommandApproval :: "json \<Rightarrow> CommandApproval option" where
  "isCommandApproval a =
     (if \<not> is_object a then None
      else if field_of a ''v'' \<noteq> Some (JNum (Fin 1)) then None
      else if \<not> list_ex (\<lambda>sf. field_of a ''surface'' = Some (JStr (surface_name sf))) APPROVAL_SURFACES
        then None
      else
        (case as_array (field_of a ''commands'') of None \<Rightarrow> None | Some cs \<Rightarrow>
        (case all_some (map (\<lambda>c. as_string (Some c)) cs) of None \<Rightarrow> None | Some commands \<Rightarrow>
        (case as_array (field_of a ''targets'') of None \<Rightarrow> None | Some ts \<Rightarrow>
        (case all_some (map read_target ts) of None \<Rightarrow> None | Some targets \<Rightarrow>
        (case risk_of_name (field_of a ''risk'') of None \<Rightarrow> None | Some risk \<Rightarrow>
        (case field_of a ''confirmation'' of None \<Rightarrow> None | Some conf \<Rightarrow>
         if \<not> is_object conf then None else
        (case read_phrase (field_of a ''phrase'') of None \<Rightarrow> None | Some phrase \<Rightarrow>
        (case as_finite (field_of a ''confirmedAt'') of None \<Rightarrow> None | Some confirmedAt \<Rightarrow>
         if confirmedAt > 0 then
           Some \<lparr>ca_commands = commands, ca_targets = targets, ca_risk = risk,
                 ca_confirmation = conf, ca_phrase = phrase, ca_confirmedAt = confirmedAt,
                 ca_gate = field_of a ''gate''\<rparr>
         else None)))))))))"

definition opt_field :: "string \<Rightarrow> string option \<Rightarrow> (string \<times> json) list" where
  "opt_field k v = (case v of None \<Rightarrow> [] | Some s \<Rightarrow> [(k, JStr s)])"

definition target_json :: "ApprovalTargetRef \<Rightarrow> json" where
  "target_json t =
     JObj ([(''serverId'', JStr (serverId t)), (''serverName'', JStr (serverName t))]
           @ opt_field ''cohort'' (cohort t))"

definition approvalFor :: "ApprovalSurface \<Rightarrow> string list \<Rightarrow> ApprovalTargetRef list
    \<Rightarrow> BroadcastRisk \<Rightarrow> BroadcastConfirmation \<Rightarrow> string option \<Rightarrow> rat \<Rightarrow> string option \<Rightarrow> json" where
  "approvalFor surface commands targets risk conf phrase confirmedAt gate =
     JObj ([(''v'', JNum (Fin 1)),
            (''surface'', JStr (surface_name surface)),
            (''commands'', JArr (map JStr commands)),
            (''targets'', JArr (map target_json targets)),
            (''risk'', JStr (risk_name risk)),
            (''confirmation'', conf_json conf),
            (''phrase'', (case phrase of None \<Rightarrow> JNull | Some w \<Rightarrow> JStr w)),
            (''confirmedAt'', JNum (Fin confirmedAt))]
           @ opt_field ''gate'' gate)"

subsection \<open>Checking a run against its record\<close>

datatype ApprovalRefusal =
    NoUsableRecord
  | StepCount nat nat
  | StepEdited nat string string
  | HostsAdded "string list"
  | WaveMoved string json "string option"
  | RiskChanged BroadcastRisk BroadcastRisk
  | ConfirmationChanged json BroadcastConfirmation
  | WordMissing string "string option"
  | GateChanged json string
  | RecordedBeforeFix

datatype ApprovalVerdict = Allowed | Refused ApprovalRefusal

definition sameConfirmation :: "json \<Rightarrow> BroadcastConfirmation \<Rightarrow> bool" where
  "sameConfirmation a b =
     (case b of
        NoConfirm \<Rightarrow> field_of a ''kind'' = Some (JStr ''none'')
      | Confirm \<Rightarrow> field_of a ''kind'' = Some (JStr ''confirm'')
      | TypeToConfirm w \<Rightarrow> field_of a ''kind'' = Some (JStr ''type-to-confirm'')
                           \<and> field_of a ''phrase'' = Some (JStr w))"

text \<open>The loop over the steps: the first index at which approved and actual differ.\<close>

fun first_edit :: "nat \<Rightarrow> string list \<Rightarrow> string list \<Rightarrow> (nat \<times> string \<times> string) option" where
  "first_edit i (a # as) (b # bs) = (if a \<noteq> b then Some (i, a, b) else first_edit (Suc i) as bs)"
| "first_edit i _ _ = None"

text \<open>\<open>cohort ?? ''\<close> on a stored value: an absent or null cohort is the blank one.\<close>

fun blank_cohort :: "json option \<Rightarrow> json" where
  "blank_cohort None = JStr []"
| "blank_cohort (Some JNull) = JStr []"
| "blank_cohort (Some v) = v"

definition approved_map :: "CommandApproval \<Rightarrow> (string, json) jsmap" where
  "approved_map a = fold (\<lambda>(i, n, c) m. AList.update i (blank_cohort c) m) (ca_targets a) []"

definition cohort_of :: "ApprovalTargetRef \<Rightarrow> string" where
  "cohort_of t = nullish (cohort t) []"

definition moved :: "(string, json) jsmap \<Rightarrow> ApprovalTargetRef \<Rightarrow> bool" where
  "moved approved t =
     (case map_of approved (serverId t) of
        None \<Rightarrow> False
      | Some c \<Rightarrow> c \<noteq> JStr (cohort_of t))"

definition verifyApproval :: "json \<Rightarrow> string list \<Rightarrow> ApprovalTargetRef list
    \<Rightarrow> BroadcastRisk \<Rightarrow> BroadcastConfirmation \<Rightarrow> ApprovalVerdict" where
  "verifyApproval approval commands targets risk conf =
     (case isCommandApproval approval of
        None \<Rightarrow> Refused NoUsableRecord
      | Some a \<Rightarrow>
        if length (ca_commands a) \<noteq> length commands
          then Refused (StepCount (length (ca_commands a)) (length commands))
        else (case first_edit 0 (ca_commands a) commands of
          Some (i, was, now) \<Rightarrow> Refused (StepEdited (i + 1) was now)
        | None \<Rightarrow>
          let approved = approved_map a;
              added = filter (\<lambda>t. map_of approved (serverId t) = None) targets
          in if added \<noteq> [] then Refused (HostsAdded (map serverName added))
          else (case find (moved approved) targets of
            Some t \<Rightarrow> Refused (WaveMoved (serverName t)
                        (nullish (map_of approved (serverId t)) JNull) (cohort t))
          | None \<Rightarrow>
            if ca_risk a \<noteq> risk then Refused (RiskChanged (ca_risk a) risk)
            else if \<not> sameConfirmation (ca_confirmation a) conf
              then Refused (ConfirmationChanged (ca_confirmation a) conf)
            else (case conf of
                TypeToConfirm w \<Rightarrow>
                  if ca_phrase a \<noteq> Some w then Refused (WordMissing w (ca_phrase a)) else Allowed
              | _ \<Rightarrow> Allowed))))"

subsection \<open>Facts about the check\<close>

lemma first_edit_None:
  "length xs = length ys \<Longrightarrow> first_edit i xs ys = None \<longleftrightarrow> xs = ys"
  by (induction i xs ys rule: first_edit.induct) auto

lemma verify_Allowed_iff:
  "verifyApproval a commands targets risk conf = Allowed \<longleftrightarrow>
     (\<exists>r. isCommandApproval a = Some r \<and> ca_commands r = commands
        \<and> (\<forall>t \<in> set targets. map_of (approved_map r) (serverId t) = Some (JStr (cohort_of t)))
        \<and> ca_risk r = risk \<and> sameConfirmation (ca_confirmation r) conf
        \<and> (\<forall>w. conf = TypeToConfirm w \<longrightarrow> ca_phrase r = Some w))"
  (is "_ = Allowed \<longleftrightarrow> (\<exists>r. ?ok r)")
proof (cases "isCommandApproval a")
  case None
  then show ?thesis by (simp add: verifyApproval_def)
next
  case (Some r)
  have hosts: "filter (\<lambda>t. map_of (approved_map r) (serverId t) = None) targets = []
      \<and> find (moved (approved_map r)) targets = None \<longleftrightarrow>
      (\<forall>t \<in> set targets. map_of (approved_map r) (serverId t) = Some (JStr (cohort_of t)))"
    by (auto simp: filter_empty_conv find_None_iff moved_def split: option.splits)
  have steps: "length (ca_commands r) = length commands \<and> first_edit 0 (ca_commands r) commands = None
      \<longleftrightarrow> ca_commands r = commands"
    using first_edit_None [of "ca_commands r" commands 0] by auto
  have "verifyApproval a commands targets risk conf = Allowed \<longleftrightarrow> ?ok r"
    unfolding verifyApproval_def Some option.case Let_def
    using hosts steps
    by (cases conf) (auto split: option.splits)
  with Some show ?thesis by simp
qed

lemma read_target_target_json [simp]:
  "read_target (target_json t) = Some (serverId t, serverName t, map_option JStr (cohort t))"
  by (auto simp: read_target_def target_json_def opt_field_def split: option.splits)

lemma isCommandApproval_approvalFor:
  "0 < confirmedAt \<Longrightarrow>
   isCommandApproval (approvalFor sf commands targets risk conf phrase confirmedAt gate) =
     Some \<lparr>ca_commands = commands,
           ca_targets = map (\<lambda>t. (serverId t, serverName t, map_option JStr (cohort t))) targets,
           ca_risk = risk, ca_confirmation = conf_json conf, ca_phrase = phrase,
           ca_confirmedAt = confirmedAt, ca_gate = map_option JStr gate\<rparr>"
proof -
  assume pos: "0 < confirmedAt"
  have surf: "list_ex (\<lambda>s. surface_name sf = surface_name s) APPROVAL_SURFACES"
    by (cases sf) (simp_all add: APPROVAL_SURFACES_def)
  have ph: "read_phrase (Some (case phrase of None \<Rightarrow> JNull | Some w \<Rightarrow> JStr w)) = Some phrase"
    by (cases phrase) auto
  have rk: "risk_of_name (Some (JStr (risk_name risk))) = Some risk"
    by (cases risk) (simp_all add: risk_of_name_def)
  have cf: "is_object (conf_json conf)" by (cases conf) auto
  have cm: "all_some (map ((\<lambda>c. as_string (Some c)) \<circ> JStr) commands) = Some commands"
    by (simp add: comp_def)
  show ?thesis
    using pos surf rk cf ph cm
    by (cases gate) (simp_all add: isCommandApproval_def approvalFor_def opt_field_def comp_def)
qed

lemma sameConfirmation_conf_json [simp]: "sameConfirmation (conf_json c) c' \<longleftrightarrow> c = c'"
  by (cases c; cases c') (auto simp: sameConfirmation_def)

lemma blank_cohort_JStr [simp]: "blank_cohort (map_option JStr c) = JStr (nullish c [])"
  by (cases c) auto

lemma map_of_fold_update:
  "map_of (fold (\<lambda>(i, n, c) m. AList.update i (f c) m) ts acc) k =
     (case map_of (rev (map (\<lambda>(i, n, c). (i, f c)) ts)) k of None \<Rightarrow> map_of acc k | Some v \<Rightarrow> Some v)"
  by (induction ts arbitrary: acc)
     (auto simp: update_conv' map_add_def split: option.splits)

lemma approved_map_minted:
  assumes "distinct (map serverId targets)" "t \<in> set targets"
    "ca_targets r = map (\<lambda>t. (serverId t, serverName t, map_option JStr (cohort t))) targets"
  shows "map_of (approved_map r) (serverId t) = Some (JStr (cohort_of t))"
proof -
  let ?kv = "map (\<lambda>t. (serverId t, JStr (cohort_of t))) targets"
  have "distinct (map fst (rev ?kv))"
    using assms(1) by (simp add: rev_map [symmetric] comp_def)
  moreover have "(serverId t, JStr (cohort_of t)) \<in> set (rev ?kv)"
    using assms(2) by auto
  ultimately have "map_of (rev ?kv) (serverId t) = Some (JStr (cohort_of t))"
    by (rule map_of_is_SomeI)
  moreover have "map (\<lambda>(i, n, c). (i, blank_cohort c)) (ca_targets r) = ?kv"
    by (simp add: assms(3) cohort_of_def)
  ultimately show ?thesis
    by (simp add: approved_map_def map_of_fold_update)
qed

text \<open>The word a person has to type for a confirmation, and whether they did.\<close>

definition answered :: "BroadcastConfirmation \<Rightarrow> string option \<Rightarrow> bool" where
  "answered c phrase = (\<forall>w. c = TypeToConfirm w \<longrightarrow> phrase = Some w)"

lemma verify_minted:
  assumes "0 < confirmedAt" "answered conf phrase" "distinct (map serverId targets)"
  shows "verifyApproval (approvalFor sf commands targets risk conf phrase confirmedAt gate)
           commands targets risk conf = Allowed"
  using assms approved_map_minted [OF assms(3)]
  by (auto simp: verify_Allowed_iff isCommandApproval_approvalFor answered_def)

subsection \<open>The contract of an approval surface\<close>

text \<open>
  A surface mints a record when a person answers and verifies it before it acts. What it
  promises: a verified record names the very commands, hosts and waves of the run and
  carries the word the run demands; a record minted for a run verifies for that run; and
  minting writes down the run it was asked about. The client's lemmas: no later run with
  other commands, an added host, a moved host or a missing word passes on that record.
\<close>

locale run_approval =
  fixes mint :: "'run \<Rightarrow> string option \<Rightarrow> rat \<Rightarrow> json"
    and verify :: "json \<Rightarrow> 'run \<Rightarrow> ApprovalVerdict"
    and commands_of :: "'run \<Rightarrow> string list"
    and hosts_of :: "'run \<Rightarrow> ApprovalTargetRef list"
    and demand :: "'run \<Rightarrow> BroadcastConfirmation"
  assumes verify_reads: "verify a r = Allowed \<Longrightarrow>
      \<exists>rec. isCommandApproval a = Some rec \<and> ca_commands rec = commands_of r
        \<and> (\<forall>t \<in> set (hosts_of r). map_of (approved_map rec) (serverId t) = Some (JStr (cohort_of t)))
        \<and> (\<forall>w. demand r = TypeToConfirm w \<longrightarrow> ca_phrase rec = Some w)"
    and mint_verifies: "0 < tm \<Longrightarrow> answered (demand r) ph \<Longrightarrow> distinct (map serverId (hosts_of r)) \<Longrightarrow>
      verify (mint r ph tm) r = Allowed"
    and mint_records: "0 < tm \<Longrightarrow>
      \<exists>rec. isCommandApproval (mint r ph tm) = Some rec \<and> ca_commands rec = commands_of r
        \<and> ca_targets rec = map (\<lambda>t. (serverId t, serverName t, map_option JStr (cohort t))) (hosts_of r)
        \<and> ca_phrase rec = ph"
begin

lemma edited_refused:
  "0 < tm \<Longrightarrow> commands_of r' \<noteq> commands_of r \<Longrightarrow> verify (mint r ph tm) r' \<noteq> Allowed"
  using mint_records [of tm r ph] verify_reads [of "mint r ph tm" r'] by auto

lemma added_refused:
  assumes "0 < tm" "t' \<in> set (hosts_of r')" "serverId t' \<notin> serverId ` set (hosts_of r)"
  shows "verify (mint r ph tm) r' \<noteq> Allowed"
proof
  assume "verify (mint r ph tm) r' = Allowed"
  from verify_reads [OF this] mint_records [OF assms(1), of r ph] assms(2) obtain rec where
    m: "map_of (approved_map rec) (serverId t') = Some (JStr (cohort_of t'))"
    and t: "ca_targets rec = map (\<lambda>t. (serverId t, serverName t, map_option JStr (cohort t))) (hosts_of r)"
    by auto
  from m t obtain c where
    "map_of (rev (map (\<lambda>t. (serverId t, JStr (cohort_of t))) (hosts_of r))) (serverId t') = Some c"
    by (auto simp: approved_map_def map_of_fold_update cohort_of_def comp_def split: option.splits)
  then have "(serverId t', c) \<in> set (rev (map (\<lambda>t. (serverId t, JStr (cohort_of t))) (hosts_of r)))"
    by (rule map_of_Some_in)
  with assms(3) show False by auto
qed

lemma moved_refused:
  assumes "0 < tm" "distinct (map serverId (hosts_of r))" "t \<in> set (hosts_of r)"
    "t' \<in> set (hosts_of r')" "serverId t' = serverId t" "cohort_of t' \<noteq> cohort_of t"
  shows "verify (mint r ph tm) r' \<noteq> Allowed"
proof
  assume "verify (mint r ph tm) r' = Allowed"
  from verify_reads [OF this] mint_records [OF assms(1), of r ph] assms(4) obtain rec where
    "map_of (approved_map rec) (serverId t') = Some (JStr (cohort_of t'))"
    and t: "ca_targets rec = map (\<lambda>t. (serverId t, serverName t, map_option JStr (cohort t))) (hosts_of r)"
    by auto
  with approved_map_minted [OF assms(2,3) t] assms(5,6) show False by simp
qed

lemma unanswered_refused:
  assumes "0 < tm" "\<not> answered (demand r') ph"
  shows "verify (mint r ph tm) r' \<noteq> Allowed"
  using assms mint_records [OF assms(1), of r ph] verify_reads [of "mint r ph tm" r']
  by (auto simp: answered_def)

lemma same_record_same_commands:
  "verify a r = Allowed \<Longrightarrow> verify a r' = Allowed \<Longrightarrow> commands_of r = commands_of r'"
  using verify_reads [of a r] verify_reads [of a r'] by auto

end

subsection \<open>The broadcast surface\<close>

text \<open>
  The panel mints from the plan on screen (BroadcastPanel.tsx); the main process
  re-derives the plan and verifies before anything runs (main/index.ts).
\<close>

type_synonym broadcast_run = "string \<times> ApprovalTargetRef list"

definition broadcast_mint :: "broadcast_run \<Rightarrow> string option \<Rightarrow> rat \<Rightarrow> json" where
  "broadcast_mint run phrase now =
     (let plan = planBroadcast (fst run) (snd run) in
      approvalFor SurfBroadcast [fst run] (snd run) (bp_risk plan) (bp_confirmation plan)
        phrase now None)"

definition broadcast_verify :: "json \<Rightarrow> broadcast_run \<Rightarrow> ApprovalVerdict" where
  "broadcast_verify approval run =
     (let plan = planBroadcast (fst run) (snd run) in
      verifyApproval approval [fst run] (snd run) (bp_risk plan) (bp_confirmation plan))"

definition broadcast_demand :: "broadcast_run \<Rightarrow> BroadcastConfirmation" where
  "broadcast_demand run = bp_confirmation (planBroadcast (fst run) (snd run))"

interpretation bc: run_approval broadcast_mint broadcast_verify "\<lambda>r. [fst r]" snd broadcast_demand
proof
  fix a r
  assume "broadcast_verify a r = Allowed"
  then show "\<exists>rec. isCommandApproval a = Some rec \<and> ca_commands rec = [fst r]
      \<and> (\<forall>t \<in> set (snd r). map_of (approved_map rec) (serverId t) = Some (JStr (cohort_of t)))
      \<and> (\<forall>w. broadcast_demand r = TypeToConfirm w \<longrightarrow> ca_phrase rec = Some w)"
    by (auto simp: broadcast_verify_def broadcast_demand_def Let_def verify_Allowed_iff)
next
  fix tm :: rat and r ph
  assume "0 < tm" "answered (broadcast_demand r) ph" "distinct (map serverId (snd r))"
  then show "broadcast_verify (broadcast_mint r ph tm) r = Allowed"
    by (simp add: broadcast_verify_def broadcast_mint_def broadcast_demand_def Let_def verify_minted)
next
  fix tm :: rat and r ph
  assume "0 < tm"
  then show "\<exists>rec. isCommandApproval (broadcast_mint r ph tm) = Some rec \<and> ca_commands rec = [fst r]
      \<and> ca_targets rec = map (\<lambda>t. (serverId t, serverName t, map_option JStr (cohort t))) (snd r)
      \<and> ca_phrase rec = ph"
    by (simp add: broadcast_mint_def Let_def isCommandApproval_approvalFor)
qed

subsection \<open>Properties\<close>

text \<open>
  Friction never drops as a run grows worse: a riskier command or more hosts (of at least
  one) never needs less of a person, a destructive command always has to be typed, and
  nothing at all is asked only for an ordinary command on one host.\<close>

theorem confirmation_monotone:
  assumes "r \<le> r'" "n \<le> n'" "0 < n"
  shows "conf_rank (confirmationFor r n) \<le> conf_rank (confirmationFor r' n')
    \<and> confirmationFor Destructive n = TypeToConfirm ''RUN''
    \<and> (confirmationFor r n = NoConfirm \<longleftrightarrow> r = Ordinary \<and> n = 1)"
  using confirmation_mono [OF assms] assms(3)
  by (cases r) (auto simp: confirmationFor_def TYPE_ABOVE_HOSTS_def CONFIRM_ABOVE_HOSTS_def)

theorem confirmation_monotone_witness:
  "conf_rank (confirmationFor Ordinary 1) \<le> conf_rank (confirmationFor Elevated 7)"
  using confirmation_monotone [of Ordinary Elevated 1 7] by simp

text \<open>
  The summary accounts for every host: the hosts still running and the hosts under each of
  the seven outcomes add up to the total, whatever the results are, and a host counts as
  running exactly when it has neither a recorded outcome nor a settled state.\<close>

theorem summary_accounts_for_every_host:
  "bs_running (summariseBroadcast rs) + sum_list (map (bs_counts (summariseBroadcast rs)) all_outcomes)
     = bs_total (summariseBroadcast rs)
   \<and> bs_running (summariseBroadcast rs) =
       length (filter (\<lambda>r. bh_outcome r = None \<and> bh_state r \<in> {BPending, BRunning}) rs)"
proof -
  have step: "fst (summarise_step r acc)
      = fst acc + (if bh_outcome r = None \<and> bh_state r \<in> {BPending, BRunning} then 1 else 0)" for r acc
    by (cases "bh_outcome r"; cases "classifyBroadcastResult r")
       (use classify_None_iff [of r] in \<open>auto simp: summarise_step_def\<close>)
  have "fst (fold summarise_step xs acc) = fst acc
      + length (filter (\<lambda>r. bh_outcome r = None \<and> bh_state r \<in> {BPending, BRunning}) xs)" for xs acc
    by (induction xs arbitrary: acc) (simp_all add: step)
  then show ?thesis
    using summarise_fold_total [of rs "(0, \<lambda>_. 0)"]
    by (simp add: summariseBroadcast_def Let_def all_outcomes_def)
qed

text \<open>C36:
  What an approval record has to contain for a run to start: \<open>verifyApproval\<close> allows the
  run exactly when the stored value reads as a record, its commands are the run's commands
  in order, every target of the run is in it under the same wave, risk and confirmation are
  the ones of the run, and the word was typed where the run demands one.\<close>

theorem verifyApproval_characterised:
  "verifyApproval a commands targets risk conf = Allowed \<longleftrightarrow>
     (\<exists>r. isCommandApproval a = Some r \<and> ca_commands r = commands
        \<and> (\<forall>t \<in> set targets. map_of (approved_map r) (serverId t) = Some (JStr (cohort_of t)))
        \<and> ca_risk r = risk \<and> sameConfirmation (ca_confirmation r) conf
        \<and> (\<forall>w. conf = TypeToConfirm w \<longrightarrow> ca_phrase r = Some w))"
  by (rule verify_Allowed_iff)

theorem verifyApproval_characterised_witness:
  "verifyApproval JNull [''ls''] [] Ordinary Confirm \<noteq> Allowed"
  unfolding verifyApproval_characterised by (simp add: isCommandApproval_def)

text \<open>
  A record minted when a person answers the dialog verifies for the very run it was minted
  for: the record goes through an untyped store, and the plan is derived again before
  anything runs.\<close>

theorem broadcast_record_roundtrip:
  assumes "0 < confirmedAt" "answered (broadcast_demand run) phrase" "distinct (map serverId (snd run))"
  shows "broadcast_verify (broadcast_mint run phrase confirmedAt) run = Allowed"
  using assms by (rule bc.mint_verifies)

theorem broadcast_record_roundtrip_witness:
  "broadcast_verify (broadcast_mint (''uptime'', []) None 5) (''uptime'', []) = Allowed"
proof -
  have "broadcast_demand (''uptime'', []) = Confirm"
    by (simp add: broadcast_demand_def planBroadcast_def Let_def confirmationFor_def)
  then show ?thesis
    using broadcast_record_roundtrip [of 5 "(''uptime'', [])" None] by (simp add: answered_def)
qed

text \<open>
  A record never covers a run it was not minted for: another command, a host that was not
  in it, a host now in another wave, or a demanded word that was not typed, and the
  broadcast is refused.\<close>

theorem stale_broadcast_refused:
  assumes "0 < confirmedAt" "distinct (map serverId (snd run))"
    "fst run' \<noteq> fst run
     \<or> (\<exists>t' \<in> set (snd run'). serverId t' \<notin> serverId ` set (snd run))
     \<or> (\<exists>t \<in> set (snd run). \<exists>t' \<in> set (snd run'). serverId t' = serverId t \<and> cohort_of t' \<noteq> cohort_of t)
     \<or> \<not> answered (broadcast_demand run') phrase"
  shows "broadcast_verify (broadcast_mint run phrase confirmedAt) run' \<noteq> Allowed"
  using assms bc.edited_refused [of confirmedAt run' run phrase] bc.added_refused [of confirmedAt _ run' run phrase]
    bc.moved_refused [of confirmedAt run _ _ run' phrase] bc.unanswered_refused [of confirmedAt run' phrase run]
  by auto

theorem stale_broadcast_refused_witness:
  "broadcast_verify (broadcast_mint (''ls'', []) None 5) (''id'', []) \<noteq> Allowed"
  using stale_broadcast_refused [of 5 "(''ls'', [])" "(''id'', [])" None] by simp

end
