(* ===== verification/Jobs.thy ===== *)
theory Jobs
  imports Broadcast
begin

section \<open>The vocabulary of a job (shared/jobs.ts)\<close>

text \<open>
  A job is a list of steps against a target list split into cohorts (waves). This theory
  has the host states and outcomes, the plan (risk over all steps, blast radius of the
  largest cohort), the approval adapter with the stage gate, and the cohorts in the
  order they run. The job surface is the second interpretation of \<open>run_approval\<close>.
\<close>

subsection \<open>Hosts\<close>

datatype JobHostState =
  JPending | JWaiting | JRunning | JOk | JFailed | JSkipped | JDetached | JOrphaned
  | JRebooting | JForeign

definition JOB_HOST_STATES :: "JobHostState list" where
  "JOB_HOST_STATES =
     [JPending, JWaiting, JRunning, JOk, JFailed, JSkipped, JDetached, JOrphaned, JRebooting,
      JForeign]"

definition JOB_HOST_LIVE_STATES :: "JobHostState list" where
  "JOB_HOST_LIVE_STATES = [JPending, JWaiting, JRunning, JDetached, JRebooting, JForeign]"

definition isJobHostLive :: "JobHostState \<Rightarrow> bool" where
  "isJobHostLive st = (st \<in> set JOB_HOST_LIVE_STATES)"

text \<open>The handle that makes a detached step reclaimable from rows alone.\<close>

datatype JobLauncher = Setsid | Nohup | NoLauncher

record JobDetachedHandle =
  dh_dir :: string
  dh_step :: nat
  dh_instanceId :: string
  dh_launcher :: JobLauncher
  dh_base64 :: bool
  dh_launchedAt :: int
  dh_readOffset :: nat
  dh_command :: string
  dh_bootIdBefore :: "string option"

datatype JobHostOutcome =
  Answer BroadcastHostOutcome | Abandoned | Orphaned | Unhealthy

record JobHostResult =
  jh_serverId :: string
  jh_serverName :: string
  jh_state :: JobHostState
  jh_exitCode :: "int option"
  jh_stdout :: "string option"
  jh_stderr :: "string option"
  jh_error :: "string option"
  jh_ms :: "int option"
  jh_truncated :: "bool option"
  jh_outcome :: "JobHostOutcome option"
  jh_ord :: "nat option"
  jh_startedAt :: "int option"
  jh_endedAt :: "int option"
  jh_outOffset :: "nat option"
  jh_outElided :: "nat option"
  jh_detached :: "JobDetachedHandle option"
  jh_degraded :: "string option"

definition ABANDONED :: rx where
  "ABANDONED = ignore_case (lit ''opsmaxx stopped while'')"

text \<open>
  The cast \<open>r as BroadcastHostResult\<close>: the five states both unions share. The other job
  states never reach it, except that a value outside the broadcast union falls through
  \<open>classifyBroadcastResult\<close>'s state tests to its exit code, as \<open>BOk\<close> does.
\<close>

fun broadcast_state :: "JobHostState \<Rightarrow> BroadcastHostState" where
  "broadcast_state JPending = BPending"
| "broadcast_state JRunning = BRunning"
| "broadcast_state JFailed = BFailed"
| "broadcast_state JSkipped = BSkipped"
| "broadcast_state _ = BOk"

definition as_broadcast :: "JobHostResult \<Rightarrow> BroadcastHostResult" where
  "as_broadcast r =
     \<lparr>bh_serverId = jh_serverId r, bh_serverName = jh_serverName r,
      bh_state = broadcast_state (jh_state r), bh_exitCode = jh_exitCode r,
      bh_stdout = jh_stdout r, bh_stderr = jh_stderr r, bh_error = jh_error r,
      bh_ms = jh_ms r, bh_truncated = jh_truncated r, bh_outcome = None\<rparr>"

definition classifyJobResult :: "JobHostResult \<Rightarrow> JobHostOutcome option" where
  "classifyJobResult r =
     (if jh_state r = JWaiting \<or> jh_state r = JDetached \<or> jh_state r = JRebooting then None
      else if jh_state r = JForeign then None
      else if jh_state r = JOrphaned then Some Orphaned
      else if jh_state r = JFailed \<and> rx_test ABANDONED (nullish (jh_error r) []) then Some Abandoned
      else map_option Answer (classifyBroadcastResult (as_broadcast r)))"

lemma as_broadcast_state [simp]: "bh_state (as_broadcast r) = broadcast_state (jh_state r)"
  by (simp add: as_broadcast_def)

lemma classify_live_iff: "classifyJobResult r = None \<longleftrightarrow> isJobHostLive (jh_state r)"
  using classify_None_iff [of "as_broadcast r"]
  by (cases "jh_state r")
     (auto simp: classifyJobResult_def isJobHostLive_def JOB_HOST_LIVE_STATES_def)

subsection \<open>What a job is\<close>

datatype JobKind = KCommand | KPatch

record JobStep =
  js_command :: string
  js_timeoutMs :: "int option"
  js_reboot :: "bool option"

datatype JobGate = GateNone | GateHealth

fun gate_name :: "JobGate \<Rightarrow> string" where
  "gate_name GateNone = ''none''"
| "gate_name GateHealth = ''health''"

record JobSpec =
  sp_kind :: JobKind
  sp_title :: string
  sp_steps :: "JobStep list"
  sp_concurrency :: "int option"
  sp_gate :: "JobGate option"
  sp_rollback :: "JobStep list option"

record JobPlan =
  jp_risk :: BroadcastRisk
  jp_confirmation :: BroadcastConfirmation
  jp_reasons :: "string list"
  jp_blastRadius :: nat
  jp_totalHosts :: nat

definition RESTARTS_MACHINE :: string where
  "RESTARTS_MACHINE = ''shared.jobs.plan.restartsMachine''"

text \<open>The body of the loop over the steps.\<close>

definition plan_step :: "JobStep \<Rightarrow> BroadcastRisk \<times> string list \<Rightarrow> BroadcastRisk \<times> string list" where
  "plan_step st acc =
     (let a = assessCommand (js_command st);
          risk = (if ra_risk a > fst acc then ra_risk a else fst acc);
          reasons = foldl push_new (snd acc) (ra_reasons a)
      in if js_reboot st = Some True \<and> risk \<noteq> Destructive
         then (Destructive, push_new reasons RESTARTS_MACHINE)
         else (risk, reasons))"

definition count_step :: "ApprovalTargetRef \<Rightarrow> (string, nat) jsmap \<Rightarrow> (string, nat) jsmap" where
  "count_step t m = AList.update (cohort_of t) (nullish (map_of m (cohort_of t)) 0 + 1) m"

definition count_cohorts :: "ApprovalTargetRef list \<Rightarrow> (string, nat) jsmap" where
  "count_cohorts targets = fold count_step targets []"

definition blast_radius :: "ApprovalTargetRef list \<Rightarrow> nat" where
  "blast_radius targets =
     (let per = count_cohorts targets in if per = [] then 0 else Max (set (map snd per)))"

definition planJob :: "JobSpec \<Rightarrow> ApprovalTargetRef list \<Rightarrow> JobPlan" where
  "planJob spec targets =
     (let acc = fold plan_step (sp_steps spec) (Ordinary, []);
          radius = blast_radius targets
      in \<lparr>jp_risk = fst acc, jp_confirmation = confirmationFor (fst acc) radius,
          jp_reasons = snd acc, jp_blastRadius = radius, jp_totalHosts = length targets\<rparr>)"

subsection \<open>The approval adapter\<close>

definition approvalCommands :: "JobSpec \<Rightarrow> string list" where
  "approvalCommands spec =
     map js_command (sp_steps spec)
     @ map (\<lambda>st. ''rollback: '' @ js_command st) (nullish (sp_rollback spec) [])"

definition jobApprovalFor :: "JobSpec \<Rightarrow> ApprovalTargetRef list \<Rightarrow> string option \<Rightarrow> rat \<Rightarrow> json" where
  "jobApprovalFor spec targets phrase confirmedAt =
     (let plan = planJob spec targets in
      approvalFor SurfJob (approvalCommands spec) targets (jp_risk plan) (jp_confirmation plan)
        phrase confirmedAt (map_option gate_name (sp_gate spec)))"

definition verifyJobApproval :: "json \<Rightarrow> JobSpec \<Rightarrow> ApprovalTargetRef list \<Rightarrow> ApprovalVerdict" where
  "verifyJobApproval approval spec targets =
     (let plan = planJob spec targets;
          verdict = verifyApproval approval (approvalCommands spec) targets (jp_risk plan)
                      (jp_confirmation plan)
      in case verdict of
           Refused why \<Rightarrow> Refused why
         | Allowed \<Rightarrow>
             let now = gate_name (nullish (sp_gate spec) GateNone) in
             case field_of approval ''gate'' of
               None \<Rightarrow> Allowed
             | Some approvedGate \<Rightarrow>
                 if approvedGate \<noteq> JStr now then Refused (GateChanged approvedGate now)
                 else Allowed)"

subsection \<open>Cohorts, in first-appearance order\<close>

definition cohort_step :: "ApprovalTargetRef \<Rightarrow> (string, ApprovalTargetRef list) jsmap
    \<Rightarrow> (string, ApprovalTargetRef list) jsmap" where
  "cohort_step t m = AList.update (cohort_of t) (nullish (map_of m (cohort_of t)) [] @ [t]) m"

definition jobCohorts :: "ApprovalTargetRef list \<Rightarrow> (string \<times> ApprovalTargetRef list) list" where
  "jobCohorts targets = fold cohort_step targets []"

definition waveLabel :: "string \<Rightarrow> string" where
  "waveLabel name = (if name = [] then ''the only wave'' else name)"

subsection \<open>Risk of a plan\<close>

definition step_risk :: "JobStep \<Rightarrow> BroadcastRisk" where
  "step_risk st = (if js_reboot st = Some True then Destructive
                   else ra_risk (assessCommand (js_command st)))"

lemma fst_plan_step: "fst (plan_step st acc) = max (fst acc) (step_risk st)"
  by (cases "fst acc"; cases "ra_risk (assessCommand (js_command st))")
     (auto simp: plan_step_def step_risk_def Let_def max_def less_BroadcastRisk_def
        less_eq_BroadcastRisk_def)

lemma plan_fold_risk:
  "fst (fold plan_step steps acc) = fold max (map step_risk steps) (fst acc)"
  by (induction steps arbitrary: acc) (auto simp: fst_plan_step max.commute)

lemma fold_max_ge: "(x::'a::linorder) \<le> fold max xs x"
  by (induction xs arbitrary: x) (auto intro: order_trans [OF max.cobounded2])

lemma fold_max_mem: "y \<in> set xs \<Longrightarrow> (y::'a::linorder) \<le> fold max xs x"
proof (induction xs arbitrary: x)
  case (Cons z zs)
  then show ?case
    using fold_max_ge [of "max z x" zs] by (auto intro: order_trans [OF max.cobounded1])
qed simp

lemma fold_max_in: "(fold max xs x :: 'a::linorder) \<in> insert x (set xs)"
proof (induction xs arbitrary: x)
  case (Cons z zs)
  from Cons [of "max z x"] show ?case by (auto simp: max_def split: if_splits)
qed simp

lemma plan_reasons_distinct: "distinct (snd acc) \<Longrightarrow> distinct (snd (fold plan_step steps acc))"
proof (induction steps arbitrary: acc)
  case (Cons s ss)
  then have "distinct (snd (plan_step s acc))"
    by (simp add: plan_step_def Let_def)
  with Cons.IH show ?case by simp
qed simp

subsection \<open>The blast radius\<close>

lemma count_cohorts_map:
  "map_of (fold count_step ts m) k =
     (let n = length (filter (\<lambda>t. cohort_of t = k) ts) in
      if n = 0 then map_of m k else Some (nullish (map_of m k) 0 + n))"
  by (induction ts arbitrary: m) (auto simp: count_step_def update_conv' Let_def)

lemma count_cohorts_wf: "jsmap_wf m \<Longrightarrow> jsmap_wf (fold count_step ts m)"
  by (induction ts arbitrary: m) (auto simp: count_step_def)

definition cohort_size :: "ApprovalTargetRef list \<Rightarrow> string \<Rightarrow> nat" where
  "cohort_size targets k = length (filter (\<lambda>t. cohort_of t = k) targets)"

lemma count_cohorts_values:
  "(k, n) \<in> set (count_cohorts targets) \<longleftrightarrow> n = cohort_size targets k \<and> n \<noteq> 0"
proof -
  have wf: "jsmap_wf (count_cohorts targets)"
    by (simp add: count_cohorts_def count_cohorts_wf)
  then have "(k, n) \<in> set (count_cohorts targets) \<longleftrightarrow> map_of (count_cohorts targets) k = Some n"
    by (simp add: map_of_eq_Some_iff)
  then show ?thesis
    by (auto simp: count_cohorts_def count_cohorts_map Let_def cohort_size_def)
qed

lemma blast_radius_ge: "cohort_size targets k \<le> blast_radius targets"
proof (cases "cohort_size targets k = 0")
  case False
  then have "(k, cohort_size targets k) \<in> set (count_cohorts targets)"
    by (simp add: count_cohorts_values)
  then have "cohort_size targets k \<in> set (map snd (count_cohorts targets))"
    by force
  then show ?thesis by (auto simp: blast_radius_def Let_def intro!: Max_ge)
qed simp

lemma blast_radius_attained:
  "targets \<noteq> [] \<Longrightarrow> \<exists>t \<in> set targets. cohort_size targets (cohort_of t) = blast_radius targets"
proof -
  assume "targets \<noteq> []"
  then obtain t0 where "t0 \<in> set targets" by (cases targets) auto
  then have "0 < cohort_size targets (cohort_of t0)"
    by (force simp: cohort_size_def filter_empty_conv)
  then have ne: "count_cohorts targets \<noteq> []"
    using count_cohorts_values [of "cohort_of t0" "cohort_size targets (cohort_of t0)" targets] by auto
  then have "Max (set (map snd (count_cohorts targets))) \<in> set (map snd (count_cohorts targets))"
    by (intro Max_in) auto
  with ne have "blast_radius targets \<in> snd ` set (count_cohorts targets)"
    by (simp add: blast_radius_def Let_def)
  then obtain k where "(k, blast_radius targets) \<in> set (count_cohorts targets)"
    by auto
  then have k: "blast_radius targets = cohort_size targets k" "cohort_size targets k \<noteq> 0"
    by (auto simp: count_cohorts_values)
  then obtain t where "t \<in> set targets" "cohort_of t = k"
    by (force simp: cohort_size_def filter_empty_conv)
  with k show ?thesis by auto
qed

subsection \<open>Facts about cohorts\<close>

lemma jobCohorts_map:
  "map_of (fold cohort_step ts m) k =
     (let xs = filter (\<lambda>t. cohort_of t = k) ts in
      if xs = [] then map_of m k else Some (nullish (map_of m k) [] @ xs))"
  by (induction ts arbitrary: m) (auto simp: cohort_step_def update_conv' Let_def)

lemma jobCohorts_wf: "jsmap_wf m \<Longrightarrow> jsmap_wf (fold cohort_step ts m)"
  by (induction ts arbitrary: m) (auto simp: cohort_step_def)

lemma jobCohorts_entries:
  "(k, xs) \<in> set (jobCohorts targets) \<longleftrightarrow>
     xs = filter (\<lambda>t. cohort_of t = k) targets \<and> xs \<noteq> []"
proof -
  have "jsmap_wf (jobCohorts targets)"
    by (simp add: jobCohorts_def jobCohorts_wf)
  then have "(k, xs) \<in> set (jobCohorts targets) \<longleftrightarrow> map_of (jobCohorts targets) k = Some xs"
    by (simp add: map_of_eq_Some_iff)
  then show ?thesis
    by (auto simp: jobCohorts_def jobCohorts_map Let_def)
qed

lemma cohort_step_keys: "map fst (cohort_step t m) = push_new (map fst m) (cohort_of t)"
proof (cases "cohort_of t \<in> fst ` set m")
  case True
  have "k \<in> fst ` set m \<Longrightarrow> map fst (AList.update k v m) = map fst m" for k and v :: "ApprovalTargetRef list"
    by (induction m) auto
  with True show ?thesis by (simp add: cohort_step_def push_new_def)
next
  case False
  then show ?thesis by (simp add: cohort_step_def push_new_def alist_update_fresh)
qed

lemma jobCohorts_keys: "map fst (jobCohorts targets) = dedup (map cohort_of targets)"
proof -
  have "map fst (fold cohort_step ts m) = foldl push_new (map fst m) (map cohort_of ts)" for ts m
    by (induction ts arbitrary: m) (auto simp: cohort_step_keys)
  then show ?thesis by (simp add: jobCohorts_def dedup_def)
qed

subsection \<open>The job surface\<close>

type_synonym job_run = "JobSpec \<times> ApprovalTargetRef list"

definition job_mint :: "job_run \<Rightarrow> string option \<Rightarrow> rat \<Rightarrow> json" where
  "job_mint r phrase now = jobApprovalFor (fst r) (snd r) phrase now"

definition job_verify :: "json \<Rightarrow> job_run \<Rightarrow> ApprovalVerdict" where
  "job_verify approval r = verifyJobApproval approval (fst r) (snd r)"

definition job_demand :: "job_run \<Rightarrow> BroadcastConfirmation" where
  "job_demand r = jp_confirmation (planJob (fst r) (snd r))"

lemma verifyJob_Allowed_iff:
  "verifyJobApproval a spec targets = Allowed \<longleftrightarrow>
     verifyApproval a (approvalCommands spec) targets (jp_risk (planJob spec targets))
       (jp_confirmation (planJob spec targets)) = Allowed
     \<and> (\<forall>g. field_of a ''gate'' = Some g \<longrightarrow> g = JStr (gate_name (nullish (sp_gate spec) GateNone)))"
  by (auto simp: verifyJobApproval_def Let_def split: ApprovalVerdict.splits option.splits)

lemma field_gate_approvalFor:
  "field_of (approvalFor sf cs ts risk conf ph tm g) ''gate'' = map_option JStr g"
  by (cases g) (auto simp: approvalFor_def opt_field_def)

interpretation job: run_approval job_mint job_verify "\<lambda>r. approvalCommands (fst r)" snd job_demand
proof
  fix a r
  assume "job_verify a r = Allowed"
  then show "\<exists>rec. isCommandApproval a = Some rec \<and> ca_commands rec = approvalCommands (fst r)
      \<and> (\<forall>t \<in> set (snd r). map_of (approved_map rec) (serverId t) = Some (JStr (cohort_of t)))
      \<and> (\<forall>w. job_demand r = TypeToConfirm w \<longrightarrow> ca_phrase rec = Some w)"
    by (auto simp: job_verify_def job_demand_def verifyJob_Allowed_iff verify_Allowed_iff)
next
  fix tm :: rat and r ph
  assume "0 < tm" "answered (job_demand r) ph" "distinct (map serverId (snd r))"
  then show "job_verify (job_mint r ph tm) r = Allowed"
    by (cases "sp_gate (fst r)")
       (auto simp: job_verify_def job_mint_def job_demand_def verifyJob_Allowed_iff
          jobApprovalFor_def Let_def verify_minted field_gate_approvalFor)
next
  fix tm :: rat and r ph
  assume "0 < tm"
  then show "\<exists>rec. isCommandApproval (job_mint r ph tm) = Some rec
      \<and> ca_commands rec = approvalCommands (fst r)
      \<and> ca_targets rec = map (\<lambda>t. (serverId t, serverName t, map_option JStr (cohort t))) (snd r)
      \<and> ca_phrase rec = ph"
    by (simp add: job_mint_def jobApprovalFor_def Let_def isCommandApproval_approvalFor)
qed

text \<open>The stage gate a record was minted with is the only one it verifies for.\<close>

lemma job_gate_pinned:
  "sp_gate spec = Some g \<Longrightarrow> nullish (sp_gate spec') GateNone \<noteq> g \<Longrightarrow>
   verifyJobApproval (jobApprovalFor spec targets ph tm) spec' targets' \<noteq> Allowed"
  by (cases g; cases "nullish (sp_gate spec') GateNone")
     (auto simp: verifyJob_Allowed_iff jobApprovalFor_def Let_def field_gate_approvalFor)

lemma rollback_not_a_step:
  "approvalCommands spec = approvalCommands spec' \<Longrightarrow>
   (\<forall>st \<in> set (sp_steps spec) \<union> set (sp_steps spec'). \<not> starts_with ''rollback: '' (js_command st)) \<Longrightarrow>
   map js_command (sp_steps spec) = map js_command (sp_steps spec')"
proof -
  let ?q = "\<lambda>c. \<not> starts_with ''rollback: '' c"
  assume eq: "approvalCommands spec = approvalCommands spec'"
    and clean: "\<forall>st \<in> set (sp_steps spec) \<union> set (sp_steps spec'). ?q (js_command st)"
  have "filter ?q (approvalCommands s) = map js_command (sp_steps s)"
    if "\<forall>st \<in> set (sp_steps s). ?q (js_command st)" for s
  proof -
    have "filter ?q (map js_command (sp_steps s)) = map js_command (sp_steps s)"
      using that by (simp add: filter_id_conv)
    moreover have "filter ?q (map (\<lambda>st. ''rollback: '' @ js_command st) xs) = []" for xs
      by (simp add: filter_empty_conv del: append.simps starts_with.simps)
    ultimately show ?thesis by (simp add: approvalCommands_def del: append.simps starts_with.simps)
  qed
  with eq clean show ?thesis by (metis UnCI)
qed

subsection \<open>Properties\<close>

text \<open>
  A plan is as risky as its riskiest step: the risk of a job is attained by a step and
  bounds every step (a step that reboots its host is destructive whatever its text), its
  reasons never repeat, and the confirmation is the one that risk demands for the largest
  wave.\<close>

theorem plan_is_as_risky_as_its_worst_step:
  "(\<forall>st \<in> set (sp_steps spec). step_risk st \<le> jp_risk (planJob spec targets))
   \<and> jp_risk (planJob spec targets) \<in> insert Ordinary (step_risk ` set (sp_steps spec))
   \<and> distinct (jp_reasons (planJob spec targets))
   \<and> jp_confirmation (planJob spec targets)
       = confirmationFor (jp_risk (planJob spec targets)) (jp_blastRadius (planJob spec targets))"
  using fold_max_mem [of _ "map step_risk (sp_steps spec)" Ordinary]
    fold_max_in [of "map step_risk (sp_steps spec)" Ordinary]
    plan_reasons_distinct [of "(Ordinary, [])" "sp_steps spec"]
  by (auto simp: planJob_def Let_def plan_fold_risk)

theorem plan_is_as_risky_as_its_worst_step_witness:
  "Destructive \<le> jp_risk (planJob
     \<lparr>sp_kind = KCommand, sp_title = [],
      sp_steps = [\<lparr>js_command = ''ls'', js_timeoutMs = None, js_reboot = Some True\<rparr>],
      sp_concurrency = None, sp_gate = None, sp_rollback = None\<rparr> [])"
  using plan_is_as_risky_as_its_worst_step [of "\<lparr>sp_kind = KCommand, sp_title = [],
      sp_steps = [\<lparr>js_command = ''ls'', js_timeoutMs = None, js_reboot = Some True\<rparr>],
      sp_concurrency = None, sp_gate = None, sp_rollback = None\<rparr>" "[]"]
  by (simp add: step_risk_def)

text \<open>
  The blast radius is the size of the largest wave: no cohort of the target list is larger,
  and for a nonempty list some cohort is exactly that large.\<close>

theorem blast_radius_is_the_largest_wave:
  "cohort_size targets k \<le> jp_blastRadius (planJob spec targets)
   \<and> (targets \<noteq> [] \<longrightarrow>
        (\<exists>t \<in> set targets. cohort_size targets (cohort_of t) = jp_blastRadius (planJob spec targets)))"
  using blast_radius_ge [of targets k] blast_radius_attained [of targets]
  by (simp add: planJob_def Let_def)

theorem blast_radius_is_the_largest_wave_witness:
  "\<exists>t \<in> set [\<lparr>serverId = ''a'', serverName = ''A'', cohort = None\<rparr>].
     cohort_size [\<lparr>serverId = ''a'', serverName = ''A'', cohort = None\<rparr>] (cohort_of t)
       = jp_blastRadius (planJob
           \<lparr>sp_kind = KCommand, sp_title = [], sp_steps = [], sp_concurrency = None,
            sp_gate = None, sp_rollback = None\<rparr>
           [\<lparr>serverId = ''a'', serverName = ''A'', cohort = None\<rparr>])"
  using blast_radius_is_the_largest_wave [THEN conjunct2] by blast

text \<open>
  The waves of a job partition its targets: the waves are the cohorts in order of first
  appearance, each holds exactly the targets of its cohort in their order, none is empty,
  and every target is in the wave of its cohort.\<close>

theorem waves_partition_the_targets:
  "map fst (jobCohorts targets) = dedup (map cohort_of targets)
   \<and> (\<forall>(k, xs) \<in> set (jobCohorts targets). xs = filter (\<lambda>t. cohort_of t = k) targets \<and> xs \<noteq> [])
   \<and> (\<forall>t \<in> set targets. \<exists>xs. (cohort_of t, xs) \<in> set (jobCohorts targets) \<and> t \<in> set xs)"
proof -
  have "(cohort_of t, filter (\<lambda>u. cohort_of u = cohort_of t) targets) \<in> set (jobCohorts targets)"
    if "t \<in> set targets" for t
    unfolding jobCohorts_entries using that by (force simp: filter_empty_conv)
  then show ?thesis
    by (auto simp: jobCohorts_keys jobCohorts_entries)
qed

theorem waves_partition_the_targets_witness:
  "map fst (jobCohorts [\<lparr>serverId = ''a'', serverName = ''A'', cohort = Some ''w1''\<rparr>,
      \<lparr>serverId = ''b'', serverName = ''B'', cohort = None\<rparr>,
      \<lparr>serverId = ''c'', serverName = ''C'', cohort = Some ''w1''\<rparr>]) = [''w1'', []]"
  using waves_partition_the_targets [THEN conjunct1] by (simp add: dedup_def push_new_def cohort_of_def)

text \<open>A job record never covers another job: other steps or an edited rollback, an added host,
  a host moved to another wave, a demanded word that was not typed, or another stage gate
  than the one the record was minted with, and the job is refused; while the record of an
  answered job verifies for that job.\<close>

theorem stale_job_record_refused:
  assumes "0 < confirmedAt" "distinct (map serverId targets)"
  shows "(answered (jp_confirmation (planJob spec targets)) phrase \<longrightarrow>
            verifyJobApproval (jobApprovalFor spec targets phrase confirmedAt) spec targets = Allowed)
    \<and> (approvalCommands spec' \<noteq> approvalCommands spec
       \<or> (\<exists>t' \<in> set targets'. serverId t' \<notin> serverId ` set targets)
       \<or> (\<exists>t \<in> set targets. \<exists>t' \<in> set targets'. serverId t' = serverId t \<and> cohort_of t' \<noteq> cohort_of t)
       \<or> \<not> answered (jp_confirmation (planJob spec' targets')) phrase
       \<or> (\<exists>g. sp_gate spec = Some g \<and> nullish (sp_gate spec') GateNone \<noteq> g)
       \<longrightarrow> verifyJobApproval (jobApprovalFor spec targets phrase confirmedAt) spec' targets' \<noteq> Allowed)"
  using assms job.mint_verifies [of confirmedAt "(spec, targets)" phrase]
    job.edited_refused [of confirmedAt "(spec', targets')" "(spec, targets)" phrase]
    job.added_refused [of confirmedAt _ "(spec', targets')" "(spec, targets)" phrase]
    job.moved_refused [of confirmedAt "(spec, targets)" _ _ "(spec', targets')" phrase]
    job.unanswered_refused [of confirmedAt "(spec', targets')" phrase "(spec, targets)"]
    job_gate_pinned [of spec _ spec' targets phrase confirmedAt targets']
  by (auto simp: job_mint_def job_verify_def job_demand_def)

theorem stale_job_record_refused_witness:
  "verifyJobApproval (jobApprovalFor
      \<lparr>sp_kind = KCommand, sp_title = [], sp_steps = [], sp_concurrency = None,
       sp_gate = Some GateHealth, sp_rollback = None\<rparr> [] None 5)
      \<lparr>sp_kind = KCommand, sp_title = [], sp_steps = [], sp_concurrency = None,
       sp_gate = None, sp_rollback = None\<rparr> [] \<noteq> Allowed"
  using stale_job_record_refused [of 5 "[]"
      "\<lparr>sp_kind = KCommand, sp_title = [], sp_steps = [], sp_concurrency = None,
       sp_gate = Some GateHealth, sp_rollback = None\<rparr>" None
      "\<lparr>sp_kind = KCommand, sp_title = [], sp_steps = [], sp_concurrency = None,
       sp_gate = None, sp_rollback = None\<rparr>" "[]"]
  by simp

text \<open>
  A host of a job has an outcome exactly when it is no longer live: the classification
  yields none for precisely the six live states, so no host is both counted as running and
  classified.\<close>

theorem outcome_iff_not_live:
  "classifyJobResult r = None \<longleftrightarrow> isJobHostLive (jh_state r)"
  by (rule classify_live_iff)

end
