(* ===== verification/Job_Wire.thy ===== *)
theory Job_Wire
  imports Jobs "HOL-Library.Word"
begin

unbundle bit_operations_syntax

section \<open>Talking to a host about a job (shared/jobs.ts)\<close>

text \<open>
  The text protocol of a detached job: quoting for the shell, the guarded names that
  become paths, the commands that signal and that delete a marker directory, the header
  the host prints and the parsers of its answers, the verdict on one poll, the cut at a
  UTF-8 boundary and the reconnect delay. A thrown error is None.
\<close>

subsection \<open>Shell quoting\<close>

text \<open>\<open>s.split("'").join(`'\\''`)\<close> between single quotes.\<close>

definition escaped_quote :: string where
  "escaped_quote = [quote1, CHR 0x5C, quote1, quote1]"

definition shQuote :: "string \<Rightarrow> string" where
  "shQuote s = quote1 # join escaped_quote (split_on quote1 s) @ [quote1]"

text \<open>
  How a POSIX shell reads one word made of single-quoted runs and backslash escapes: the
  text of the word and the rest of the line. The flag says whether a quoted run is open.
\<close>

fun sh_word :: "bool \<Rightarrow> string \<Rightarrow> (string \<times> string) option" where
  "sh_word True [] = None"
| "sh_word True (c # cs) =
     (if c = quote1 then sh_word False cs
      else map_option (\<lambda>(w, r). (c # w, r)) (sh_word True cs))"
| "sh_word False [] = Some ([], [])"
| "sh_word False (c # cs) =
     (if c = quote1 then sh_word True cs
      else if c = CHR 0x5C then
        (case cs of [] \<Rightarrow> None | d # ds \<Rightarrow> map_option (\<lambda>(w, r). (d # w, r)) (sh_word False ds))
      else if is_ws c \<or> c \<in> set '';&|()<>'' then Some ([], c # cs)
      else map_option (\<lambda>(w, r). (c # w, r)) (sh_word False cs))"

lemma sh_word_run:
  "quote1 \<notin> set p \<Longrightarrow> sh_word True (p @ r) = map_option (\<lambda>(w, t). (p @ w, t)) (sh_word True r)"
proof (induction p)
  case Nil
  then show ?case by (cases "sh_word True r") auto
qed (auto simp: option.map_comp comp_def split_def)

lemma sh_word_join:
  "ps \<noteq> [] \<Longrightarrow> \<forall>p \<in> set ps. quote1 \<notin> set p \<Longrightarrow>
   sh_word True (join escaped_quote ps @ quote1 # t)
     = map_option (\<lambda>(w, r). (join [quote1] ps @ w, r)) (sh_word False t)"
proof (induction "escaped_quote" ps rule: join.induct)
  case (3 x y ys)
  have "sh_word True (escaped_quote @ r) = map_option (\<lambda>(w, t). (quote1 # w, t)) (sh_word True r)" for r
    by (simp add: escaped_quote_def)
  with 3 show ?case
    by (simp add: sh_word_run option.map_comp comp_def split_def)
qed (simp_all add: sh_word_run)

subsection \<open>Guarded names\<close>

definition alnum_c :: rx where
  "alnum_c = Cls (\<lambda>c. is_alpha c \<or> is_digit c)"

definition id_c :: rx where
  "id_c = Cls (\<lambda>c. is_alpha c \<or> is_digit c \<or> c \<in> set ''._-'')"

definition SAFE_ID :: rx where
  "SAFE_ID = seqs [Bol, alnum_c, upto 127 id_c, Eol]"

definition assertSafeJobId :: "string \<Rightarrow> bool" where
  "assertSafeJobId i = (rx_test SAFE_ID i \<and> \<not> has_text ''..'' i)"

definition strip_slashes :: "string \<Rightarrow> string" where
  "strip_slashes s = rev (dropWhile (\<lambda>c. c = CHR ''/'') (rev s))"

text \<open>The step index is a number that may not be an integer; a fraction throws.\<close>

definition jobMarkerDir :: "string \<Rightarrow> string \<Rightarrow> rat \<Rightarrow> string option" where
  "jobMarkerDir rootDir jobId step =
     (if \<not> assertSafeJobId jobId then None
      else if of_int \<lfloor>step\<rfloor> \<noteq> step \<or> step < 1 \<or> step > 999 then None
      else Some (strip_slashes rootDir @ ''/'' @ jobId @ ''.'' @ show_nat (nat \<lfloor>step\<rfloor>)))"

definition MARKER_DIR :: rx where
  "MARKER_DIR = seqs
     [Bol, many1 (Seq (lit ''/'') (many1 (none_of ''/''))), lit ''/'', alnum_c, upto 127 id_c,
      lit ''.'', Cls is_digit, upto 2 (Cls is_digit), Eol]"

definition isJobMarkerDir :: "string \<Rightarrow> bool" where
  "isJobMarkerDir dir = (\<not> has_text ''..'' dir \<and> rx_test MARKER_DIR dir)"

subsection \<open>The commands that signal and that delete\<close>

datatype JobSignal = SigTerm | SigKill

definition signal_name :: "JobSignal option \<Rightarrow> string" where
  "signal_name s = (if s = Some SigKill then ''KILL'' else ''TERM'')"

definition buildJobSignal :: "string \<Rightarrow> JobSignal option \<Rightarrow> string option" where
  \<open>buildJobSignal dir sg =
     (if \<not> isJobMarkerDir dir then None
      else Some (join '' ''
       [''SP_JOB_VERB=signal; SP_JOB_DIR='' @ shQuote dir @ ''; SP_JOB_SIG='' @ signal_name sg @ '';'',
        ''echo "opsmaxx-signal/1";'',
        ''SP_PID=$(head -n1 "$SP_JOB_DIR/pid" 2>/dev/null); SP_PGID=$(head -n1 "$SP_JOB_DIR/pgid" 2>/dev/null);'',
        ''if [ -z "$SP_PID" ]; then echo "signalled=none"; exit 0; fi;'',
        ''SP_ARGS=$(ps -o args= -p "$SP_PID" 2>/dev/null) || SP_ARGS=;'',
        ''if [ -z "$SP_ARGS" ]; then echo "signalled=unverified"; exit 0; fi;'',
        ''if ! printf "%s" "$SP_ARGS" | grep -qF -- "$SP_JOB_DIR"; then echo "signalled=stale"; exit 0; fi;'',
        ''if [ -n "$SP_PGID" ] && [ "$SP_PID" = "$SP_PGID" ] && [ "$SP_PID" -gt 1 ] 2>/dev/null; then kill -''
          @ signal_name sg @ '' -- "-$SP_PID" 2>/dev/null; echo "signalled=group"; else kill -''
          @ signal_name sg @ '' "$SP_PID" 2>/dev/null; echo "signalled=process"; fi;'',
        ''exit 0'']))\<close>

definition buildJobReap :: "string \<Rightarrow> string option" where
  \<open>buildJobReap dir =
     (if \<not> isJobMarkerDir dir then None
      else Some (join '' ''
       [''SP_JOB_VERB=reap; SP_JOB_DIR='' @ shQuote dir @ '';'',
        ''rm -rf "$SP_JOB_DIR" 2>/dev/null;'',
        ''if [ -d "$SP_JOB_DIR" ]; then echo "opsmaxx-reap/1"; echo "reaped=no"; else echo "opsmaxx-reap/1"; echo "reaped=yes"; fi'']))\<close>

subsection \<open>The header a host prints\<close>

definition header_key :: "string \<Rightarrow> bool" where
  "header_key k = (k \<noteq> [] \<and> list_all (\<lambda>c. is_lower c \<or> is_digit c \<or> c = CHR ''_'') k)"

definition strip_cr :: "string \<Rightarrow> string" where
  "strip_cr s = (if s \<noteq> [] \<and> last s = carriage_return then butlast s else s)"

definition header_line :: "string \<Rightarrow> (string, string) jsmap \<Rightarrow> (string, string) jsmap" where
  "header_line line m =
     (case index_of ''='' line of
        None \<Rightarrow> m
      | Some eq \<Rightarrow>
          if eq = 0 then m
          else let key = trim (take eq line) in
            if \<not> header_key key then m
            else AList.update key (trim (strip_cr (drop (eq + 1) line))) m)"

definition headerFields :: "string \<Rightarrow> (string, string) jsmap" where
  "headerFields text = fold header_line (split_on newline text) []"

text \<open>\<open>fields.get(k) || null\<close>: an empty value reads as null.\<close>

definition field_or_null :: "(string, string) jsmap \<Rightarrow> string \<Rightarrow> string option" where
  "field_or_null m k = (case map_of m k of None \<Rightarrow> None | Some v \<Rightarrow> if v = [] then None else Some v)"

definition num_field :: "(string, string) jsmap \<Rightarrow> string \<Rightarrow> nat option" where
  "num_field m k = Option.bind (map_of m k) parse_decimal"

subsection \<open>Reading the answers\<close>

datatype ProbeGap = NotPosix | NoRoot | NoDetacher

record JobHostCapability =
  cap_root :: "string option"
  cap_launcher :: JobLauncher
  cap_base64 :: bool
  cap_uid :: "nat option"
  cap_ok :: bool
  cap_reason :: "ProbeGap option"

definition parseJobProbe :: "string \<Rightarrow> JobHostCapability" where
  "parseJobProbe stdout =
     (let fields = headerFields stdout;
          rootDir = field_or_null fields ''root'';
          launcherRaw = nullish (map_of fields ''launcher'') ''none'';
          launcher = (if launcherRaw = ''setsid'' then Setsid
                      else if launcherRaw = ''nohup'' then Nohup else NoLauncher);
          uid = num_field fields ''uid'';
          b64 = (map_of fields ''base64'' = Some ''yes'');
          signed = has_text ''opsmaxx-probe/1'' stdout;
          reason = (if \<not> signed then Some NotPosix
                    else if rootDir = None then Some NoRoot
                    else if launcher = NoLauncher then Some NoDetacher
                    else None)
      in \<lparr>cap_root = rootDir, cap_launcher = launcher, cap_base64 = b64, cap_uid = uid,
          cap_ok = (reason = None), cap_reason = reason\<rparr>)"

datatype LaunchError = LaunchNotPosix | HostSaid string

definition parseJobLaunch :: "string \<Rightarrow> LaunchError option" where
  "parseJobLaunch stdout =
     (if \<not> has_text ''opsmaxx-launch/1'' stdout then Some LaunchNotPosix
      else map_option HostSaid (field_or_null (headerFields stdout) ''error''))"

datatype JobSignalOutcome = SigGroup | SigProcess | SigNone | SigStale | SigUnverified | SigUnknown

definition parseJobSignal :: "string \<Rightarrow> JobSignalOutcome" where
  "parseJobSignal stdout =
     (let v = map_of (headerFields stdout) ''signalled'' in
      if v = Some ''group'' then SigGroup else if v = Some ''process'' then SigProcess
      else if v = Some ''none'' then SigNone else if v = Some ''stale'' then SigStale
      else if v = Some ''unverified'' then SigUnverified else SigUnknown)"

definition parseJobReap :: "string \<Rightarrow> bool" where
  "parseJobReap stdout = (map_of (headerFields stdout) ''reaped'' = Some ''yes'')"

subsection \<open>The poll\<close>

type_synonym byte = "8 word"

text \<open>
  The loop of \<open>incompleteUtf8Tail\<close>: \<open>back\<close> counts from the end of the buffer, here the
  position in the reversed buffer. At most three bytes are looked at.
\<close>

fun utf8_tail :: "nat \<Rightarrow> byte list \<Rightarrow> nat" where
  "utf8_tail back [] = 0"
| "utf8_tail back (b # bs) =
     (if back > 3 then 0
      else if b AND 0xC0 = 0x80 then utf8_tail (Suc back) bs
      else let need = (if b \<ge> 0xF0 then 4 else if b \<ge> 0xE0 then 3 else if b \<ge> 0xC0 then 2 else 1)
           in if need > back then back else 0)"

definition incompleteUtf8Tail :: "byte list \<Rightarrow> nat" where
  "incompleteUtf8Tail buf = utf8_tail 1 (rev buf)"

text \<open>\<open>Buffer.from(s, 'base64')\<close> on text already reduced to the base64 alphabet.\<close>

definition b64_digit :: "char \<Rightarrow> nat option" where
  "b64_digit c =
     (if is_upper c then Some (code c - 65)
      else if is_lower c then Some (code c - 97 + 26)
      else if is_digit c then Some (code c - 48 + 52)
      else if c = CHR ''+'' then Some 62
      else if c = CHR ''/'' then Some 63
      else None)"

fun b64_bytes :: "nat list \<Rightarrow> byte list" where
  "b64_bytes (a # b # c # d # rest) =
     of_nat (a * 4 + b div 16) # of_nat (b * 16 + c div 4) # of_nat (c * 64 + d) # b64_bytes rest"
| "b64_bytes [a, b, c] = [of_nat (a * 4 + b div 16), of_nat (b * 16 + c div 4)]"
| "b64_bytes [a, b] = [of_nat (a * 4 + b div 16)]"
| "b64_bytes _ = []"

definition base64_decode :: "string \<Rightarrow> byte list" where
  "base64_decode s = b64_bytes (List.map_filter b64_digit (takeWhile (\<lambda>c. c \<noteq> CHR ''='') s))"

datatype JobText = Decoded "byte list" | AsReceived string

record JobPollResult =
  po_present :: bool
  po_instance :: "string option"
  po_pid :: "nat option"
  po_pgid :: "nat option"
  po_rc :: "nat option"
  po_alive :: bool
  po_strong :: bool
  po_size :: nat
  po_sent :: nat
  po_text :: JobText

definition utf8_length :: "string \<Rightarrow> nat" where
  "utf8_length s = sum_list (map (\<lambda>c. if code c < 128 then 1 else 2) s)"

text \<open>\<open>replace(/^\\r?\\n?/, '')\<close>\<close>

definition strip_leading_break :: "string \<Rightarrow> string" where
  "strip_leading_break s =
     (let s = (case s of c # cs \<Rightarrow> if c = carriage_return then cs else s | [] \<Rightarrow> []) in
      (case s of c # cs \<Rightarrow> if c = newline then cs else s | [] \<Rightarrow> []))"

definition poll_split :: "string \<Rightarrow> string \<times> string" where
  "poll_split stdout =
     (case index_of ''body/1'' stdout of
        None \<Rightarrow> (stdout, [])
      | Some i \<Rightarrow> (take i stdout, strip_leading_break (drop (i + 6) stdout)))"

definition parseJobPoll :: "string \<Rightarrow> bool \<Rightarrow> byte list \<Rightarrow> JobPollResult \<times> byte list" where
  "parseJobPoll stdout base64 carry0 =
     (let (hdr, rawBody) = poll_split stdout;
          f = headerFields hdr;
          announced = nullish (num_field f ''sent'') 0;
          size = nullish (num_field f ''size'') 0;
          (arrived, text, carry) =
            (if base64 then
               let bytes = base64_decode (filter (\<lambda>c. is_alpha c \<or> is_digit c \<or> c \<in> set ''+/='') rawBody);
                   joined = carry0 @ bytes;
                   keep = incompleteUtf8Tail joined;
                   at_end = length joined - keep
               in (min announced (length bytes), Decoded (take at_end joined), drop at_end joined)
             else (min announced (utf8_length rawBody), AsReceived rawBody, []))
      in (\<lparr>po_present = (map_of f ''marker'' = Some ''present''),
            po_instance = field_or_null f ''instance'',
            po_pid = num_field f ''pid'', po_pgid = num_field f ''pgid'',
            po_rc = (case num_field f ''rc'' of None \<Rightarrow> num_field f ''rc2'' | Some n \<Rightarrow> Some n),
            po_alive = (map_of f ''alive'' = Some ''yes''),
            po_strong = (map_of f ''pidcheck'' = Some ''strong''),
            po_size = size, po_sent = arrived, po_text = text\<rparr>, carry))"

subsection \<open>The verdict on a poll\<close>

datatype JobPollPhase =
  PollStarting | PollRunning | PollFinished | PollOrphaned | PollMissing | PollFailedLaunch
  | PollRebooted

definition JOB_LAUNCH_GRACE_MS :: int where "JOB_LAUNCH_GRACE_MS = 30000"

record poll_ctx =
  pc_instanceId :: string
  pc_launchedAt :: int
  pc_now :: int
  pc_graceMs :: "int option"
  pc_expectsReboot :: "bool option"

definition classifyJobPoll :: "JobPollResult \<Rightarrow> poll_ctx \<Rightarrow> JobPollPhase \<times> bool" where
  "classifyJobPoll poll ctx =
     (let foreign = (po_instance poll \<noteq> None \<and> po_instance poll \<noteq> Some (pc_instanceId ctx)) in
      if \<not> po_present poll then (PollMissing, False)
      else if po_rc poll \<noteq> None then
        (if pc_expectsReboot ctx = Some True then PollRebooted else PollFinished, foreign)
      else if po_pid poll = None then
        (if pc_now ctx - pc_launchedAt ctx \<le> nullish (pc_graceMs ctx) JOB_LAUNCH_GRACE_MS
         then PollStarting else PollFailedLaunch, foreign)
      else if po_alive poll then (PollRunning, foreign)
      else (if pc_expectsReboot ctx = Some True then PollRebooted else PollOrphaned, foreign))"

subsection \<open>Reconnect backoff\<close>

definition JOB_RECONNECT_BASE_MS :: nat where "JOB_RECONNECT_BASE_MS = 2000"
definition JOB_RECONNECT_MAX_MS :: nat where "JOB_RECONNECT_MAX_MS = 60000"

text \<open>
  \<open>rand\<close> is the value of one call of the injected random source, in \<open>[0, 1)\<close>; the attempt
  is a number, floored as in the source; \<open>Math.round\<close> is \<open>\<lfloor>x + 1/2\<rfloor>\<close>.
\<close>

definition retry_window :: "rat \<Rightarrow> nat \<Rightarrow> nat \<Rightarrow> nat" where
  "retry_window attempt base mx =
     (let n = max 1 (nat \<lfloor>attempt\<rfloor>) in min mx (base * 2 ^ min (n - 1) 30))"

definition nextRetryDelay :: "rat \<Rightarrow> rat \<Rightarrow> nat option \<Rightarrow> nat option \<Rightarrow> int" where
  "nextRetryDelay attempt rand baseMs maxMs =
     (let w = retry_window attempt (nullish baseMs JOB_RECONNECT_BASE_MS)
                (nullish maxMs JOB_RECONNECT_MAX_MS);
          half = of_nat w / 2
      in \<lfloor>half + rand * half + 1 / 2\<rfloor>)"

subsection \<open>The expected reboot\<close>

definition RESTARTS :: "rx list" where
  "RESTARTS =
     [commandStart (Seq (words [''shutdown'', ''poweroff'', ''halt'', ''reboot'']) WordB),
      commandStart (seqs [lit ''systemctl'', many1 ws_c,
                          words [''poweroff'', ''reboot'', ''halt'', ''kexec''], WordB])]"

definition restartsTheMachine :: "string \<Rightarrow> bool" where
  "restartsTheMachine command = list_ex (\<lambda>r. rx_test r command) RESTARTS"

subsection \<open>Facts: quoting\<close>

lemma shQuote_read:
  assumes "t = [] \<or> is_ws (hd t) \<or> hd t \<in> set '';&|()<>''"
  shows "sh_word False (shQuote s @ t) = Some (s, t)"
proof -
  have sep: "sh_word False t = Some ([], t)"
    using assms by (cases t) (auto simp: is_ws_def code_def)
  have "sh_word False (shQuote s @ t) = sh_word True (join escaped_quote (split_on quote1 s) @ quote1 # t)"
    by (simp add: shQuote_def)
  also have "\<dots> = map_option (\<lambda>(w, r). (join [quote1] (split_on quote1 s) @ w, r)) (sh_word False t)"
    by (rule sh_word_join) (auto dest: split_on_parts)
  finally show ?thesis by (simp add: sep join_split_on)
qed

subsection \<open>Facts: marker directories\<close>

text \<open>A path prefix: one or more segments, each a slash and a nonempty name.\<close>

definition path_prefix :: "string list \<Rightarrow> string" where
  "path_prefix segs = concat (map (\<lambda>g. CHR ''/'' # g) segs)"

abbreviation seg_rx :: rx where
  "seg_rx \<equiv> Seq (lit ''/'') (many1 (none_of ''/''))"

lemma rel_segment:
  "g \<noteq> [] \<Longrightarrow> CHR ''/'' \<notin> set g \<Longrightarrow>
   (length p, length p + Suc (length g)) \<in> rx_rel seg_rx (p @ CHR ''/'' # g @ t)"
proof -
  assume a: "g \<noteq> []" "CHR ''/'' \<notin> set g"
  have "(length p, length p + 1) \<in> rx_rel (lit ''/'') (p @ CHR ''/'' # g @ t)"
    using rel_lit_at [of p "''/''" "g @ t"] by simp
  moreover have "(length p + 1, length p + 1 + length g) \<in> rx_rel (many1 (none_of ''/'')) (p @ CHR ''/'' # g @ t)"
  proof -
    have "list_all (\<lambda>c. c \<notin> set ''/'') g"
      using a(2) by (auto simp: list_all_iff)
    from rel_many1_run [OF this a(1), of "p @ [CHR ''/'']" t] show ?thesis
      by (simp add: none_of_def)
  qed
  ultimately show ?thesis by auto
qed

lemma rel_segments:
  "\<forall>g \<in> set segs. g \<noteq> [] \<and> CHR ''/'' \<notin> set g \<Longrightarrow>
   (length p, length p + length (path_prefix segs)) \<in> rx_rel (Star seg_rx) (p @ path_prefix segs @ t)"
proof (induction segs arbitrary: p)
  case Nil
  then show ?case by (simp add: path_prefix_def)
next
  case (Cons g gs)
  let ?p = "p @ CHR ''/'' # g"
  have s: "p @ path_prefix (g # gs) @ t = p @ CHR ''/'' # g @ path_prefix gs @ t"
    by (simp add: path_prefix_def)
  have "(length p, length ?p) \<in> rx_rel seg_rx (p @ path_prefix (g # gs) @ t)"
    using rel_segment [of g p "path_prefix gs @ t"] Cons.prems s by simp
  moreover have "(length ?p, length ?p + length (path_prefix gs)) \<in> rx_rel (Star seg_rx) (p @ path_prefix (g # gs) @ t)"
    using Cons.IH [of ?p] Cons.prems s by simp
  moreover have "length ?p + length (path_prefix gs) = length p + length (path_prefix (g # gs))"
    by (simp add: path_prefix_def)
  ultimately show ?case
    by (simp only: rx_rel.simps converse_rtrancl_into_rtrancl)
qed

subsection \<open>Facts: two dots\<close>

fun dotdot :: "string \<Rightarrow> bool" where
  "dotdot (a # b # r) = ((a = CHR ''.'' \<and> b = CHR ''.'') \<or> dotdot (b # r))"
| "dotdot _ = False"

lemma has_dotdot_iff: "has_text ''..'' s = dotdot s"
proof (induction s rule: dotdot.induct)
  case (1 a b r)
  then show ?case by (auto simp: has_text_def)
qed (auto simp: has_text_def)

lemma dotdot_append:
  "dotdot (x @ y) \<longleftrightarrow>
     dotdot x \<or> dotdot y \<or> (x \<noteq> [] \<and> y \<noteq> [] \<and> last x = CHR ''.'' \<and> hd y = CHR ''.'')"
proof (induction x)
  case (Cons a x)
  then show ?case by (cases x; cases y) auto
qed simp

lemma dotdot_digits: "list_all is_digit ds \<Longrightarrow> \<not> dotdot ds"
  by (induction ds rule: dotdot.induct) (auto simp: is_digit_def code_def)

subsection \<open>Facts: what jobMarkerDir builds, isJobMarkerDir accepts\<close>

lemma SAFE_ID_shape:
  assumes "rx_test SAFE_ID s"
  shows "\<exists>c cs. s = c # cs \<and> (is_alpha c \<or> is_digit c) \<and> length cs \<le> 127
           \<and> list_all (\<lambda>c. is_alpha c \<or> is_digit c \<or> c \<in> set ''._-'') cs"
proof -
  from assms have h: "0 < length s" "is_alpha (s ! 0) \<or> is_digit (s ! 0)"
    "(Suc 0, length s) \<in> rx_rel (upto 127 id_c) s"
    by (auto simp: rx_test_iff SAFE_ID_def alnum_c_def relcomp_unfold)
  then obtain c cs where s: "s = c # cs" by (cases s) auto
  from rel_upto_elim [OF h(3) [unfolded id_c_def]] s have
    "length cs \<le> 127" "\<forall>k. Suc 0 \<le> k \<and> k < length s \<longrightarrow>
       is_alpha (s ! k) \<or> is_digit (s ! k) \<or> s ! k \<in> set ''._-''" by auto
  then have "list_all (\<lambda>c. is_alpha c \<or> is_digit c \<or> c \<in> set ''._-'') cs"
    unfolding list_all_length using s by (auto dest: spec [of _ "Suc _"])
  with s h(2) \<open>length cs \<le> 127\<close> show ?thesis by auto
qed

lemma show_nat_length: "n < 1000 \<Longrightarrow> length (show_nat n) \<le> 3"
proof -
  assume n: "n < 1000"
  have "length (show_nat m) \<le> 1" if "m < 10" for m
    using that by (subst show_nat.simps) simp
  then have "length (show_nat m) \<le> 2" if "m < 100" for m
    using that by (subst show_nat.simps) (fastforce simp: Suc_le_eq dest: spec [of _ "m div 10"])
  then show ?thesis
    using n by (subst show_nat.simps) (fastforce simp: Suc_le_eq dest: spec [of _ "n div 10"])
qed

lemma strip_path_prefix:
  "\<forall>g \<in> set segs. g \<noteq> [] \<and> CHR ''/'' \<notin> set g \<Longrightarrow> strip_slashes (path_prefix segs) = path_prefix segs"
proof (cases segs rule: rev_cases)
  case Nil
  then show ?thesis by (simp add: path_prefix_def strip_slashes_def)
next
  case (snoc gs g)
  assume "\<forall>g \<in> set segs. g \<noteq> [] \<and> CHR ''/'' \<notin> set g"
  with snoc obtain h x where g: "g = h @ [x]" "x \<noteq> CHR ''/''"
    by (cases g rule: rev_cases) auto
  with snoc show ?thesis by (simp add: path_prefix_def strip_slashes_def)
qed

lemma marker_dir_accepted:
  assumes segs: "segs \<noteq> []" "\<forall>g \<in> set segs. g \<noteq> [] \<and> CHR ''/'' \<notin> set g"
    and nodots: "\<not> has_text ''..'' (path_prefix segs)"
    and jid: "assertSafeJobId jid" "last jid \<noteq> CHR ''.''"
    and step: "1 \<le> n" "n \<le> 999"
  shows "\<exists>d. jobMarkerDir (path_prefix segs) jid (of_nat n) = Some d \<and> isJobMarkerDir d"
proof -
  let ?P = "path_prefix segs" and ?D = "show_nat n"
  let ?d = "?P @ ''/'' @ jid @ ''.'' @ ?D"
  obtain c cs where id: "jid = c # cs" "is_alpha c \<or> is_digit c" "length cs \<le> 127"
    "list_all (\<lambda>c. is_alpha c \<or> is_digit c \<or> c \<in> set ''._-'') cs"
    using jid(1) SAFE_ID_shape [of jid] by (auto simp: assertSafeJobId_def)
  obtain x xs where D: "?D = x # xs" "is_digit x" "list_all is_digit xs" "length xs \<le> 2"
    using show_nat_digits [of n] show_nat_length [of n] step by (cases ?D) auto
  obtain g gs where gg: "segs = g # gs" using segs(1) by (cases segs) auto
  have "jobMarkerDir ?P jid (of_nat n) = Some ?d"
    using jid step segs by (simp add: jobMarkerDir_def strip_path_prefix)
  moreover have "isJobMarkerDir ?d"
  proof -
    have x: "x \<noteq> CHR ''.''" using D(2) by (auto simp: is_digit_def code_def)
    have c: "c \<noteq> CHR ''.''" using id(2)
      by (auto simp: is_digit_def is_alpha_def is_lower_def is_upper_def code_def)
    have "\<not> dotdot (''.'' @ ?D)"
      using dotdot_append [of "''.''" ?D] dotdot_digits [of ?D] show_nat_digits [of n] D(1) x by auto
    moreover have "\<not> dotdot jid" "jid \<noteq> []" "hd jid \<noteq> CHR ''.''"
      using jid(1) c by (auto simp: has_dotdot_iff assertSafeJobId_def id(1))
    ultimately have "\<not> dotdot (jid @ ''.'' @ ?D)"
      using dotdot_append [of jid "''.'' @ ?D"] jid(2) by simp
    then have "\<not> dotdot (''/'' @ jid @ ''.'' @ ?D)"
      using dotdot_append [of "''/''" "jid @ ''.'' @ ?D"] by simp
    then have nd: "\<not> dotdot ?d"
      using dotdot_append [of ?P "''/'' @ jid @ ''.'' @ ?D"] nodots by (simp add: has_dotdot_iff)
    have r1: "(0, Suc (length g)) \<in> rx_rel seg_rx ?d"
      using rel_segment [of g "[]" "path_prefix gs @ ''/'' @ jid @ ''.'' @ ?D"] segs(2) gg
      by (simp add: path_prefix_def)
    have r2: "(Suc (length g), length ?P) \<in> rx_rel (Star seg_rx) ?d"
      using rel_segments [of gs "CHR ''/'' # g" "''/'' @ jid @ ''.'' @ ?D"] segs(2) gg
      by (simp add: path_prefix_def)
    have r3: "(length ?P, length ?P + 1) \<in> rx_rel (lit ''/'') ?d"
      using rel_lit_at [of ?P "''/''" "jid @ ''.'' @ ?D"] by simp
    have r4: "(length ?P + 1, length ?P + 2) \<in> rx_rel alnum_c ?d"
      using id(1,2) by (simp add: alnum_c_def nth_append)
    have r5: "(length ?P + 2, length ?P + 2 + length cs) \<in> rx_rel (upto 127 id_c) ?d"
      using rel_upto_run [OF id(4,3), of "?P @ [CHR ''/'', c]" "''.'' @ ?D"] id(1)
      by (simp add: id_c_def)
    have r6: "(length ?P + 2 + length cs, length ?P + 3 + length cs) \<in> rx_rel (lit ''.'') ?d"
      using rel_lit_at [of "?P @ CHR ''/'' # jid" "''.''" ?D] id(1) by simp
    have r7: "(length ?P + 3 + length cs, length ?P + 4 + length cs) \<in> rx_rel (Cls is_digit) ?d"
      using id(1) D(1,2) by (simp add: nth_append)
    have r8: "(length ?P + 4 + length cs, length ?d) \<in> rx_rel (upto 2 (Cls is_digit)) ?d"
      using rel_upto_run [OF D(3,4), of "?P @ CHR ''/'' # jid @ [CHR ''.'', x]" "[]"] id(1) D(1)
      by (simp add: algebra_simps eval_nat_numeral)
    have "(0, length ?d) \<in> rx_rel MARKER_DIR ?d"
      unfolding MARKER_DIR_def seqs.simps
      by (rule rel_SeqI [of 0 0], simp, rule rel_SeqI, rule rel_many1I [OF r1 r2], rule rel_SeqI [OF r3],
          rule rel_SeqI [OF r4], rule rel_SeqI [OF r5], rule rel_SeqI [OF r6], rule rel_SeqI [OF r7],
          rule rel_SeqI [OF r8], simp)
    with nd show ?thesis by (auto simp: isJobMarkerDir_def has_dotdot_iff rx_test_iff)
  qed
  ultimately show ?thesis by blast
qed

end
