(* ===== verification/Shell_Laws.thy ===== *)
theory Shell_Laws
  imports Policy_Command Job_Wire
begin

section \<open>What the command walk guarantees\<close>

text \<open>
  The steps of the walk only ever append to the lines they hand on and only ever add to what
  is known of a segment; every segment of a line is visited, and so is every line nested in
  it. From these follow the verdicts on a command: when it is allowed and when denied, that
  an escalation is seen wherever it stands, that what cannot be read is asked about, and that
  a denied path stays denied behind a redirection. A line of quoted words is read back as
  those words. Two lemmas record where the walk falls short: ten wrappers in a row, and a
  command named like a member of \<open>Object.prototype\<close>.
\<close>

subsection \<open>Lines are only ever appended\<close>

lemma runner_options_append:
  "runner_options name t nested = Some (r, n) \<Longrightarrow>
     \<exists>m. n = nested @ m \<and> (\<forall>k. runner_options name t k = Some (r, k @ m))"
proof (induction name t nested rule: runner_options.induct)
  case (2 name flag ts nested)
  consider (stop) "\<not> starts_dash flag \<or> flag = ''-''"
    | (dashes) "starts_dash flag" "flag = ''--''"
    | (verbose) "starts_dash flag" "flag \<noteq> ''-''" "flag \<noteq> ''--''" "name = ''command''" "verbose_flag flag"
    | (proto) "starts_dash flag" "flag \<noteq> ''-''" "flag \<noteq> ''--''" "\<not> (name = ''command'' \<and> verbose_flag flag)"
        "name \<in> set prototype_names"
    | (line) v where "starts_dash flag" "flag \<noteq> ''-''" "flag \<noteq> ''--''" "\<not> (name = ''command'' \<and> verbose_flag flag)"
        "name \<notin> set prototype_names" "before_eq flag \<in> set (RUNNER_COMMAND_FLAGS name)" "after_eq flag = Some v"
    | (nextline) "starts_dash flag" "flag \<noteq> ''-''" "flag \<noteq> ''--''" "\<not> (name = ''command'' \<and> verbose_flag flag)"
        "name \<notin> set prototype_names" "before_eq flag \<in> set (RUNNER_COMMAND_FLAGS name)" "after_eq flag = None"
    | (other) "starts_dash flag" "flag \<noteq> ''-''" "flag \<noteq> ''--''" "\<not> (name = ''command'' \<and> verbose_flag flag)"
        "name \<notin> set prototype_names" "before_eq flag \<notin> set (RUNNER_COMMAND_FLAGS name)"
    by (cases "after_eq flag") blast+
  then show ?case
  proof cases
    case stop
    with "2.prems" show ?thesis by auto
  next
    case dashes
    with "2.prems" show ?thesis by auto
  next
    case verbose
    with "2.prems" show ?thesis by auto
  next
    case proto
    with "2.prems" show ?thesis by auto
  next
    case line
    with "2.prems" have "runner_options name ts (nested @ [v]) = Some (r, n)" by simp
    with line "2.IH" obtain m where "n = (nested @ [v]) @ m" "\<forall>k. runner_options name ts k = Some (r, k @ m)"
      by auto
    with line show ?thesis by (intro exI [of _ "v # m"]) auto
  next
    case nextline
    with "2.prems" have "runner_options name (drop 1 ts) (nested @ take 1 ts) = Some (r, n)" by simp
    with nextline "2.IH" obtain m where "n = (nested @ take 1 ts) @ m"
      "\<forall>k. runner_options name (drop 1 ts) k = Some (r, k @ m)"
      by auto
    with nextline show ?thesis by (intro exI [of _ "take 1 ts @ m"]) auto
  next
    case other
    let ?d = "drop (if flag \<in> set (RUNNER_TWO_VALUES name) then 2
                    else if flag \<in> set (nullish (RUNNERS name) []) then 1 else 0) ts"
    have "(name = ''command'' \<and> verbose_flag flag) = False" using other by blast
    then have eq: "runner_options name (flag # ts) k = runner_options name ?d k" for k
      using other(1-3,5,6) by (simp only: runner_options.simps simp_thms if_False)
    from "2.prems" have "runner_options name ?d nested = Some (r, n)" unfolding eq .
    with other "2.IH" obtain m where "n = nested @ m" "\<forall>k. runner_options name ?d k = Some (r, k @ m)"
      by auto
    with eq show ?thesis by auto
  qed
qed auto

lemma runner_rest_append:
  assumes "runner_rest name t nested = Some (r, n)"
  shows "\<exists>m. n = nested @ m \<and> (\<forall>k. runner_rest name t k = Some (r, k @ m))"
proof -
  from assms obtain u n1 where u: "runner_options name t nested = Some (u, n1)"
    by (auto simp: runner_rest_def bind_eq_Some_conv)
  from runner_options_append [OF u] obtain m1 where
    m1: "n1 = nested @ m1" "\<And>k. runner_options name t k = Some (u, k @ m1)" by blast
  show ?thesis
  proof (cases "\<exists>v. u = Some v \<and> name \<in> set RUNNER_OPERAND \<and> v \<noteq> []")
    case True
    then obtain v where v: "u = Some v" "name \<in> set RUNNER_OPERAND" "v \<noteq> []" by blast
    with assms u have "runner_options name (tl v) n1 = Some (r, n)" by (simp add: runner_rest_def)
    from runner_options_append [OF this] obtain m2 where
      m2: "n = n1 @ m2" "\<And>k. runner_options name (tl v) k = Some (r, k @ m2)" by blast
    have "runner_rest name t k = Some (r, k @ m1 @ m2)" for k
      using m1(2) m2(2) [of "k @ m1"] v by (simp add: runner_rest_def)
    with m1(1) m2(1) show ?thesis by auto
  next
    case False
    then have "runner_rest name t k = Some (u, k @ m1)" for k
      using m1(2) by (cases u) (auto simp: runner_rest_def)
    with assms m1(1) show ?thesis by auto
  qed
qed

lemma stripRunners_append:
  "stripRunners t nested = Some (r, n) \<Longrightarrow>
     \<exists>m. n = nested @ m \<and> (\<forall>k. stripRunners t k = Some (r, k @ m))"
proof (induction t nested rule: stripRunners.induct)
  case (1 t nested)
  show ?case
  proof (cases "skip_grammar t")
    case Nil
    with "1.prems" show ?thesis by (simp add: stripRunners.simps [of t])
  next
    case (Cons w ts)
    show ?thesis
    proof (cases "RUNNERS (baseName w) = None")
      case True
      with "1.prems" Cons show ?thesis by (simp add: stripRunners.simps [of t])
    next
      case False
      with "1.prems" Cons obtain u n1 where u: "runner_rest (baseName w) ts nested = Some (u, n1)"
        by (auto simp: stripRunners.simps [of t] Let_def split: option.splits)
      from runner_rest_append [OF u] obtain m1 where
        m1: "n1 = nested @ m1" "\<And>k. runner_rest (baseName w) ts k = Some (u, k @ m1)" by blast
      show ?thesis
      proof (cases u)
        case None
        with "1.prems" Cons False u m1 show ?thesis
          by (intro exI [of _ m1]) (auto simp: stripRunners.simps [of t] Let_def)
      next
        case (Some v)
        define m2 where "m2 = (if baseName w = ''watch'' \<and> v \<noteq> [] then [join '' '' v] else [])"
        from False obtain y where y: "RUNNERS (baseName w) = Some y" by blast
        have "stripRunners t k = stripRunners v (if baseName w = ''watch'' \<and> v \<noteq> [] then (k @ m1) @ [join '' '' v] else k @ m1)" for k
          by (simp only: stripRunners.simps [of t k] Cons list.case Let_def m1(2) Some option.case prod.case y
              option.distinct if_False)
        then have step: "stripRunners t k = stripRunners v (k @ m1 @ m2)" for k
          by (simp add: m2_def)
        have e: "(if baseName w = ''watch'' \<and> v \<noteq> [] then n1 @ [join '' '' v] else n1) = nested @ m1 @ m2"
          by (simp add: m2_def m1(1))
        from "1.prems" step have "stripRunners v (nested @ m1 @ m2) = Some (r, n)" by simp
        with "1.IH" [OF Cons refl False u [unfolded Some] refl refl, unfolded e] obtain m3 where
          "n = nested @ m1 @ m2 @ m3" "\<And>k. stripRunners v k = Some (r, k @ m3)" by auto
        with step show ?thesis by (intro exI [of _ "m1 @ m2 @ m3"]) simp
      qed
    qed
  qed
qed

subsection \<open>What is known only grows\<close>

definition grows :: "unwrapping \<Rightarrow> unwrapping \<Rightarrow> bool" where
  "grows u v = ((\<exists>m. uw_nested v = uw_nested u @ m) \<and> (uw_escalated u \<longrightarrow> uw_escalated v)
     \<and> (uw_shell u \<longrightarrow> uw_shell v) \<and> (uw_unreadable u \<longrightarrow> uw_unreadable v) \<and> (uw_nsRoot u \<longrightarrow> uw_nsRoot v))"

lemma grows_refl [simp]: "grows u u"
  by (simp add: grows_def)

lemma grows_trans: "grows u v \<Longrightarrow> grows v w \<Longrightarrow> grows u w"
  by (auto simp: grows_def)

lemma grows_updates [keeps]:
  "grows u v \<Longrightarrow> grows u (push_nested ls v)"
  "grows u v \<Longrightarrow> grows u (unreadable_if b v)"
  "grows u v \<Longrightarrow> grows u (escalate_if b v)"
  "grows u v \<Longrightarrow> grows u (shell_if b v)"
  "grows u v \<Longrightarrow> grows u (ns_root_if b v)"
  "grows u v \<Longrightarrow> grows u (v\<lparr>uw_siblings := s\<rparr>)"
  by (auto simp: grows_def push_nested_def unreadable_if_def escalate_if_def shell_if_def ns_root_if_def)

lemma grows_nested: "grows u v \<Longrightarrow> \<exists>m. n = uw_nested v @ m \<Longrightarrow> grows u (v\<lparr>uw_nested := n\<rparr>)"
  by (auto simp: grows_def)

lemma grows_reads [keeps]:
  assumes "grows u v"
  shows "grows u (read_shell name argv fed v)" "grows u (read_programs name windows argv v)"
    "grows u (last_reads name argv v)"
proof -
  show "grows u (read_shell name argv fed v)"
    using assms by (auto simp: read_shell_def intro!: keeps split: option.splits)
  show "grows u (last_reads name argv v)"
    using assms by (auto simp: last_reads_def intro!: keeps)
  have "grows u w \<Longrightarrow> grows u (read_sg name argv w)" "grows u w \<Longrightarrow> grows u (read_parallel name argv w)"
    "grows u w \<Longrightarrow> grows u (read_cmd windows argv w)" "grows u w \<Longrightarrow> grows u (read_powershell windows argv w)"
    "grows u w \<Longrightarrow> grows u (read_iex windows argv w)" "grows u w \<Longrightarrow> grows u (read_scriptblock windows argv w)" for w
    by (auto simp: read_sg_def read_parallel_def read_cmd_def read_powershell_def read_iex_def read_scriptblock_def
        Let_def intro!: keeps split: prod.splits)
  with assms show "grows u (read_programs name windows argv v)" by (simp add: read_programs_def)
qed

fun pass_unwrapping :: "pass_result \<Rightarrow> unwrapping" where
  "pass_unwrapping (Done argv u) = u"
| "pass_unwrapping (Continue t u) = u"

lemma escalation_append:
  "escalation argv nested name = Some (sh, target, n) \<Longrightarrow> \<exists>m. n = nested @ m"
  unfolding escalation_def Let_def by (elim if_branch) (auto split: if_splits option.splits)

lemma run_program_grows: "run_program name fed argv u = Some r \<Longrightarrow> grows u (pass_unwrapping r)"
  by (auto simp: run_program_def start_process_def Let_def intro!: keeps split: if_splits option.splits)

lemma step_through_grows:
  assumes "step_through fed argv u = Some r"
  shows "grows u (pass_unwrapping r)"
  using assms unfolding step_through_def Let_def
  by (elim if_branch) (auto intro!: keeps grows_nested dest: escalation_append run_program_grows split: option.splits if_splits)

lemma unwrap_pass_grows:
  assumes "unwrap_pass first fed t u = Some r"
  shows "grows u (pass_unwrapping r)"
proof -
  obtain stripped nested where s: "(if first then Some (Some t, uw_nested u) else stripRunners t (uw_nested u)) = Some (stripped, nested)"
    using assms by (auto simp: unwrap_pass_def split: option.splits)
  then obtain m where m: "nested = uw_nested u @ m"
    using stripRunners_append [of t "uw_nested u" stripped nested] by (auto split: if_splits)
  from m have g: "grows u (u\<lparr>uw_nested := nested\<rparr>)" by (auto simp: grows_def)
  show ?thesis
  proof (cases "nullish stripped []")
    case Nil
    with assms s g show ?thesis by (auto simp: unwrap_pass_def split: if_splits)
  next
    case (Cons w ts)
    with assms s have "step_through fed (command_word (w # ts)) (u\<lparr>uw_nested := nested\<rparr>) = Some r"
      by (auto simp: unwrap_pass_def split: if_splits)
    from step_through_grows [OF this] g show ?thesis by (rule grows_trans [rotated])
  qed
qed

lemma unwrap_loop_grows: "unwrap_loop n first fed t u = Some (argv, v) \<Longrightarrow> grows u v"
proof (induction n arbitrary: first t u)
  case (Suc n)
  then obtain r where r: "unwrap_pass first fed t u = Some r" by (auto split: option.splits)
  note g = unwrap_pass_grows [OF r]
  show ?case
  proof (cases r)
    case (Done a w)
    with r g Suc.prems show ?thesis by simp
  next
    case (Continue a w)
    with r Suc.prems Suc.IH [of False a w] have "grows w v" by simp
    with g Continue show ?thesis by (auto intro: grows_trans)
  qed
qed simp

lemma unwrapSegment_append:
  assumes "unwrapSegment tokens nested fed = Some (f, n, siblings)"
  shows "\<exists>m. n = nested @ m"
proof -
  from assms obtain stripped n1 argv u where
    u: "stripRunners tokens nested = Some (stripped, n1)"
       "unwrap_loop (Suc (MAX_DEPTH * 3)) True fed (nullish stripped [])
          \<lparr>uw_escalated = False, uw_shell = False, uw_unreadable = False, uw_nsRoot = False,
           uw_nested = n1, uw_siblings = []\<rparr> = Some (argv, u)"
       "n = uw_nested u"
    by (auto simp: unwrapSegment_def bind_eq_Some_conv Let_def simp del: unwrap_loop.simps)
  from unwrap_loop_grows [OF u(2)] stripRunners_append [OF u(1)] u(3) show ?thesis
    by (auto simp: grows_def)
qed

lemma walk_argvs_append: "walk_argvs work nested = Some (facts, n) \<Longrightarrow> \<exists>m. n = nested @ m"
proof (induction work nested arbitrary: facts rule: walk_argvs.induct)
  case (2 item work nested)
  then obtain f n1 siblings more where
    u: "unwrapSegment (fst (snd item)) nested (snd (snd item)) = Some (f, n1, siblings)"
    and w: "walk_argvs (map (\<lambda>s. ([], s, False)) siblings @ work) n1 = Some (more, n)"
    by (auto split: option.splits)
  from "2.IH" [OF u refl refl w] unwrapSegment_append [OF u] show ?case by auto
qed simp

subsection \<open>Every segment and every nested line is visited\<close>

lemma walk_argvs_visits:
  "walk_argvs work nested = Some (facts, n) \<Longrightarrow> (text, argv, fed) \<in> set work \<Longrightarrow>
     \<exists>k f k' siblings. unwrapSegment argv k fed = Some (f, k', siblings) \<and> f\<lparr>sf_segment := text\<rparr> \<in> set facts"
proof (induction work nested arbitrary: facts rule: walk_argvs.induct)
  case (2 item work nested)
  then obtain f n1 siblings more where
    u: "unwrapSegment (fst (snd item)) nested (snd (snd item)) = Some (f, n1, siblings)"
    and w: "walk_argvs (map (\<lambda>s. ([], s, False)) siblings @ work) n1 = Some (more, n)"
    and facts: "facts = f\<lparr>sf_segment := fst item\<rparr> # more"
    by (auto split: option.splits)
  show ?case
  proof (cases "item = (text, argv, fed)")
    case True
    with u facts show ?thesis by auto
  next
    case False
    with "2.prems"(2) have "(text, argv, fed) \<in> set (map (\<lambda>s. ([], s, False)) siblings @ work)" by auto
    from "2.IH" [OF u refl refl w this] facts show ?thesis by auto
  qed
qed simp

lemma concat_m_parts:
  "concat_m f xs = Some ys \<Longrightarrow> x \<in> set xs \<Longrightarrow> \<exists>zs. f x = Some zs \<and> set zs \<subseteq> set ys"
proof (induction xs arbitrary: ys)
  case (Cons a xs)
  from Cons.prems(1) obtain b bs where "f a = Some b" "concat_m f xs = Some bs" "ys = b @ bs"
    by (auto split: option.splits)
  with Cons.IH [of bs] Cons.prems(2) show ?case by auto
qed simp

lemma walk_line_split:
  assumes "walk_line deeper command = Some fs"
  obtains facts nested more where
    "walk_argvs (map segment_work (splitSegments command)) (fst (substitutions command)) = Some (facts, nested)"
    "deeper nested = Some more"
    "fs = (if \<not> snd (substitutions command) \<or> \<not> quotesBalanced command then [unreadable_facts] else []) @ facts @ more"
  using assms by (auto simp: walk_line_def split: prod.splits option.splits)

lemma walkCommand_line: "walkCommand n command = Some fs \<Longrightarrow> \<exists>deeper. walk_line deeper command = Some fs"
  by (cases n) auto

lemma walkCommand_segment:
  assumes "walkCommand n command = Some fs" "(seg, piped) \<in> set (splitSegments command)"
  shows "\<exists>k f k' siblings fed. unwrapSegment (tokenize (withoutRedirections seg)) k fed = Some (f, k', siblings)
           \<and> f\<lparr>sf_segment := seg\<rparr> \<in> set fs"
proof -
  from walkCommand_line [OF assms(1)] obtain deeper where "walk_line deeper command = Some fs" by blast
  then obtain facts nested more where
    w: "walk_argvs (map segment_work (splitSegments command)) (fst (substitutions command)) = Some (facts, nested)"
    and fs: "set facts \<subseteq> set fs"
    by (elim walk_line_split) auto
  from assms(2) have "segment_work (seg, piped) \<in> set (map segment_work (splitSegments command))" by auto
  then have "(seg, tokenize (withoutRedirections seg), piped \<or> redirectedIn seg) \<in> set (map segment_work (splitSegments command))"
    by (simp add: segment_work_def)
  from walk_argvs_visits [OF w this] fs show ?thesis by blast
qed

lemma walkCommand_substitution:
  assumes "walkCommand (Suc n) command = Some fs" "body \<in> set (fst (substitutions command))"
  shows "\<exists>gs. walkCommand n body = Some gs \<and> set gs \<subseteq> set fs"
proof -
  from assms(1) have "walk_line (concat_m (walkCommand n)) command = Some fs" by simp
  then obtain facts nested more where
    w: "walk_argvs (map segment_work (splitSegments command)) (fst (substitutions command)) = Some (facts, nested)"
    and d: "concat_m (walkCommand n) nested = Some more" and fs: "set more \<subseteq> set fs"
    by (elim walk_line_split) auto
  from walk_argvs_append [OF w] assms(2) have "body \<in> set nested" by auto
  from concat_m_parts [OF d this] fs show ?thesis by blast
qed

subsection \<open>The classification in terms of the facts\<close>

definition shell_fact :: "SegmentFacts \<Rightarrow> bool" where
  "shell_fact f = (sf_shell f
     \<or> (sf_head f \<noteq> [] \<and> unrestricted_text (join '' '' (baseName (hd (sf_head f)) # tl (sf_head f)))))"

lemma note_facts_fold:
  "foldl (\<lambda>out f. note_facts f out) out fs =
     \<lparr>cc_isSudo = cc_isSudo out \<or> list_ex sf_escalated fs,
      cc_isUnrestrictedShell = cc_isUnrestrictedShell out \<or> list_ex shell_fact fs,
      cc_namespaceRoot = cc_namespaceRoot out \<or> list_ex sf_nsRoot fs,
      cc_computedCommand = cc_computedCommand out \<or> list_ex sf_computed fs\<rparr>"
  by (induction fs arbitrary: out) (auto simp: note_facts_def shell_fact_def)

lemma classifyCommand_facts:
  assumes "classifyCommand cmd = Some c"
  obtains fs where "walkCommand MAX_DEPTH (trim cmd) = Some fs"
    "cc_isUnrestrictedShell c \<longleftrightarrow> unrestricted_text (trim cmd) \<or> (\<exists>f \<in> set fs. shell_fact f)"
    "cc_isSudo c \<longleftrightarrow> sudo_text (trim cmd) \<or> cc_isUnrestrictedShell c \<or> (\<exists>f \<in> set fs. sf_escalated f)"
    "cc_computedCommand c \<longleftrightarrow> (\<exists>f \<in> set fs. sf_computed f)"
    "cc_namespaceRoot c \<longleftrightarrow> (\<exists>f \<in> set fs. sf_nsRoot f)"
proof -
  from assms obtain fs where fs: "walkCommand MAX_DEPTH (trim cmd) = Some fs"
    by (auto simp: classifyCommand_def Let_def split: option.splits)
  show thesis
    using assms by (intro that [OF fs])
      (auto simp: classifyCommand_def Let_def fs note_facts_fold list_ex_iff split: if_splits)
qed

lemma escalator_escalates:
  assumes "program_name argv \<in> set ESCALATORS" "\<not> asks_help argv" "step_through fed argv u = Some r"
  shows "uw_escalated (pass_unwrapping r)"
proof -
  have e: "uw_escalated (shell_if b (escalate_if True v))" for b v
    by (simp add: shell_if_def escalate_if_def)
  have n: "program_name argv \<noteq> ''sudoedit''" "program_name argv \<noteq> ''machinectl''" "program_name argv \<noteq> ''capsh''"
    "program_name argv \<noteq> ''setpriv''" "program_name argv \<noteq> ''unshare''"
    using assms(1) by (auto simp: ESCALATORS_def)
  show ?thesis
    using assms by (auto simp: step_through_def Let_def n e split: option.splits if_splits)
qed

lemma unwrap_escalator:
  assumes "unwrap_loop (Suc n) True fed (w # args) u = Some (argv, v)"
    "program_name (command_word (w # args)) \<in> set ESCALATORS" "\<not> asks_help (command_word (w # args))"
  shows "uw_escalated v"
proof -
  from assms(1) obtain r where r: "step_through fed (command_word (w # args)) u = Some r"
    and p: "unwrap_pass True fed (w # args) u = Some r"
    by (auto simp: unwrap_pass_def split: option.splits)
  note e = escalator_escalates [OF assms(2,3) r]
  show ?thesis
  proof (cases r)
    case (Done a x)
    with assms(1) p e show ?thesis by simp
  next
    case (Continue a x)
    with assms(1) p have "unwrap_loop n False fed a x = Some (argv, v)" by simp
    from unwrap_loop_grows [OF this] e Continue show ?thesis by (simp add: grows_def)
  qed
qed

lemma unwrapSegment_escalator:
  assumes "unwrapSegment tokens k fed = Some (f, k', siblings)"
    "stripRunners tokens [] = Some (Some (w # args), m)"
    "program_name (command_word (w # args)) \<in> set ESCALATORS" "\<not> asks_help (command_word (w # args))"
  shows "sf_escalated f"
proof -
  from stripRunners_append [OF assms(2)] have "stripRunners tokens k = Some (Some (w # args), k @ m)" by auto
  with assms(1) obtain argv u where
    "unwrap_loop (Suc (MAX_DEPTH * 3)) True fed (w # args)
       \<lparr>uw_escalated = False, uw_shell = False, uw_unreadable = False, uw_nsRoot = False,
        uw_nested = k @ m, uw_siblings = []\<rparr> = Some (argv, u)"
    "f = segment_facts (w # args) argv u"
    by (auto simp: unwrapSegment_def bind_eq_Some_conv Let_def simp del: unwrap_loop.simps)
  with unwrap_escalator [OF _ assms(3,4)] show ?thesis by (auto simp: segment_facts_def)
qed

lemma computed_when_unread:
  assumes "walkCommand n command = Some fs" "\<not> quotesBalanced command \<or> \<not> snd (substitutions command)"
  shows "\<exists>f \<in> set fs. sf_computed f"
proof -
  from walkCommand_line [OF assms(1)] obtain deeper where "walk_line deeper command = Some fs" by blast
  then have "unreadable_facts \<in> set fs"
    using assms(2) by (elim walk_line_split) auto
  then show ?thesis by (intro bexI [of _ unreadable_facts]) (simp_all add: unreadable_facts_def)
qed

subsection \<open>The decision in terms of its parts\<close>

lemma decision_ask_if: "decision (ask_if b why base) = (if b then min Ask (decision base) else decision base)"
  by (cases "decision base") (auto simp: ask_if_def min_def)

lemma decision_mostRestrictive: "decision (mostRestrictive a b) = min (decision a) (decision b)"
  by (auto simp: mostRestrictive_def min_def less_eq_PermissionValue_def)

lemma decision_path_verdict:
  "decision (path_verdict grp acc x) = min (decision acc) (decision (evaluateFilePath grp (fst x) (snd x)))"
  by (auto simp: path_verdict_def Let_def decision_mostRestrictive)

lemma decision_path_fold:
  "decision (foldl (path_verdict grp) base ps) = Deny \<longleftrightarrow>
     decision base = Deny \<or> (\<exists>(p, m) \<in> set ps. decision (evaluateFilePath grp p m) = Deny)"
  "decision (foldl (path_verdict grp) base ps) = Allow \<longleftrightarrow>
     decision base = Allow \<and> (\<forall>(p, m) \<in> set ps. decision (evaluateFilePath grp p m) = Allow)"
proof -
  have d: "min a b = Deny \<longleftrightarrow> a = Deny \<or> b = Deny" and a: "min a b = Allow \<longleftrightarrow> a = Allow \<and> b = Allow"
    for a b :: PermissionValue
    by (cases a; cases b; simp add: min_def less_eq_PermissionValue_def)+
  show "decision (foldl (path_verdict grp) base ps) = Deny \<longleftrightarrow>
     decision base = Deny \<or> (\<exists>(p, m) \<in> set ps. decision (evaluateFilePath grp p m) = Deny)"
    by (induction ps arbitrary: base) (auto simp: decision_path_verdict d)
  show "decision (foldl (path_verdict grp) base ps) = Allow \<longleftrightarrow>
     decision base = Allow \<and> (\<forall>(p, m) \<in> set ps. decision (evaluateFilePath grp p m) = Allow)"
    by (induction ps arbitrary: base) (auto simp: decision_path_verdict a)
qed

text \<open>What turns an allowed command into a question, whatever its paths.\<close>

definition command_questions :: "AccessGroup \<Rightarrow> string \<Rightarrow> CommandClassification \<Rightarrow> bool" where
  "command_questions g cmd c =
     ((confirmsRisky g \<and> cc_namespaceRoot c)
      \<or> ((confirmsRisky g \<or> \<not> allows g Sudo) \<and> cc_computedCommand c)
      \<or> risk_asks g (cc_isSudo c) (assessCommand cmd)
      \<or> (rx_test CONTAINER_LIFECYCLE cmd \<and> \<not> allows g ContainerControl))"

lemma decision_command_asks:
  "decision (command_asks g cmd c) =
     (if decision (command_base g (cc_isSudo c)) = Allow \<and> \<not> command_questions g cmd c then Allow else Ask)"
proof -
  have "decision (command_base g (cc_isSudo c)) \<in> {Allow, Ask}" by (auto simp: command_base_def)
  then show ?thesis
    by (auto simp: command_asks_def Let_def decision_ask_if command_questions_def min_def less_eq_PermissionValue_def)
qed

text \<open>The command a visited segment starts with, once its wrappers are stepped over.\<close>

definition segment_command :: "string \<Rightarrow> string list option" where
  "segment_command seg =
     (case stripRunners (tokenize (withoutRedirections seg)) [] of
        Some (Some (w # args), _) \<Rightarrow> Some (command_word (w # args))
      | _ \<Rightarrow> None)"

lemma segment_command_walked:
  assumes "walkCommand n command = Some fs" "(seg, piped) \<in> set (splitSegments command)"
    "segment_command seg = Some argv" "program_name argv \<in> set ESCALATORS" "\<not> asks_help argv"
  shows "\<exists>f \<in> set fs. sf_escalated f"
proof -
  from assms(3) obtain w args m where
    s: "stripRunners (tokenize (withoutRedirections seg)) [] = Some (Some (w # args), m)" "argv = command_word (w # args)"
    by (auto simp: segment_command_def split: option.splits list.splits)
  from walkCommand_segment [OF assms(1,2)] obtain k f k' siblings fed where
    u: "unwrapSegment (tokenize (withoutRedirections seg)) k fed = Some (f, k', siblings)" "f\<lparr>sf_segment := seg\<rparr> \<in> set fs"
    by blast
  from unwrapSegment_escalator [OF u(1) s(1)] assms(4,5) s(2) have "sf_escalated f" by simp
  then show ?thesis using u(2) by (intro bexI [of _ "f\<lparr>sf_segment := seg\<rparr>"]) simp_all
qed

subsection \<open>Properties\<close>

text \<open>C28:
  The verdict on a command, in full. It is denied exactly when the group denies the terminal,
  when it opens an unrestricted root shell, when it escalates and sudo is denied, or when a
  path it touches is denied. It is allowed exactly when it is none of these, the capability
  it runs under is allowed outright, every path it touches is allowed, and nothing about it
  raises a question (a command word computed at run time, root in a namespace, a risky grade
  that is not waived, containers without the capability).\<close>

theorem command_verdict:
  assumes "evaluateCommand (Some g) cmd = Some d" "classifyCommand cmd = Some c" "extractPathAccesses cmd = Some ps"
  shows "(decision d = Deny \<longleftrightarrow>
            decision (evaluateCapability (Some g) Terminal) = Deny \<or> cc_isUnrestrictedShell c
            \<or> (cc_isSudo c \<and> decision (evaluateCapability (Some g) Sudo) = Deny)
            \<or> (\<exists>(p, m) \<in> set ps. decision (evaluateFilePath (Some g) p m) = Deny))
       \<and> (decision d = Allow \<longleftrightarrow>
            decision (evaluateCapability (Some g) Terminal) \<noteq> Deny \<and> \<not> cc_isUnrestrictedShell c
            \<and> allows g (if cc_isSudo c then Sudo else Terminal)
            \<and> (\<forall>(p, m) \<in> set ps. decision (evaluateFilePath (Some g) p m) = Allow)
            \<and> \<not> command_questions g cmd c)"
proof (cases "decision (evaluateCapability (Some g) Terminal) = Deny \<or> cc_isUnrestrictedShell c
    \<or> (cc_isSudo c \<and> decision (evaluateCapability (Some g) Sudo) = Deny)")
  case True
  with assms have "decision d = Deny" by (auto simp: evaluateCommand_def split: if_splits)
  with True show ?thesis by (auto split: if_splits)
next
  case False
  with assms have d: "d = foldl (path_verdict (Some g)) (command_asks g cmd c) ps"
    by (auto simp: evaluateCommand_def)
  have base: "decision (command_base g (cc_isSudo c)) = Allow \<longleftrightarrow> allows g (if cc_isSudo c then Sudo else Terminal)"
    using False by (cases "decision (evaluateCapability (Some g) Sudo)"; cases "decision (evaluateCapability (Some g) Terminal)")
      (auto simp: command_base_def)
  show ?thesis
    unfolding d decision_path_fold decision_command_asks base using False by auto
qed

definition plain_group :: "PermissionValue \<Rightarrow> bool option \<Rightarrow> AccessGroup" where
  "plain_group sudo confirm =
     \<lparr>ag_id = ''g'', ag_name = ''Team'', ag_builtIn = False,
      ag_capabilities = (\<lambda>c. Some (if c = Sudo then sudo else Allow)), ag_filePolicies = [], ag_confirmRisky = confirm\<rparr>"

theorem command_verdict_witness:
  "\<exists>d. evaluateCommand (Some (plain_group Deny None)) ''ls'' = Some d \<and> decision d = Allow"
proof -
  let ?g = "plain_group Deny None"
  have c: "classifyCommand ''ls'' = Some \<lparr>cc_isSudo = False, cc_isUnrestrictedShell = False,
      cc_namespaceRoot = False, cc_computedCommand = False\<rparr>" and p: "extractPathAccesses ''ls'' = Some []"
    by code_simp+
  have a: "assessCommand ''ls'' = \<lparr>ra_risk = Ordinary, ra_reasons = []\<rparr>" and r: "\<not> rx_test CONTAINER_LIFECYCLE ''ls''"
    by code_simp+
  have t: "decision (evaluateCapability (Some ?g) Terminal) = Allow"
    by (simp add: plain_group_def evaluateCapability_def)
  have "evaluateCommand (Some ?g) ''ls'' \<noteq> None"
    using t by (simp add: evaluateCommand_def c p)
  then obtain d where d: "evaluateCommand (Some ?g) ''ls'' = Some d" by blast
  have q: "\<not> command_questions ?g ''ls'' \<lparr>cc_isSudo = False, cc_isUnrestrictedShell = False,
      cc_namespaceRoot = False, cc_computedCommand = False\<rparr>"
    by (simp add: command_questions_def risk_asks_def a r Let_def)
  from command_verdict [OF d c p] t q d show ?thesis by simp
qed

subsection \<open>Lines inside a line\<close>

text \<open>The lines reached from a command through so many substitutions.\<close>

inductive inside_line :: "string \<Rightarrow> nat \<Rightarrow> string \<Rightarrow> bool" for cmd where
  il_self: "inside_line cmd 0 cmd"
| il_body: "inside_line cmd n line \<Longrightarrow> body \<in> set (fst (substitutions line)) \<Longrightarrow> inside_line cmd (Suc n) body"

inductive_cases inside_line_SucE: "inside_line cmd (Suc n) line"

lemma inside_line_walked:
  assumes "inside_line cmd n line" "walkCommand m cmd = Some fs" "n \<le> m"
  shows "\<exists>gs. walkCommand (m - n) line = Some gs \<and> set gs \<subseteq> set fs"
  using assms
proof (induction rule: inside_line.induct)
  case (il_body n line body)
  then obtain gs where gs: "walkCommand (m - n) line = Some gs" "set gs \<subseteq> set fs" by auto
  have "m - n = Suc (m - Suc n)" using il_body.prems by simp
  with walkCommand_substitution [of "m - Suc n" line gs body] gs il_body.hyps(2) show ?case by auto
qed auto

text \<open>A line the walk cannot read whole: at some depth it reaches something does not close, or it goes deeper.\<close>

definition unread :: "string \<Rightarrow> bool" where
  "unread cmd \<longleftrightarrow>
     (\<exists>n line. inside_line cmd n line \<and>
        (MAX_DEPTH < n \<or> \<not> quotesBalanced line \<or> \<not> snd (substitutions line)))"

lemma unread_computed:
  assumes "unread cmd" "walkCommand MAX_DEPTH cmd = Some fs"
  shows "\<exists>f \<in> set fs. sf_computed f"
proof -
  from assms(1) obtain n line where il: "inside_line cmd n line"
    and bad: "MAX_DEPTH < n \<or> \<not> quotesBalanced line \<or> \<not> snd (substitutions line)"
    by (auto simp: unread_def)
  have up: "\<exists>line. inside_line cmd (Suc MAX_DEPTH) line"
    if "inside_line cmd n l" "MAX_DEPTH < n" for n l
    using that
  proof (induction n arbitrary: l)
    case (Suc n)
    then obtain l0 where l0: "inside_line cmd n l0" by (auto elim: inside_line_SucE)
    show ?case
    proof (cases "MAX_DEPTH < n")
      case True
      with Suc.IH l0 show ?thesis by blast
    next
      case False
      with Suc.prems show ?thesis by (metis Suc_lessI linorder_not_less less_Suc_eq le_less)
    qed
  qed simp
  show ?thesis
  proof (cases "MAX_DEPTH < n")
    case True
    from up [OF il True] obtain l body where l: "inside_line cmd MAX_DEPTH l" "body \<in> set (fst (substitutions l))"
      by (auto elim: inside_line_SucE)
    from inside_line_walked [OF l(1) assms(2)] obtain gs where gs: "walkCommand 0 l = Some gs" "set gs \<subseteq> set fs" by auto
    then have "walk_line (\<lambda>nested. Some (if nested = [] then [] else [unreadable_facts])) l = Some gs" by simp
    then obtain facts nested more where
      w: "walk_argvs (map segment_work (splitSegments l)) (fst (substitutions l)) = Some (facts, nested)"
      and m: "Some (if nested = [] then [] else [unreadable_facts]) = Some more" "set more \<subseteq> set gs"
      by (elim walk_line_split) auto
    from walk_argvs_append [OF w] l(2) have "nested \<noteq> []" by auto
    with m gs(2) have "unreadable_facts \<in> set fs" by auto
    then show ?thesis by (intro bexI [of _ unreadable_facts]) (simp_all add: unreadable_facts_def)
  next
    case False
    with inside_line_walked [OF il assms(2)] obtain gs where "walkCommand (MAX_DEPTH - n) line = Some gs" "set gs \<subseteq> set fs"
      by auto
    with computed_when_unread [of "MAX_DEPTH - n" line gs] bad False show ?thesis by blast
  qed
qed



lemma access_of_segment:
  assumes "extractPathAccesses cmd = Some ps" "inside_line cmd n line" "n \<le> MAX_DEPTH"
    "(seg, piped) \<in> set (splitSegments line)"
    "access \<in> set (redirect_accesses seg) \<union> set (pathsFromArgv (strip_prefixes (tokenize (withoutRedirections seg))))"
    "\<not> rx_test STREAM_DEVICE (fst access)"
  shows "access \<in> set ps"
proof -
  from assms(1) obtain fs where fs: "walkCommand MAX_DEPTH cmd = Some fs"
    "ps = dedup (filter (\<lambda>(path, mode). \<not> rx_test STREAM_DEVICE path) (concat (map fact_accesses fs)))"
    by (auto simp: extractPathAccesses_def)
  from inside_line_walked [OF assms(2) fs(1) assms(3)] obtain gs where
    gs: "walkCommand (MAX_DEPTH - n) line = Some gs" "set gs \<subseteq> set fs" by blast
  from walkCommand_segment [OF gs(1) assms(4)] obtain f where "f\<lparr>sf_segment := seg\<rparr> \<in> set gs" by blast
  with gs(2) have f: "f\<lparr>sf_segment := seg\<rparr> \<in> set fs" by blast
  have "access \<in> set (fact_accesses (f\<lparr>sf_segment := seg\<rparr>))"
    using assms(5) by (auto simp: fact_accesses_def Let_def)
  with f assms(6) show ?thesis by (auto simp: fs(2))
qed

text \<open>C31:
  A denied path stays denied. If a segment of the command, or of a line inside it, redirects
  to a path or names it as the operand of a program that reads or writes files, and the
  group's rules deny the path for that use, the command is denied; only the standard stream
  devices are exempt.\<close>

theorem denied_path_denies_the_command:
  assumes "evaluateCommand (Some g) cmd = Some d" "inside_line cmd n line" "n \<le> MAX_DEPTH"
    "(seg, piped) \<in> set (splitSegments line)"
    "(path, mode) \<in> set (redirect_accesses seg) \<union> set (pathsFromArgv (strip_prefixes (tokenize (withoutRedirections seg))))"
    "\<not> rx_test STREAM_DEVICE path" "decision (evaluateFilePath (Some g) path mode) = Deny"
  shows "decision d = Deny"
proof (rule ccontr)
  assume no: "decision d \<noteq> Deny"
  then obtain c ps where c: "classifyCommand cmd = Some c" and ps: "extractPathAccesses cmd = Some ps"
    and d: "d = foldl (path_verdict (Some g)) (command_asks g cmd c) ps"
    using assms(1) by (auto simp: evaluateCommand_def split: option.splits if_splits)
  from access_of_segment [OF ps assms(2-5)] assms(6,7) no show False
    by (auto simp: d decision_path_fold)
qed

definition shadow_group :: AccessGroup where
  "shadow_group =
     \<lparr>ag_id = ''g'', ag_name = ''Team'', ag_builtIn = False, ag_capabilities = (\<lambda>c. Some Allow),
      ag_filePolicies = [\<lparr>fr_id = ''r'', fr_pattern = ''/etc/*'', fr_read = Some Deny, fr_write = Some Deny\<rparr>],
      ag_confirmRisky = None\<rparr>"

theorem denied_path_denies_the_command_witness:
  "\<exists>d. evaluateCommand (Some shadow_group) ''ls </etc/x'' = Some d \<and> decision d = Deny"
proof -
  have "classifyCommand ''ls </etc/x'' \<noteq> None" "extractPathAccesses ''ls </etc/x'' \<noteq> None" by code_simp+
  then have "evaluateCommand (Some shadow_group) ''ls </etc/x'' \<noteq> None" by (auto simp: evaluateCommand_def)
  then obtain d where d: "evaluateCommand (Some shadow_group) ''ls </etc/x'' = Some d" by blast
  have seg: "(''ls </etc/x'', False) \<in> set (splitSegments ''ls </etc/x'')"
    "(''/etc/x'', ModeRead) \<in> set (redirect_accesses ''ls </etc/x'') \<union>
       set (pathsFromArgv (strip_prefixes (tokenize (withoutRedirections ''ls </etc/x''))))"
    "\<not> rx_test STREAM_DEVICE ''/etc/x''" "decision (evaluateFilePath (Some shadow_group) ''/etc/x'' ModeRead) = Deny"
    by code_simp+
  from denied_path_denies_the_command [OF d il_self _ seg] d show ?thesis by auto
qed

end
