(* ===== verification/Shell_Quoting.thy ===== *)
theory Shell_Quoting
  imports Shell_Laws
begin

section \<open>A line of quoted words is read back as those words\<close>

text \<open>
  The lines the application writes itself are words quoted by \<open>shQuote\<close> and joined by
  spaces. The scanners of the command walk read such a line as one segment, leave it alone
  when they take redirections out, and cut it into exactly those words; so an escalator
  written that way is seen whatever its arguments hold.
\<close>

definition quoted_line :: "string list \<Rightarrow> string" where
  "quoted_line ws = join '' '' (map shQuote ws)"

lemma quoted_line_simps [simp]:
  "quoted_line [] = []" "quoted_line [w] = shQuote w"
  "quoted_line (w # v # ws) = shQuote w @ CHR '' '' # quoted_line (v # ws)"
  by (simp_all add: quoted_line_def)

subsection \<open>Words\<close>

lemma tokenise_run:
  "quote1 \<notin> set v \<Longrightarrow> tokenise cur st l (Some quote1) (v @ quote1 # r) = tokenise (cur @ v) st l None r"
  by (induction v arbitrary: cur) auto

lemma tokenise_quoted:
  assumes "ps \<noteq> []" "\<forall>p \<in> set ps. quote1 \<notin> set p"
  shows "tokenise cur True False (Some quote1) (join escaped_quote ps @ quote1 # r)
       = tokenise (cur @ join [quote1] ps) True False None r"
  using assms
proof (induction ps arbitrary: cur rule: induct_list012)
  case (3 x y zs)
  have "tokenise cur True False (Some quote1) (join escaped_quote (x # y # zs) @ quote1 # r)
      = tokenise (cur @ x) True False None (backslash # quote1 # quote1 # join escaped_quote (y # zs) @ quote1 # r)"
    using tokenise_run [of x cur True False "backslash # quote1 # quote1 # join escaped_quote (y # zs) @ quote1 # r"] "3.prems"
    by (simp add: escaped_quote_def)
  also have "\<dots> = tokenise (cur @ x @ [quote1]) True False (Some quote1) (join escaped_quote (y # zs) @ quote1 # r)"
    by (simp add: Let_def)
  also have "\<dots> = tokenise (cur @ x @ [quote1] @ join [quote1] (y # zs)) True False None r"
    using "3.IH"(2) [of "cur @ x @ [quote1]"] "3.prems" by simp
  finally show ?case by simp
qed (simp_all add: tokenise_run)

lemma tokenise_shQuote:
  "tokenise [] False l None (shQuote s @ r) = tokenise s True False None r"
proof -
  have "windows_literal (quote1 # cs) = False" for cs
    by (auto simp: windows_literal_def is_alpha_def is_lower_def is_upper_def code_def split: list.splits)
  then have "tokenise [] False l None (shQuote s @ r)
      = tokenise [] True False (Some quote1) (join escaped_quote (split_on quote1 s) @ quote1 # r)"
    by (simp add: shQuote_def Let_def)
  also have "\<dots> = tokenise (join [quote1] (split_on quote1 s)) True False None r"
    using tokenise_quoted [of "split_on quote1 s" "[]"] by (auto dest: split_on_parts)
  finally show ?thesis by (simp add: join_split_on)
qed

lemma tokenise_line: "ws \<noteq> [] \<Longrightarrow> tokenise [] False l None (quoted_line ws) = ws"
proof (induction ws arbitrary: l rule: induct_list012)
  case (2 w)
  show ?case using tokenise_shQuote [of l w "[]"] by simp
next
  case (3 w v ws)
  have "is_ws CHR '' ''" by (simp add: is_ws_def code_def)
  then have "tokenise [] False l None (quoted_line (w # v # ws)) = w # tokenise [] False False None (quoted_line (v # ws))"
    by (simp add: tokenise_shQuote Let_def)
  with "3.IH"(2) show ?case by simp
qed simp

subsection \<open>Segments\<close>

lemma split_run:
  "quote1 \<notin> set v \<Longrightarrow>
     split_raw p (Some quote1) fed cur (v @ quote1 # r) = split_raw (Some quote1) None fed (cur @ v @ [quote1]) r"
  by (induction v arbitrary: p cur) auto

lemma split_quoted:
  assumes "ps \<noteq> []" "\<forall>p \<in> set ps. quote1 \<notin> set p"
  shows "split_raw p (Some quote1) fed cur (join escaped_quote ps @ quote1 # r)
       = split_raw (Some quote1) None fed (cur @ join escaped_quote ps @ [quote1]) r"
  using assms
proof (induction ps arbitrary: p cur rule: induct_list012)
  case (3 x y zs)
  let ?rest = "quote1 # join escaped_quote (y # zs) @ quote1 # r"
  have "split_raw p (Some quote1) fed cur (join escaped_quote (x # y # zs) @ quote1 # r)
      = split_raw (Some quote1) None fed (cur @ x @ [quote1]) (backslash # quote1 # ?rest)"
    using split_run [of x p fed cur "backslash # quote1 # ?rest"] "3.prems" by (simp add: escaped_quote_def)
  also have "\<dots> = split_raw (Some quote1) None fed (cur @ x @ [quote1, backslash, quote1]) ?rest"
    by simp
  also have "\<dots> = split_raw (Some quote1) (Some quote1) fed (cur @ x @ [quote1, backslash, quote1, quote1])
      (join escaped_quote (y # zs) @ quote1 # r)"
    by simp
  also have "\<dots> = split_raw (Some quote1) None fed
      (cur @ x @ [quote1, backslash, quote1, quote1] @ join escaped_quote (y # zs) @ [quote1]) r"
    using "3.IH"(2) [of "Some quote1" "cur @ x @ [quote1, backslash, quote1, quote1]"] "3.prems" by simp
  finally show ?case by (simp add: escaped_quote_def)
qed (simp_all add: split_run)

lemma split_shQuote:
  "split_raw p None fed cur (shQuote s @ r) = split_raw (Some quote1) None fed (cur @ shQuote s) r"
proof -
  have "split_raw p None fed cur (shQuote s @ r)
      = split_raw (Some quote1) (Some quote1) fed (cur @ [quote1]) (join escaped_quote (split_on quote1 s) @ quote1 # r)"
    by (simp add: shQuote_def)
  also have "\<dots> = split_raw (Some quote1) None fed (cur @ [quote1] @ join escaped_quote (split_on quote1 s) @ [quote1]) r"
    using split_quoted [of "split_on quote1 s" "Some quote1" fed "cur @ [quote1]" r] by (auto dest: split_on_parts)
  finally show ?thesis by (simp add: shQuote_def)
qed

lemma split_line: "split_raw p None fed cur (quoted_line ws) = [(cur @ quoted_line ws, fed)]"
proof (induction ws arbitrary: p cur rule: induct_list012)
  case (2 w)
  show ?case using split_shQuote [of p fed cur w "[]"] by simp
next
  case (3 w v ws)
  have "split_raw p None fed cur (quoted_line (w # v # ws))
      = split_raw (Some quote1) None fed (cur @ shQuote w) (CHR '' '' # quoted_line (v # ws))"
    by (simp add: split_shQuote)
  also have "\<dots> = split_raw (Some CHR '' '') None fed (cur @ shQuote w @ '' '') (quoted_line (v # ws))"
    by simp
  also have "\<dots> = [(cur @ shQuote w @ '' '' @ quoted_line (v # ws), fed)]"
    using "3.IH"(2) by simp
  finally show ?case by simp
qed simp

subsection \<open>Redirections\<close>

text \<open>Text made of quoted runs, escaped quotes and spaces.\<close>

inductive quoted_text :: "string \<Rightarrow> bool" where
  qt_nil: "quoted_text []"
| qt_run: "quote1 \<notin> set v \<Longrightarrow> quoted_text t \<Longrightarrow> quoted_text (quote1 # v @ quote1 # t)"
| qt_escape: "quoted_text t \<Longrightarrow> quoted_text (backslash # quote1 # t)"
| qt_space: "quoted_text t \<Longrightarrow> quoted_text (CHR '' '' # t)"

lemma drop_past: "drop i s = xs @ t \<Longrightarrow> drop (i + length xs) s = t"
proof -
  assume "drop i s = xs @ t"
  then have "drop (length xs) (drop i s) = t" by simp
  then show ?thesis by (simp add: add.commute)
qed

lemma drop_head: "drop i s = c # t \<Longrightarrow> i < length s \<and> s ! i = c \<and> drop (Suc i) s = t"
proof -
  assume a: "drop i s = c # t"
  then have i: "i < length s" by (cases "i < length s") auto
  from a have "s ! i = c" using i by (simp add: Cons_nth_drop_Suc [symmetric])
  with i drop_past [of i s "[c]" t] a show ?thesis by simp
qed

lemma single_quoted_ends:
  assumes "drop i s = quote1 # v @ quote1 # t" "quote1 \<notin> set v" "i \<le> length s"
  shows "set (ends single_quoted s i) = {i + length v + 2}"
proof -
  let ?p = "take i s"
  have s: "s = ?p @ quote1 # v @ quote1 # t" using assms(1) by (metis append_take_drop_id)
  have len: "length ?p = i" using assms(3) by simp
  have at_i: "s ! i = quote1" "i < length s" using drop_head [OF assms(1)] by auto
  have "(length (?p @ [quote1]), length (?p @ [quote1]) + length v) \<in> rx_rel (Star (none_of [quote1]))
      ((?p @ [quote1]) @ v @ quote1 # t)"
    unfolding none_of_def using assms(2) by (intro rel_Star_run) (auto simp: list_all_iff)
  then have run: "(Suc i, Suc i + length v) \<in> rx_rel (Star (none_of [quote1])) s"
    using s len by simp
  have nth: "s ! (Suc i + k) = (v @ quote1 # t) ! k" for k
    using drop_head [OF assms(1)] nth_drop [of "Suc i" s k] by simp
  have stop: "j = Suc i + length v"
    if star: "(Suc i, j) \<in> rx_rel (Star (none_of [quote1])) s" and q: "j < length s" "s ! j = quote1" for j
  proof -
    from rel_Star_Cls [OF star [unfolded none_of_def]] at_i have b: "Suc i \<le> j" "list_all (\<lambda>c. c \<notin> set [quote1]) (drop (Suc i) (take j s))"
      by auto
    then obtain k where j: "j = Suc i + k" using le_Suc_ex by blast
    have "\<not> k < length v"
    proof
      assume "k < length v"
      then have "s ! j = v ! k" using nth [of k] j by (simp add: nth_append)
      with q(2) assms(2) \<open>k < length v\<close> show False by (metis nth_mem)
    qed
    moreover have "\<not> length v < k"
    proof
      assume k: "length v < k"
      have "s ! (Suc i + length v) = quote1" using nth [of "length v"] by simp
      moreover have "drop (Suc i) (take j s) ! length v = s ! (Suc i + length v)"
        using k j q(1) by simp
      moreover have "length v < length (drop (Suc i) (take j s))" using k j q(1) by simp
      ultimately show False using b(2) by (metis list_all_length list.set_intros(1))
    qed
    ultimately show ?thesis using j by simp
  qed
  have close: "Suc i + length v < length s" "s ! (Suc i + length v) = quote1"
    using nth [of "length v"] arg_cong [OF s, of length] len by simp_all
  have "(i, j) \<in> rx_rel single_quoted s \<longleftrightarrow> j = i + length v + 2" for j
  proof
    assume "(i, j) \<in> rx_rel single_quoted s"
    then obtain k where "(Suc i, k) \<in> rx_rel (Star (none_of [quote1])) s" "k < length s" "s ! k = quote1" "j = Suc k"
      by (auto simp: single_quoted_def)
    with stop show "j = i + length v + 2" by simp
  next
    assume "j = i + length v + 2"
    with run close at_i show "(i, j) \<in> rx_rel single_quoted s"
      by (auto simp: single_quoted_def relcomp_unfold intro!: exI [of _ "Suc i"] exI [of _ "Suc i + length v"])
  qed
  then show ?thesis by (auto simp: ends_correct)
qed

lemma kept_run:
  assumes "drop i s = quote1 # v @ quote1 # t" "quote1 \<notin> set v" "i \<le> length s"
  shows "\<exists>js. ends kept_piece s i = (i + length v + 2) # js"
proof -
  from single_quoted_ends [OF assms] obtain js where "ends single_quoted s i = (i + length v + 2) # js"
    by (cases "ends single_quoted s i") auto
  then show ?thesis by (simp add: kept_piece_def)
qed

lemma without_quoted:
  "quoted_text r \<Longrightarrow> drop i s = r \<Longrightarrow> i \<le> length s \<Longrightarrow> without_from s i = r"
proof (induction r arbitrary: i rule: quoted_text.induct)
  case qt_nil
  then show ?case by (simp add: without_from.simps [of s i])
next
  case (qt_run v t)
  from kept_run [OF qt_run.prems(1) qt_run.hyps(1) qt_run.prems(2)] obtain js where
    js: "ends kept_piece s i = (i + length v + 2) # js" by blast
  let ?j = "i + length v + 2"
  have "length (drop i s) = length v + 2 + length t" using qt_run.prems(1) by simp
  then have len: "length s = i + length v + 2 + length t" using qt_run.prems(2) by simp
  have tail: "drop ?j s = t"
    using drop_past [of i s "quote1 # v @ [quote1]" t] qt_run.prems(1) by simp
  have "text_slice i ?j s = quote1 # v @ [quote1]"
    using qt_run.prems(1) by (simp add: text_slice_def take_drop [symmetric] drop_take)
  with js qt_run.IH [OF tail] len show ?case
    by (simp add: without_from.simps [of s i] max_def)
next
  case (qt_escape t)
  from drop_head [OF qt_escape.prems(1)] have h: "i < length s" "s ! i = backslash" "drop (Suc i) s = quote1 # t" by auto
  from drop_head [OF h(3)] have ch: "s ! i = backslash" "s ! Suc i = quote1" "Suc i < length s" "drop (Suc (Suc i)) s = t"
    using h by auto
  have "ends kept_piece s i = [Suc (Suc i)]"
    using ch by (simp add: kept_piece_def single_quoted_def double_quoted_def dot_c_def)
  moreover have "text_slice i (Suc (Suc i)) s = [backslash, quote1]"
    using qt_escape.prems(1) by (simp add: text_slice_def drop_take)
  ultimately show ?case
    using qt_escape.IH [OF ch(4)] ch(3) by (simp add: without_from.simps [of s i])
next
  case (qt_space t)
  from drop_head [OF qt_space.prems(1)] have ch: "s ! i = CHR '' ''" "i < length s" and tail: "drop (Suc i) s = t" by auto
  have "ends kept_piece s i = []"
    using ch by (simp add: kept_piece_def single_quoted_def double_quoted_def)
  moreover have "redirect_at (Seq redirect_op (NLook (lit ''(''))) stripped_target s i = None"
    using ch by (simp add: redirect_at_def redirect_op_def opt_def is_digit_def code_def)
  ultimately show ?case
    using qt_space.IH [OF tail] ch by (simp add: without_from.simps [of s i])
qed

lemma quoted_text_append: "quoted_text s \<Longrightarrow> quoted_text t \<Longrightarrow> quoted_text (s @ t)"
  by (induction s rule: quoted_text.induct) (auto intro: quoted_text.intros)

lemma quoted_text_shQuote: "quoted_text (shQuote s)"
proof -
  have "ps \<noteq> [] \<Longrightarrow> \<forall>p \<in> set ps. quote1 \<notin> set p \<Longrightarrow> quoted_text (quote1 # join escaped_quote ps @ [quote1])" for ps
  proof (induction ps rule: induct_list012)
    case (2 x)
    then show ?case using qt_run [OF _ qt_nil, of x] by simp
  next
    case (3 x y zs)
    then have "quoted_text (backslash # quote1 # quote1 # join escaped_quote (y # zs) @ [quote1])"
      by (intro qt_escape) simp
    from qt_run [OF _ this, of x] "3.prems" show ?case by (simp add: escaped_quote_def)
  qed simp
  from this [of "split_on quote1 s"] show ?thesis by (auto simp: shQuote_def dest: split_on_parts)
qed

lemma quoted_text_line: "quoted_text (quoted_line ws)"
  by (induction ws rule: induct_list012)
     (auto intro: quoted_text.intros quoted_text_shQuote quoted_text_append)

lemma quoted_line_ends: "ws \<noteq> [] \<Longrightarrow> \<exists>m. quoted_line ws = quote1 # m @ [quote1]"
proof (induction ws rule: induct_list012)
  case (2 w)
  show ?case by (simp add: shQuote_def)
next
  case (3 w v ws)
  then obtain m where "quoted_line (v # ws) = quote1 # m @ [quote1]" by auto
  then have "quoted_line (w # v # ws) = quote1 # (join escaped_quote (split_on quote1 w) @ quote1 # CHR '' '' # quote1 # m) @ [quote1]"
    by (simp add: shQuote_def)
  then show ?case by blast
qed simp

lemma trim_quoted_line: "trim (quoted_line ws) = quoted_line ws"
proof (cases "ws = []")
  case False
  have "\<not> is_ws quote1" by (simp add: is_ws_def code_def)
  with quoted_line_ends [OF False] show ?thesis by (auto simp: trim_def trim_start_def)
qed (simp add: trim_def trim_start_def)

subsection \<open>Properties\<close>

text \<open>C32:
  Quoting and reading agree. The words of a line in which every word is quoted by shQuote,
  whatever characters they hold, are what the policy reads: the line is one segment, it
  holds no redirection, and its tokens are the words.\<close>

theorem quoted_words_are_read_back:
  assumes "ws \<noteq> []"
  shows "splitSegments (quoted_line ws) = [(quoted_line ws, False)]
    \<and> withoutRedirections (quoted_line ws) = quoted_line ws
    \<and> tokenize (withoutRedirections (quoted_line ws)) = ws"
proof -
  have w: "withoutRedirections (quoted_line ws) = quoted_line ws"
    unfolding withoutRedirections_def using quoted_text_line by (rule without_quoted) simp_all
  have "trim (quoted_line ws) \<noteq> []"
    using quoted_line_ends [OF assms] by (auto simp: trim_quoted_line)
  then have "splitSegments (quoted_line ws) = [(quoted_line ws, False)]"
    by (simp add: splitSegments_def split_line)
  with w tokenise_line [OF assms] show ?thesis by (simp add: tokenize_def)
qed

theorem quoted_words_are_read_back_witness:
  "splitSegments (quoted_line [''echo'', ''a; sudo reboot > /etc/x'']) = [(quoted_line [''echo'', ''a; sudo reboot > /etc/x''], False)]
    \<and> tokenize (withoutRedirections (quoted_line [''echo'', ''a; sudo reboot > /etc/x''])) = [''echo'', ''a; sudo reboot > /etc/x'']"
  using quoted_words_are_read_back [of "[''echo'', ''a; sudo reboot > /etc/x'']"] by blast

lemma stripRunners_plain:
  assumes "grammar_step (e # args) = Stop (e # args)" "RUNNERS (baseName e) = None"
  shows "stripRunners (e # args) n = Some (Some (e # args), n)"
  using assms by (simp add: stripRunners.simps [of "e # args"] skip_grammar.simps [of "e # args"])

text \<open>Not the parentheses that would make the word before them a function's name.\<close>

definition no_parens :: "string list \<Rightarrow> bool" where
  "no_parens args = (at_index args 0 \<noteq> Some ''('' \<and> at_index args 0 \<noteq> Some ''()'')"

lemma grammar_step_escalator:
  assumes "e \<in> set ESCALATORS" "no_parens args"
  shows "grammar_step (e # args) = Stop (e # args)"
proof -
  have "\<forall>e \<in> set ESCALATORS. \<not> (e = ''[['' \<or> starts_with ''(('' e \<or> e = ''for'' \<or> e = ''select'')
      \<and> \<not> (e \<in> set GRAMMAR \<or> ASSIGNMENT e \<or> FUNCTION_NAME e) \<and> e \<noteq> ''case'' \<and> \<not> case_label e
      \<and> e \<noteq> ''function'' \<and> e \<noteq> ''coproc'' \<and> \<not> opens_group e \<and> \<not> closes_group e"
    by code_simp
  with assms(1) have plain: "\<not> (e = ''[['' \<or> starts_with ''(('' e \<or> e = ''for'' \<or> e = ''select'')"
      "\<not> (e \<in> set GRAMMAR \<or> ASSIGNMENT e \<or> FUNCTION_NAME e)" "e \<noteq> ''case''" "\<not> case_label e"
      "e \<noteq> ''function''" "e \<noteq> ''coproc''" "\<not> opens_group e" "\<not> closes_group e"
    by blast+
  have args: "at_index args 0 \<noteq> Some ''(''" "at_index args 0 \<noteq> Some ''()''"
    using assms(2) by (simp_all add: no_parens_def)
  show ?thesis
    by (simp only: grammar_step.simps plain args if_False simp_thms)
qed

lemma escalator_names: "e \<in> set ESCALATORS \<Longrightarrow> RUNNERS (baseName e) = None \<and> command_word (e # args) = e # args \<and> program_name (e # args) = e"
proof -
  have "\<forall>e \<in> set ESCALATORS. RUNNERS e = None \<and> split_glued (strip_home e) = [e] \<and> baseName e = e"
    by code_simp
  moreover assume e: "e \<in> set ESCALATORS"
  ultimately show ?thesis by (simp add: command_word_def program_name_def Let_def)
qed

text \<open>C29:
  An escalation is seen wherever it stands. If the words of any segment of the command, or of
  a line inside it down to the depth of the walk, once grammar, assignments and wrappers are
  stepped over, start with an escalator (sudo, doas, su, pkexec, run0, runuser, systemd-run,
  runas, gsudo, nsenter) that is not merely asked for its help or version, the command is
  classified as running with sudo, whatever surrounds the segment, and a group that denies
  sudo denies it.\<close>

theorem escalation_is_seen_in_every_segment:
  assumes "classifyCommand cmd = Some c" "inside_line (trim cmd) n line" "n \<le> MAX_DEPTH"
    "(seg, piped) \<in> set (splitSegments line)" "segment_command seg = Some argv" "program_name argv \<in> set ESCALATORS" "\<not> asks_help argv"
  shows "cc_isSudo c
    \<and> (decision (evaluateCapability (Some g) Sudo) = Deny \<longrightarrow>
         (\<forall>d. evaluateCommand (Some g) cmd = Some d \<longrightarrow> decision d = Deny))"
proof -
  obtain fs where fs: "walkCommand MAX_DEPTH (trim cmd) = Some fs"
    "cc_isSudo c \<longleftrightarrow> sudo_text (trim cmd) \<or> cc_isUnrestrictedShell c \<or> (\<exists>f \<in> set fs. sf_escalated f)"
    using assms(1) by (rule classifyCommand_facts) blast
  from inside_line_walked [OF assms(2) fs(1) assms(3)] obtain gs where
    gs: "walkCommand (MAX_DEPTH - n) line = Some gs" "set gs \<subseteq> set fs" by blast
  from segment_command_walked [OF gs(1) assms(4-7)] gs(2) fs(2) have "cc_isSudo c" by blast
  then show ?thesis
    using assms(1) by (auto simp: evaluateCommand_def split: if_splits)
qed

text \<open>
  A line of quoted words that starts with an escalator runs with sudo. Whatever the other
  words hold, separators and redirections and quotes included, the policy sees the
  escalation (the words must not continue with the parentheses of a function definition).\<close>

theorem quoted_escalation_is_seen:
  assumes "e \<in> set ESCALATORS" "no_parens args" "\<not> asks_help (e # args)"
    "classifyCommand (quoted_line (e # args)) = Some c"
  shows "cc_isSudo c"
proof -
  let ?cmd = "quoted_line (e # args)"
  obtain fs where fs: "walkCommand MAX_DEPTH ?cmd = Some fs"
    "cc_isSudo c \<longleftrightarrow> sudo_text ?cmd \<or> cc_isUnrestrictedShell c \<or> (\<exists>f \<in> set fs. sf_escalated f)"
    using assms(4) by (rule classifyCommand_facts) (simp add: trim_quoted_line)
  have t: "tokenize (withoutRedirections ?cmd) = e # args"
    using tokenise_line [of "e # args"] without_quoted [OF quoted_text_line, of 0 "?cmd" "e # args"]
    by (simp add: tokenize_def withoutRedirections_def)
  have "trim ?cmd \<noteq> []" using quoted_line_ends [of "e # args"] by (auto simp: trim_quoted_line)
  then have s: "(?cmd, False) \<in> set (splitSegments ?cmd)" by (simp add: splitSegments_def split_line)
  have "segment_command ?cmd = Some (e # args)"
    using t escalator_names [OF assms(1), of args] stripRunners_plain [OF grammar_step_escalator [OF assms(1,2)], of "[]"]
    by (simp add: segment_command_def)
  from segment_command_walked [OF fs(1) s this] assms(1,3) escalator_names [OF assms(1), of args] fs(2)
  show ?thesis by simp
qed

theorem quoted_escalation_is_seen_witness:
  "\<exists>c. classifyCommand (quoted_line [''sudo'', ''id'']) = Some c \<and> cc_isSudo c"
proof -
  have some: "classifyCommand (quoted_line [''sudo'', ''id'']) \<noteq> None" by code_simp
  have "''sudo'' \<in> set ESCALATORS" "no_parens [''id'']" "\<not> asks_help [''sudo'', ''id'']" by code_simp+
  from quoted_escalation_is_seen [OF this] some show ?thesis by blast
qed

theorem escalation_is_seen_in_every_segment_witness:
  "\<exists>c. classifyCommand ''a $(b; sudo c)'' = Some c \<and> cc_isSudo c"
proof -
  have some: "classifyCommand ''a $(b; sudo c)'' \<noteq> None" by code_simp
  have body: "''b; sudo c'' \<in> set (fst (substitutions (trim ''a $(b; sudo c)'')))" by code_simp
  have il: "inside_line (trim ''a $(b; sudo c)'') 1 ''b; sudo c''"
    using il_body [OF il_self body] by simp
  have seg: "1 \<le> MAX_DEPTH" "('' sudo c'', False) \<in> set (splitSegments ''b; sudo c'')"
    "segment_command '' sudo c'' = Some [''sudo'', ''c'']" "program_name [''sudo'', ''c''] \<in> set ESCALATORS"
    "\<not> asks_help [''sudo'', ''c'']"
    by code_simp+
  from escalation_is_seen_in_every_segment [OF _ il seg] some show ?thesis by blast
qed

subsection \<open>Where the walk falls short\<close>

lemma step_through_unshare:
  assumes "\<not> starts_dash w"
  shows "step_through fed (''unshare'' # w # args) u
    = Some (Continue (w # args) (ns_root_if (list_ex unshare_root (''unshare'' # w # args)) u))"
proof -
  have n: "program_name (''unshare'' # w # args) = ''unshare''"
  proof -
    have "baseName ''unshare'' = ''unshare'' \<and> lower (commandName ''unshare'') = ''unshare'' \<and> ''unshare'' \<notin> set WINDOWS_ESCALATORS"
      by code_simp
    then show ?thesis by (simp add: program_name_def Let_def)
  qed
  have h: "\<not> asks_help (''unshare'' # w # args)"
    using assms by (auto simp: asks_help_def starts_dash_def)
  have a: "afterOptions (''unshare'' # w # args) UNSHARE_VALUE_OPTIONS = w # args"
    using assms by (simp add: afterOptions_def)
  have e: "''unshare'' \<notin> set ESCALATORS" by code_simp
  show ?thesis by (simp add: step_through_def Let_def n h a)
qed

lemma stripRunners_unshare:
  assumes "no_parens args"
  shows "stripRunners (''unshare'' # args) n = Some (Some (''unshare'' # args), n)"
proof (rule stripRunners_plain)
  have plain: "\<not> (''unshare'' = ''[['' \<or> starts_with ''(('' ''unshare'' \<or> ''unshare'' = ''for'' \<or> ''unshare'' = ''select'')"
      "\<not> (''unshare'' \<in> set GRAMMAR \<or> ASSIGNMENT ''unshare'' \<or> FUNCTION_NAME ''unshare'')" "''unshare'' \<noteq> ''case''"
      "\<not> case_label ''unshare''" "''unshare'' \<noteq> ''function''" "''unshare'' \<noteq> ''coproc''"
      "\<not> opens_group ''unshare''" "\<not> closes_group ''unshare''"
    by code_simp+
  have args: "at_index args 0 \<noteq> Some ''(''" "at_index args 0 \<noteq> Some ''()''"
    using assms by (simp_all add: no_parens_def)
  show "grammar_step (''unshare'' # args) = Stop (''unshare'' # args)"
    by (simp only: grammar_step.simps plain args if_False simp_thms)
  show "RUNNERS (baseName ''unshare'') = None" by code_simp
qed

lemma unwrap_pass_unshare:
  assumes "\<not> starts_dash w" "no_parens (w # args)"
  shows "unwrap_pass first fed (''unshare'' # w # args) u
    = Some (Continue (w # args) (ns_root_if (list_ex unshare_root (''unshare'' # w # args)) u))"
proof -
  have "split_glued (strip_home ''unshare'') = [''unshare'']" by code_simp
  then have c: "command_word (''unshare'' # w # args) = ''unshare'' # w # args" by (simp add: command_word_def)
  show ?thesis
    by (cases first) (simp_all add: unwrap_pass_def stripRunners_unshare [OF assms(2)] c step_through_unshare [OF assms(1)])
qed

lemma unwrap_loop_unshare:
  assumes "\<not> starts_dash w" "no_parens (w # args)"
  shows "\<exists>v. unwrap_loop n first fed (replicate n ''unshare'' @ w # args) u = Some ([], v)
    \<and> uw_escalated v = uw_escalated u \<and> uw_shell v = uw_shell u \<and> uw_unreadable v = uw_unreadable u
    \<and> uw_nested v = uw_nested u \<and> uw_siblings v = uw_siblings u"
proof (induction n arbitrary: first u)
  case (Suc n)
  obtain x xs where x: "replicate n ''unshare'' @ w # args = x # xs" "\<not> starts_dash x" "no_parens (x # xs)"
  proof (cases n)
    case 0
    with that [of w args] assms show thesis by simp
  next
    case (Suc k)
    have "\<not> starts_dash ''unshare''" by code_simp
    with that [of "''unshare''" "replicate k ''unshare'' @ w # args"] Suc show thesis
      by (simp add: no_parens_def at_index_def)
  qed
  let ?v = "ns_root_if (list_ex unshare_root (''unshare'' # x # xs)) u"
  have "unwrap_loop (Suc n) first fed (replicate (Suc n) ''unshare'' @ w # args) u
      = unwrap_loop n False fed (replicate n ''unshare'' @ w # args) ?v"
    by (simp add: unwrap_pass_unshare [OF x(2,3)] x(1))
  with Suc.IH [of False ?v] show ?case by (auto simp: ns_root_if_def)
qed simp

text \<open>Ten wrappers in a row hide the rest of a segment. The loop over wrappers gives up after
  ten passes and reports nothing: behind ten \<open>unshare\<close>, any command, sudo included, is
  reported as no escalation, no shell, nothing computed, no nested line and no argument
  vector, so neither the sudo capability nor a path rule is consulted.\<close>

theorem ten_wrappers_hide_the_rest:
  assumes "\<not> starts_dash w" "no_parens (w # args)"
  shows "\<exists>f. unwrapSegment (replicate 10 ''unshare'' @ w # args) nested fed = Some (f, nested, [])
    \<and> \<not> sf_escalated f \<and> \<not> sf_shell f \<and> \<not> sf_computed f \<and> sf_argv f = []"
proof -
  let ?t = "replicate 10 ''unshare'' @ w # args"
  have "no_parens (replicate 9 ''unshare'' @ w # args)" by (simp add: no_parens_def at_index_def nth_append)
  then have s: "stripRunners ?t nested = Some (Some ?t, nested)"
    using stripRunners_unshare [of "replicate 9 ''unshare'' @ w # args" nested] by (simp add: numeral_eq_Suc)
  have fuel: "Suc (MAX_DEPTH * 3) = 10" by (simp add: MAX_DEPTH_def)
  obtain v where v: "unwrap_loop 10 True fed ?t \<lparr>uw_escalated = False, uw_shell = False, uw_unreadable = False,
      uw_nsRoot = False, uw_nested = nested, uw_siblings = []\<rparr> = Some ([], v)"
    "\<not> uw_escalated v" "\<not> uw_shell v" "\<not> uw_unreadable v" "uw_nested v = nested" "uw_siblings v = []"
    using unwrap_loop_unshare [OF assms, of 10 True fed] by fastforce
  show ?thesis
    unfolding unwrapSegment_def s fuel by (simp add: Let_def v segment_facts_def del: unwrap_loop.simps)
qed

theorem ten_wrappers_hide_the_rest_witness:
  "\<exists>f. unwrapSegment (replicate 10 ''unshare'' @ [''sudo'', ''reboot'']) [] False = Some (f, [], [])
    \<and> \<not> sf_escalated f \<and> \<not> sf_computed f"
proof -
  have "\<not> starts_dash ''sudo''" "no_parens [''sudo'', ''reboot'']" by code_simp+
  from ten_wrappers_hide_the_rest [OF this, of "[]" False] show ?thesis by blast
qed

text \<open>The walk fails only on a name of \<open>Object.prototype\<close>. A segment whose command word is such a
  name and is followed by an option makes the classification throw, and with it the verdict
  of every group that does not deny the terminal.\<close>

theorem prototype_name_throws:
  assumes "(seg, piped) \<in> set (splitSegments (trim cmd))"
    "tokenize (withoutRedirections seg) = name # flag # rest" "name \<in> set prototype_names"
    "starts_dash flag" "flag \<notin> {''-'', ''--''}"
  shows "classifyCommand cmd = None
    \<and> (decision (evaluateCapability (Some g) Terminal) \<noteq> Deny \<longrightarrow> evaluateCommand (Some g) cmd = None)"
proof -
  have names: "\<forall>e \<in> set prototype_names. \<not> (e = ''[['' \<or> starts_with ''(('' e \<or> e = ''for'' \<or> e = ''select'')
      \<and> \<not> (e \<in> set GRAMMAR \<or> ASSIGNMENT e \<or> FUNCTION_NAME e) \<and> e \<noteq> ''case'' \<and> \<not> case_label e
      \<and> e \<noteq> ''function'' \<and> e \<noteq> ''coproc'' \<and> \<not> opens_group e \<and> \<not> closes_group e
      \<and> baseName e = e \<and> RUNNERS e = Some [] \<and> e \<noteq> ''command''"
    by code_simp
  with assms(3) have plain: "\<not> (name = ''[['' \<or> starts_with ''(('' name \<or> name = ''for'' \<or> name = ''select'')"
      "\<not> (name \<in> set GRAMMAR \<or> ASSIGNMENT name \<or> FUNCTION_NAME name)" "name \<noteq> ''case''" "\<not> case_label name"
      "name \<noteq> ''function''" "name \<noteq> ''coproc''" "\<not> opens_group name" "\<not> closes_group name"
      and r: "baseName name = name" "RUNNERS name = Some []" "name \<noteq> ''command''"
    by blast+
  have args: "at_index (flag # rest) 0 \<noteq> Some ''(''" "at_index (flag # rest) 0 \<noteq> Some ''()''"
    using assms(4) by (auto simp: at_index_def starts_dash_def)
  have g: "grammar_step (name # flag # rest) = Stop (name # flag # rest)"
    by (simp only: grammar_step.simps plain args if_False simp_thms)
  have "runner_rest name (flag # rest) n = None" for n
    using assms(3-5) r(3) by (simp add: runner_rest_def)
  then have none: "stripRunners (name # flag # rest) n = None" for n
    by (simp add: stripRunners.simps [of "name # flag # rest"] skip_grammar.simps [of "name # flag # rest"] g r
        del: grammar_step.simps)
  have "walkCommand MAX_DEPTH (trim cmd) = None"
  proof (rule ccontr)
    assume "walkCommand MAX_DEPTH (trim cmd) \<noteq> None"
    then obtain fs where "walkCommand MAX_DEPTH (trim cmd) = Some fs" by blast
    from walkCommand_segment [OF this assms(1)] none show False
      unfolding assms(2) by (auto simp: unwrapSegment_def)
  qed
  then have "classifyCommand cmd = None" by (simp add: classifyCommand_def)
  then show ?thesis by (simp add: evaluateCommand_def)
qed

theorem prototype_name_throws_witness:
  "classifyCommand ''toString -x'' = None \<and> evaluateCommand (Some (plain_group Deny None)) ''toString -x'' = None"
proof -
  have "(''toString -x'', False) \<in> set (splitSegments (trim ''toString -x''))"
    "tokenize (withoutRedirections ''toString -x'') = [''toString'', ''-x'']"
    "''toString'' \<in> set prototype_names" "starts_dash ''-x''" "''-x'' \<notin> {''-'', ''--''}"
    by code_simp+
  from prototype_name_throws [OF this, of "plain_group Deny None"]
  show ?thesis by (simp add: plain_group_def evaluateCapability_def)
qed

end
