(* ===== verification/Broadcast_Runner.thy ===== *)
theory Broadcast_Runner
  imports Broadcast "HOL-Library.Multiset"
begin

section \<open>Driving a broadcast (main/services/broadcast.ts)\<close>

text \<open>
  \<open>BroadcastRunner.run\<close> starts up to three workers that shift hosts off one shared queue,
  and the workers interleave at every \<open>await\<close>. The state of one run is the queue, the
  hosts in flight, the results so far and the cancel flag; a step is one worker taking a
  host (which records it as skipped once the run is cancelled), one executor settling, or
  a cancel. How the executor settles (resolved, rejected, or given up by the stall guard)
  is not determined. The \<open>active\<close> map records the state object of each run.
\<close>

definition BROADCAST_CONCURRENCY :: nat where "BROADCAST_CONCURRENCY = 3"
definition BROADCAST_OUTPUT_CAP :: nat where "BROADCAST_OUTPUT_CAP = 20000"

subsection \<open>One host\<close>

record exec_result =
  ex_ok :: bool
  ex_code :: "int option"
  ex_stdout :: "string option"
  ex_stderr :: "string option"
  ex_error :: "string option"
  ex_truncated :: "bool option"

datatype exec_settled = Resolved exec_result | Rejected string

definition cap_text :: "string option \<Rightarrow> string \<times> bool" where
  "cap_text text =
     (let s = nullish text [] in
      if length s > BROADCAST_OUTPUT_CAP then (take BROADCAST_OUTPUT_CAP s, True) else (s, False))"

definition blank_result :: "ApprovalTargetRef \<Rightarrow> BroadcastHostState \<Rightarrow> BroadcastHostResult" where
  "blank_result t st =
     \<lparr>bh_serverId = serverId t, bh_serverName = serverName t, bh_state = st, bh_exitCode = None,
      bh_stdout = None, bh_stderr = None, bh_error = None, bh_ms = None, bh_truncated = None,
      bh_outcome = None\<rparr>"

definition skipped_result :: "ApprovalTargetRef \<Rightarrow> BroadcastHostResult" where
  "skipped_result t = (blank_result t BSkipped)\<lparr>bh_outcome := Some OutCancelled\<rparr>"

definition settle_host :: "ApprovalTargetRef \<Rightarrow> int \<Rightarrow> exec_settled \<Rightarrow> BroadcastHostResult" where
  "settle_host t ms s =
     (case s of
        Resolved r \<Rightarrow>
          let out = cap_text (ex_stdout r); err = cap_text (ex_stderr r);
              host = (blank_result t (if ex_ok r then BOk else BFailed))
                \<lparr>bh_exitCode := ex_code r, bh_stdout := Some (fst out), bh_stderr := Some (fst err),
                 bh_error := ex_error r, bh_ms := Some ms,
                 bh_truncated := (if snd out \<or> snd err \<or> ex_truncated r = Some True
                                  then Some True else None)\<rparr>
          in host\<lparr>bh_outcome := classifyBroadcastResult
                   (host\<lparr>bh_stdout := Some (nullish (ex_stdout r) []),
                         bh_stderr := Some (nullish (ex_stderr r) [])\<rparr>)\<rparr>
      | Rejected msg \<Rightarrow>
          let host = (blank_result t BFailed)\<lparr>bh_error := Some msg, bh_ms := Some ms\<rparr>
          in host\<lparr>bh_outcome := classifyBroadcastResult host\<rparr>)"

lemma settle_host_fields [simp]:
  "bh_serverId (settle_host t ms s) = serverId t"
  "bh_state (settle_host t ms s) \<in> {BOk, BFailed}"
  by (cases s; simp add: settle_host_def blank_result_def Let_def)+

lemma settle_host_outcome: "bh_outcome (settle_host t ms s) \<noteq> None"
proof (cases s)
  case (Resolved r)
  then show ?thesis
    by (simp add: settle_host_def Let_def classify_None_iff blank_result_def)
next
  case (Rejected m)
  then show ?thesis
    by (simp add: settle_host_def Let_def classify_None_iff blank_result_def)
qed

subsection \<open>The table of active runs\<close>

text \<open>
  The value of an entry is the run's own state object: its identity (a number) and its
  cancel flag. A run that ends removes its entry only if the entry is still its own.
\<close>

type_synonym active_runs = "(string, nat \<times> bool) jsmap"

definition isRunning :: "active_runs \<Rightarrow> string \<Rightarrow> bool" where
  "isRunning active runId = (map_of active runId \<noteq> None)"

definition cancel_run :: "active_runs \<Rightarrow> string \<Rightarrow> bool \<times> active_runs" where
  "cancel_run active runId =
     (case map_of active runId of
        None \<Rightarrow> (False, active)
      | Some (ident, _) \<Rightarrow> (True, AList.update runId (ident, True) active))"

text \<open>None stands for the error thrown when the id is already running.\<close>

definition begin_run :: "active_runs \<Rightarrow> string \<Rightarrow> nat \<Rightarrow> active_runs option" where
  "begin_run active runId ident =
     (if isRunning active runId then None else Some (AList.update runId (ident, False) active))"

definition end_run :: "active_runs \<Rightarrow> string \<Rightarrow> nat \<Rightarrow> active_runs" where
  "end_run active runId ident =
     (case map_of active runId of
        Some (i, _) \<Rightarrow> if i = ident then AList.delete runId active else active
      | None \<Rightarrow> active)"

text \<open>Every state object's flag is set (the first component), then the table is cleared.\<close>

definition disposeAll :: "active_runs \<Rightarrow> nat list \<times> active_runs" where
  "disposeAll active = (map (fst \<circ> snd) active, [])"

lemma end_run_other: "k \<noteq> runId \<Longrightarrow> map_of (end_run active runId ident) k = map_of active k"
  by (auto simp: end_run_def map_of_delete_eq split: option.splits)

lemma begin_run_refuses: "begin_run active runId i = None \<longleftrightarrow> isRunning active runId"
  by (simp add: begin_run_def)

subsection \<open>One run\<close>

record brun =
  br_workers :: nat
  br_queue :: "ApprovalTargetRef list"
  br_flight :: "ApprovalTargetRef list"
  br_results :: "BroadcastHostResult list"
  br_cancelled :: bool

definition start_run :: "ApprovalTargetRef list \<Rightarrow> brun" where
  "start_run targets =
     \<lparr>br_workers = min BROADCAST_CONCURRENCY (length targets), br_queue = targets,
      br_flight = [], br_results = [], br_cancelled = False\<rparr>"

inductive brun_step :: "brun \<Rightarrow> brun \<Rightarrow> bool" where
  take_host: "br_queue s = t # q \<Longrightarrow> length (br_flight s) < br_workers s \<Longrightarrow> \<not> br_cancelled s \<Longrightarrow>
     brun_step s (s\<lparr>br_queue := q, br_flight := br_flight s @ [t]\<rparr>)"
| skip_host: "br_queue s = t # q \<Longrightarrow> length (br_flight s) < br_workers s \<Longrightarrow> br_cancelled s \<Longrightarrow>
     brun_step s (s\<lparr>br_queue := q, br_results := br_results s @ [skipped_result t]\<rparr>)"
| settle: "t \<in> set (br_flight s) \<Longrightarrow>
     brun_step s (s\<lparr>br_flight := remove1 t (br_flight s),
                    br_results := br_results s @ [settle_host t ms outcome]\<rparr>)"

inductive brun_cancel :: "brun \<Rightarrow> brun \<Rightarrow> bool" where
  cancel: "brun_cancel s (s\<lparr>br_cancelled := True\<rparr>)"

definition brun_next :: "brun \<Rightarrow> brun \<Rightarrow> bool" where
  "brun_next s s' = (brun_step s s' \<or> brun_cancel s s')"

inductive brun_reach :: "ApprovalTargetRef list \<Rightarrow> brun \<Rightarrow> bool" for targets where
  start: "brun_reach targets (start_run targets)"
| step: "brun_reach targets s \<Longrightarrow> brun_next s s' \<Longrightarrow> brun_reach targets s'"

inductive_cases brun_stepE: "brun_step s s'"
inductive_cases brun_cancelE: "brun_cancel s s'"

definition brun_done :: "brun \<Rightarrow> bool" where
  "brun_done s = (br_queue s = [] \<and> br_flight s = [])"

subsection \<open>The invariant of a run\<close>

definition brun_ids :: "brun \<Rightarrow> string multiset" where
  "brun_ids s = mset (map serverId (br_queue s)) + mset (map serverId (br_flight s))
                + mset (map bh_serverId (br_results s))"

definition brun_inv :: "ApprovalTargetRef list \<Rightarrow> brun \<Rightarrow> bool" where
  "brun_inv targets s =
     (br_workers s = min BROADCAST_CONCURRENCY (length targets)
      \<and> length (br_flight s) \<le> br_workers s
      \<and> brun_ids s = mset (map serverId targets)
      \<and> (\<forall>r \<in> set (br_results s). bh_outcome r \<noteq> None))"

lemma brun_inv_start: "brun_inv targets (start_run targets)"
  by (simp add: brun_inv_def start_run_def brun_ids_def)

lemma brun_ids_step: "brun_step s s' \<Longrightarrow> brun_ids s' = brun_ids s"
proof (induction rule: brun_step.induct)
  case (settle t s ms outcome)
  then have "mset (map serverId (br_flight s))
      = add_mset (serverId t) (mset (map serverId (remove1 t (br_flight s))))"
    by (metis image_mset_add_mset insert_DiffM mset_map mset_remove1 set_mset_mset)
  then show ?case by (simp add: brun_ids_def)
qed (auto simp: brun_ids_def skipped_result_def blank_result_def)

lemma brun_step_shape:
  "brun_step s s' \<Longrightarrow> br_workers s' = br_workers s
     \<and> (length (br_flight s) \<le> br_workers s \<longrightarrow> length (br_flight s') \<le> br_workers s)
     \<and> (\<forall>r \<in> set (br_results s'). r \<in> set (br_results s) \<or> bh_outcome r \<noteq> None)"
  by (induction rule: brun_step.induct)
     (auto simp: skipped_result_def settle_host_outcome length_remove1)

lemma brun_step_keeps [keeps]: "brun_step s s' \<Longrightarrow> brun_inv targets s \<Longrightarrow> brun_inv targets s'"
  using brun_ids_step [of s s'] brun_step_shape [of s s'] by (auto simp: brun_inv_def)

lemma brun_next_keeps [keeps]: "brun_next s s' \<Longrightarrow> brun_inv targets s \<Longrightarrow> brun_inv targets s'"
  by (auto simp: brun_next_def brun_inv_def brun_ids_def elim!: brun_cancelE
      dest: brun_step_keeps [unfolded brun_inv_def brun_ids_def])

lemma brun_reach_inv: "brun_reach targets s \<Longrightarrow> brun_inv targets s"
  by (induction rule: brun_reach.induct) (auto intro: brun_inv_start brun_next_keeps)

subsection \<open>Progress and termination\<close>

lemma brun_workers_pos:
  "brun_inv targets s \<Longrightarrow> br_queue s \<noteq> [] \<Longrightarrow> 0 < br_workers s"
proof -
  assume "brun_inv targets s" "br_queue s \<noteq> []"
  then have "size (brun_ids s) = length targets" "0 < size (brun_ids s)"
    by (auto simp: brun_inv_def brun_ids_def)
  then have "0 < length targets" by simp
  with \<open>brun_inv targets s\<close> show ?thesis by (simp add: brun_inv_def BROADCAST_CONCURRENCY_def)
qed

lemma brun_progress:
  assumes "brun_inv targets s" "\<not> brun_done s"
  shows "\<exists>s'. brun_step s s'"
proof (cases "br_flight s")
  case (Cons t f)
  then have "t \<in> set (br_flight s)" by simp
  from brun_step.settle [OF this] show ?thesis by blast
next
  case Nil
  with assms obtain t q where q: "br_queue s = t # q"
    by (cases "br_queue s") (auto simp: brun_done_def)
  moreover from q brun_workers_pos [OF assms(1)] Nil have "length (br_flight s) < br_workers s"
    by simp
  ultimately show ?thesis
    by (cases "br_cancelled s") (blast intro: brun_step.take_host brun_step.skip_host)+
qed

definition brun_work :: "brun \<Rightarrow> nat" where
  "brun_work s = 2 * length (br_queue s) + length (br_flight s)"

lemma brun_step_work: "brun_step s s' \<Longrightarrow> brun_work s' < brun_work s"
proof (induction rule: brun_step.induct)
  case (settle t s ms outcome)
  then have "0 < length (br_flight s)" by auto
  with settle show ?case by (simp add: brun_work_def length_remove1)
qed (auto simp: brun_work_def)

subsection \<open>After a cancel\<close>

definition frozen_run :: "brun \<Rightarrow> brun \<Rightarrow> bool" where
  "frozen_run s0 s =
     (br_cancelled s \<and> mset (br_flight s) \<subseteq># mset (br_flight s0)
      \<and> (\<exists>new. br_results s = br_results s0 @ new
           \<and> (\<forall>r \<in> set new. bh_state r = BSkipped
                \<or> bh_serverId r \<in> serverId ` set (br_flight s0))))"

lemma frozen_step: "brun_step s s' \<Longrightarrow> frozen_run s0 s \<Longrightarrow> frozen_run s0 s'"
proof (induction rule: brun_step.induct)
  case (settle t s ms outcome)
  then have "t \<in> set (br_flight s0)"
    by (metis frozen_run_def mset_subset_eqD set_mset_mset)
  moreover have "mset (remove1 t (br_flight s)) \<subseteq># mset (br_flight s0)"
    using settle by (metis diff_subset_eq_self frozen_run_def mset_remove1 subset_mset.order_trans)
  ultimately show ?case using settle by (auto simp: frozen_run_def)
qed (auto simp: frozen_run_def skipped_result_def blank_result_def)

lemma frozen_next: "brun_next s s' \<Longrightarrow> frozen_run s0 s \<Longrightarrow> frozen_run s0 s'"
  by (auto simp: brun_next_def elim!: brun_cancelE dest: frozen_step) (auto simp: frozen_run_def)

lemma frozen_star: "brun_next\<^sup>*\<^sup>* s s' \<Longrightarrow> frozen_run s0 s \<Longrightarrow> frozen_run s0 s'"
  by (induction rule: rtranclp_induct) (auto intro: frozen_next)

subsection \<open>Properties\<close>



text \<open>C38:
  A broadcast finishes: its steps strictly decrease a measure, a reachable state that is
  not finished can always take a step, so from every reachable state a finished one is
  reached, and there every target has exactly one result.\<close>

theorem broadcast_run_finishes:
  assumes "brun_reach targets s"
  shows "wfp (\<lambda>s' s. brun_step s s')
    \<and> (\<exists>s'. brun_step\<^sup>*\<^sup>* s s' \<and> brun_done s'
         \<and> mset (map bh_serverId (br_results s')) = mset (map serverId targets))"
proof
  show "wfp (\<lambda>s' s. brun_step s s')"
    by (rule wfp_if_convertible_to_nat [of _ brun_work]) (rule brun_step_work)
  have "brun_inv targets s \<Longrightarrow> \<exists>s'. brun_step\<^sup>*\<^sup>* s s' \<and> brun_done s' \<and> brun_inv targets s'"
  proof (induction s rule: measure_induct_rule [of brun_work])
    case (less s)
    show ?case
    proof (cases "brun_done s")
      case False
      then obtain s1 where s1: "brun_step s s1" using brun_progress less.prems by blast
      then show ?thesis
        using less.IH [OF brun_step_work [OF s1] brun_step_keeps [OF s1 less.prems]]
        by (meson converse_rtranclp_into_rtranclp)
    qed (use less.prems in blast)
  qed
  with brun_reach_inv [OF assms] obtain s' where s': "brun_step\<^sup>*\<^sup>* s s'" "brun_done s'" "brun_inv targets s'"
    by blast
  then have "mset (map bh_serverId (br_results s')) = mset (map serverId targets)"
    by (simp add: brun_done_def brun_inv_def brun_ids_def)
  with s' show "\<exists>s'. brun_step\<^sup>*\<^sup>* s s' \<and> brun_done s'
      \<and> mset (map bh_serverId (br_results s')) = mset (map serverId targets)"
    by blast
qed

theorem broadcast_run_finishes_witness:
  "\<exists>s'. brun_step\<^sup>*\<^sup>* (start_run [\<lparr>serverId = ''a'', serverName = ''A'', cohort = None\<rparr>]) s' \<and> brun_done s'"
  using broadcast_run_finishes [OF brun_reach.start] by blast

text \<open>
  A cancel stops the starts: in every state after it no host is in flight that was not
  already in flight when it came, and every result added since is either a skip or the
  answer of a host that had already been started.\<close>

theorem cancelled_run_starts_nothing:
  assumes "brun_cancel s0 s1" "brun_next\<^sup>*\<^sup>* s1 s"
  shows "mset (br_flight s) \<subseteq># mset (br_flight s0)
    \<and> (\<exists>new. br_results s = br_results s0 @ new
         \<and> (\<forall>r \<in> set new. bh_state r = BSkipped \<or> bh_serverId r \<in> serverId ` set (br_flight s0)))"
proof -
  have "frozen_run s0 s1" using assms(1) by (elim brun_cancelE) (simp add: frozen_run_def)
  from frozen_star [OF assms(2) this] show ?thesis by (simp add: frozen_run_def)
qed

theorem cancelled_run_starts_nothing_witness:
  "mset (br_flight ((start_run [\<lparr>serverId = ''a'', serverName = ''A'', cohort = None\<rparr>])\<lparr>br_cancelled := True\<rparr>))
     \<subseteq># mset (br_flight (start_run [\<lparr>serverId = ''a'', serverName = ''A'', cohort = None\<rparr>]))"
  using cancelled_run_starts_nothing [OF brun_cancel.cancel rtranclp.rtrancl_refl] by blast

end
