(* ===== verification/Job_Wire_Laws.thy ===== *)
theory Job_Wire_Laws
  imports Job_Wire
begin

unbundle bit_operations_syntax

section \<open>Laws of the job wire\<close>

text \<open>
  What \<open>Job_Wire\<close>'s definitions promise: a directory that passes the guard is never a root
  and has a safe last component, the shell reads the quoted directory back, a header
  printed line by line is read back, no byte of a polled stream is lost or split inside a
  character, the reconnect delay is bounded, and a command expected to restart the machine
  is graded destructive.
\<close>

subsection \<open>What the marker guard lets through\<close>

definition name_char :: "char \<Rightarrow> bool" where
  "name_char c = (is_alpha c \<or> is_digit c \<or> c \<in> set ''._-'')"

lemma name_char_digit [simp]: "is_digit c \<Longrightarrow> name_char c"
  by (simp add: name_char_def)

lemma name_char_alnum [simp]: "is_alpha c \<Longrightarrow> name_char c"
  by (simp add: name_char_def)

lemma many1_gt: "(i, j) \<in> rx_rel (many1 (Seq (lit ''/'') (many1 (none_of ''/'')))) s \<Longrightarrow> i + 2 \<le> j \<and> s ! i = CHR ''/''"
proof -
  assume "(i, j) \<in> rx_rel (many1 (Seq (lit ''/'') (many1 (none_of ''/'')))) s"
  then obtain k where k: "(i, k) \<in> rx_rel (Seq (lit ''/'') (many1 (none_of ''/''))) s"
    "(k, j) \<in> rx_rel (Star (Seq (lit ''/'') (many1 (none_of ''/'')))) s"
    by (subst (asm) many1_def) auto
  from rel_mono [OF k(2)] have "k \<le> j" .
  from k(1) obtain m where m: "i < length s" "s ! i = CHR ''/''" "(Suc (Suc i), k) \<in> rx_rel (Star (none_of ''/'')) s"
    by (auto simp: many1_def none_of_def)
  from rel_mono [OF m(3)] \<open>k \<le> j\<close> m(2) show ?thesis by auto
qed

lemma marker_dir_indices:
  assumes "rx_test MARKER_DIR d"
  shows "\<exists>i j. d ! 0 = CHR ''/'' \<and> 2 \<le> i \<and> i + 1 < j \<and> j + 1 < length d \<and> length d \<le> j + 4 \<and> j \<le> i + 129
      \<and> d ! i = CHR ''/'' \<and> (is_alpha (d ! (i + 1)) \<or> is_digit (d ! (i + 1))) \<and> d ! j = CHR ''.''
      \<and> (\<forall>k. i < k \<and> k < length d \<longrightarrow> name_char (d ! k))
      \<and> (\<forall>k. j < k \<and> k < length d \<longrightarrow> is_digit (d ! k))"
proof -
  from assms obtain a where pre: "(0, a) \<in> rx_rel (many1 (Seq (lit ''/'') (many1 (none_of ''/'')))) d"
    and rest: "(a, length d) \<in> rx_rel (seqs [lit ''/'', alnum_c, upto 127 id_c, lit ''.'',
        Cls is_digit, upto 2 (Cls is_digit), Eol]) d"
    by (auto simp: rx_test_iff MARKER_DIR_def relcomp_unfold)
  from rest obtain b where b: "a < length d" "d ! a = CHR ''/''" "Suc a < length d"
    "is_alpha (d ! Suc a) \<or> is_digit (d ! Suc a)"
    "(Suc (Suc a), b) \<in> rx_rel (upto 127 id_c) d" "b < length d" "d ! b = CHR ''.''"
    "Suc b < length d" "is_digit (d ! Suc b)"
    "(Suc (Suc b), length d) \<in> rx_rel (upto 2 (Cls is_digit)) d"
    by (auto simp: alnum_c_def relcomp_unfold)
  have idr: "Suc (Suc a) \<le> b \<and> b \<le> Suc (Suc a) + 127
      \<and> (\<forall>k. Suc (Suc a) \<le> k \<and> k < b \<longrightarrow> k < length d \<and> name_char (d ! k))"
    using rel_upto_elim [OF b(5) [unfolded id_c_def]] by (simp add: name_char_def)
  have dig: "length d \<le> Suc (Suc b) + 2
      \<and> (\<forall>k. Suc (Suc b) \<le> k \<and> k < length d \<longrightarrow> k < length d \<and> is_digit (d ! k))"
    using rel_upto_elim [OF b(10)] by simp
  have digits: "is_digit (d ! k)" if "b < k" "k < length d" for k
    using dig b(9) that by (cases "k = Suc b") auto
  have names: "name_char (d ! k)" if "a < k" "k < length d" for k
  proof -
    have "k = Suc a \<or> Suc (Suc a) \<le> k \<and> k < b \<or> k = b \<or> b < k" using that by linarith
    then show ?thesis
      using idr digits [of k] b(4,7) that by (elim disjE) (auto simp: name_char_def)
  qed
  from many1_gt [OF pre] show ?thesis
    using b idr dig digits names by (intro exI [of _ a] exI [of _ b]) auto
qed

definition marker_shape :: "string \<Rightarrow> string \<Rightarrow> string \<Rightarrow> bool" where
  "marker_shape d p name =
     (d = p @ CHR ''/'' # name \<and> 2 \<le> length p \<and> hd p = CHR ''/'' \<and> list_all name_char name
      \<and> name \<noteq> [] \<and> (is_alpha (hd name) \<or> is_digit (hd name)) \<and> is_digit (last name)
      \<and> CHR ''.'' \<in> set name \<and> \<not> dotdot d)"

lemma marker_dir_shape:
  assumes "isJobMarkerDir d"
  shows "\<exists>p name. marker_shape d p name"
proof -
  obtain i j where ij: "d ! 0 = CHR ''/''" "2 \<le> i" "i + 1 < j" "j + 1 < length d"
      "d ! i = CHR ''/''" "is_alpha (d ! (i + 1)) \<or> is_digit (d ! (i + 1))" "d ! j = CHR ''.''"
    and names: "\<forall>k. i < k \<and> k < length d \<longrightarrow> name_char (d ! k)"
    and digits: "\<forall>k. j < k \<and> k < length d \<longrightarrow> is_digit (d ! k)"
    using assms marker_dir_indices [of d] by (auto simp: isJobMarkerDir_def)
  let ?p = "take i d" and ?n = "drop (Suc i) d"
  have "i < length d" using ij by linarith
  then have "d = ?p @ CHR ''/'' # ?n"
    using id_take_nth_drop [of i d] ij(5) by simp
  moreover have "2 \<le> length ?p" "?n \<noteq> []" using ij by auto
  moreover have "hd ?p = CHR ''/''"
    using ij(1,2) \<open>i < length d\<close> by (cases d) auto
  moreover have "list_all name_char ?n"
    using names by (auto simp: list_all_length)
  moreover have "hd ?n = d ! (i + 1)"
    using ij by (simp add: hd_drop_conv_nth)
  moreover have "last ?n = d ! (length d - 1)"
    using ij by (cases d rule: rev_cases) (auto simp: nth_append)
  moreover have "is_digit (d ! (length d - 1))"
    using digits ij(4) by (auto dest: spec [of _ "length d - 1"])
  moreover have "?n ! (j - Suc i) = CHR ''.''" "j - Suc i < length ?n"
    using ij by auto
  then have "CHR ''.'' \<in> set ?n" by (metis nth_mem)
  moreover have "\<not> dotdot d"
    using assms by (simp add: isJobMarkerDir_def has_dotdot_iff)
  ultimately show ?thesis
    using ij(6) unfolding marker_shape_def by (intro exI [of _ ?p] exI [of _ ?n]) simp
qed

lemma name_char_safe: "name_char c \<Longrightarrow> c \<noteq> CHR ''/'' \<and> \<not> is_ws c \<and> c \<noteq> quote1 \<and> c \<noteq> CHR ''*''"
  by (auto simp: name_char_def is_alpha_def is_lower_def is_upper_def is_digit_def is_ws_def code_def)

lemma reap_text:
  "isJobMarkerDir dir \<Longrightarrow>
   \<exists>t. buildJobReap dir = Some (''SP_JOB_VERB='' @ ''reap'' @ ''; SP_JOB_DIR='' @ shQuote dir @ CHR '';'' # t)"
proof -
  assume "isJobMarkerDir dir"
  then have "\<exists>t. buildJobReap dir = Some (''SP_JOB_VERB=reap; SP_JOB_DIR='' @ shQuote dir @ '';'' @ t)"
    unfolding buildJobReap_def join.simps append_assoc by (simp only: not_True_eq_False if_False) (intro exI, rule refl)
  then show ?thesis by simp
qed

lemma signal_text:
  "isJobMarkerDir dir \<Longrightarrow>
   \<exists>t. buildJobSignal dir sg = Some (''SP_JOB_VERB='' @ ''signal'' @ ''; SP_JOB_DIR='' @ shQuote dir @ CHR '';'' # t)"
proof -
  assume "isJobMarkerDir dir"
  then have "\<exists>t. buildJobSignal dir sg = Some (''SP_JOB_VERB=signal; SP_JOB_DIR='' @ shQuote dir @ ''; SP_JOB_SIG='' @ t)"
    unfolding buildJobSignal_def join.simps append_assoc by (simp only: not_True_eq_False if_False) (intro exI, rule refl)
  then show ?thesis by (elim exE) simp
qed

subsection \<open>A header printed line by line\<close>

definition header_value :: "string \<Rightarrow> bool" where
  "header_value v = (newline \<notin> set v \<and> trim v = v \<and> (v = [] \<or> last v \<noteq> carriage_return))"

definition print_field :: "string \<times> string \<Rightarrow> string" where
  "print_field kv = fst kv @ CHR ''='' # snd kv"

lemma header_key_chars: "header_key k \<Longrightarrow> c \<in> set k \<Longrightarrow> \<not> is_ws c \<and> c \<noteq> CHR ''=''"
  by (auto simp: header_key_def list_all_iff is_lower_def is_digit_def is_ws_def code_def)

lemma index_of_eq_sign: "CHR ''='' \<notin> set k \<Longrightarrow> index_of ''='' (k @ CHR ''='' # v) = Some (length k)"
  by (induction k) auto

lemma header_line_print:
  assumes "header_key k" "header_value v"
  shows "header_line (print_field (k, v)) m = AList.update k v m"
proof -
  have k: "k \<noteq> []" "trim k = k" "CHR ''='' \<notin> set k"
    using assms(1) header_key_chars [OF assms(1)] trim_no_ws [of k] by (auto simp: header_key_def)
  have "strip_cr v = v" using assms(2) by (auto simp: strip_cr_def header_value_def)
  then show ?thesis
    using k assms index_of_eq_sign [OF k(3), of v]
    by (simp add: header_line_def print_field_def header_value_def)
qed

lemma headerFields_print:
  assumes "kvs \<noteq> []" "\<forall>(k, v) \<in> set kvs. header_key k \<and> header_value v"
  shows "headerFields (join [newline] (map print_field kvs)) = fold (\<lambda>(k, v). AList.update k v) kvs []"
proof -
  have nl: "newline \<notin> set (print_field kv)" if "kv \<in> set kvs" for kv
    using assms(2) that header_key_chars [of "fst kv" newline]
    by (auto simp: print_field_def header_value_def is_ws_def code_def)
  have "fold header_line (map print_field xs) m = fold (\<lambda>(k, v). AList.update k v) xs m"
    if "set xs \<subseteq> set kvs" for xs m
    using that assms(2) by (induction xs arbitrary: m) (auto simp: header_line_print)
  then show ?thesis
    using assms(1) nl by (simp add: headerFields_def split_on_join)
qed

lemma fold_update_distinct:
  "distinct (map fst (acc @ kvs)) \<Longrightarrow> fold (\<lambda>(k, v). AList.update k v) kvs acc = acc @ kvs"
proof (induction kvs arbitrary: acc)
  case (Cons kv kvs)
  then show ?case
    by (cases kv) (auto simp: alist_update_fresh image_Un)
qed simp

subsection \<open>The cut at a character boundary\<close>

definition utf8_need :: "byte \<Rightarrow> nat" where
  "utf8_need b = (if b \<ge> 0xF0 then 4 else if b \<ge> 0xE0 then 3 else if b \<ge> 0xC0 then 2 else 1)"

definition is_cont :: "byte \<Rightarrow> bool" where
  "is_cont b = (b AND 0xC0 = 0x80)"

text \<open>One encoded character: a lead byte and as many continuation bytes as it announces.\<close>

definition utf8_char :: "byte list \<Rightarrow> bool" where
  "utf8_char c = (c \<noteq> [] \<and> \<not> is_cont (hd c) \<and> length c = utf8_need (hd c) \<and> list_all is_cont (tl c))"

lemma utf8_need_le: "1 \<le> utf8_need b \<and> utf8_need b \<le> 4"
  by (simp add: utf8_need_def)

lemma utf8_tail_run:
  "list_all is_cont xs \<Longrightarrow> \<not> is_cont l \<Longrightarrow>
   utf8_tail bk (xs @ l # r) =
     (if bk + length xs > 3 then 0
      else if utf8_need l > bk + length xs then bk + length xs else 0)"
proof (induction xs arbitrary: bk)
  case Nil
  then show ?case by (simp add: is_cont_def utf8_need_def Let_def)
next
  case (Cons x xs)
  from Cons.prems have "x AND 0xC0 = 0x80" by (simp add: is_cont_def)
  then have "utf8_tail bk ((x # xs) @ l # r) = (if bk > 3 then 0 else utf8_tail (Suc bk) (xs @ l # r))"
    by simp
  with Cons show ?case by auto
qed

lemma utf8_tail_whole:
  assumes "utf8_char c"
  shows "incompleteUtf8Tail (p @ c) = 0"
proof -
  from assms obtain l xs where c: "c = l # xs" "list_all is_cont (rev xs)" "\<not> is_cont l"
    "Suc (length xs) = utf8_need l"
    by (cases c) (auto simp: utf8_char_def list_all_iff)
  with utf8_tail_run [OF c(2,3), of 1 "rev p"] show ?thesis
    by (simp add: incompleteUtf8Tail_def)
qed

lemma utf8_tail_part:
  assumes "utf8_char c" "0 < k" "k < length c"
  shows "incompleteUtf8Tail (p @ take k c) = k"
proof -
  from assms obtain l xs where c: "c = l # xs" "list_all is_cont xs" "\<not> is_cont l"
    "length c = utf8_need l"
    by (cases c) (auto simp: utf8_char_def)
  have t: "take k c = l # take (k - 1) xs" using assms(2) c(1) by (cases k) auto
  have "list_all is_cont (rev (take (k - 1) xs))"
    using c(2) by (auto simp: list_all_iff dest: in_set_takeD)
  moreover have "length (rev (take (k - 1) xs)) = k - 1" using assms(3) c(1) by simp
  moreover have "1 + (k - 1) = k" "k \<le> 3" using assms(2,3) c(4) utf8_need_le [of l] by auto
  ultimately have "utf8_tail 1 (rev (take (k - 1) xs) @ l # rev p) = k"
    using utf8_tail_run [of "rev (take (k - 1) xs)" l 1 "rev p"] c(3,4) assms(3) by simp
  then show ?thesis by (simp add: incompleteUtf8Tail_def t)
qed

lemma incompleteUtf8Tail_stream:
  assumes "list_all utf8_char cs" "utf8_char c" "k < length c"
  shows "incompleteUtf8Tail (concat cs @ take k c) = k"
proof (cases "k = 0")
  case False
  with utf8_tail_part [OF assms(2) _ assms(3)] show ?thesis by simp
next
  case True
  show ?thesis
  proof (cases cs rule: rev_cases)
    case Nil
    with True show ?thesis by (simp add: incompleteUtf8Tail_def)
  next
    case (snoc ds d)
    with assms True utf8_tail_whole [of d "concat ds"] show ?thesis by simp
  qed
qed

definition b64_filter :: "string \<Rightarrow> string" where
  "b64_filter = filter (\<lambda>c. is_alpha c \<or> is_digit c \<or> c \<in> set ''+/='')"

lemma parseJobPoll_base64:
  assumes "bytes = base64_decode (b64_filter (snd (poll_split out)))"
    "carry @ bytes = text @ rest" "incompleteUtf8Tail (carry @ bytes) = length rest"
  shows "po_text (fst (parseJobPoll out True carry)) = Decoded text
     \<and> snd (parseJobPoll out True carry) = rest"
proof -
  obtain h b where ps: "poll_split out = (h, b)" by (cases "poll_split out")
  have "bytes = base64_decode (filter (\<lambda>c. is_alpha c \<or> is_digit c \<or> c \<in> set ''+/='') b)"
    using assms(1) by (simp add: ps b64_filter_def)
  moreover have "length (carry @ bytes) - length rest = length text"
    by (simp add: assms(2))
  moreover have "take (length text) (text @ rest) = text" "drop (length text) (text @ rest) = rest"
    by simp_all
  ultimately show ?thesis
    using assms(2,3)
    by (simp add: parseJobPoll_def Let_def ps del: take_append drop_append length_append)
qed

subsection \<open>The reconnect delay\<close>

lemma nextRetryDelay_window:
  assumes "0 \<le> rand" "rand < 1"
    "w = int (retry_window attempt (nullish base JOB_RECONNECT_BASE_MS) (nullish mx JOB_RECONNECT_MAX_MS))"
  shows "w \<le> 2 * nextRetryDelay attempt rand base mx \<and> nextRetryDelay attempt rand base mx \<le> w"
proof -
  let ?h = "of_int w / 2 :: rat"
  have w: "0 \<le> w" using assms(3) by simp
  have d: "nextRetryDelay attempt rand base mx = \<lfloor>?h + rand * ?h + 1 / 2\<rfloor>"
    using assms(3) by (simp add: nextRetryDelay_def Let_def)
  have nn: "0 \<le> rand * ?h" using assms(1) w by simp
  have "rand * ?h \<le> 1 * ?h" using assms(2) w by (intro mult_right_mono) auto
  then have le: "?h + rand * ?h + 1 / 2 < of_int w + 1" by simp
  have "\<lfloor>?h + rand * ?h + 1 / 2\<rfloor> < w + 1" unfolding floor_less_iff using le by simp
  moreover have "of_int ((w + 1) div 2) \<le> ?h + 1 / 2"
  proof -
    have "2 * ((w + 1) div 2) \<le> w + 1" by simp
    then have "of_int (2 * ((w + 1) div 2)) \<le> (of_int (w + 1) :: rat)" by (simp only: of_int_le_iff)
    then show ?thesis by simp
  qed
  then have "(w + 1) div 2 \<le> \<lfloor>?h + rand * ?h + 1 / 2\<rfloor>"
    using nn by (simp add: le_floor_iff)
  ultimately show ?thesis unfolding d by linarith
qed

lemma retry_window_mono: "a \<le> b \<Longrightarrow> retry_window a base mx \<le> retry_window b base mx"
proof -
  assume "a \<le> b"
  then have "max 1 (nat \<lfloor>a\<rfloor>) \<le> max 1 (nat \<lfloor>b\<rfloor>)" by (simp add: floor_mono nat_mono max.coboundedI2)
  then have "min (max 1 (nat \<lfloor>a\<rfloor>) - 1) 30 \<le> min (max 1 (nat \<lfloor>b\<rfloor>) - 1) 30" by linarith
  then have "(2::nat) ^ min (max 1 (nat \<lfloor>a\<rfloor>) - 1) 30 \<le> 2 ^ min (max 1 (nat \<lfloor>b\<rfloor>) - 1) 30"
    by (rule power_increasing) simp
  then show ?thesis unfolding retry_window_def Let_def by (meson min.mono mult_le_mono2 order_refl)
qed

subsection \<open>A restart is destructive\<close>

lemma DESTRUCTIVE_systemctl:
  "(commandStart (seqs [lit ''systemctl'', many1 ws_c,
       words [''poweroff'', ''reboot'', ''halt'', ''kexec''], WordB]),
    ''stops or restarts the machine'') \<in> set DESTRUCTIVE"
  unfolding DESTRUCTIVE_def by ((rule list.set_intros(1) | rule list.set_intros(2))+)

lemma RESTARTS_listed: "r \<in> set RESTARTS \<Longrightarrow> (r, ''stops or restarts the machine'') \<in> set DESTRUCTIVE"
  using DESTRUCTIVE_rows(1) DESTRUCTIVE_systemctl
  by (auto simp only: RESTARTS_def list.set insert_iff empty_iff atCommandStart_def)

subsection \<open>Properties\<close>

text \<open>
  Quoting is exact: a shell that reads \<open>shQuote s\<close> at the start of a word, followed by
  white space, a separator or nothing, gets back the text \<open>s\<close> character for character and
  leaves the rest of the line untouched.\<close>

theorem quoted_text_is_one_word:
  assumes "t = [] \<or> is_ws (hd t) \<or> hd t \<in> set '';&|()<>''"
  shows "sh_word False (shQuote s @ t) = Some (s, t)"
  using assms by (rule shQuote_read)

theorem quoted_text_is_one_word_witness:
  "sh_word False (shQuote [CHR ''a'', quote1, CHR '' '', CHR '';''] @ ''; id'')
     = Some ([CHR ''a'', quote1, CHR '' '', CHR '';''], ''; id'')"
  by (rule quoted_text_is_one_word) simp

text \<open>
  The commands that signal and that delete are built only for a directory inside some
  other directory: the guard rejects a root, a path with two dots and a last component that
  holds anything but name characters, and what is built names exactly that directory to the
  shell, which reads it back from the quoted assignment.\<close>

theorem destructive_builders_guarded:
  assumes "buildJobReap dir = Some cmd \<or> buildJobSignal dir sg = Some cmd"
  shows "\<exists>p name verb rest. dir = p @ CHR ''/'' # name \<and> 2 \<le> length p \<and> hd p = CHR ''/''
      \<and> list_all name_char name \<and> CHR ''.'' \<in> set name \<and> is_digit (last name)
      \<and> \<not> has_text ''..'' dir
      \<and> cmd = ''SP_JOB_VERB='' @ verb @ ''; SP_JOB_DIR='' @ rest
      \<and> verb \<in> {''reap'', ''signal''}
      \<and> (\<exists>tl. sh_word False rest = Some (dir, CHR '';'' # tl))"
proof -
  have ok: "isJobMarkerDir dir"
    using assms by (auto simp: buildJobReap_def buildJobSignal_def split: if_splits)
  then obtain p name where s: "marker_shape dir p name" using marker_dir_shape by blast
  have q: "\<exists>tl. sh_word False (shQuote dir @ CHR '';'' # t) = Some (dir, CHR '';'' # tl)" for t
    using shQuote_read [of "CHR '';'' # t" dir] by simp
  have "\<exists>verb rest. cmd = ''SP_JOB_VERB='' @ verb @ ''; SP_JOB_DIR='' @ rest
      \<and> verb \<in> {''reap'', ''signal''} \<and> (\<exists>tl. sh_word False rest = Some (dir, CHR '';'' # tl))"
    using assms
  proof
    assume a: "buildJobReap dir = Some cmd"
    from reap_text [OF ok] obtain t where "buildJobReap dir = Some (''SP_JOB_VERB='' @ ''reap'' @ ''; SP_JOB_DIR='' @ shQuote dir @ CHR '';'' # t)" ..
    with a have "cmd = ''SP_JOB_VERB='' @ ''reap'' @ ''; SP_JOB_DIR='' @ shQuote dir @ CHR '';'' # t" by (simp only: option.inject)
    with q [of t] show ?thesis
      by (intro exI [of _ "''reap''"] exI [of _ "shQuote dir @ CHR '';'' # t"]) (simp only: simp_thms insert_iff)
  next
    assume a: "buildJobSignal dir sg = Some cmd"
    from signal_text [OF ok] obtain t where "buildJobSignal dir sg = Some (''SP_JOB_VERB='' @ ''signal'' @ ''; SP_JOB_DIR='' @ shQuote dir @ CHR '';'' # t)" ..
    with a have "cmd = ''SP_JOB_VERB='' @ ''signal'' @ ''; SP_JOB_DIR='' @ shQuote dir @ CHR '';'' # t" by (simp only: option.inject)
    with q [of t] show ?thesis
      by (intro exI [of _ "''signal''"] exI [of _ "shQuote dir @ CHR '';'' # t"]) (simp only: simp_thms insert_iff)
  qed
  then show ?thesis
    using s unfolding marker_shape_def has_dotdot_iff by blast
qed

theorem destructive_builders_guarded_witness:
  "\<exists>p name. ''/var/opsmaxx/j1.2'' = p @ CHR ''/'' # name \<and> 2 \<le> length p"
proof -
  have "isJobMarkerDir ''/var/opsmaxx/j1.2''" by code_simp
  then obtain cmd where "buildJobReap ''/var/opsmaxx/j1.2'' = Some cmd"
    by (simp add: buildJobReap_def)
  then show ?thesis
    using destructive_builders_guarded [of "''/var/opsmaxx/j1.2''" cmd None] by blast
qed

text \<open>
  Every directory the application itself makes up for a job is accepted back by its own
  guard, for a root of ordinary path segments, a legal id that does not end in a dot and a
  step number from 1 to 999.\<close>

theorem marker_directory_roundtrip:
  assumes "segs \<noteq> []" "\<forall>g \<in> set segs. g \<noteq> [] \<and> CHR ''/'' \<notin> set g"
    "\<not> has_text ''..'' (path_prefix segs)" "assertSafeJobId jid" "last jid \<noteq> CHR ''.''" "1 \<le> n" "n \<le> 999"
  shows "\<exists>d. jobMarkerDir (path_prefix segs) jid (of_nat n) = Some d \<and> isJobMarkerDir d"
  using assms marker_dir_accepted by blast

theorem marker_directory_roundtrip_witness:
  "\<exists>d. jobMarkerDir (path_prefix [''tmp'', ''opsmaxx'']) ''job-1'' (of_nat 2) = Some d \<and> isJobMarkerDir d"
proof (rule marker_directory_roundtrip)
  show "assertSafeJobId ''job-1''" by code_simp
qed (auto simp: path_prefix_def has_dotdot_iff)

text \<open>
  A header printed line by line is read back: for any list of legal keys with trimmed
  one-line values the parser returns exactly those fields, in that order.\<close>

theorem header_roundtrip:
  assumes "kvs \<noteq> []" "\<forall>(k, v) \<in> set kvs. header_key k \<and> header_value v" "distinct (map fst kvs)"
  shows "headerFields (join [newline] (map (\<lambda>(k, v). k @ CHR ''='' # v) kvs)) = kvs"
  using headerFields_print [OF assms(1,2)] fold_update_distinct [of "[]" kvs] assms(3)
  by (simp add: print_field_def split_def cong: map_cong)

theorem header_roundtrip_witness:
  "headerFields (join [newline] (map (\<lambda>(k, v). k @ CHR ''='' # v) [(''rc'', ''0''), (''size'', ''12'')]))
     = [(''rc'', ''0''), (''size'', ''12'')]"
  by (rule header_roundtrip)
     (auto simp: header_key_def header_value_def is_lower_def is_digit_def code_def trim_def
        trim_start_def is_ws_def)

text \<open>
  No byte of a polled stream is lost, repeated or split inside a character. When the bytes
  carried over and the bytes just received make up whole characters followed by a proper
  part of one more, the poll delivers exactly the whole characters and carries exactly the
  part, whatever the host announced.\<close>

theorem poll_cuts_between_characters:
  assumes "bytes = base64_decode (b64_filter (snd (poll_split out)))"
    "carry @ bytes = concat chars @ take k c"
    "list_all utf8_char chars" "utf8_char c" "k < length c"
  shows "po_text (fst (parseJobPoll out True carry)) = Decoded (concat chars)
    \<and> snd (parseJobPoll out True carry) = take k c"
  using parseJobPoll_base64 [OF assms(1,2)] incompleteUtf8Tail_stream [OF assms(3-5)] assms(2,5)
  by simp

theorem poll_cuts_between_characters_witness:
  "po_text (fst (parseJobPoll (''body/1'' @ newline # ''QcM='') True [])) = Decoded [0x41]
   \<and> snd (parseJobPoll (''body/1'' @ newline # ''QcM='') True []) = [0xC3]"
proof -
  have b: "[0x41, 0xC3] = base64_decode (b64_filter (snd (poll_split (''body/1'' @ newline # ''QcM=''))))"
    by code_simp
  have c: "[] @ [0x41, 0xC3] = concat [[0x41]] @ take 1 [0xC3, 0xA9 :: byte]" by simp
  have u: "list_all utf8_char [[0x41]]" "utf8_char [0xC3, 0xA9]" by code_simp+
  from poll_cuts_between_characters [OF b c u] show ?thesis by simp
qed

text \<open>
  The reconnect delay is bounded and grows: for a random value in [0, 1) it lies between
  half the window and the window, the window never exceeds the maximum and never shrinks
  as the attempts go on.\<close>

theorem retry_delay_bounds:
  assumes "0 \<le> rand" "rand < 1" "attempt \<le> attempt'"
  shows "let w = retry_window attempt (nullish base JOB_RECONNECT_BASE_MS) (nullish mx JOB_RECONNECT_MAX_MS);
             w' = retry_window attempt' (nullish base JOB_RECONNECT_BASE_MS) (nullish mx JOB_RECONNECT_MAX_MS)
         in int w \<le> 2 * nextRetryDelay attempt rand base mx
            \<and> nextRetryDelay attempt rand base mx \<le> int w
            \<and> w \<le> nullish mx JOB_RECONNECT_MAX_MS \<and> w \<le> w'"
  using nextRetryDelay_window [OF assms(1,2) refl] retry_window_mono [OF assms(3)]
  by (simp add: Let_def retry_window_def)

theorem retry_delay_bounds_witness:
  "nextRetryDelay 3 (1 / 2) None None \<le> int (retry_window 3 2000 60000)"
  using retry_delay_bounds [of "1 / 2" 3 3 None None]
  by (simp add: Let_def JOB_RECONNECT_BASE_MS_def JOB_RECONNECT_MAX_MS_def)

text \<open>
  A command after which a dead process is explained away as the reboot it asked for is
  always one a person had to type out: whatever \<open>restartsTheMachine\<close> accepts is graded
  destructive, so a job that contains it demands the word.\<close>

theorem restart_is_always_typed:
  assumes "restartsTheMachine (js_command st)" "st \<in> set (sp_steps spec)" "targets \<noteq> []"
  shows "ra_risk (assessCommand (js_command st)) = Destructive
    \<and> jp_confirmation (planJob spec targets) = TypeToConfirm ''RUN''"
proof -
  from assms(1) obtain r where "r \<in> set RESTARTS" "rx_test r (js_command st)"
    by (auto simp: restartsTheMachine_def list_ex_iff)
  with RESTARTS_listed rule_hits_nonempty have d: "ra_risk (assessCommand (js_command st)) = Destructive"
    by (fastforce simp: assessCommand_eq)
  then have "step_risk st = Destructive" by (simp add: step_risk_def)
  then have "Destructive \<le> jp_risk (planJob spec targets)"
    using assms(2) fold_max_mem [of "step_risk st" "map step_risk (sp_steps spec)" Ordinary]
    by (force simp: planJob_def Let_def plan_fold_risk)
  then have "jp_risk (planJob spec targets) = Destructive" by (simp add: antisym)
  moreover have "0 < jp_blastRadius (planJob spec targets)"
  proof -
    obtain t where "t \<in> set targets" using assms(3) by (cases targets) auto
    then have "0 < cohort_size targets (cohort_of t)" by (force simp: cohort_size_def filter_empty_conv)
    with blast_radius_ge [of targets "cohort_of t"] show ?thesis by (simp add: planJob_def Let_def)
  qed
  ultimately show ?thesis using d by (auto simp: planJob_def Let_def confirmationFor_def)
qed

theorem restart_is_always_typed_witness:
  "jp_confirmation (planJob
     \<lparr>sp_kind = KCommand, sp_title = [],
      sp_steps = [\<lparr>js_command = ''reboot'', js_timeoutMs = None, js_reboot = None\<rparr>],
      sp_concurrency = None, sp_gate = None, sp_rollback = None\<rparr>
     [\<lparr>serverId = ''a'', serverName = ''A'', cohort = None\<rparr>]) = TypeToConfirm ''RUN''"
proof -
  have "restartsTheMachine ''reboot''" by code_simp
  then show ?thesis
    using restart_is_always_typed [of "\<lparr>js_command = ''reboot'', js_timeoutMs = None, js_reboot = None\<rparr>"]
    by simp
qed

end
