(* ===== verification/Approvals.thy ===== *)
theory Approvals
  imports Js_Text Json
begin

section \<open>The approval queue (main/services/approvals.ts)\<close>

text \<open>
  The questions an agent's tool calls are waiting on. The module's maps are the fields of
  one state: pending questions, cooldowns by subject, withdrawal times by session, the
  short memory of resolved requests, and the answers the waiting promises were resolved
  with. Time is the argument \<open>now\<close> of every operation; a timer is the instant it is due,
  and its callback is the operation \<open>timer_fires\<close>. The text of a request (names, action,
  intent) is shaped for display elsewhere and is not part of this model.
\<close>

subsection \<open>Types\<close>

datatype ApprovalDecision =
    Approved | ApprovedForSession | Denied | TimedOut | Disconnected
  | RefusedVolume | RefusedWithdrawn

datatype ApprovalStatus = StPending | StApproved | StDenied | StTimeout | StDisconnected

datatype ApprovalScope = ScopeOnce | ScopeSession

datatype SessionGrant = GrantCapability | GrantTool

record ApprovalRequest =
  rq_id :: string
  rq_sessionId :: string
  rq_workspaceId :: string
  rq_serverId :: "string option"
  rq_capability :: string
  rq_createdAt :: int
  rq_status :: ApprovalStatus
  rq_resolvedAt :: "int option"
  rq_deadlineAt :: "int option"
  rq_sessionGrant :: "SessionGrant option"
  rq_grantedScope :: "ApprovalScope option"
  rq_contentPreview :: "string option"

text \<open>What a caller hands in; \<open>ci_aborted\<close> says whether its signal is already aborted.\<close>

record CreateApprovalInput =
  ci_sessionId :: string
  ci_workspaceId :: string
  ci_serverId :: "string option"
  ci_capability :: string
  ci_containment :: "bool option"
  ci_sessionGrant :: "SessionGrant option"
  ci_preview :: "string option"
  ci_aborted :: bool

record appr_entry =
  ae_request :: ApprovalRequest
  ae_timer :: "int option"
  ae_unseen :: "int option"
  ae_extended :: int
  ae_subject :: string
  ae_containment :: bool

record approvals =
  ap_pending :: "(string, appr_entry) jsmap"
  ap_denials :: "(string, int) jsmap"
  ap_withdrawals :: "(string, int list) jsmap"
  ap_recent :: "ApprovalRequest list"
  ap_answers :: "(string \<times> ApprovalDecision) list"

definition no_approvals :: approvals where
  "no_approvals = \<lparr>ap_pending = [], ap_denials = [], ap_withdrawals = [], ap_recent = [], ap_answers = []\<rparr>"

definition MAX_PENDING_PER_SESSION :: nat where "MAX_PENDING_PER_SESSION = 3"
definition DENY_COOLDOWN_MS :: int where "DENY_COOLDOWN_MS = 30000"
definition WITHDRAWAL_WINDOW_MS :: int where "WITHDRAWAL_WINDOW_MS = 60000"
definition MAX_WITHDRAWALS_PER_WINDOW :: nat where "MAX_WITHDRAWALS_PER_WINDOW = 3"
definition UNSEEN_MAX_MS :: int where "UNSEEN_MAX_MS = 30 * 60000"
definition RECENT_MAX :: nat where "RECENT_MAX = 20"
definition EXTENSION_CEILING_SECONDS :: int where "EXTENSION_CEILING_SECONDS = 15 * 60"
definition EXTENSION_MAX_PER_CALL_SECONDS :: int where "EXTENSION_MAX_PER_CALL_SECONDS = 10 * 60"

subsection \<open>Rationing\<close>

abbreviation nul :: char where "nul \<equiv> CHR 0x00"

definition asks_containment :: "CreateApprovalInput \<Rightarrow> bool" where
  "asks_containment i = (ci_containment i = Some True)"

definition subjectKey :: "CreateApprovalInput \<Rightarrow> string" where
  "subjectKey i =
     ci_sessionId i @ nul # ci_capability i @ nul #
     (case ci_serverId i of
        None \<Rightarrow> ''workspace'' @ nul # ci_workspaceId i
      | Some s \<Rightarrow> ''server'' @ nul # s)
     @ nul # (if asks_containment i then ''stop'' else ''start'')"

definition live_of :: "(string, appr_entry) jsmap \<Rightarrow> string \<Rightarrow> bool \<Rightarrow> nat" where
  "live_of p sid cont =
     length (filter (\<lambda>(i, e). rq_sessionId (ae_request e) = sid \<and> ae_containment e = cont) p)"

definition refusal :: "CreateApprovalInput \<Rightarrow> int \<Rightarrow> approvals \<Rightarrow> ApprovalDecision option \<times> approvals" where
  "refusal input now st =
     (let st = st\<lparr>ap_denials := filter (\<lambda>(k, expires). \<not> expires \<le> now) (ap_denials st)\<rparr> in
      if nullish (map_of (ap_denials st) (subjectKey input)) 0 > now then (Some RefusedVolume, st)
      else
        let withdrawn = filter (\<lambda>t. t > now - WITHDRAWAL_WINDOW_MS)
                          (nullish (map_of (ap_withdrawals st) (ci_sessionId input)) []);
            st = st\<lparr>ap_withdrawals :=
                      (if withdrawn \<noteq> [] then AList.update (ci_sessionId input) withdrawn (ap_withdrawals st)
                       else AList.delete (ci_sessionId input) (ap_withdrawals st))\<rparr> in
        if length withdrawn \<ge> MAX_WITHDRAWALS_PER_WINDOW \<and> ci_containment input \<noteq> Some True
          then (Some RefusedWithdrawn, st)
        else if live_of (ap_pending st) (ci_sessionId input) (asks_containment input)
                  \<ge> MAX_PENDING_PER_SESSION
          then (Some RefusedVolume, st)
        else (None, st))"

definition wouldRefuse :: "CreateApprovalInput \<Rightarrow> int \<Rightarrow> approvals \<Rightarrow> bool \<times> approvals" where
  "wouldRefuse input now st = (let r = refusal input now st in (fst r \<noteq> None, snd r))"

subsection \<open>Resolving\<close>

datatype FinishDecision = FinApproved | FinDenied | FinTimeout | FinDisconnected

fun status_of :: "FinishDecision \<Rightarrow> ApprovalStatus" where
  "status_of FinApproved = StApproved"
| "status_of FinDenied = StDenied"
| "status_of FinTimeout = StTimeout"
| "status_of FinDisconnected = StDisconnected"

fun answer_of :: "FinishDecision \<Rightarrow> ApprovalDecision" where
  "answer_of FinApproved = Approved"
| "answer_of FinDenied = Denied"
| "answer_of FinTimeout = TimedOut"
| "answer_of FinDisconnected = Disconnected"

definition resolve_request :: "ApprovalRequest \<Rightarrow> FinishDecision \<Rightarrow> bool \<Rightarrow> int \<Rightarrow> ApprovalRequest" where
  "resolve_request rq decision forSession now =
     rq\<lparr>rq_status := status_of decision, rq_resolvedAt := Some now,
        rq_grantedScope := (if decision = FinApproved
                            then Some (if forSession then ScopeSession else ScopeOnce)
                            else rq_grantedScope rq),
        rq_contentPreview := None\<rparr>"

definition finish :: "string \<Rightarrow> FinishDecision \<Rightarrow> ApprovalScope \<Rightarrow> int \<Rightarrow> approvals \<Rightarrow> approvals" where
  "finish i decision scope now st =
     (case map_of (ap_pending st) i of
        None \<Rightarrow> st
      | Some e \<Rightarrow>
          let rq = ae_request e;
              forSession = (decision = FinApproved \<and> scope = ScopeSession \<and> rq_sessionGrant rq \<noteq> None)
          in st\<lparr>ap_pending := AList.delete i (ap_pending st),
                ap_recent := take RECENT_MAX (resolve_request rq decision forSession now # ap_recent st),
                ap_denials := (if decision = FinDenied
                               then AList.update (ae_subject e) (now + DENY_COOLDOWN_MS) (ap_denials st)
                               else ap_denials st),
                ap_withdrawals := (if decision = FinDisconnected
                               then AList.update (rq_sessionId rq)
                                      (nullish (map_of (ap_withdrawals st) (rq_sessionId rq)) [] @ [now])
                                      (ap_withdrawals st)
                               else ap_withdrawals st),
                ap_answers := ap_answers st
                  @ [(i, if forSession then ApprovedForSession else answer_of decision)]\<rparr>)"

subsection \<open>Asking, arming, extending, answering\<close>

definition new_entry :: "CreateApprovalInput \<Rightarrow> string \<Rightarrow> int \<Rightarrow> appr_entry" where
  "new_entry input i now =
     \<lparr>ae_request =
        \<lparr>rq_id = i, rq_sessionId = ci_sessionId input, rq_workspaceId = ci_workspaceId input,
         rq_serverId = ci_serverId input, rq_capability = ci_capability input, rq_createdAt = now,
         rq_status = StPending, rq_resolvedAt = None, rq_deadlineAt = None,
         rq_sessionGrant = ci_sessionGrant input, rq_grantedScope = None,
         rq_contentPreview = ci_preview input\<rparr>,
      ae_timer = None, ae_unseen = Some (now + UNSEEN_MAX_MS), ae_extended = 0,
      ae_subject = subjectKey input, ae_containment = asks_containment input\<rparr>"

text \<open>\<open>i\<close> is the generated id; the result is the refusal, or None for a promise that waits.\<close>

definition requestApproval :: "CreateApprovalInput \<Rightarrow> string \<Rightarrow> int \<Rightarrow> approvals
    \<Rightarrow> ApprovalDecision option \<times> approvals" where
  "requestApproval input i now st =
     (let (refused, st) = refusal input now st in
      if refused \<noteq> None then (refused, st)
      else
        let st = st\<lparr>ap_pending := AList.update i (new_entry input i now) (ap_pending st)\<rparr>
        in (None, if ci_aborted input then finish i FinDisconnected ScopeOnce now st else st))"

definition signal_aborts :: "string \<Rightarrow> int \<Rightarrow> approvals \<Rightarrow> approvals" where
  "signal_aborts i now st = finish i FinDisconnected ScopeOnce now st"

definition armApproval :: "int \<Rightarrow> string \<Rightarrow> int \<Rightarrow> approvals \<Rightarrow> bool \<times> approvals" where
  "armApproval timeoutSeconds i now st =
     (case map_of (ap_pending st) i of
        None \<Rightarrow> (False, st)
      | Some e \<Rightarrow>
          if ae_timer e \<noteq> None then (False, st)
          else
            let due = now + timeoutSeconds * 1000;
                e' = e\<lparr>ae_unseen := None, ae_timer := Some due,
                       ae_request := (ae_request e)\<lparr>rq_deadlineAt := Some due\<rparr>\<rparr>
            in (True, st\<lparr>ap_pending := AList.update i e' (ap_pending st)\<rparr>))"

definition arm_one :: "int \<Rightarrow> int \<Rightarrow> string \<Rightarrow> nat \<times> approvals \<Rightarrow> nat \<times> approvals" where
  "arm_one timeoutSeconds now i acc =
     (let (armed, st) = armApproval timeoutSeconds i now (snd acc)
      in (if armed then Suc (fst acc) else fst acc, st))"

definition armAllPendingApprovals :: "int \<Rightarrow> int \<Rightarrow> approvals \<Rightarrow> nat \<times> approvals" where
  "armAllPendingApprovals timeoutSeconds now st =
     fold (arm_one timeoutSeconds now) (map fst (ap_pending st)) (0, st)"

definition respondToApproval :: "string \<Rightarrow> bool \<Rightarrow> bool \<Rightarrow> int \<Rightarrow> approvals \<Rightarrow> bool \<times> approvals" where
  "respondToApproval i approve sessionScope now st =
     (if map_of (ap_pending st) i = None then (False, st)
      else (True, finish i (if approve then FinApproved else FinDenied)
                    (if sessionScope then ScopeSession else ScopeOnce) now st))"

definition extension_grant :: "rat \<Rightarrow> int \<Rightarrow> int" where
  "extension_grant seconds extended =
     min (min \<lfloor>seconds\<rfloor> EXTENSION_MAX_PER_CALL_SECONDS) (EXTENSION_CEILING_SECONDS - extended)"

definition extendApproval :: "string \<Rightarrow> jsnum \<Rightarrow> int \<Rightarrow> approvals \<Rightarrow> bool \<times> approvals" where
  "extendApproval i seconds now st =
     (case map_of (ap_pending st) i of
        None \<Rightarrow> (False, st)
      | Some e \<Rightarrow>
          if ae_timer e = None then (False, st)
          else (case seconds of
              Fin s \<Rightarrow>
                if s \<le> 0 then (False, st)
                else
                  let grant = extension_grant s (ae_extended e) in
                  if grant \<le> 0 then (False, st)
                  else
                    let start = (case rq_deadlineAt (ae_request e) of
                                   None \<Rightarrow> now | Some standing \<Rightarrow> max standing now);
                        deadline = start + grant * 1000;
                        e' = e\<lparr>ae_extended := ae_extended e + grant, ae_timer := Some deadline,
                               ae_request := (ae_request e)\<lparr>rq_deadlineAt := Some deadline\<rparr>\<rparr>
                    in (True, st\<lparr>ap_pending := AList.update i e' (ap_pending st)\<rparr>)
            | _ \<Rightarrow> (False, st)))"

text \<open>A timer callback; it runs only once it is due.\<close>

definition timer_due :: "appr_entry \<Rightarrow> int \<Rightarrow> bool" where
  "timer_due e now =
     ((case ae_timer e of Some d \<Rightarrow> d \<le> now | None \<Rightarrow> False)
      \<or> (case ae_unseen e of Some d \<Rightarrow> d \<le> now | None \<Rightarrow> False))"

definition timer_fires :: "string \<Rightarrow> int \<Rightarrow> approvals \<Rightarrow> approvals" where
  "timer_fires i now st =
     (case map_of (ap_pending st) i of
        None \<Rightarrow> st
      | Some e \<Rightarrow> if timer_due e now then finish i FinTimeout ScopeOnce now st else st)"

definition deny_ids :: "string list \<Rightarrow> int \<Rightarrow> approvals \<Rightarrow> approvals" where
  "deny_ids ids now st = fold (\<lambda>i. finish i FinDenied ScopeOnce now) ids st"

definition denyPendingForSession :: "string \<Rightarrow> int \<Rightarrow> approvals \<Rightarrow> nat \<times> approvals" where
  "denyPendingForSession sid now st =
     (let ids = map fst (filter (\<lambda>(i, e). rq_sessionId (ae_request e) = sid) (ap_pending st))
      in (length ids, deny_ids ids now st))"

definition denyAllPending :: "int \<Rightarrow> approvals \<Rightarrow> nat \<times> approvals" where
  "denyAllPending now st =
     (let ids = map fst (ap_pending st) in (length ids, deny_ids ids now st))"

definition listPendingApprovals :: "approvals \<Rightarrow> ApprovalRequest list" where
  "listPendingApprovals st = map (ae_request \<circ> snd) (ap_pending st)"

end
