(* ===== verification/Approvals_Laws.thy ===== *)
theory Approvals_Laws
  imports Approvals
begin

section \<open>Laws of the approval queue\<close>

text \<open>
  The reachable states of \<open>Approvals\<close> under any interleaving of its operations, and the
  invariant they keep: at most three questions per session and class, one fuse per
  question, extensions under the ceiling, an answer at most once, nothing of a file's
  content kept after the answer. Then the rationing laws: what a denial and a withdrawal
  refuse, and that neither reaches a containment request.
\<close>

subsection \<open>Reachable states\<close>

definition used_ids :: "approvals \<Rightarrow> string set" where
  "used_ids st = fst ` set (ap_pending st) \<union> fst ` set (ap_answers st)"

inductive appr_step :: "int \<Rightarrow> approvals \<Rightarrow> approvals \<Rightarrow> bool" where
  ask: "i \<notin> used_ids st \<Longrightarrow> appr_step now st (snd (requestApproval input i now st))"
| probe: "appr_step now st (snd (wouldRefuse input now st))"
| arm: "appr_step now st (snd (armApproval timeoutSeconds i now st))"
| arm_all: "appr_step now st (snd (armAllPendingApprovals timeoutSeconds now st))"
| respond: "appr_step now st (snd (respondToApproval i approve sessionScope now st))"
| extend: "appr_step now st (snd (extendApproval i seconds now st))"
| abort: "appr_step now st (signal_aborts i now st)"
| fire: "appr_step now st (timer_fires i now st)"
| deny_session: "appr_step now st (snd (denyPendingForSession sid now st))"
| deny_all: "appr_step now st (snd (denyAllPending now st))"

inductive appr_reach :: "int \<Rightarrow> approvals \<Rightarrow> bool" where
  start: "appr_reach t no_approvals"
| step: "appr_reach t st \<Longrightarrow> t \<le> now \<Longrightarrow> appr_step now st st' \<Longrightarrow> appr_reach now st'"

definition entry_ok :: "string \<Rightarrow> appr_entry \<Rightarrow> bool" where
  "entry_ok i e =
     (rq_id (ae_request e) = i \<and> rq_status (ae_request e) = StPending
      \<and> (ae_timer e = None \<longleftrightarrow> ae_unseen e \<noteq> None) \<and> ae_timer e = rq_deadlineAt (ae_request e)
      \<and> 0 \<le> ae_extended e \<and> ae_extended e \<le> EXTENSION_CEILING_SECONDS
      \<and> (\<exists>input. ae_subject e = subjectKey input \<and> ae_containment e = asks_containment input))"

definition resolved_ok :: "ApprovalRequest \<Rightarrow> bool" where
  "resolved_ok rq = (rq_status rq \<noteq> StPending \<and> rq_contentPreview rq = None \<and> rq_resolvedAt rq \<noteq> None)"

definition pending_ok :: "(string, appr_entry) jsmap \<Rightarrow> bool" where
  "pending_ok p = (jsmap_wf p \<and> (\<forall>(i, e) \<in> set p. entry_ok i e)
     \<and> (\<forall>sid c. live_of p sid c \<le> MAX_PENDING_PER_SESSION))"

definition appr_inv :: "approvals \<Rightarrow> bool" where
  "appr_inv st =
     (pending_ok (ap_pending st)
      \<and> length (ap_recent st) \<le> RECENT_MAX \<and> (\<forall>rq \<in> set (ap_recent st). resolved_ok rq)
      \<and> distinct (map fst (ap_answers st))
      \<and> fst ` set (ap_answers st) \<inter> fst ` set (ap_pending st) = {})"

subsection \<open>The pending map\<close>

lemma live_of_update_le:
  "live_of (AList.update i e p) sid c
     \<le> live_of p sid c + (if rq_sessionId (ae_request e) = sid \<and> ae_containment e = c then 1 else 0)"
  using length_filter_update_le [of "\<lambda>(i, e). rq_sessionId (ae_request e) = sid \<and> ae_containment e = c" i e p]
  by (simp add: live_of_def)

lemma live_of_replace:
  "map_of p i = Some e \<Longrightarrow> rq_sessionId (ae_request e') = rq_sessionId (ae_request e) \<Longrightarrow>
   ae_containment e' = ae_containment e \<Longrightarrow> live_of (AList.update i e' p) sid c = live_of p sid c"
  by (induction p) (auto simp: live_of_def split: if_splits)

lemma live_of_delete_le: "live_of (AList.delete i p) sid c \<le> live_of p sid c"
  unfolding live_of_def by (rule length_filter_delete_le)

lemma pending_ok_replace:
  assumes "pending_ok p" "map_of p i = Some e" "entry_ok i e'"
    "rq_sessionId (ae_request e') = rq_sessionId (ae_request e)" "ae_containment e' = ae_containment e"
  shows "pending_ok (AList.update i e' p)"
  using assms set_alist_update_subset [of i e' p] live_of_replace [OF assms(2,4,5)]
  by (auto simp: pending_ok_def)

lemma set_alist_delete: "set (AList.delete i p) \<subseteq> set p"
  by (auto simp: AList.delete_eq)

lemma keys_alist_delete: "fst ` set (AList.delete i p) = fst ` set p - {i}"
  by (auto simp: AList.delete_eq image_iff)

lemma pending_ok_delete: "pending_ok p \<Longrightarrow> pending_ok (AList.delete i p)"
  unfolding pending_ok_def
proof (intro conjI allI)
  fix sid c
  assume "jsmap_wf p \<and> (\<forall>(i, e) \<in> set p. entry_ok i e) \<and> (\<forall>sid c. live_of p sid c \<le> MAX_PENDING_PER_SESSION)"
  then show "live_of (AList.delete i p) sid c \<le> MAX_PENDING_PER_SESSION"
    using live_of_delete_le [of i p sid c] by (meson le_trans)
qed (use set_alist_delete [of i p] in auto)

lemma pending_ok_new:
  assumes "pending_ok p" "entry_ok i e"
    "live_of p (rq_sessionId (ae_request e)) (ae_containment e) < MAX_PENDING_PER_SESSION"
  shows "pending_ok (AList.update i e p)"
proof -
  have "live_of (AList.update i e p) sid c \<le> MAX_PENDING_PER_SESSION" for sid c
  proof (cases "rq_sessionId (ae_request e) = sid \<and> ae_containment e = c")
    case True
    with live_of_update_le [of i e p sid c] assms(3) show ?thesis by auto
  next
    case False
    have "live_of p sid c \<le> MAX_PENDING_PER_SESSION" using assms(1) by (simp add: pending_ok_def)
    with live_of_update_le [of i e p sid c] False show ?thesis by simp
  qed
  with assms(1,2) set_alist_update_subset [of i e p] show ?thesis
    by (auto simp: pending_ok_def)
qed

subsection \<open>Every operation keeps the invariant\<close>

lemma finish_keeps [keeps]: "appr_inv st \<Longrightarrow> appr_inv (finish i d sc now st)"
proof (cases "map_of (ap_pending st) i")
  case (Some e)
  assume inv: "appr_inv st"
  have "i \<in> fst ` set (ap_pending st)" using map_of_Some_in [OF Some] by force
  moreover have "resolved_ok (resolve_request (ae_request e) d s now)" for s
    by (cases d) (simp_all add: resolved_ok_def resolve_request_def)
  ultimately show ?thesis
    using inv pending_ok_delete [of "ap_pending st" i]
    by (auto simp: appr_inv_def finish_def Some Let_def keys_alist_delete RECENT_MAX_def
        dest!: in_set_takeD)
qed (simp add: finish_def)

lemma refusal_pending [simp]:
  "ap_pending (snd (refusal input now st)) = ap_pending st"
  "ap_recent (snd (refusal input now st)) = ap_recent st"
  "ap_answers (snd (refusal input now st)) = ap_answers st"
  by (simp_all add: refusal_def Let_def)

lemma refusal_keeps [keeps]: "appr_inv st \<Longrightarrow> appr_inv (snd (refusal input now st))"
  by (simp add: appr_inv_def)

lemma refusal_None_live:
  "fst (refusal input now st) = None \<Longrightarrow>
   live_of (ap_pending st) (ci_sessionId input) (asks_containment input) < MAX_PENDING_PER_SESSION"
  by (auto simp: refusal_def Let_def split: if_splits)

lemma new_entry_ok: "entry_ok i (new_entry input i now)"
  by (auto simp: entry_ok_def new_entry_def EXTENSION_CEILING_SECONDS_def)

lemma requestApproval_keeps [keeps]:
  assumes "appr_inv st" "i \<notin> used_ids st"
  shows "appr_inv (snd (requestApproval input i now st))"
proof (cases "fst (refusal input now st)")
  case None
  let ?st = "snd (refusal input now st)"
  let ?p = "AList.update i (new_entry input i now) (ap_pending st)"
  have "pending_ok ?p"
    using assms(1) refusal_None_live [OF None]
    by (intro pending_ok_new new_entry_ok) (auto simp: appr_inv_def new_entry_def)
  then have "appr_inv (?st\<lparr>ap_pending := ?p\<rparr>)"
    using assms by (auto simp: appr_inv_def keys_alist_update used_ids_def)
  then show ?thesis
    using None by (auto simp: requestApproval_def split_def Let_def intro: finish_keeps)
next
  case (Some d)
  then show ?thesis
    using refusal_keeps [OF assms(1)] by (simp add: requestApproval_def split_def Let_def)
qed

lemma replace_keeps:
  assumes "appr_inv st" "map_of (ap_pending st) i = Some e" "entry_ok i e'"
    "rq_sessionId (ae_request e') = rq_sessionId (ae_request e)" "ae_containment e' = ae_containment e"
  shows "appr_inv (st\<lparr>ap_pending := AList.update i e' (ap_pending st)\<rparr>)"
proof -
  have "i \<in> fst ` set (ap_pending st)" using map_of_Some_in [OF assms(2)] by force
  then show ?thesis
    using assms pending_ok_replace [of "ap_pending st" i e e']
    by (auto simp: appr_inv_def keys_alist_update)
qed

lemma entry_ok_of: "appr_inv st \<Longrightarrow> map_of (ap_pending st) i = Some e \<Longrightarrow> entry_ok i e"
  by (auto simp: appr_inv_def pending_ok_def dest: map_of_Some_in)

lemma armApproval_keeps [keeps]: "appr_inv st \<Longrightarrow> appr_inv (snd (armApproval secs i now st))"
proof (cases "map_of (ap_pending st) i")
  case (Some e)
  assume inv: "appr_inv st"
  let ?due = "now + secs * 1000"
  let ?e = "e\<lparr>ae_unseen := None, ae_timer := Some ?due, ae_request := (ae_request e)\<lparr>rq_deadlineAt := Some ?due\<rparr>\<rparr>"
  have "entry_ok i ?e" using entry_ok_of [OF inv Some] by (simp add: entry_ok_def)
  from replace_keeps [OF inv Some this] show ?thesis
    using inv by (simp add: armApproval_def Some Let_def)
qed (simp add: armApproval_def)

lemma armAll_keeps [keeps]: "appr_inv st \<Longrightarrow> appr_inv (snd (armAllPendingApprovals secs now st))"
proof -
  have "appr_inv (snd acc) \<Longrightarrow> appr_inv (snd (fold (arm_one secs now) ids acc))" for ids acc
  proof (induction ids arbitrary: acc)
    case (Cons j ids)
    have "appr_inv (snd (arm_one secs now j acc))"
      using armApproval_keeps [OF Cons.prems] by (simp add: arm_one_def split_def Let_def)
    from Cons.IH [OF this] show ?case by simp
  qed simp
  then show "appr_inv st \<Longrightarrow> ?thesis" by (simp add: armAllPendingApprovals_def)
qed

lemma extendApproval_keeps [keeps]: "appr_inv st \<Longrightarrow> appr_inv (snd (extendApproval i secs now st))"
proof (cases "map_of (ap_pending st) i")
  case (Some e)
  assume inv: "appr_inv st"
  show ?thesis
  proof (cases "\<exists>s. secs = Fin s \<and> 0 < extension_grant s (ae_extended e) \<and> ae_timer e \<noteq> None \<and> 0 < s")
    case True
    then obtain s where s: "secs = Fin s" "0 < extension_grant s (ae_extended e)" "ae_timer e \<noteq> None" "0 < s"
      by blast
    define g where "g = extension_grant s (ae_extended e)"
    have g: "0 < g" "ae_extended e + g \<le> EXTENSION_CEILING_SECONDS"
      using s(2) by (simp_all add: g_def extension_grant_def)
    define due where "due = (case rq_deadlineAt (ae_request e) of None \<Rightarrow> now | Some d \<Rightarrow> max d now) + g * 1000"
    have "entry_ok i (e\<lparr>ae_extended := ae_extended e + g, ae_timer := Some due,
        ae_request := (ae_request e)\<lparr>rq_deadlineAt := Some due\<rparr>\<rparr>)"
      using entry_ok_of [OF inv Some] g s(3) by (simp add: entry_ok_def)
    from replace_keeps [OF inv Some this] show ?thesis
      using s g(1) inv by (simp add: extendApproval_def Some Let_def g_def due_def)
  next
    case False
    with inv show ?thesis by (cases secs) (auto simp: extendApproval_def Some Let_def not_less)
  qed
qed (simp add: extendApproval_def)

lemma deny_ids_keeps [keeps]: "appr_inv st \<Longrightarrow> appr_inv (deny_ids ids now st)"
  unfolding deny_ids_def by (induction ids arbitrary: st) (auto intro: finish_keeps)

lemma appr_step_keeps: "appr_step now st st' \<Longrightarrow> appr_inv st \<Longrightarrow> appr_inv st'"
proof (induction rule: appr_step.induct)
  case (fire now st i)
  then show ?case by (auto simp: timer_fires_def intro: finish_keeps split: option.splits)
qed (auto simp: wouldRefuse_def respondToApproval_def signal_aborts_def denyPendingForSession_def
       denyAllPending_def Let_def intro: keeps)

lemma appr_reach_inv: "appr_reach t st \<Longrightarrow> appr_inv st"
proof (induction rule: appr_reach.induct)
  case start
  show ?case by (simp add: appr_inv_def pending_ok_def no_approvals_def live_of_def)
qed (rule appr_step_keeps)

subsection \<open>Fuses\<close>

lemma timer_fires_due:
  assumes "map_of (ap_pending st) i = Some e" "timer_due e now"
  shows "(i, TimedOut) \<in> set (ap_answers (timer_fires i now st))
    \<and> i \<notin> fst ` set (ap_pending (timer_fires i now st))"
  using assms by (simp add: timer_fires_def finish_def Let_def keys_alist_delete)

definition extend_calls :: "string \<Rightarrow> (jsnum \<times> int) list \<Rightarrow> approvals \<Rightarrow> approvals" where
  "extend_calls i calls st = fold (\<lambda>(seconds, now) st. snd (extendApproval i seconds now st)) calls st"

lemma extend_one:
  assumes "map_of (ap_pending st) i = Some e" "ae_timer e = Some d" "rq_deadlineAt (ae_request e) = Some d"
    "now \<le> d" "0 \<le> ae_extended e" "ae_extended e \<le> EXTENSION_CEILING_SECONDS"
  shows "\<exists>e' g. map_of (ap_pending (snd (extendApproval i s now st))) i = Some e' \<and> 0 \<le> g
    \<and> g \<le> EXTENSION_MAX_PER_CALL_SECONDS
    \<and> ae_timer e' = Some (d + g * 1000) \<and> rq_deadlineAt (ae_request e') = Some (d + g * 1000)
    \<and> ae_extended e' = ae_extended e + g \<and> ae_extended e' \<le> EXTENSION_CEILING_SECONDS"
proof (cases "\<exists>r. s = Fin r \<and> 0 < r \<and> 0 < extension_grant r (ae_extended e)")
  case True
  then obtain r where r: "s = Fin r" "0 < r" "0 < extension_grant r (ae_extended e)" by blast
  let ?g = "extension_grant r (ae_extended e)"
  have "?g \<le> EXTENSION_MAX_PER_CALL_SECONDS" "ae_extended e + ?g \<le> EXTENSION_CEILING_SECONDS"
    by (simp_all add: extension_grant_def)
  with r assms show ?thesis
    by (intro exI [of _ "e\<lparr>ae_extended := ae_extended e + ?g, ae_timer := Some (d + ?g * 1000),
          ae_request := (ae_request e)\<lparr>rq_deadlineAt := Some (d + ?g * 1000)\<rparr>\<rparr>"] exI [of _ ?g])
       (simp add: extendApproval_def Let_def map_of_update_eq max_def)
next
  case False
  then have "snd (extendApproval i s now st) = st"
    using assms(1,2) by (cases s) (auto simp: extendApproval_def Let_def)
  with assms show ?thesis
    by (intro exI [of _ e] exI [of _ 0]) (simp add: EXTENSION_MAX_PER_CALL_SECONDS_def)
qed

lemma extend_calls_bound:
  assumes "map_of (ap_pending st) i = Some e" "ae_timer e = Some d" "rq_deadlineAt (ae_request e) = Some d"
    "\<forall>(s, now) \<in> set calls. now \<le> d" "0 \<le> ae_extended e" "ae_extended e \<le> EXTENSION_CEILING_SECONDS"
  shows "\<exists>e'. map_of (ap_pending (extend_calls i calls st)) i = Some e'
    \<and> ae_timer e' = Some (d + (ae_extended e' - ae_extended e) * 1000)
    \<and> ae_extended e \<le> ae_extended e' \<and> ae_extended e' \<le> EXTENSION_CEILING_SECONDS"
  using assms
proof (induction calls arbitrary: st e d)
  case Nil
  then show ?case by (simp add: extend_calls_def)
next
  case (Cons c calls)
  obtain s now where c: "c = (s, now)" by (cases c)
  from Cons.prems c have "now \<le> d" by simp
  from extend_one [OF Cons.prems(1-3) this Cons.prems(5,6), of s] obtain e1 g where e1:
    "map_of (ap_pending (snd (extendApproval i s now st))) i = Some e1" "0 \<le> g"
    "ae_timer e1 = Some (d + g * 1000)" "rq_deadlineAt (ae_request e1) = Some (d + g * 1000)"
    "ae_extended e1 = ae_extended e + g" "ae_extended e1 \<le> EXTENSION_CEILING_SECONDS"
    by blast
  have "\<forall>(s, now) \<in> set calls. now \<le> d + g * 1000" using Cons.prems(4) e1(2) by fastforce
  from Cons.IH [OF e1(1,3,4) this] Cons.prems(5) e1(2,5,6) obtain e' where
    "map_of (ap_pending (extend_calls i calls (snd (extendApproval i s now st)))) i = Some e'"
    "ae_timer e' = Some (d + g * 1000 + (ae_extended e' - ae_extended e1) * 1000)"
    "ae_extended e1 \<le> ae_extended e'" "ae_extended e' \<le> EXTENSION_CEILING_SECONDS"
    by auto
  with e1(2,5) show ?case
    by (intro exI [of _ e']) (simp add: extend_calls_def c algebra_simps)
qed

subsection \<open>Rationing\<close>

lemma map_of_filter_key:
  "jsmap_wf m \<Longrightarrow> map_of (filter (\<lambda>(k, v). P v) m) k =
     (case map_of m k of Some v \<Rightarrow> if P v then Some v else None | None \<Rightarrow> None)"
  by (induction m) (auto split: option.splits if_splits dest: weak_map_of_SomeI simp: image_iff map_of_eq_None_iff)

text \<open>What decides a refusal, read off the three maps.\<close>

definition cooling :: "CreateApprovalInput \<Rightarrow> int \<Rightarrow> approvals \<Rightarrow> bool" where
  "cooling input now st =
     (\<exists>x. (subjectKey input, x) \<in> set (ap_denials st) \<and> now < x)"

definition recent_withdrawals :: "string \<Rightarrow> int \<Rightarrow> approvals \<Rightarrow> nat" where
  "recent_withdrawals sid now st =
     length (filter (\<lambda>t. t > now - WITHDRAWAL_WINDOW_MS) (nullish (map_of (ap_withdrawals st) sid) []))"

lemma cooling_iff:
  assumes "0 \<le> now" "jsmap_wf (ap_denials st)"
  shows "nullish (map_of (filter (\<lambda>(k, e). \<not> e \<le> now) (ap_denials st)) (subjectKey input)) 0 > now
     \<longleftrightarrow> cooling input now st"
proof -
  have "cooling input now st \<longleftrightarrow> (\<exists>x. map_of (ap_denials st) (subjectKey input) = Some x \<and> now < x)"
    using assms(2) by (simp add: cooling_def)
  moreover have "map_of (filter (\<lambda>(k, e). \<not> e \<le> now) (ap_denials st)) (subjectKey input)
      = (case map_of (ap_denials st) (subjectKey input) of
           Some v \<Rightarrow> if \<not> v \<le> now then Some v else None | None \<Rightarrow> None)"
    using map_of_filter_key [OF assms(2), of "\<lambda>e. \<not> e \<le> now"] by simp
  ultimately show ?thesis
    using assms(1)
    by (cases "map_of (ap_denials st) (subjectKey input)") (simp_all del: map_of_eq_Some_iff)
qed

lemma refusal_characterised:
  assumes "0 \<le> now" "jsmap_wf (ap_denials st)"
  shows "fst (refusal input now st) =
     (if cooling input now st then Some RefusedVolume
      else if MAX_WITHDRAWALS_PER_WINDOW \<le> recent_withdrawals (ci_sessionId input) now st
              \<and> \<not> asks_containment input then Some RefusedWithdrawn
      else if MAX_PENDING_PER_SESSION \<le> live_of (ap_pending st) (ci_sessionId input) (asks_containment input)
        then Some RefusedVolume
      else None)"
  using cooling_iff [OF assms, of input]
  by (simp add: refusal_def Let_def recent_withdrawals_def asks_containment_def)

lemma subjectKey_class:
  "subjectKey input = subjectKey input' \<Longrightarrow> asks_containment input = asks_containment input'"
proof -
  assume eq: "subjectKey input = subjectKey input'"
  have n: "rev (subjectKey i) ! 1 = (if asks_containment i then CHR ''o'' else CHR ''r'')" for i
    by (simp add: subjectKey_def)
  from n [of input] n [of input'] eq
  have "(if asks_containment input then CHR ''o'' else CHR ''r'')
      = (if asks_containment input' then CHR ''o'' else CHR ''r'')" by (simp only:)
  then show ?thesis by (simp split: if_splits)
qed

lemma denials_wf: "appr_reach t st \<Longrightarrow> jsmap_wf (ap_denials st)"
proof (induction rule: appr_reach.induct)
  case start
  show ?case by (simp add: no_approvals_def)
next
  case (step t st now st')
  have fin: "jsmap_wf (ap_denials st) \<Longrightarrow> jsmap_wf (ap_denials (finish i d sc tm st))" for i d sc tm st
    by (auto simp: finish_def Let_def split: option.splits)
  have ref: "jsmap_wf (ap_denials st) \<Longrightarrow> jsmap_wf (ap_denials (snd (refusal input tm st)))" for input tm st
    by (auto simp: refusal_def Let_def distinct_map_filter)
  have armd: "ap_denials (snd (armApproval secs i tm st)) = ap_denials st" for secs i tm st
    by (auto simp: armApproval_def Let_def split: option.splits)
  have armf: "ap_denials (snd (fold (arm_one secs tm) ids acc)) = ap_denials (snd acc)" for secs tm ids acc
    by (induction ids arbitrary: acc) (simp_all add: arm_one_def split_def Let_def armd)
  have deny: "jsmap_wf (ap_denials st) \<Longrightarrow> jsmap_wf (ap_denials (deny_ids ids tm st))" for ids tm st
    unfolding deny_ids_def by (induction ids arbitrary: st) (auto intro: fin)
  from step(3,4) show ?case
  proof (induction rule: appr_step.induct)
    case (ask i st now input)
    then show ?case
      using ref [of st input now] by (auto simp: requestApproval_def split_def Let_def intro: fin)
  next
    case (extend now st i seconds)
    then show ?case
      by (auto simp: extendApproval_def Let_def split: option.splits jsnum.splits)
  qed (auto simp: wouldRefuse_def respondToApproval_def signal_aborts_def denyPendingForSession_def
         denyAllPending_def armAllPendingApprovals_def Let_def armd armf timer_fires_def
         intro: ref fin deny split: option.splits)
qed

lemma finish_denials:
  "map_of (ap_denials (finish i d sc now st)) =
     (case map_of (ap_pending st) i of
        None \<Rightarrow> map_of (ap_denials st)
      | Some e \<Rightarrow> if d = FinDenied then (map_of (ap_denials st))(ae_subject e \<mapsto> now + DENY_COOLDOWN_MS)
                  else map_of (ap_denials st))"
  by (auto simp: finish_def Let_def map_of_update_eq split: option.splits)

lemma finish_denials_wf: "jsmap_wf (ap_denials st) \<Longrightarrow> jsmap_wf (ap_denials (finish i d sc now st))"
  by (auto simp: finish_def Let_def split: option.splits)

lemma cooling_map_of:
  "jsmap_wf (ap_denials st) \<Longrightarrow>
   cooling input now st \<longleftrightarrow> (\<exists>x. map_of (ap_denials st) (subjectKey input) = Some x \<and> now < x)"
  by (simp add: cooling_def)

lemma entry_class:
  assumes "appr_reach t st" "map_of (ap_pending st) i = Some e" "\<not> ae_containment e" "asks_containment input"
  shows "ae_subject e \<noteq> subjectKey input"
proof -
  from entry_ok_of [OF appr_reach_inv [OF assms(1)] assms(2)] obtain asked where
    "ae_subject e = subjectKey asked" "ae_containment e = asks_containment asked"
    by (auto simp: entry_ok_def)
  with assms(3,4) show ?thesis using subjectKey_class by metis
qed

lemma live_of_finish_le: "live_of (ap_pending (finish i d sc now st)) sid c \<le> live_of (ap_pending st) sid c"
  using live_of_delete_le [of i "ap_pending st" sid c]
  by (auto simp: finish_def Let_def split: option.splits)

subsection \<open>Properties\<close>

text \<open>C20:
  In every reachable state of the queue, under any interleaving of requests, answers,
  extensions, aborts, timers and mass denials: a session never has more than three open
  questions of one class; every open question is unanswered, runs exactly one fuse and has
  been granted at most fifteen minutes; no question is answered twice, and an answered one
  is no longer open; the memory of resolved requests holds at most twenty and keeps no
  file content.\<close>

theorem approval_queue_invariant:
  assumes "appr_reach t st"
  shows "live_of (ap_pending st) sid c \<le> 3
    \<and> (\<forall>(i, e) \<in> set (ap_pending st). rq_status (ae_request e) = StPending
         \<and> (ae_timer e = None \<longleftrightarrow> ae_unseen e \<noteq> None) \<and> 0 \<le> ae_extended e \<and> ae_extended e \<le> 900)
    \<and> distinct (map fst (ap_answers st))
    \<and> (\<forall>i \<in> fst ` set (ap_answers st). map_of (ap_pending st) i = None)
    \<and> length (ap_recent st) \<le> 20
    \<and> (\<forall>rq \<in> set (ap_recent st). rq_status rq \<noteq> StPending \<and> rq_contentPreview rq = None)"
proof -
  have inv: "appr_inv st" by (rule appr_reach_inv [OF assms])
  then have "live_of (ap_pending st) sid c \<le> 3" "distinct (map fst (ap_answers st))" "length (ap_recent st) \<le> 20"
    by (simp_all add: appr_inv_def pending_ok_def MAX_PENDING_PER_SESSION_def RECENT_MAX_def)
  moreover have "\<forall>(i, e) \<in> set (ap_pending st). rq_status (ae_request e) = StPending
      \<and> (ae_timer e = None \<longleftrightarrow> ae_unseen e \<noteq> None) \<and> 0 \<le> ae_extended e \<and> ae_extended e \<le> 900"
    using inv unfolding appr_inv_def pending_ok_def entry_ok_def EXTENSION_CEILING_SECONDS_def by auto
  moreover have "\<forall>i \<in> fst ` set (ap_answers st). map_of (ap_pending st) i = None"
    using inv unfolding appr_inv_def by (simp add: map_of_eq_None_iff disjoint_iff)
  moreover have "\<forall>rq \<in> set (ap_recent st). rq_status rq \<noteq> StPending \<and> rq_contentPreview rq = None"
    using inv by (simp add: appr_inv_def resolved_ok_def)
  ultimately show ?thesis by blast
qed

definition sample_input :: "bool \<Rightarrow> CreateApprovalInput" where
  "sample_input cont =
     \<lparr>ci_sessionId = ''s1'', ci_workspaceId = ''w1'', ci_serverId = Some ''h1'', ci_capability = ''ciTrigger'',
      ci_containment = Some cont, ci_sessionGrant = None, ci_preview = Some ''text'', ci_aborted = False\<rparr>"

definition sample_queue :: approvals where
  "sample_queue = snd (requestApproval (sample_input False) ''a1'' 1000 no_approvals)"

lemma sample_queue_reach: "appr_reach 1000 sample_queue"
  unfolding sample_queue_def
  by (rule appr_reach.step [OF appr_reach.start order_refl [of 1000]], rule appr_step.ask)
     (simp add: used_ids_def no_approvals_def)

theorem approval_queue_invariant_witness: "live_of (ap_pending sample_queue) ''s1'' False \<le> 3"
  using approval_queue_invariant [OF sample_queue_reach] by blast

text \<open>C22:
  No agent waits forever: every open question has a fuse, armed or not, and when that fuse
  is due its callback answers the question with a timeout and closes it.\<close>

theorem open_question_times_out:
  assumes "appr_reach t st" "map_of (ap_pending st) i = Some e"
  shows "\<exists>due. (ae_timer e = Some due \<or> ae_unseen e = Some due)
    \<and> (\<forall>now \<ge> due. (i, TimedOut) \<in> set (ap_answers (timer_fires i now st))
         \<and> map_of (ap_pending (timer_fires i now st)) i = None)"
proof -
  from entry_ok_of [OF appr_reach_inv [OF assms(1)] assms(2)]
  obtain due where due: "ae_timer e = Some due \<or> ae_unseen e = Some due"
    by (cases "ae_timer e") (auto simp: entry_ok_def)
  then have "timer_due e now" if "due \<le> now" for now
    using that by (auto simp: timer_due_def)
  with timer_fires_due [OF assms(2)] due show ?thesis by (auto simp: map_of_eq_None_iff)
qed

lemma sample_queue_pending:
  "map_of (ap_pending sample_queue) ''a1'' = Some (new_entry (sample_input False) ''a1'' 1000)"
  by (simp add: sample_queue_def requestApproval_def refusal_def no_approvals_def sample_input_def
      live_of_def MAX_PENDING_PER_SESSION_def MAX_WITHDRAWALS_PER_WINDOW_def Let_def)

theorem open_question_times_out_witness:
  "\<exists>due. \<forall>now \<ge> due. (''a1'', TimedOut) \<in> set (ap_answers (timer_fires ''a1'' now sample_queue))"
  using open_question_times_out [OF sample_queue_reach sample_queue_pending] by blast

text \<open>
  The fuse cannot be pushed back forever. Once a question is armed with deadline \<open>d\<close>,
  any number of extensions asked for before that deadline, for any values at all, moves
  the deadline by exactly the seconds granted, and never past \<open>d\<close> plus the fifteen
  minutes of the ceiling.\<close>

theorem extensions_stay_under_the_ceiling:
  assumes "appr_reach t st" "map_of (ap_pending st) i = Some e" "ae_timer e = Some d"
    "\<forall>(seconds, now) \<in> set calls. now \<le> d"
  shows "\<exists>e'. map_of (ap_pending (extend_calls i calls st)) i = Some e'
    \<and> ae_timer e' = Some (d + (ae_extended e' - ae_extended e) * 1000)
    \<and> (\<forall>d'. ae_timer e' = Some d' \<longrightarrow> d \<le> d' \<and> d' \<le> d + 900000)"
proof -
  have ok: "entry_ok i e" by (rule entry_ok_of [OF appr_reach_inv [OF assms(1)] assms(2)])
  then have "rq_deadlineAt (ae_request e) = Some d" "0 \<le> ae_extended e"
    "ae_extended e \<le> EXTENSION_CEILING_SECONDS"
    using assms(3) by (auto simp: entry_ok_def)
  from extend_calls_bound [OF assms(2,3) this(1) assms(4) this(2,3)] obtain e' where
    "map_of (ap_pending (extend_calls i calls st)) i = Some e'"
    "ae_timer e' = Some (d + (ae_extended e' - ae_extended e) * 1000)"
    "ae_extended e \<le> ae_extended e'" "ae_extended e' \<le> EXTENSION_CEILING_SECONDS" by blast
  with \<open>0 \<le> ae_extended e\<close> show ?thesis
    by (intro exI [of _ e']) (auto simp: EXTENSION_CEILING_SECONDS_def)
qed

theorem extensions_stay_under_the_ceiling_witness:
  "\<exists>e'. map_of (ap_pending (extend_calls ''a1'' [(Fin 700, 2000), (NaN, 2000), (Fin 700, 3000)]
      (snd (armApproval 120 ''a1'' 1500 sample_queue)))) ''a1'' = Some e'"
proof -
  let ?st = "snd (armApproval 120 ''a1'' 1500 sample_queue)"
  have r: "appr_reach 1500 ?st"
    by (rule appr_reach.step [OF sample_queue_reach]) (auto intro: appr_step.arm)
  have "map_of (ap_pending ?st) ''a1''
      = Some ((new_entry (sample_input False) ''a1'' 1000)
          \<lparr>ae_unseen := None, ae_timer := Some 121500,
           ae_request := (ae_request (new_entry (sample_input False) ''a1'' 1000))\<lparr>rq_deadlineAt := Some 121500\<rparr>\<rparr>)"
    by (simp add: armApproval_def sample_queue_pending Let_def map_of_update_eq new_entry_def)
  from extensions_stay_under_the_ceiling [OF r this, of 121500 "[(Fin 700, 2000), (NaN, 2000), (Fin 700, 3000)]"]
  show ?thesis by auto
qed

text \<open>C21:
  Saying no to a start never disables the stop button. When a question that is not a
  containment request is answered in any way at all, a containment request that would have
  been asked before is still asked afterwards, at the same or any later time.\<close>

theorem answering_a_start_never_blocks_a_stop:
  assumes "appr_reach t st" "0 \<le> now" "now \<le> later"
    "map_of (ap_pending st) i = Some e" "\<not> ae_containment e" "asks_containment input"
    "fst (refusal input now st) = None"
  shows "fst (refusal input later (finish i decision scope now st)) = None"
proof -
  have wf: "jsmap_wf (ap_denials st)" by (rule denials_wf [OF assms(1)])
  have "ae_subject e \<noteq> subjectKey input" by (rule entry_class [OF assms(1,4,5,6)])
  then have "\<not> cooling input later (finish i decision scope now st)"
    using assms(2,3,7) wf
    by (auto simp: cooling_map_of finish_denials_wf finish_denials refusal_characterised assms(4)
        split: if_splits)
  moreover have "live_of (ap_pending (finish i decision scope now st)) (ci_sessionId input) True
      < MAX_PENDING_PER_SESSION"
    using live_of_finish_le [of i decision scope now st "ci_sessionId input" True]
      refusal_None_live [OF assms(7)] assms(6) by simp
  ultimately show ?thesis
    using assms(2,3,6) wf by (simp add: refusal_characterised finish_denials_wf)
qed

theorem answering_a_start_never_blocks_a_stop_witness:
  "fst (refusal (sample_input True) 1000 (finish ''a1'' FinDenied ScopeOnce 1000 sample_queue)) = None"
  by (rule answering_a_start_never_blocks_a_stop [OF sample_queue_reach _ _ sample_queue_pending])
     (simp_all add: sample_queue_def sample_input_def new_entry_def asks_containment_def requestApproval_def
        refusal_def no_approvals_def live_of_def subjectKey_def MAX_PENDING_PER_SESSION_def
        MAX_WITHDRAWALS_PER_WINDOW_def Let_def)

text \<open>
  A denial cools its subject down. For the thirty seconds after a question is denied, every
  request on the same subject is refused unasked; and when a request is refused, it is for
  one of exactly three reasons: a running cooldown, three withdrawals of its session within
  a minute (never held against a containment request), or three open questions of its own
  session and class.\<close>

theorem refusals_explained:
  assumes "appr_reach t st" "0 \<le> now"
  shows "(\<forall>e. map_of (ap_pending st) i = Some e \<and> subjectKey input = ae_subject e
            \<and> now \<le> later \<and> later < now + 30000
            \<longrightarrow> fst (refusal input later (finish i FinDenied scope now st)) = Some RefusedVolume)
    \<and> fst (refusal input now st) =
        (if cooling input now st then Some RefusedVolume
         else if 3 \<le> recent_withdrawals (ci_sessionId input) now st \<and> \<not> asks_containment input
           then Some RefusedWithdrawn
         else if 3 \<le> live_of (ap_pending st) (ci_sessionId input) (asks_containment input)
           then Some RefusedVolume
         else None)"
proof -
  have wf: "jsmap_wf (ap_denials st)" by (rule denials_wf [OF assms(1)])
  have "fst (refusal input later (finish i FinDenied scope now st)) = Some RefusedVolume"
    if "map_of (ap_pending st) i = Some e" "subjectKey input = ae_subject e" "now \<le> later"
      "later < now + 30000" for e
  proof -
    have "cooling input later (finish i FinDenied scope now st)"
      using that wf by (simp add: cooling_map_of finish_denials_wf finish_denials DENY_COOLDOWN_MS_def
          del: map_of_eq_Some_iff)
    then show ?thesis
      using assms(2) that(3) by (simp add: refusal_characterised finish_denials_wf wf)
  qed
  then show ?thesis
    using refusal_characterised [OF assms(2) wf, of input]
    by (auto simp: MAX_WITHDRAWALS_PER_WINDOW_def MAX_PENDING_PER_SESSION_def)
qed

theorem refusals_explained_witness:
  "fst (refusal (sample_input False) 20000 (finish ''a1'' FinDenied ScopeOnce 1000 sample_queue)) = Some RefusedVolume"
  using refusals_explained [OF sample_queue_reach, of 1000 "''a1''" "sample_input False" 20000 ScopeOnce]
    sample_queue_pending
  by (simp add: new_entry_def)

end
