(* ===== verification/Policy_Sql.thy ===== *)
theory Policy_Sql
  imports Policy_Core Regex
begin

section \<open>Database statements (main/services/policyEngine.ts)\<close>

text \<open>
  How a statement an agent wants to run is graded: comments are taken out, the text is cut
  at semicolons, and each piece is read by its leading verb, with the forms whose verb lies
  (a Mongo method, EXPLAIN ANALYZE, a writing CTE, a side-effecting function) handled
  apart. Then what the grade needs of the access group.
\<close>

datatype StatementKind = SRead | SMutating | SDestructive

fun kind_rank :: "StatementKind \<Rightarrow> nat" where
  "kind_rank SRead = 0"
| "kind_rank SMutating = 1"
| "kind_rank SDestructive = 2"

lemma kind_rank_inj: "kind_rank a = kind_rank b \<longleftrightarrow> a = b"
  by (cases a; cases b) auto

instantiation StatementKind :: linorder
begin

definition less_eq_StatementKind :: "StatementKind \<Rightarrow> StatementKind \<Rightarrow> bool" where
  "less_eq_StatementKind a b = (kind_rank a \<le> kind_rank b)"

definition less_StatementKind :: "StatementKind \<Rightarrow> StatementKind \<Rightarrow> bool" where
  "less_StatementKind a b = (kind_rank a < kind_rank b)"

instance
  by standard (auto simp: less_eq_StatementKind_def less_StatementKind_def kind_rank_inj)

end

subsection \<open>The patterns\<close>

definition leading_verb :: "string list \<Rightarrow> rx" where
  "leading_verb vs = seqs [Bol, words vs, WordB]"

definition SQL_DESTRUCTIVE :: rx where
  "SQL_DESTRUCTIVE = leading_verb
     [''drop'', ''truncate'', ''alter'', ''create'', ''rename'', ''grant'', ''revoke'', ''flushall'',
      ''flushdb'', ''shutdown'', ''detach'', ''attach'', ''exchange'', ''undrop'', ''kill'', ''system'']"

definition SQL_MUTATING :: rx where
  "SQL_MUTATING = leading_verb
     [''insert'', ''update'', ''delete'', ''replace'', ''merge'', ''upsert'', ''copy'', ''load'', ''call'',
      ''do'', ''set'', ''del'', ''unlink'', ''expire'', ''rpush'', ''lpush'', ''sadd'', ''hset'', ''incr'',
      ''decr'', ''append'', ''getset'', ''move'', ''migrate'', ''restore'', ''persist'', ''analyze'',
      ''analyse'', ''vacuum'', ''reindex'', ''cluster'']"

definition SQL_READ :: rx where
  "SQL_READ = leading_verb
     [''select'', ''show'', ''explain'', ''describe'', ''desc'', ''with'', ''values'', ''table'', ''get'',
      ''mget'', ''keys'', ''scan'', ''type'', ''ttl'', ''exists'', ''llen'', ''lrange'', ''smembers'', ''hget'',
      ''hgetall'', ''zrange'', ''info'', ''dbsize'', ''find'', ''aggregate'', ''count'', ''distinct'', ''list'']"

definition SIDE_EFFECT_FN :: rx where
  "SIDE_EFFECT_FN = seqs
     [WordB,
      alts (map lit [''pg_terminate_backend'', ''pg_cancel_backend'', ''pg_switch_wal'', ''pg_switch_xlog'',
        ''pg_promote'', ''pg_reload_conf'', ''pg_rotate_logfile'', ''pg_drop_replication_slot'',
        ''pg_create_restore_point''] @ [Seq (Star word_c) (lit ''_reset'')]
        @ map lit [''dblink_exec'', ''dblink'', ''lo_unlink'', ''lo_import'', ''lo_export'', ''lo_create'',
        ''lo_put'', ''lo_truncate'', ''setval'', ''nextval'']),
      Star ws_c, lit ''('']"

definition EGRESS_FN :: rx where
  "EGRESS_FN = seqs
     [WordB,
      words [''url'', ''urlcluster'', ''s3'', ''s3cluster'', ''gcs'', ''azureblobstorage'',
        ''azureblobstoragecluster'', ''hdfs'', ''hdfscluster'', ''file'', ''filecluster'', ''remote'',
        ''remotesecure'', ''mysql'', ''postgresql'', ''mongodb'', ''redis'', ''jdbc'', ''odbc'', ''sqlite'',
        ''executable'', ''iceberg'', ''deltalake'', ''hudi''],
      Star ws_c, lit ''('']"

definition SELECT_INTO :: rx where
  "SELECT_INTO = seqs
     [Bol, lit ''select'', WordB, Star (Cls (\<lambda>_. True)), WordB, lit ''into'', many1 ws_c, non_ws_c]"

definition RESTORE_INTO :: rx where
  "RESTORE_INTO = seqs
     [Bol, lit ''restore'', many1 ws_c, words [''table'', ''database'', ''dictionary'', ''temporary'', ''all''], WordB]"

definition DML_WORD :: rx where
  "DML_WORD = seqs [WordB, words [''insert'', ''update'', ''delete'', ''merge''], WordB]"

definition EXPLAIN_OPTS :: "string list" where
  "EXPLAIN_OPTS =
     [''analyze'', ''analyse'', ''verbose'', ''costs'', ''settings'', ''buffers'', ''wal'', ''timing'', ''summary'',
      ''generic_plan'', ''memory'', ''serialize'', ''format'', ''text'', ''json'', ''xml'', ''yaml'', ''on'', ''off'',
      ''true'', ''false'']"

definition ANALYZE_ON :: rx where
  "ANALYZE_ON = seqs
     [WordB, lit ''analy'', one_of ''sz'', lit ''e'', WordB,
      NLook (Seq (Star ws_c) (words [''false'', ''off'']))]"

subsection \<open>EXPLAIN\<close>

definition opt_char :: "char \<Rightarrow> bool" where
  "opt_char c = (is_lower c \<or> c = CHR ''_'')"

text \<open>\<open>/^([a-z_]+)\\b/\<close>: the run of option characters, if a word ends there.\<close>

definition leading_option :: "string \<Rightarrow> string option" where
  "leading_option rest =
     (let m = takeWhile opt_char rest; r = dropWhile opt_char rest in
      if m = [] \<or> (r \<noteq> [] \<and> is_word (hd r)) then None else Some m)"

lemma trim_length: "length (trim s) \<le> length s"
  unfolding trim_def trim_start_def
  by (metis length_dropWhile_le length_rev order_trans)

lemma leading_option_length: "leading_option rest = Some m \<Longrightarrow> m \<noteq> [] \<and> length m \<le> length rest"
  by (auto simp: leading_option_def Let_def length_takeWhile_le split: if_splits)

function explain_options :: "string \<Rightarrow> bool \<Rightarrow> string \<times> bool" where
  "explain_options rest executes =
     (case leading_option rest of
        None \<Rightarrow> (rest, executes)
      | Some m \<Rightarrow>
          if m \<notin> set EXPLAIN_OPTS then (rest, executes)
          else explain_options (trim (drop (length m) rest))
                 (executes \<or> m = ''analyze'' \<or> m = ''analyse''))"
  by pat_completeness auto
termination
proof (relation "measure (length \<circ> fst)", goal_cases)
  case (2 rest executes m)
  then show ?case
    using leading_option_length [of rest m] trim_length [of "drop (length m) rest"] by (cases m) auto
qed simp

declare explain_options.simps [simp del]

definition stripExplain :: "string \<Rightarrow> (string \<times> bool) option" where
  "stripExplain s =
     (if \<not> rx_test (leading_verb [''explain'']) s then None
      else
        let rest = trim (drop 7 s) in
        if starts_with ''('' rest \<and> CHR '')'' \<in> set rest then
          let body = takeWhile (\<lambda>c. c \<noteq> CHR '')'') (drop 1 rest)
          in Some (trim (drop (length body + 2) rest), rx_test ANALYZE_ON body)
        else Some (explain_options rest False))"

subsection \<open>Cutting into statements\<close>

text \<open>Each \<open>/* ... */\<close>, taken lazily, becomes one space; one without an end stays.\<close>

function strip_block :: "string \<Rightarrow> string" where
  "strip_block [] = []"
| "strip_block (c # cs) =
     (if starts_with ''/*'' (c # cs) then
        (case index_of ''*/'' (drop 2 (c # cs)) of
           Some k \<Rightarrow> CHR '' '' # strip_block (drop (k + 4) (c # cs))
         | None \<Rightarrow> c # strip_block cs)
      else c # strip_block cs)"
  by pat_completeness auto
termination by (relation "measure length") auto

function strip_line :: "string \<Rightarrow> string" where
  "strip_line [] = []"
| "strip_line (c # cs) =
     (if starts_with ''--'' (c # cs)
      then CHR '' '' # strip_line (dropWhile (\<lambda>d. d \<noteq> newline) (drop 2 (c # cs)))
      else c # strip_line cs)"
  by pat_completeness auto
termination
proof (relation "measure length", goal_cases)
  case (2 c cs)
  then show ?case
    using length_dropWhile_le [of "\<lambda>d. d \<noteq> newline" "drop 1 cs"] by (simp add: less_Suc_eq_le)
qed auto

definition clean_statement :: "string \<Rightarrow> string" where
  "clean_statement s = lower (trim (dropWhile (\<lambda>c. c = CHR ''('') (trim s)))"

definition statements :: "string \<Rightarrow> string list" where
  "statements sql =
     filter (\<lambda>s. s \<noteq> []) (map clean_statement (split_on CHR '';'' (strip_line (strip_block sql))))"

subsection \<open>Mongo\<close>

definition mongo_name :: rx where
  "mongo_name = many1 (Cls (\<lambda>c. is_word c \<or> c \<in> set ''.$-''))"

definition MONGO_PREFIX :: rx where
  "MONGO_PREFIX = seqs
     [Bol, lit ''db.'',
      alts [seqs [lit ''getcollection('', opt (one_of [CHR 0x27, CHR 0x22]), mongo_name,
                  opt (one_of [CHR 0x27, CHR 0x22]), lit '')''],
            mongo_name],
      lit ''.'']"

text \<open>The method a Mongo call names: the word before the first opening bracket that follows.\<close>

definition mongo_method :: "string \<Rightarrow> string option" where
  "mongo_method s =
     map_option (\<lambda>k. takeWhile is_word (drop k s))
       (find (\<lambda>k. takeWhile is_word (drop k s) \<noteq> []
               \<and> starts_with ''('' (dropWhile is_ws (dropWhile is_word (drop k s))))
          (ends MONGO_PREFIX s 0))"

definition MONGO_READ :: "string list" where
  "MONGO_READ =
     [''find'', ''findone'', ''aggregate'', ''count'', ''countdocuments'', ''estimateddocumentcount'',
      ''distinct'', ''getindexes'', ''stats'', ''explain'', ''watch'']"

definition MONGO_DESTRUCTIVE :: "string list" where
  "MONGO_DESTRUCTIVE = [''drop'', ''dropindex'', ''dropindexes'', ''renamecollection'']"

definition classifyMongo :: "string \<Rightarrow> StatementKind option" where
  "classifyMongo s =
     (if rx_test (seqs [Bol, lit ''db.dropdatabase'', Star ws_c, lit ''('']) s then Some SDestructive
      else
        (case mongo_method s of
           None \<Rightarrow> None
         | Some m \<Rightarrow>
             let method = lower m in
             if method \<in> set MONGO_DESTRUCTIVE then Some SDestructive
             else if method = ''aggregate'' \<and> rx_test (seqs [lit ''$'', words [''out'', ''merge''], WordB]) s
               then Some SDestructive
             else Some (if method \<in> set MONGO_READ then SRead else SMutating)))"

subsection \<open>Grading\<close>

lemma strip_block_length: "length (strip_block s) \<le> length s"
proof (induction s rule: strip_block.induct)
  case (2 c cs)
  show ?case
  proof (cases "starts_with ''/*'' (c # cs)")
    case True
    note t = this
    show ?thesis
    proof (cases "index_of ''*/'' (drop 2 (c # cs))")
      case (Some k)
      then have "k + 2 \<le> length (drop 2 (c # cs))" using index_of_le [OF Some] by simp
      with t Some 2(2) [OF t Some] show ?thesis by (simp del: starts_with.simps drop_Suc_Cons)
    next
      case None
      with t 2(1) [OF t None] show ?thesis by (simp del: starts_with.simps drop_Suc_Cons)
    qed
  next
    case False
    with 2(3) show ?thesis by (simp del: starts_with.simps)
  qed
qed simp

lemma strip_line_length: "length (strip_line s) \<le> length s"
proof (induction s rule: strip_line.induct)
  case (2 c cs)
  show ?case
  proof (cases "starts_with ''--'' (c # cs)")
    case True
    with 2(1) [OF True] length_dropWhile_le [of "\<lambda>d. d \<noteq> newline" "drop 2 (c # cs)"] show ?thesis
      by (simp del: starts_with.simps)
  next
    case False
    with 2(2) show ?thesis by (simp del: starts_with.simps)
  qed
qed simp

lemma clean_length: "length (clean_statement s) \<le> length s"
proof -
  have "length (clean_statement s) \<le> length (dropWhile (\<lambda>c. c = CHR ''('') (trim s))"
    unfolding clean_statement_def lower_def using trim_length by simp
  also have "\<dots> \<le> length (trim s)" by (rule length_dropWhile_le)
  also have "\<dots> \<le> length s" by (rule trim_length)
  finally show ?thesis .
qed

definition size_of :: "string list \<Rightarrow> nat" where
  "size_of ss = sum_list (map (\<lambda>s. Suc (length s)) ss)"

lemma split_on_size: "size_of (split_on c s) = Suc (length s)"
  by (induction s) (auto simp: size_of_def split: list.splits)

lemma statements_size: "size_of (statements sql) \<le> Suc (length sql)"
proof -
  have clean: "size_of (map clean_statement ps) \<le> size_of ps" for ps
    unfolding size_of_def by (induction ps) (auto intro: add_mono clean_length)
  have "size_of (filter (\<lambda>s. s \<noteq> []) ps) \<le> size_of ps" for ps
    unfolding size_of_def by (rule sum_list_filter_nat)
  then have "size_of (statements sql) \<le> size_of (split_on CHR '';'' (strip_line (strip_block sql)))"
    unfolding statements_def using clean order_trans by blast
  also have "\<dots> \<le> Suc (length sql)"
    using strip_line_length [of "strip_block sql"] strip_block_length [of sql] by (simp add: split_on_size)
  finally show ?thesis .
qed

lemma explain_options_length: "length (fst (explain_options rest e)) \<le> length rest"
proof (induction rest e rule: explain_options.induct)
  case (1 rest e)
  show ?case
  proof (cases "leading_option rest")
    case None
    then show ?thesis by (subst explain_options.simps) simp
  next
    case (Some m)
    show ?thesis
    proof (cases "m \<in> set EXPLAIN_OPTS")
      case True
      have "length (trim (drop (length m) rest)) \<le> length rest"
        using trim_length [of "drop (length m) rest"] by simp
      with 1 [OF Some] True Some show ?thesis
        by (subst explain_options.simps) (auto intro: order_trans)
    next
      case False
      with Some show ?thesis by (subst explain_options.simps) simp
    qed
  qed
qed

lemma rx_test_explain_length: "rx_test (leading_verb [''explain'']) s \<Longrightarrow> 7 \<le> length s"
  by (auto simp: rx_test_iff leading_verb_def words_def)

lemma stripExplain_length: "stripExplain s = Some (rest, e) \<Longrightarrow> length rest + 7 \<le> length s"
proof -
  assume a: "stripExplain s = Some (rest, e)"
  then have x: "rx_test (leading_verb [''explain'']) s" by (simp add: stripExplain_def split: if_splits)
  have t: "length (trim (drop 7 s)) \<le> length s - 7" using trim_length [of "drop 7 s"] by simp
  have "length rest \<le> length (trim (drop 7 s))"
  proof (cases "starts_with ''('' (trim (drop 7 s)) \<and> CHR '')'' \<in> set (trim (drop 7 s))")
    case True
    let ?r = "trim (drop 7 s)"
    have "rest = trim (drop (length (takeWhile (\<lambda>c. c \<noteq> CHR '')'') (drop 1 ?r)) + 2) ?r)"
      using a x True by (simp add: stripExplain_def Let_def)
    then show ?thesis using trim_length by (metis diff_le_self length_drop order_trans)
  next
    case False
    then have "(rest, e) = explain_options (trim (drop 7 s)) False"
      using a x by (simp add: stripExplain_def Let_def split: if_splits)
    then show ?thesis using explain_options_length [of "trim (drop 7 s)" False] by (metis fst_conv)
  qed
  with t rx_test_explain_length [OF x] show ?thesis by linarith
qed

text \<open>What the leading verb and the forms it hides say of one statement.\<close>

definition verb_kind :: "string \<Rightarrow> StatementKind" where
  "verb_kind s =
     (if rx_test SQL_DESTRUCTIVE s then SDestructive
      else if rx_test RESTORE_INTO s then SDestructive
      else if rx_test SQL_MUTATING s \<or> rx_test SIDE_EFFECT_FN s \<or> rx_test EGRESS_FN s
              \<or> rx_test SELECT_INTO s
              \<or> (rx_test (leading_verb [''with'']) s \<and> rx_test DML_WORD s) then SMutating
      else if \<not> rx_test SQL_READ s then SMutating
      else SRead)"

text \<open>
  \<open>classifyStatement\<close> loops over the statements and calls itself on what follows an
  executing EXPLAIN; \<open>grade_all\<close> is the loop, with \<open>worst\<close> its variable, and returns at
  once on a destructive statement.
\<close>

function classifyStatement :: "string \<Rightarrow> StatementKind"
  and grade_all :: "StatementKind \<Rightarrow> string list \<Rightarrow> StatementKind" where
  "classifyStatement sql = grade_all SRead (statements sql)"
| "grade_all worst [] = worst"
| "grade_all worst (s # ss) =
     (case (case classifyMongo s of
              Some k \<Rightarrow> k
            | None \<Rightarrow>
                (case stripExplain s of
                   Some (rest, executes) \<Rightarrow>
                     if \<not> executes then SRead
                     else if rest \<noteq> [] then classifyStatement rest
                     else verb_kind s
                 | None \<Rightarrow> verb_kind s)) of
        SDestructive \<Rightarrow> SDestructive
      | SMutating \<Rightarrow> grade_all SMutating ss
      | SRead \<Rightarrow> grade_all worst ss)"
  by pat_completeness auto
termination
proof (relation "measure (\<lambda>x. case x of Inl sql \<Rightarrow> length sql + 2 | Inr (w, ss) \<Rightarrow> size_of ss)", goal_cases)
  case (2 sql)
  then show ?case using statements_size [of sql] by simp
next
  case (3 worst s ss x rest executes)
  then show ?case using stripExplain_length [of s rest executes] by (auto simp: size_of_def)
qed (auto simp: size_of_def)

declare classifyStatement.simps [simp del]

subsection \<open>What the access group has to give\<close>

definition evaluateDatabaseStatement :: "AccessGroup option \<Rightarrow> string \<Rightarrow> Decision" where
  "evaluateDatabaseStatement grp sql =
     (case grp of
        None \<Rightarrow> decide Deny ''No AI access is assigned to this workspace.''
      | Some g \<Rightarrow>
          let access = evaluateCapability grp DatabaseAccess in
          if decision access = Deny then decide Deny ''Database access is denied for this access group.''
          else
            let kind = classifyStatement sql in
            if kind = SRead then access
            else
              let write = evaluateCapability grp WriteFiles in
              if decision write = Deny then
                decide Deny (''This statement ''
                  @ (if kind = SDestructive then ''changes schema or permissions'' else ''modifies data'')
                  @ '', and this access group cannot write.'')
              else
                let combined = mostRestrictive access write in
                if decision combined = Allow \<and> confirmsRisky g then
                  decide Ask (''Statements that ''
                    @ (if kind = SDestructive then ''change schema or permissions'' else ''modify data'')
                    @ '' require approval '' @ confirm_suffix g)
                else combined)"

subsection \<open>The loop is a maximum\<close>

definition one_kind :: "string \<Rightarrow> StatementKind" where
  "one_kind s =
     (case classifyMongo s of
        Some k \<Rightarrow> k
      | None \<Rightarrow>
          (case stripExplain s of
             Some (rest, executes) \<Rightarrow>
               if \<not> executes then SRead else if rest \<noteq> [] then classifyStatement rest else verb_kind s
           | None \<Rightarrow> verb_kind s))"

lemma grade_all_Cons:
  "grade_all worst (s # ss) =
     (case one_kind s of SDestructive \<Rightarrow> SDestructive | SMutating \<Rightarrow> grade_all SMutating ss
      | SRead \<Rightarrow> grade_all worst ss)"
  by (simp add: one_kind_def)

declare grade_all.simps(2) [simp del]

lemma SRead_least [simp]: "SRead \<le> k" and SDestructive_greatest [simp]: "k \<le> SDestructive"
  by (cases k; simp add: less_eq_StatementKind_def)+

lemma grade_all_max: "worst \<noteq> SDestructive \<Longrightarrow> grade_all worst ss = fold max (map one_kind ss) worst"
proof (induction ss arbitrary: worst)
  case (Cons s ss)
  have top: "fold max ks SDestructive = SDestructive" for ks
    by (induction ks) (simp_all add: max_def)
  show ?case
  proof (cases "one_kind s")
    case SRead
    with Cons show ?thesis by (simp add: grade_all_Cons max.absorb2)
  next
    case SMutating
    moreover have "max SMutating worst = SMutating"
      using Cons.prems by (cases worst) (simp_all add: max_def less_eq_StatementKind_def)
    ultimately show ?thesis using Cons.IH [of SMutating] by (simp add: grade_all_Cons)
  next
    case SDestructive
    then show ?thesis by (simp add: grade_all_Cons max.absorb1 top)
  qed
qed simp

lemma classify_max: "classifyStatement sql = fold max (map one_kind (statements sql)) SRead"
  by (simp add: classifyStatement.simps grade_all_max)

lemma fold_max_append:
  "fold max (xs @ ys) (a::'a::linorder) = max (fold max xs a) (fold max ys a)"
proof -
  have pull: "fold max zs (max b c) = max b (fold max zs c)" for zs and b c :: 'a
  proof (induction zs arbitrary: c)
    case (Cons z zs)
    have "fold max (z # zs) (max b c) = fold max zs (max b (max z c))" by (simp add: max.left_commute)
    also have "\<dots> = max b (fold max zs (max z c))" by (rule Cons)
    finally show ?case by simp
  qed simp
  have "max (fold max xs a) a = fold max xs a"
    using pull [of xs a a] by (simp add: max.commute)
  then show ?thesis
    using pull [of ys "fold max xs a" a] by simp
qed

lemma fold_max_member: "k \<in> set ks \<Longrightarrow> (k::'a::linorder) \<le> fold max ks a"
proof (induction ks arbitrary: a)
  case (Cons x ks)
  have "b \<le> fold max zs b" for zs and b :: 'a
    by (induction zs arbitrary: b) (auto intro: order_trans [OF max.cobounded2])
  then have "x \<le> fold max ks (max x a)" by (meson max.cobounded1 order_trans)
  with Cons show ?case by auto
qed simp

subsection \<open>Text without comment markers\<close>

lemma has_text_Cons: "has_text sub (c # cs) \<longleftrightarrow> starts_with sub (c # cs) \<or> has_text sub cs"
  by (auto simp: has_text_def)

lemma strip_block_none: "\<not> has_text ''/*'' s \<Longrightarrow> strip_block s = s"
  by (induction s) (auto simp: has_text_Cons simp del: starts_with.simps)

lemma strip_line_none: "\<not> has_text ''--'' s \<Longrightarrow> strip_line s = s"
  by (induction s) (auto simp: has_text_Cons simp del: starts_with.simps)

lemma has_text_part: "has_text sub p \<or> has_text sub q \<Longrightarrow> has_text sub (p @ c # q)"
proof (elim disjE)
  assume "has_text sub p"
  then obtain a b where "p = a @ sub @ b" by (auto simp: has_text_iff)
  then have "p @ c # q = a @ sub @ (b @ c # q)" by simp
  then show ?thesis unfolding has_text_iff by blast
next
  assume "has_text sub q"
  then obtain a b where "q = a @ sub @ b" by (auto simp: has_text_iff)
  then have "p @ c # q = (p @ c # a) @ sub @ b" by simp
  then show ?thesis unfolding has_text_iff by blast
qed

lemma split_on_concat: "split_on c (p @ c # q) = split_on c p @ split_on c q"
  by (induction p) (auto split: list.splits)

definition no_comment_marker :: "string \<Rightarrow> bool" where
  "no_comment_marker s = (\<not> has_text ''/*'' s \<and> \<not> has_text ''--'' s)"

lemma statements_concat:
  assumes "no_comment_marker (p @ CHR '';'' # q)"
  shows "statements (p @ CHR '';'' # q) = statements p @ statements q"
proof -
  have "no_comment_marker p" "no_comment_marker q"
    using assms has_text_part unfolding no_comment_marker_def by blast+
  with assms show ?thesis
    by (simp add: statements_def no_comment_marker_def strip_block_none strip_line_none split_on_concat)
qed

subsection \<open>A leading verb\<close>

lemma rel_lit_start: "(0, j) \<in> rx_rel (lit w) s \<Longrightarrow> starts_with w s"
proof -
  assume "(0, j) \<in> rx_rel (lit w) s"
  then have "j \<le> length s" "take j s = w" by (auto simp: rx_rel_lit)
  then have "s = w @ drop j s" by (metis append_take_drop_id)
  then show ?thesis by (metis starts_with_append)
qed

lemma rel_words_elim: "(i, j) \<in> rx_rel (words ws) s \<Longrightarrow> \<exists>v \<in> set ws. (i, j) \<in> rx_rel (lit v) s"
  unfolding words_def
proof (induction ws)
  case (Cons w ws)
  then show ?case by (cases ws) (auto simp del: lit.simps)
qed simp

lemma leading_verb_start: "rx_test (leading_verb vs) s \<Longrightarrow> \<exists>v \<in> set vs. starts_with v s"
proof -
  assume "rx_test (leading_verb vs) s"
  then obtain j where "(0, j) \<in> rx_rel (words vs) s"
    by (auto simp: rx_test_iff leading_verb_def)
  then obtain v where "v \<in> set vs" "(0, j) \<in> rx_rel (lit v) s"
    using rel_words_elim [of 0 j vs s] by blast
  then show ?thesis using rel_lit_start by blast
qed

lemma not_mongo: "\<not> starts_with ''db.'' s \<Longrightarrow> classifyMongo s = None"
proof -
  assume n: "\<not> starts_with ''db.'' s"
  have "k \<notin> set (ends MONGO_PREFIX s 0)" for k
  proof
    assume "k \<in> set (ends MONGO_PREFIX s 0)"
    then have "(0, k) \<in> rx_rel MONGO_PREFIX s" using ends_correct [of MONGO_PREFIX s 0] by auto
    then have "\<exists>j. (0, j) \<in> rx_rel (lit ''db.'') s" unfolding MONGO_PREFIX_def seqs.simps by (auto simp del: lit.simps)
    with n rel_lit_start show False by blast
  qed
  then have "mongo_method s = None" by (simp add: mongo_method_def find_None_iff)
  moreover have "\<not> rx_test (seqs [Bol, lit ''db.dropdatabase'', Star ws_c, lit ''('']) s"
  proof
    assume "rx_test (seqs [Bol, lit ''db.dropdatabase'', Star ws_c, lit ''('']) s"
    then obtain j where "(0, j) \<in> rx_rel (lit ''db.dropdatabase'') s"
      unfolding seqs.simps by (auto simp: rx_test_iff simp del: lit.simps)
    from rel_lit_start [OF this] obtain t where "s = ''db.'' @ ''dropdatabase'' @ t" by (auto simp: starts_with_iff)
    with n show False by simp
  qed
  ultimately show ?thesis by (simp add: classifyMongo_def)
qed

lemma not_explain: "\<not> starts_with ''explain'' s \<Longrightarrow> stripExplain s = None"
  using leading_verb_start [of "[''explain'']" s] by (auto simp: stripExplain_def)

lemma verb_first_chars:
  assumes "rx_test SQL_DESTRUCTIVE s \<or> rx_test SQL_MUTATING s"
  shows "\<not> starts_with ''db.'' s \<and> \<not> starts_with ''explain'' s"
proof -
  from assms obtain v where v: "starts_with v s" "v \<in> set [''drop'', ''truncate'', ''alter'', ''create'', ''rename'',
      ''grant'', ''revoke'', ''flushall'', ''flushdb'', ''shutdown'', ''detach'', ''attach'', ''exchange'', ''undrop'',
      ''kill'', ''system'', ''insert'', ''update'', ''delete'', ''replace'', ''merge'', ''upsert'', ''copy'', ''load'',
      ''call'', ''do'', ''set'', ''del'', ''unlink'', ''expire'', ''rpush'', ''lpush'', ''sadd'', ''hset'', ''incr'',
      ''decr'', ''append'', ''getset'', ''move'', ''migrate'', ''restore'', ''persist'', ''analyze'', ''analyse'',
      ''vacuum'', ''reindex'', ''cluster'']"
    unfolding SQL_DESTRUCTIVE_def SQL_MUTATING_def using leading_verb_start by fastforce
  from v(1) obtain t where t: "s = v @ t" by (auto simp: starts_with_iff)
  from v(2) show ?thesis
    unfolding t by (simp only: list.set insert_iff empty_iff simp_thms) (elim disjE; simp)
qed

lemma one_kind_verb:
  "rx_test SQL_DESTRUCTIVE s \<Longrightarrow> one_kind s = SDestructive"
  "rx_test SQL_MUTATING s \<Longrightarrow> SMutating \<le> one_kind s"
  using verb_first_chars [of s] not_mongo [of s] not_explain [of s]
  by (auto simp: one_kind_def verb_kind_def less_eq_StatementKind_def)

subsection \<open>Properties\<close>

text \<open>
  A read cannot carry a write behind it. In text without comment markers the grade of two
  pieces joined by a semicolon is the worse of their grades, in whichever order they
  stand.\<close>

theorem semicolon_smuggles_nothing:
  assumes "no_comment_marker (p @ CHR '';'' # q)"
  shows "classifyStatement (p @ CHR '';'' # q) = max (classifyStatement p) (classifyStatement q)"
  unfolding classify_max statements_concat [OF assms] map_append by (rule fold_max_append)

theorem semicolon_smuggles_nothing_witness:
  "classifyStatement (''select 1'' @ CHR '';'' # '' DROP TABLE t'')
     = max (classifyStatement ''select 1'') (classifyStatement '' DROP TABLE t'')"
  by (rule semicolon_smuggles_nothing) code_simp

text \<open>
  A statement that leads with a destructive verb makes the whole text destructive and one
  that leads with a writing verb keeps it from reading, wherever it stands among the
  statements the text is cut into, quoted inside an EXPLAIN ANALYZE or not.\<close>

theorem leading_verbs_count:
  assumes "s \<in> set (statements sql)"
  shows "(rx_test SQL_DESTRUCTIVE s \<longrightarrow> classifyStatement sql = SDestructive)
    \<and> (rx_test SQL_MUTATING s \<longrightarrow> classifyStatement sql \<noteq> SRead)
    \<and> (classifyMongo s = None \<and> stripExplain s = Some (rest, True) \<and> rest \<noteq> [] \<longrightarrow>
         classifyStatement rest \<le> classifyStatement sql)"
proof -
  have le: "one_kind s \<le> classifyStatement sql"
    unfolding classify_max using assms by (intro fold_max_member) simp
  have top: "SDestructive \<le> k \<Longrightarrow> k = SDestructive" for k by (simp add: antisym)
  have "classifyStatement sql = SDestructive" if "rx_test SQL_DESTRUCTIVE s"
    using le one_kind_verb(1) [OF that] top by simp
  moreover have "classifyStatement sql \<noteq> SRead" if "rx_test SQL_MUTATING s"
  proof
    assume "classifyStatement sql = SRead"
    with le one_kind_verb(2) [OF that] have "SMutating \<le> SRead" by (metis order_trans)
    then show False by (simp add: less_eq_StatementKind_def)
  qed
  moreover have "classifyStatement rest \<le> classifyStatement sql"
    if "classifyMongo s = None" "stripExplain s = Some (rest, True)" "rest \<noteq> []"
    using le that by (simp add: one_kind_def)
  ultimately show ?thesis by blast
qed

theorem leading_verbs_count_witness:
  "classifyStatement ''select 1; drop table t'' = SDestructive"
proof -
  have "''drop table t'' \<in> set (statements ''select 1; drop table t'')" by code_simp
  moreover have "rx_test SQL_DESTRUCTIVE ''drop table t''" by code_simp
  ultimately show ?thesis using leading_verbs_count by blast
qed


subsection \<open>A comment marker inside a literal\<close>

text \<open>
  The cut does not know string literals: comment markers inside quotes take the statements
  between them out of the text that is graded.
\<close>

definition quoted_marker :: string where
  "quoted_marker = ''select '' @ [CHR 0x27] @ ''/*'' @ [CHR 0x27] @ ''; drop table users; --*/'' @ [CHR 0x27]"

lemma quoted_marker_hides_a_statement:
  "classifyStatement quoted_marker = SRead \<and> classifyStatement '' drop table users'' = SDestructive"
  by code_simp

end
