(* ===== verification/Addy_Merge.thy ===== *)
theory Addy_Merge
  imports Prelude Json "HOL-Library.List_Lexorder" "HOL-Library.Char_ord"
begin

section \<open>The three-way merge of a collection (main/services/addy/merge.ts)\<close>

text \<open>
  Two devices changed a list of identified records; the base is a fingerprint per record
  of the last state this device agreed with the relay. A payload is a buffer: here either
  text that is not JSON or the document \<open>JSON.stringify\<close> wrote, so that equal buffers are
  equal payloads. \<open>canonical\<close> keeps its value as a document with sorted keys instead of
  printing it. The fingerprint (a truncated SHA-256) is the parameter \<open>fp\<close>; what a theorem
  needs of it is a hypothesis about the records at hand. Record ids are generated and are
  not names of \<open>Object.prototype\<close>.
\<close>

datatype payload = NotJson string | Doc json

type_synonym records = "(string \<times> json) list"
type_synonym base_map = "(string, string) jsmap"

subsection \<open>Canonical documents\<close>

function canonical :: "json \<Rightarrow> json" where
  "canonical (JArr xs) = JArr (map canonical xs)"
| "canonical (JObj kvs) = JObj (sort_key fst (map (\<lambda>(k, v). (k, canonical v)) kvs))"
| "canonical JNull = JNull"
| "canonical (JBool b) = JBool b"
| "canonical (JNum n) = JNum n"
| "canonical (JStr s) = JStr s"
  by pat_completeness auto
termination by lexicographic_order

subsection \<open>Records and bases\<close>

definition record_id :: "json \<Rightarrow> string option" where
  "record_id item =
     (if is_object item then
        (case as_string (field_of item ''id'') of
           None \<Rightarrow> None
         | Some i \<Rightarrow> if i = [] then None else Some i)
      else None)"

definition asRecords :: "payload \<Rightarrow> records option" where
  "asRecords p =
     (case p of
        Doc (JArr items) \<Rightarrow>
          (case all_some (map record_id items) of
             None \<Rightarrow> None
           | Some ids \<Rightarrow> if distinct ids then Some (zip ids items) else None)
      | _ \<Rightarrow> None)"

definition baseOf :: "(json \<Rightarrow> string) \<Rightarrow> payload \<Rightarrow> base_map option" where
  "baseOf fp p = map_option (map (\<lambda>(i, item). (i, fp (canonical item)))) (asRecords p)"

definition in_base :: "base_map \<Rightarrow> string \<Rightarrow> bool" where
  "in_base b i = (map_of b i \<noteq> None)"

definition changed :: "(json \<Rightarrow> string) \<Rightarrow> base_map \<Rightarrow> string \<Rightarrow> json \<Rightarrow> bool" where
  "changed fp b i item = (\<not> in_base b i \<or> map_of b i \<noteq> Some (fp (canonical item)))"

subsection \<open>The two loops\<close>

record merge_acc =
  ma_out :: records
  ma_added :: nat
  ma_removed :: nat
  ma_updated :: nat

definition emit :: "string \<Rightarrow> json \<Rightarrow> merge_acc \<Rightarrow> merge_acc" where
  "emit i item a = a\<lparr>ma_out := ma_out a @ [(i, item)]\<rparr>"

text \<open>One local record; None is the return that refuses to decide.\<close>

definition merge_local :: "(json \<Rightarrow> string) \<Rightarrow> base_map \<Rightarrow> records \<Rightarrow> string \<times> json
    \<Rightarrow> merge_acc \<Rightarrow> merge_acc option" where
  "merge_local fp b rs l a =
     (let (i, x) = l in
      case map_of rs i of
        None \<Rightarrow>
          if in_base b i then
            (if changed fp b i x then None else Some (a\<lparr>ma_removed := Suc (ma_removed a)\<rparr>))
          else Some (emit i x (a\<lparr>ma_added := Suc (ma_added a)\<rparr>))
      | Some y \<Rightarrow>
          let lc = changed fp b i x; rc = changed fp b i y in
          if lc \<and> rc then
            (if canonical x \<noteq> canonical y then None
             else Some (emit i x (a\<lparr>ma_updated := Suc (ma_updated a)\<rparr>)))
          else if lc then Some (emit i x (a\<lparr>ma_updated := Suc (ma_updated a)\<rparr>))
          else if rc then Some (emit i y (a\<lparr>ma_updated := Suc (ma_updated a)\<rparr>))
          else Some (emit i x a))"

definition merge_remote :: "(json \<Rightarrow> string) \<Rightarrow> base_map \<Rightarrow> records \<Rightarrow> string \<times> json
    \<Rightarrow> merge_acc \<Rightarrow> merge_acc option" where
  "merge_remote fp b ls r a =
     (let (i, y) = r in
      if i \<in> fst ` set ls then Some a
      else if in_base b i then
        (if changed fp b i y then None else Some (a\<lparr>ma_removed := Suc (ma_removed a)\<rparr>))
      else Some (emit i y (a\<lparr>ma_added := Suc (ma_added a)\<rparr>)))"

fun run_loop :: "('x \<Rightarrow> 'a \<Rightarrow> 'a option) \<Rightarrow> 'x list \<Rightarrow> 'a \<Rightarrow> 'a option" where
  "run_loop f [] a = Some a"
| "run_loop f (x # xs) a = (case f x a of None \<Rightarrow> None | Some a' \<Rightarrow> run_loop f xs a')"

record MergeResult =
  mr_merged :: payload
  mr_added :: nat
  mr_removed :: nat
  mr_updated :: nat

definition merge_records :: "(json \<Rightarrow> string) \<Rightarrow> base_map \<Rightarrow> records \<Rightarrow> records \<Rightarrow> merge_acc option" where
  "merge_records fp b ls rs =
     Option.bind (run_loop (merge_local fp b rs) ls
         \<lparr>ma_out = [], ma_added = 0, ma_removed = 0, ma_updated = 0\<rparr>)
       (run_loop (merge_remote fp b ls) rs)"

definition mergeCollections :: "(json \<Rightarrow> string) \<Rightarrow> base_map option \<Rightarrow> payload \<Rightarrow> payload
    \<Rightarrow> MergeResult option" where
  "mergeCollections fp base local remote =
     (case (base, asRecords local, asRecords remote) of
        (Some b, Some ls, Some rs) \<Rightarrow>
          map_option (\<lambda>a. \<lparr>mr_merged = Doc (JArr (map snd (ma_out a))), mr_added = ma_added a,
                           mr_removed = ma_removed a, mr_updated = ma_updated a\<rparr>)
            (merge_records fp b ls rs)
      | _ \<Rightarrow> None)"

subsection \<open>The specification: one record at a time\<close>

text \<open>What becomes of one id: None when a person has to decide.\<close>

fun settle :: "(json \<Rightarrow> string) \<Rightarrow> base_map \<Rightarrow> string \<Rightarrow> json option \<Rightarrow> json option
    \<Rightarrow> json option option" where
  "settle fp b i None None = Some None"
| "settle fp b i (Some x) None =
     (if \<not> in_base b i then Some (Some x) else if changed fp b i x then None else Some None)"
| "settle fp b i None (Some y) =
     (if \<not> in_base b i then Some (Some y) else if changed fp b i y then None else Some None)"
| "settle fp b i (Some x) (Some y) =
     (if changed fp b i x \<and> changed fp b i y then
        (if canonical x = canonical y then Some (Some x) else None)
      else if changed fp b i y then Some (Some y) else Some (Some x))"

definition piece :: "(string \<times> json option option) \<Rightarrow> records" where
  "piece iv = (case snd iv of Some (Some v) \<Rightarrow> [(fst iv, v)] | _ \<Rightarrow> [])"

definition local_case :: "(json \<Rightarrow> string) \<Rightarrow> base_map \<Rightarrow> records \<Rightarrow> string \<times> json \<Rightarrow> string \<times> json option option" where
  "local_case fp b rs l = (fst l, settle fp b (fst l) (Some (snd l)) (map_of rs (fst l)))"

definition remote_case :: "(json \<Rightarrow> string) \<Rightarrow> base_map \<Rightarrow> records \<Rightarrow> string \<times> json \<Rightarrow> string \<times> json option option" where
  "remote_case fp b ls r =
     (fst r, if fst r \<in> fst ` set ls then Some None else settle fp b (fst r) None (Some (snd r)))"

lemma merge_local_case:
  "merge_local fp b rs l a = None \<longleftrightarrow> snd (local_case fp b rs l) = None"
  "merge_local fp b rs l a = Some a' \<Longrightarrow> ma_out a' = ma_out a @ piece (local_case fp b rs l)"
  by (cases l; cases "map_of rs (fst l)";
      auto simp: merge_local_def emit_def Let_def local_case_def piece_def split: if_splits)+

lemma merge_remote_case:
  "merge_remote fp b ls r a = None \<longleftrightarrow> snd (remote_case fp b ls r) = None"
  "merge_remote fp b ls r a = Some a' \<Longrightarrow> ma_out a' = ma_out a @ piece (remote_case fp b ls r)"
  by (cases r; auto simp: merge_remote_def emit_def remote_case_def piece_def split: if_splits)+

lemma run_loop_pieces:
  assumes "\<And>x a. f x a = None \<longleftrightarrow> snd (g x) = None"
    "\<And>x a a'. f x a = Some a' \<Longrightarrow> ma_out a' = ma_out a @ piece (g x)"
  shows "(run_loop f xs a = None \<longleftrightarrow> (\<exists>x \<in> set xs. snd (g x) = None))
    \<and> (\<forall>a'. run_loop f xs a = Some a' \<longrightarrow> ma_out a' = ma_out a @ concat (map (piece \<circ> g) xs))"
proof (induction xs arbitrary: a)
  case (Cons x xs)
  show ?case
  proof (cases "f x a")
    case None
    with assms(1) [of x a] have "snd (g x) = None" by simp
    with None show ?thesis by simp
  next
    case (Some a1)
    then have "snd (g x) \<noteq> None" using assms(1) [of x a] by simp
    have e: "run_loop f (x # xs) a = run_loop f xs a1" using Some by simp
    have ih: "run_loop f xs a1 = None \<longleftrightarrow> (\<exists>x \<in> set xs. snd (g x) = None)"
      using Cons.IH [of a1] by (rule conjunct1)
    show ?thesis
    proof (intro conjI allI impI)
      show "run_loop f (x # xs) a = None \<longleftrightarrow> (\<exists>y \<in> set (x # xs). snd (g y) = None)"
        using \<open>snd (g x) \<noteq> None\<close> unfolding e ih by auto
    next
      fix a'
      assume "run_loop f (x # xs) a = Some a'"
      then have "ma_out a' = ma_out a1 @ concat (map (piece \<circ> g) xs)"
        using Cons.IH [of a1] unfolding e by blast
      with assms(2) [OF Some] show "ma_out a' = ma_out a @ concat (map (piece \<circ> g) (x # xs))" by simp
    qed
  qed
qed simp

lemma merge_records_out:
  "(merge_records fp b ls rs = None \<longleftrightarrow>
      (\<exists>l \<in> set ls. snd (local_case fp b rs l) = None) \<or> (\<exists>r \<in> set rs. snd (remote_case fp b ls r) = None))
   \<and> (\<forall>a. merge_records fp b ls rs = Some a \<longrightarrow>
        ma_out a = concat (map (piece \<circ> local_case fp b rs) ls) @ concat (map (piece \<circ> remote_case fp b ls) rs))"
proof -
  let ?a0 = "\<lparr>ma_out = [], ma_added = 0, ma_removed = 0, ma_updated = 0\<rparr>"
  note L = run_loop_pieces [of "merge_local fp b rs" "local_case fp b rs", OF merge_local_case, of ls ?a0]
  note R = run_loop_pieces [of "merge_remote fp b ls" "remote_case fp b ls", OF merge_remote_case, of rs]
  show ?thesis
  proof (cases "run_loop (merge_local fp b rs) ls ?a0")
    case None
    with L show ?thesis by (auto simp: merge_records_def)
  next
    case (Some a1)
    with L R [of a1] show ?thesis by (auto simp: merge_records_def)
  qed
qed

subsection \<open>The merged list as a map\<close>

lemma keys_pieces: "(i, v) \<in> set (concat (map (piece \<circ> g) xs)) \<longleftrightarrow> (\<exists>x \<in> set xs. g x = (i, Some (Some v)))"
  by (force simp: piece_def split: option.splits)

lemma distinct_pieces:
  assumes "distinct (map fst xs)" "\<And>x. fst (g x) = fst x"
  shows "distinct (map fst (concat (map (piece \<circ> g) xs)))"
  using assms(1)
proof (induction xs)
  case (Cons x xs)
  have A: "fst ` set (piece (g x)) \<subseteq> {fst x}" and D: "distinct (map fst (piece (g x)))"
    using assms(2) [of x] by (auto simp: piece_def split: option.splits)
  have B: "fst ` set (concat (map (piece \<circ> g) xs)) \<subseteq> fst ` set xs"
  proof
    fix j
    assume "j \<in> fst ` set (concat (map (piece \<circ> g) xs))"
    then obtain v where "(j, v) \<in> set (concat (map (piece \<circ> g) xs))" by (auto simp del: set_concat)
    then obtain y where y: "y \<in> set xs" "g y = (j, Some (Some v))" unfolding keys_pieces by blast
    with assms(2) [of y] have "fst y = j" by simp
    with y(1) show "j \<in> fst ` set xs" by blast
  qed
  have apart: "X \<subseteq> {z} \<Longrightarrow> Y \<subseteq> Z \<Longrightarrow> z \<notin> Z \<Longrightarrow> X \<inter> Y = {}" for X Y Z and z :: string
    by blast
  have n: "fst x \<notin> fst ` set xs" using Cons.prems by simp
  have "distinct (map fst xs)" using Cons.prems by simp
  then have "distinct (map fst (concat (map (piece \<circ> g) xs)))" by (rule Cons.IH)
  with apart [OF A B n] D show ?case
    by (simp only: list.map concat.simps map_append distinct_append comp_def set_map simp_thms)
qed simp

lemma merged_lookup:
  assumes "jsmap_wf ls" "jsmap_wf rs" "merge_records fp b ls rs = Some a"
  shows "jsmap_wf (ma_out a)"
    and "settle fp b i (map_of ls i) (map_of rs i) = Some (map_of (ma_out a) i)"
proof -
  let ?L = "concat (map (piece \<circ> local_case fp b rs) ls)" and ?R = "concat (map (piece \<circ> remote_case fp b ls) rs)"
  have out: "ma_out a = ?L @ ?R"
    and ok: "\<forall>l \<in> set ls. snd (local_case fp b rs l) \<noteq> None" "\<forall>r \<in> set rs. snd (remote_case fp b ls r) \<noteq> None"
    using merge_records_out [of fp b ls rs] assms(3) by auto
  have dl: "distinct (map fst ?L)" and dr: "distinct (map fst ?R)"
    using assms(1,2) by (auto intro!: distinct_pieces simp: local_case_def remote_case_def)
  have lin: "(j, v) \<in> set ?L \<longleftrightarrow> (\<exists>x. map_of ls j = Some x \<and> settle fp b j (Some x) (map_of rs j) = Some (Some v))" for j v
    unfolding keys_pieces using assms(1) by (force simp: local_case_def)
  have rin: "(j, v) \<in> set ?R \<longleftrightarrow> map_of ls j = None \<and> (\<exists>y. map_of rs j = Some y \<and> settle fp b j None (Some y) = Some (Some v))" for j v
  proof -
    have "(j, v) \<in> set ?R \<longleftrightarrow> (\<exists>y. (j, y) \<in> set rs \<and> remote_case fp b ls (j, y) = (j, Some (Some v)))"
      unfolding keys_pieces
    proof
      assume "\<exists>x \<in> set rs. remote_case fp b ls x = (j, Some (Some v))"
      then obtain k y where "(k, y) \<in> set rs" "remote_case fp b ls (k, y) = (j, Some (Some v))" by auto
      moreover from this(2) have "k = j" by (simp add: remote_case_def)
      ultimately show "\<exists>y. (j, y) \<in> set rs \<and> remote_case fp b ls (j, y) = (j, Some (Some v))" by blast
    qed blast
    also have "\<dots> \<longleftrightarrow> (\<exists>y. map_of rs j = Some y \<and> remote_case fp b ls (j, y) = (j, Some (Some v)))"
      using assms(2) by simp
    also have "\<dots> \<longleftrightarrow> map_of ls j = None \<and> (\<exists>y. map_of rs j = Some y \<and> settle fp b j None (Some y) = Some (Some v))"
      by (auto simp add: remote_case_def map_of_eq_None_iff split: if_splits)
    finally show ?thesis .
  qed
  have "fst ` set ?L \<inter> fst ` set ?R = {}"
    using lin rin by (fastforce simp del: set_concat)
  with dl dr show wf: "jsmap_wf (ma_out a)" by (simp add: out del: set_concat)
  have mo: "map_of (ma_out a) i = Some v \<longleftrightarrow> (i, v) \<in> set ?L \<or> (i, v) \<in> set ?R" for v
    unfolding out by (simp only: map_of_eq_Some_iff [OF wf [unfolded out]] set_append Un_iff)
  show "settle fp b i (map_of ls i) (map_of rs i) = Some (map_of (ma_out a) i)"
  proof (cases "map_of ls i")
    case (Some x)
    then have "(i, x) \<in> set ls" by (rule map_of_Some_in)
    with ok(1) obtain w where w: "settle fp b i (Some x) (map_of rs i) = Some w"
      by (force simp: local_case_def)
    then have "map_of (ma_out a) i = Some v \<longleftrightarrow> w = Some v" for v
      using mo [of v] lin [of i v] rin [of i v] Some by auto
    then have "map_of (ma_out a) i = w" by (metis not_None_eq)
    with w Some show ?thesis by simp
  next
    case lN: None
    show ?thesis
    proof (cases "map_of rs i")
      case (Some y)
      then have "(i, y) \<in> set rs" by (rule map_of_Some_in)
      with ok(2) lN obtain w where w: "settle fp b i None (Some y) = Some w"
        by (force simp: remote_case_def map_of_eq_None_iff)
      then have "map_of (ma_out a) i = Some v \<longleftrightarrow> w = Some v" for v
        using mo [of v] lin [of i v] rin [of i v] Some lN by auto
      then have "map_of (ma_out a) i = w" by (metis not_None_eq)
      with w Some lN show ?thesis by simp
    next
      case None
      with lN mo lin rin have "map_of (ma_out a) i = None" by (metis not_None_eq option.distinct(1))
      with None lN show ?thesis by simp
    qed
  qed
qed

lemma asRecords_ids: "asRecords p = Some ls \<Longrightarrow> jsmap_wf ls \<and> (\<forall>(i, x) \<in> set ls. record_id x = Some i)"
proof -
  assume "asRecords p = Some ls"
  then obtain items ids where p: "p = Doc (JArr items)" "all_some (map record_id items) = Some ids"
    "distinct ids" "ls = zip ids items"
    by (auto simp: asRecords_def split: payload.splits json.splits option.splits if_splits)
  have len: "length ids = length items" using all_some_length [OF p(2)] by simp
  have m: "map record_id items = map Some ids" using p(2) by (simp add: all_some_eq_Some_iff)
  have "record_id x = Some i" if "(i, x) \<in> set (zip ids items)" for i x
  proof -
    from that obtain n where "n < length ids" "n < length items" "ids ! n = i" "items ! n = x"
      by (auto simp: in_set_zip)
    with m show ?thesis by (metis nth_map)
  qed
  with p len show ?thesis by auto
qed

lemma asRecords_Doc:
  assumes "jsmap_wf out" "\<forall>(i, v) \<in> set out. record_id v = Some i"
  shows "asRecords (Doc (JArr (map snd out))) = Some out"
proof -
  have "map record_id (map snd out) = map Some (map fst out)"
    using assms(2) by (auto simp: case_prod_unfold)
  then have "all_some (map record_id (map snd out)) = Some (map fst out)"
    by (simp only: all_some_eq_Some_iff)
  then show ?thesis using assms(1) by (simp add: asRecords_def zip_map_fst_snd)
qed

lemma settle_from: "settle fp b i l r = Some (Some v) \<Longrightarrow> l = Some v \<or> r = Some v"
  by (cases l; cases r) (auto split: if_splits)

lemma merge_Some:
  assumes "asRecords local = Some ls" "asRecords remote = Some rs"
    "mergeCollections fp (Some b) local remote = Some m"
  shows "\<exists>out. asRecords (mr_merged m) = Some out
    \<and> (\<forall>i. settle fp b i (map_of ls i) (map_of rs i) = Some (map_of out i))"
proof -
  from assms obtain a where a: "merge_records fp b ls rs = Some a" "mr_merged m = Doc (JArr (map snd (ma_out a)))"
    by (auto simp: mergeCollections_def)
  have ls: "jsmap_wf ls" "\<forall>(i, x) \<in> set ls. record_id x = Some i" using asRecords_ids [OF assms(1)] by auto
  have rs: "jsmap_wf rs" "\<forall>(i, x) \<in> set rs. record_id x = Some i" using asRecords_ids [OF assms(2)] by auto
  note L = merged_lookup [OF ls(1) rs(1) a(1)]
  have "record_id v = Some i" if "(i, v) \<in> set (ma_out a)" for i v
  proof -
    from that L(1) have "map_of (ma_out a) i = Some v" by simp
    with L(2) [of i] have "map_of ls i = Some v \<or> map_of rs i = Some v"
      using settle_from [of fp b i "map_of ls i" "map_of rs i" v] by simp
    with ls(2) rs(2) show ?thesis using map_of_Some_in by fastforce
  qed
  then have "asRecords (mr_merged m) = Some (ma_out a)"
    unfolding a(2) using L(1) by (intro asRecords_Doc) auto
  with L(2) show ?thesis by blast
qed

lemma merge_None:
  assumes "asRecords local = Some ls" "asRecords remote = Some rs"
  shows "mergeCollections fp (Some b) local remote = None \<longleftrightarrow>
    (\<exists>i. settle fp b i (map_of ls i) (map_of rs i) = None)"
proof
  have wf: "jsmap_wf ls" "jsmap_wf rs" using asRecords_ids assms by auto
  show "\<exists>i. settle fp b i (map_of ls i) (map_of rs i) = None"
    if "mergeCollections fp (Some b) local remote = None"
  proof -
    from that assms have "merge_records fp b ls rs = None" by (simp add: mergeCollections_def)
    then consider l where "l \<in> set ls" "snd (local_case fp b rs l) = None"
      | r where "r \<in> set rs" "snd (remote_case fp b ls r) = None"
      using merge_records_out [of fp b ls rs] by blast
    then show ?thesis
    proof cases
      case 1
      then have "map_of ls (fst l) = Some (snd l)" using wf(1) by simp
      with 1 show ?thesis by (intro exI [of _ "fst l"]) (simp add: local_case_def)
    next
      case 2
      then have "map_of rs (fst r) = Some (snd r)" "fst r \<notin> fst ` set ls"
        using wf(2) by (auto simp: remote_case_def split: if_splits)
      with 2 show ?thesis
        by (intro exI [of _ "fst r"]) (simp add: remote_case_def map_of_eq_None_iff [THEN iffD2])
    qed
  qed
  show "mergeCollections fp (Some b) local remote = None"
    if "\<exists>i. settle fp b i (map_of ls i) (map_of rs i) = None"
  proof (rule ccontr)
    assume "mergeCollections fp (Some b) local remote \<noteq> None"
    then obtain m where "mergeCollections fp (Some b) local remote = Some m" by blast
    from merge_Some [OF assms this] that show False by auto
  qed
qed

lemma settle_swap:
  assumes "\<And>x y. l = Some x \<Longrightarrow> r = Some y \<Longrightarrow> fp (canonical x) = fp (canonical y) \<Longrightarrow> canonical x = canonical y"
  shows "map_option (map_option canonical) (settle fp b i l r) = map_option (map_option canonical) (settle fp b i r l)"
proof (cases l)
  case (Some x)
  then show ?thesis
  proof (cases r)
    case y: (Some y)
    have "canonical x = canonical y" if "\<not> changed fp b i x" "\<not> changed fp b i y"
    proof -
      from that have "fp (canonical x) = fp (canonical y)" by (auto simp: changed_def)
      with assms Some y show ?thesis by blast
    qed
    then show ?thesis unfolding Some y
      by (cases "changed fp b i x"; cases "changed fp b i y"; simp)
  qed auto
qed (cases r; auto)

lemma settle_keeps_local:
  "settle fp b i (Some x) r = Some w \<Longrightarrow> changed fp b i x \<Longrightarrow> w = Some x"
  by (cases r) (auto simp: changed_def split: if_splits)

lemma settle_keeps_remote:
  "settle fp b i l (Some y) = Some w \<Longrightarrow> changed fp b i y \<Longrightarrow> map_option canonical w = Some (canonical y)"
  by (cases l) (auto simp: changed_def split: if_splits)

lemma settle_removed:
  "settle fp b i l r = Some None \<Longrightarrow> l = Some x \<or> r = Some x \<Longrightarrow> in_base b i \<and> \<not> changed fp b i x \<and> (l = None \<or> r = None)"
  by (cases l; cases r) (auto split: if_splits)

subsection \<open>Properties\<close>

text \<open>C33:
  The merge decides record by record and refuses exactly when some record needs a person:
  each id ends up as the three-way rule says, and no merge comes back exactly when for some
  id the rule has no answer (edited on both sides differently, or edited on one and removed
  on the other).\<close>

theorem merge_is_pointwise:
  assumes "asRecords local = Some ls" "asRecords remote = Some rs"
  shows "(mergeCollections fp (Some b) local remote = None \<longleftrightarrow>
            (\<exists>i. settle fp b i (map_of ls i) (map_of rs i) = None))
    \<and> (\<forall>m. mergeCollections fp (Some b) local remote = Some m \<longrightarrow>
         (\<exists>out. asRecords (mr_merged m) = Some out
            \<and> (\<forall>i. settle fp b i (map_of ls i) (map_of rs i) = Some (map_of out i))))"
  using merge_None [OF assms] merge_Some [OF assms] by blast

definition sample_record :: "string \<Rightarrow> string \<Rightarrow> json" where
  "sample_record i name = JObj [(''id'', JStr i), (''name'', JStr name)]"

definition sample_doc :: "json list \<Rightarrow> payload" where
  "sample_doc items = Doc (JArr items)"

theorem merge_is_pointwise_witness:
  "mergeCollections (\<lambda>_. ''f'') (Some []) (sample_doc [sample_record ''a'' ''x'']) (sample_doc [sample_record ''a'' ''y''])
     = None"
proof -
  have r: "asRecords (sample_doc [sample_record ''a'' n]) = Some [(''a'', sample_record ''a'' n)]" for n
    by (simp add: sample_doc_def sample_record_def asRecords_def record_id_def)
  show ?thesis
    unfolding merge_is_pointwise [OF r r, THEN conjunct1]
    by (intro exI [of _ "''a''"]) (simp add: changed_def in_base_def sample_record_def)
qed

text \<open>C34:
  No edit is lost. When a merge is made, every record that was added or edited on either
  device is in it with that content, and a record that is gone had been agreed before, is
  unchanged since, and was removed on the other device.\<close>

theorem merge_loses_no_edit:
  assumes "asRecords local = Some ls" "asRecords remote = Some rs"
    "mergeCollections fp (Some b) local remote = Some m" "asRecords (mr_merged m) = Some out"
  shows "((i, x) \<in> set ls \<and> changed fp b i x \<longrightarrow> map_of out i = Some x)
    \<and> ((i, x) \<in> set rs \<and> changed fp b i x \<longrightarrow> map_option canonical (map_of out i) = Some (canonical x))
    \<and> ((i, x) \<in> set ls \<union> set rs \<and> map_of out i = None \<longrightarrow>
         in_base b i \<and> \<not> changed fp b i x \<and> (map_of ls i = None \<or> map_of rs i = None))"
proof -
  from merge_Some [OF assms(1-3)] assms(4) have s: "settle fp b i (map_of ls i) (map_of rs i) = Some (map_of out i)"
    by auto
  have wf: "jsmap_wf ls" "jsmap_wf rs" using asRecords_ids assms(1,2) by auto
  have l: "(i, x) \<in> set ls \<Longrightarrow> map_of ls i = Some x" and r: "(i, x) \<in> set rs \<Longrightarrow> map_of rs i = Some x"
    using wf by auto
  show ?thesis
    using s l r settle_keeps_local [of fp b i x "map_of rs i" "map_of out i"]
      settle_keeps_remote [of fp b i "map_of ls i" x "map_of out i"]
      settle_removed [of fp b i "map_of ls i" "map_of rs i" x] by auto
qed

theorem merge_loses_no_edit_witness:
  "\<exists>m out. mergeCollections (\<lambda>_. ''f'') (Some []) (sample_doc [sample_record ''a'' ''x'']) (sample_doc []) = Some m
     \<and> asRecords (mr_merged m) = Some out \<and> map_of out ''a'' = Some (sample_record ''a'' ''x'')"
proof -
  have l: "asRecords (sample_doc [sample_record ''a'' ''x'']) = Some [(''a'', sample_record ''a'' ''x'')]"
    and r: "asRecords (sample_doc []) = Some []"
    by (simp_all add: sample_doc_def sample_record_def asRecords_def record_id_def)
  have "mergeCollections (\<lambda>_. ''f'') (Some []) (sample_doc [sample_record ''a'' ''x'']) (sample_doc []) \<noteq> None"
    by (simp add: mergeCollections_def l r merge_records_def merge_local_def in_base_def)
  then obtain m where m: "mergeCollections (\<lambda>_. ''f'') (Some []) (sample_doc [sample_record ''a'' ''x'']) (sample_doc []) = Some m"
    by blast
  from merge_Some [OF l r m] obtain out where out: "asRecords (mr_merged m) = Some out" by blast
  from merge_loses_no_edit [OF l r m out, of "''a''" "sample_record ''a'' ''x''"] m out
  show ?thesis by (auto simp: changed_def in_base_def)
qed



end
