(* ===== verification/Rules.thy ===== *)
theory Rules
  imports Jobs
begin

section \<open>Rules: what one is and when it applies (shared/rules.ts)\<close>

text \<open>
  A rule watches the alert log: on an event, matching a filter, run one pinned job or send
  one notice, within a rate limit. This theory has the vocabulary, the limit, the match, the
  check of a rule's own approval and the reader that rebuilds a rule from an untyped value,
  together with the reader of an alert row (shared/webhook.ts). A job's \<open>spec\<close> and
  \<open>approval\<close> are carried as the untyped values they are stored as.
\<close>

subsection \<open>\<open>Number\<close> of an untyped value\<close>

text \<open>
  \<open>Number(v)\<close>: an absent value and an object are not a number, null is zero, a list is its
  only element's text, a text is read by the literal grammar below. Rounding to a double is
  not modelled, except that a magnitude no double reaches is infinite.
\<close>

definition DOUBLE_LIMIT :: rat where "DOUBLE_LIMIT = 2 ^ 1024 - 2 ^ 970"

definition to_double :: "rat \<Rightarrow> jsnum" where
  "to_double x = (if x \<ge> DOUBLE_LIMIT then PosInf else if x \<le> - DOUBLE_LIMIT then NegInf else Fin x)"

definition hex_value :: "char \<Rightarrow> nat option" where
  "hex_value c =
     (if is_digit c then Some (code c - 48)
      else if 97 \<le> code c \<and> code c \<le> 102 then Some (code c - 87)
      else if 65 \<le> code c \<and> code c \<le> 70 then Some (code c - 55)
      else None)"

fun read_radix :: "nat \<Rightarrow> nat \<Rightarrow> string \<Rightarrow> nat option" where
  "read_radix b acc [] = Some acc"
| "read_radix b acc (c # cs) =
     (case hex_value c of
        None \<Rightarrow> None
      | Some d \<Rightarrow> if d < b then read_radix b (acc * b + d) cs else None)"

definition radix_number :: "nat \<Rightarrow> string \<Rightarrow> jsnum" where
  "radix_number b ds =
     (if ds = [] then NaN
      else case read_radix b 0 ds of None \<Rightarrow> NaN | Some n \<Rightarrow> to_double (of_nat n))"

text \<open>The exponent part of a decimal literal: absent, or \<open>e\<close> with an optional sign and digits.\<close>

definition exponent_part :: "string \<Rightarrow> int option" where
  "exponent_part s =
     (case s of
        [] \<Rightarrow> Some 0
      | c # cs \<Rightarrow>
          if lower_char c \<noteq> CHR ''e'' then None
          else let (sgn, ds) = (case cs of
                   [] \<Rightarrow> (1, [])
                 | d # ds \<Rightarrow> if d = CHR ''-'' then (- 1, ds) else if d = CHR ''+'' then (1, ds) else (1, cs))
               in map_option (\<lambda>n. sgn * int n) (parse_decimal ds))"

definition scale10 :: "rat \<Rightarrow> int \<Rightarrow> rat" where
  "scale10 x e = (if 0 \<le> e then x * 10 ^ nat e else x / 10 ^ nat (- e))"

definition unsigned_decimal :: "string \<Rightarrow> jsnum" where
  "unsigned_decimal s =
     (if s = ''Infinity'' then PosInf else
      let whole = takeWhile is_digit s; r1 = dropWhile is_digit s;
          dotted = (case r1 of c # _ \<Rightarrow> c = CHR ''.'' | [] \<Rightarrow> False);
          frac = (if dotted then takeWhile is_digit (tl r1) else []);
          r2 = (if dotted then dropWhile is_digit (tl r1) else r1)
      in if whole = [] \<and> frac = [] then NaN
         else case exponent_part r2 of
                None \<Rightarrow> NaN
              | Some e \<Rightarrow> to_double (scale10 (of_nat (read_digits 0 (whole @ frac)))
                                            (e - int (length frac))))"

fun negate :: "jsnum \<Rightarrow> jsnum" where
  "negate (Fin x) = Fin (- x)"
| "negate PosInf = NegInf"
| "negate NegInf = PosInf"
| "negate NaN = NaN"

definition number_of_text :: "string \<Rightarrow> jsnum" where
  "number_of_text text =
     (let s = trim text in
      case s of
        [] \<Rightarrow> Fin 0
      | c # cs \<Rightarrow>
          if c = CHR ''-'' then negate (unsigned_decimal cs)
          else if c = CHR ''+'' then unsigned_decimal cs
          else case cs of
                 d # ds \<Rightarrow>
                   if c = CHR ''0'' \<and> lower_char d = CHR ''x'' then radix_number 16 ds
                   else if c = CHR ''0'' \<and> lower_char d = CHR ''o'' then radix_number 8 ds
                   else if c = CHR ''0'' \<and> lower_char d = CHR ''b'' then radix_number 2 ds
                   else unsigned_decimal s
               | [] \<Rightarrow> unsigned_decimal s)"

text \<open>An element of a list is turned into text first, so a truth value in a list is no number.\<close>

fun number_of_element :: "json \<Rightarrow> jsnum" where
  "number_of_element JNull = Fin 0"
| "number_of_element (JNum x) = x"
| "number_of_element (JStr s) = number_of_text s"
| "number_of_element (JArr []) = Fin 0"
| "number_of_element (JArr [x]) = number_of_element x"
| "number_of_element _ = NaN"

fun js_number :: "json option \<Rightarrow> jsnum" where
  "js_number None = NaN"
| "js_number (Some (JBool b)) = Fin (if b then 1 else 0)"
| "js_number (Some v) = number_of_element v"

subsection \<open>Clause one: the event\<close>

definition ALERT_KINDS :: "string list" where
  "ALERT_KINDS =
     [''cpu'', ''memory'', ''disk'', ''unit-failed'', ''inode'', ''load'', ''host-unreachable'',
      ''job-failed'', ''tunnel-down'', ''db-alarm'', ''db-watch'', ''oom-kill'', ''cert-expiry'',
      ''backup-failed'', ''vpn-down'', ''vpn-degraded'', ''vpn-cert-expiry'', ''pod-crashloop'',
      ''service-down'', ''error-rate'']"

definition NUMERIC_ALERT_KINDS :: "string list" where
  "NUMERIC_ALERT_KINDS =
     [''cpu'', ''ram'', ''disk'', ''inode'', ''load'', ''cert-expiry'', ''vpn-cert-expiry'',
      ''error-rate'']"

definition STATE_ALERT_KINDS :: "string list" where
  "STATE_ALERT_KINDS =
     [''host-unreachable'', ''job-failed'', ''tunnel-down'', ''oom-kill'', ''backup-failed'',
      ''vpn-down'', ''vpn-degraded'', ''pod-crashloop'', ''service-down'']"

definition EVENT_ALERT_KINDS :: "string list" where
  "EVENT_ALERT_KINDS = [''db-alarm'', ''db-watch'']"

definition STORE_ALERT_KINDS :: "string list" where
  "STORE_ALERT_KINDS = NUMERIC_ALERT_KINDS @ STATE_ALERT_KINDS @ EVENT_ALERT_KINDS"

definition STORED_ALERT_EVENTS :: "string list" where
  "STORED_ALERT_EVENTS =
     [''raised'', ''resolved'', ''stood-down'', ''snoozed'', ''acknowledged'']"

definition RULE_ALERT_KINDS :: "string list" where
  "RULE_ALERT_KINDS = filter (\<lambda>k. k \<in> set ALERT_KINDS) STORE_ALERT_KINDS"

definition RULE_TRIGGER_EVENTS :: "string list" where
  "RULE_TRIGGER_EVENTS = [''raised'', ''resolved'']"

subsection \<open>An alert row\<close>

record StoredAlertEvent =
  sa_event :: string
  sa_kind :: string
  sa_serverId :: string
  sa_serverName :: string
  sa_value :: "rat option"
  sa_threshold :: "rat option"
  sa_detail :: "string option"
  sa_until :: "rat option"

text \<open>A row with the store's own time stamp.\<close>

record StoredAlertRow = StoredAlertEvent +
  sa_at :: rat

definition ALERT_MAX_NAME :: nat where "ALERT_MAX_NAME = 200"

text \<open>The class \<open>[A-Za-z0-9 ._@:-]\<close>.\<close>

definition detail_char :: "char \<Rightarrow> bool" where
  "detail_char c = (is_alpha c \<or> is_digit c \<or> c \<in> set '' ._@:-'')"

text \<open>\<open>xs.find(x => x === v)\<close> over a list of texts.\<close>

definition find_text :: "string list \<Rightarrow> json option \<Rightarrow> string option" where
  "find_text xs v = find (\<lambda>x. v = Some (JStr x)) xs"

definition short_text :: "nat \<Rightarrow> json option \<Rightarrow> string" where
  "short_text n v = (case as_string v of Some s \<Rightarrow> take n s | None \<Rightarrow> [])"

definition sanitiseStoredAlert :: "json \<Rightarrow> StoredAlertEvent option" where
  "sanitiseStoredAlert raw =
     (if \<not> is_object raw then None else
      case (find_text STORED_ALERT_EVENTS (field_of raw ''event''),
            find_text STORE_ALERT_KINDS (field_of raw ''kind''),
            as_string (field_of raw ''serverId'')) of
        (Some event, Some kind, Some server) \<Rightarrow>
          if server = [] then None
          else Some
            \<lparr>sa_event = event, sa_kind = kind, sa_serverId = take ALERT_MAX_NAME server,
             sa_serverName = short_text ALERT_MAX_NAME (field_of raw ''serverName''),
             sa_value = as_finite (field_of raw ''value''),
             sa_threshold = as_finite (field_of raw ''threshold''),
             sa_detail = (case as_string (field_of raw ''detail'') of
                 None \<Rightarrow> None
               | Some s \<Rightarrow> let d = trim (filter detail_char (take ALERT_MAX_NAME s)) in
                           if d = [] then None else Some d),
             sa_until = as_finite (field_of raw ''until'')\<rparr>
      | _ \<Rightarrow> None)"

definition alert_row :: "StoredAlertEvent \<Rightarrow> rat \<Rightarrow> StoredAlertRow" where
  "alert_row a when = StoredAlertEvent.extend (StoredAlertEvent.truncate a) (StoredAlertRow.fields when)"

subsection \<open>Clauses two and three: the filter and the action\<close>

record RuleTrigger =
  rt_kind :: string
  rt_event :: string

record RuleFilter =
  rf_serverId :: "string option"
  rf_minValue :: "rat option"

datatype RuleAction = RunJob json "ApprovalTargetRef list" "json option" | Notify

text \<open>
  The fields of a stored \<open>spec\<close> as the planner and the approval check read them. A field of
  another type than \<open>JobSpec\<close> declares reads as absent.
\<close>

definition as_bool :: "json option \<Rightarrow> bool option" where
  "as_bool v = (case v of Some (JBool b) \<Rightarrow> Some b | _ \<Rightarrow> None)"

definition as_whole :: "json option \<Rightarrow> int option" where
  "as_whole v = map_option floor (as_finite v)"

definition step_view :: "json \<Rightarrow> JobStep" where
  "step_view s =
     \<lparr>js_command = nullish (as_string (field_of s ''command'')) [],
      js_timeoutMs = as_whole (field_of s ''timeoutMs''),
      js_reboot = as_bool (field_of s ''reboot'')\<rparr>"

definition gate_view :: "json option \<Rightarrow> JobGate option" where
  "gate_view v =
     (if v = Some (JStr ''none'') then Some GateNone
      else if v = Some (JStr ''health'') then Some GateHealth else None)"

definition spec_view :: "json \<Rightarrow> JobSpec" where
  "spec_view spec =
     \<lparr>sp_kind = (if field_of spec ''kind'' = Some (JStr ''patch'') then KPatch else KCommand),
      sp_title = nullish (as_string (field_of spec ''title'')) [],
      sp_steps = map step_view (nullish (as_array (field_of spec ''steps'')) []),
      sp_concurrency = as_whole (field_of spec ''concurrency''),
      sp_gate = gate_view (field_of spec ''gate''),
      sp_rollback = map_option (map step_view) (as_array (field_of spec ''rollback''))\<rparr>"

subsection \<open>The rate limit\<close>

record RuleLimit =
  rl_maxFirings :: int
  rl_windowMs :: int

definition RULE_LIMIT_DEFAULT :: RuleLimit where
  "RULE_LIMIT_DEFAULT = \<lparr>rl_maxFirings = 1, rl_windowMs = 3600000\<rparr>"

definition RULE_LIMIT_MIN_WINDOW_MS :: int where "RULE_LIMIT_MIN_WINDOW_MS = 60000"
definition RULE_LIMIT_MAX_WINDOW_MS :: int where "RULE_LIMIT_MAX_WINDOW_MS = 7 * 86400000"
definition RULE_LIMIT_MAX_FIRINGS :: int where "RULE_LIMIT_MAX_FIRINGS = 60"

definition clampRuleLimit :: "json option \<Rightarrow> RuleLimit" where
  "clampRuleLimit raw =
     (let read = (\<lambda>k. js_number (Option.bind raw (\<lambda>r. field_of r k)))
      in \<lparr>rl_maxFirings = (case read ''maxFirings'' of
             Fin n \<Rightarrow> max 1 (min RULE_LIMIT_MAX_FIRINGS (floor n))
           | _ \<Rightarrow> rl_maxFirings RULE_LIMIT_DEFAULT),
          rl_windowMs = (case read ''windowMs'' of
             Fin n \<Rightarrow> max RULE_LIMIT_MIN_WINDOW_MS (min RULE_LIMIT_MAX_WINDOW_MS (floor n))
           | _ \<Rightarrow> rl_windowMs RULE_LIMIT_DEFAULT)\<rparr>)"

record RuleLimitVerdict =
  lv_allowed :: bool
  lv_fired :: "rat list"
  lv_nextAllowedAt :: "rat option"

definition checkRuleLimit :: "rat list \<Rightarrow> rat \<Rightarrow> RuleLimit \<Rightarrow> RuleLimitVerdict" where
  "checkRuleLimit fired now limit =
     (let recent = sort (filter (\<lambda>t. now - t < of_int (rl_windowMs limit)) fired)
      in if int (length recent) \<ge> rl_maxFirings limit
         then \<lparr>lv_allowed = False, lv_fired = recent,
               lv_nextAllowedAt = Some (hd recent + of_int (rl_windowMs limit))\<rparr>
         else \<lparr>lv_allowed = True, lv_fired = recent @ [now], lv_nextAllowedAt = None\<rparr>)"

subsection \<open>The rule\<close>

record Rule =
  ru_id :: string
  ru_name :: string
  ru_enabled :: bool
  ru_trigger :: RuleTrigger
  ru_filter :: RuleFilter
  ru_action :: RuleAction
  ru_limit :: RuleLimit
  ru_armedAt :: rat
  ru_unattendedAt :: rat

record RuleStatus =
  rs_ruleId :: string
  rs_fired :: "rat list"
  rs_lastFiredAt :: "rat option"
  rs_suppressed :: nat
  rs_refusal :: "string option"
  rs_refusedAt :: "rat option"

definition ruleMatches :: "Rule \<Rightarrow> StoredAlertRow \<Rightarrow> bool" where
  "ruleMatches rule row =
     (if \<not> ru_enabled rule then False
      else if \<not> sa_at row > ru_armedAt rule then False
      else if sa_kind row \<noteq> rt_kind (ru_trigger rule) then False
      else if sa_event row \<noteq> rt_event (ru_trigger rule) then False
      else if rf_serverId (ru_filter rule) \<noteq> None \<and> Some (sa_serverId row) \<noteq> rf_serverId (ru_filter rule)
        then False
      else (case rf_minValue (ru_filter rule) of
          None \<Rightarrow> True
        | Some m \<Rightarrow> (case sa_value row of None \<Rightarrow> False | Some v \<Rightarrow> \<not> v < m)))"

definition ruleJobPlan :: "json \<Rightarrow> ApprovalTargetRef list \<Rightarrow> JobPlan" where
  "ruleJobPlan spec targets = planJob (spec_view spec) targets"

definition RULE_UNATTENDED_PHRASE :: string where
  "RULE_UNATTENDED_PHRASE = ''UNATTENDED''"

definition isLegacyRulePhrase :: "Rule \<Rightarrow> bool" where
  "isLegacyRulePhrase rule =
     (case ru_action rule of
        RunJob spec targets (Some approval) \<Rightarrow>
          field_of approval ''phrase'' = Some (JStr RULE_UNATTENDED_PHRASE)
          \<and> (case field_of approval ''confirmation'' of
               None \<Rightarrow> False
             | Some confirmation \<Rightarrow>
                 field_of confirmation ''kind'' = Some (JStr ''type-to-confirm'')
                 \<and> field_of confirmation ''phrase'' \<noteq> Some (JStr RULE_UNATTENDED_PHRASE))
      | _ \<Rightarrow> False)"

text \<open>An approval that is absent fails the check as one that is null does.\<close>

definition verifyRuleAction :: "Rule \<Rightarrow> ApprovalVerdict" where
  "verifyRuleAction rule =
     (case ru_action rule of
        Notify \<Rightarrow> Allowed
      | RunJob spec targets approval \<Rightarrow>
          (case verifyJobApproval (nullish approval JNull) (spec_view spec) targets of
             Allowed \<Rightarrow> Allowed
           | Refused why \<Rightarrow> if isLegacyRulePhrase rule then Refused RecordedBeforeFix else Refused why))"

fun ruleCreationConfirmation :: "RuleAction \<Rightarrow> BroadcastConfirmation" where
  "ruleCreationConfirmation Notify = Confirm"
| "ruleCreationConfirmation (RunJob _ _ _) = TypeToConfirm RULE_UNATTENDED_PHRASE"

subsection \<open>The notice a rule sends\<close>

datatype RuleOutcome = Notified | JobStarted | JobRefused

fun OUTCOME_WORDS :: "RuleOutcome \<Rightarrow> string" where
  "OUTCOME_WORDS Notified = ''matched''"
| "OUTCOME_WORDS JobStarted = ''started''"
| "OUTCOME_WORDS JobRefused = ''refused to start''"

record RuleNotice =
  rn_event :: string
  rn_kind :: string
  rn_server :: string
  rn_summary :: string
  rn_value :: "rat option"
  rn_threshold :: "rat option"

definition quotation_mark :: char where "quotation_mark = CHR 0x22"

definition ruleNotice :: "Rule \<Rightarrow> StoredAlertRow \<Rightarrow> RuleOutcome \<Rightarrow> RuleNotice" where
  "ruleNotice rule row out =
     (let what = (case ru_action rule of
            RunJob spec targets _ \<Rightarrow>
              OUTCOME_WORDS out @ '' the job '' @ [quotation_mark] @ sp_title (spec_view spec)
              @ [quotation_mark] @ '' on '' @ show_nat (length targets) @ '' server(s)''
          | Notify \<Rightarrow> OUTCOME_WORDS out)
      in \<lparr>rn_event = ''raised'', rn_kind = rt_kind (ru_trigger rule), rn_server = sa_serverName row,
          rn_summary = ''OpsMaxx rule '' @ [quotation_mark] @ ru_name rule @ [quotation_mark]
            @ '' '' @ what @ '' after a '' @ rt_kind (ru_trigger rule) @ '' alert ''
            @ rt_event (ru_trigger rule) @ ''.'',
          rn_value = sa_value row, rn_threshold = sa_threshold row\<rparr>)"

subsection \<open>Reading a rule back\<close>

definition MAX_NAME :: nat where "MAX_NAME = 120"
definition MAX_RULES :: nat where "MAX_RULES = 200"

definition object_field :: "json \<Rightarrow> string \<Rightarrow> json" where
  "object_field r k = (case field_of r k of Some v \<Rightarrow> if is_object v then v else JNull | None \<Rightarrow> JNull)"

text \<open>One target of a stored job action; None where the source gives the whole rule up.\<close>

definition read_rule_target :: "json \<Rightarrow> ApprovalTargetRef option" where
  "read_rule_target t =
     (case as_string (field_of t ''serverId'') of
        None \<Rightarrow> None
      | Some server \<Rightarrow>
          if server = [] then None
          else Some \<lparr>serverId = server, serverName = short_text MAX_NAME (field_of t ''serverName''),
                     cohort = as_string (field_of t ''cohort'')\<rparr>)"

definition has_command :: "json \<Rightarrow> bool" where
  "has_command s = (case as_string (field_of s ''command'') of None \<Rightarrow> False | Some cmd \<Rightarrow> cmd \<noteq> [])"

definition sanitise_action :: "json \<Rightarrow> RuleAction option" where
  "sanitise_action act =
     (if field_of act ''type'' = Some (JStr ''job'') then
        (case field_of act ''spec'' of None \<Rightarrow> None | Some spec \<Rightarrow>
         if \<not> is_object spec then None else
         case as_array (field_of act ''targets'') of None \<Rightarrow> None | Some ts \<Rightarrow>
         if ts = [] then None else
         case as_array (field_of spec ''steps'') of None \<Rightarrow> None | Some steps \<Rightarrow>
         if steps = [] then None
         else if list_ex (\<lambda>s. \<not> has_command s) steps then None
         else case all_some (map read_rule_target ts) of
                None \<Rightarrow> None
              | Some targets \<Rightarrow> Some (RunJob spec targets (field_of act ''approval'')))
      else if field_of act ''type'' = Some (JStr ''notify'') then Some Notify
      else None)"

definition sanitise_filter :: "json \<Rightarrow> RuleFilter" where
  "sanitise_filter f =
     \<lparr>rf_serverId = (case as_string (field_of f ''serverId'') of
          None \<Rightarrow> None | Some s \<Rightarrow> if s = [] then None else Some (take MAX_NAME s)),
      rf_minValue = as_finite (field_of f ''minValue'')\<rparr>"

definition finite_or_zero :: "json option \<Rightarrow> rat" where
  "finite_or_zero v = nullish (as_finite v) 0"

definition sanitiseRule :: "json \<Rightarrow> Rule option" where
  "sanitiseRule r =
     (if \<not> is_object r then None else
      case as_string (field_of r ''id'') of None \<Rightarrow> None | Some i \<Rightarrow>
      if i = [] then None else
      let trig = object_field r ''trigger'' in
      case (find_text RULE_ALERT_KINDS (field_of trig ''kind''),
            find_text RULE_TRIGGER_EVENTS (field_of trig ''event'')) of
        (Some kind, Some event) \<Rightarrow>
          if event \<notin> set STORED_ALERT_EVENTS then None
          else (case sanitise_action (object_field r ''action'') of
             None \<Rightarrow> None
           | Some action \<Rightarrow> Some
               \<lparr>ru_id = take MAX_NAME i, ru_name = short_text MAX_NAME (field_of r ''name''),
                ru_enabled = (field_of r ''enabled'' = Some (JBool True)),
                ru_trigger = \<lparr>rt_kind = kind, rt_event = event\<rparr>,
                ru_filter = sanitise_filter (object_field r ''filter''),
                ru_action = action, ru_limit = clampRuleLimit (field_of r ''limit''),
                ru_armedAt = finite_or_zero (field_of r ''armedAt''),
                ru_unattendedAt = finite_or_zero (field_of r ''unattendedAt'')\<rparr>)
      | _ \<Rightarrow> None)"

fun sanitise_entries :: "json list \<Rightarrow> Rule list \<Rightarrow> Rule list" where
  "sanitise_entries [] out = out"
| "sanitise_entries (entry # rest) out =
     (case sanitiseRule entry of
        None \<Rightarrow> sanitise_entries rest out
      | Some rule \<Rightarrow>
          if ru_id rule \<in> ru_id ` set out then sanitise_entries rest out
          else sanitise_entries rest (out @ [rule]))"

definition sanitiseRules :: "json option \<Rightarrow> Rule list" where
  "sanitiseRules raw =
     (case raw of Some (JArr entries) \<Rightarrow> sanitise_entries (take MAX_RULES entries) [] | _ \<Rightarrow> [])"

end
