(* ===== verification/Rule_Engine.thy ===== *)
theory Rule_Engine
  imports Rules "HOL-Library.Product_Lexorder"
begin

section \<open>The rule engine (main/services/rules.ts)\<close>

text \<open>
  One engine: the rules, a ledger of firings per rule, and a watermark into the alert log.
  Everything it does to the world is written down in order in \<open>re_trace\<close>, so a process that
  dies in the middle of a sweep has done a prefix of the trace and finds on its disk the last
  file that prefix wrote. An operation runs to its end before the next begins; the clock is
  read once per operation. What the engine is handed (the clock, fresh ids, the resolver of a
  host, the job runner, the sentence for a refusal) is an argument.
\<close>

subsection \<open>The alert log\<close>

record EventCursor =
  ec_ts :: rat
  ec_id :: rat

record HistoryEvent =
  he_ts :: rat
  he_id :: rat
  he_kind :: string
  he_payload :: "json option"

definition cursor_of :: "HistoryEvent \<Rightarrow> EventCursor" where
  "cursor_of e = \<lparr>ec_ts = he_ts e, ec_id = he_id e\<rparr>"

definition position :: "EventCursor \<Rightarrow> rat \<times> rat" where
  "position c = (ec_ts c, ec_id c)"

definition ALERT_HISTORY_KIND :: string where "ALERT_HISTORY_KIND = ''alert''"

text \<open>The statement behind \<open>readEvents\<close>: one kind, a lower bound, newest first, at most a page.\<close>

definition selected :: "rat \<Rightarrow> EventCursor option \<Rightarrow> HistoryEvent \<Rightarrow> bool" where
  "selected from cur e =
     (he_kind e = ALERT_HISTORY_KIND \<and> from \<le> he_ts e
      \<and> (case cur of
           None \<Rightarrow> True
         | Some c \<Rightarrow> he_ts e \<le> ec_ts c \<and> (he_ts e < ec_ts c \<or> he_id e < ec_id c)))"

definition newest_first :: "HistoryEvent list \<Rightarrow> HistoryEvent list" where
  "newest_first es = rev (sort_key (\<lambda>e. (he_ts e, he_id e)) es)"

definition readEvents :: "HistoryEvent list \<Rightarrow> rat \<Rightarrow> nat \<Rightarrow> EventCursor option \<Rightarrow> HistoryEvent list" where
  "readEvents logged from limit cur = take limit (newest_first (filter (selected from cur) logged))"

subsection \<open>The state and the world\<close>

record RuleJobLaunch =
  la_jobId :: string
  la_spec :: json
  la_approval :: "json option"
  la_targets :: "(ApprovalTargetRef \<times> json) list"

datatype RuleEffect =
    Wrote json
  | Recorded string "string option" json rat
  | Told RuleNotice
  | Launched RuleJobLaunch

record RuleEngineDeps =
  de_newId :: "nat \<Rightarrow> string"
  de_resolveTarget :: "string \<Rightarrow> json option"
  de_runJob :: "RuleJobLaunch \<Rightarrow> string option"
  de_sentence :: "ApprovalRefusal \<Rightarrow> string"

record RuleEngine =
  re_rules :: "Rule list"
  re_status :: "(string, RuleStatus) jsmap"
  re_watermark :: "EventCursor option"
  re_ids :: nat
  re_trace :: "RuleEffect list"

record RuleSweepResult =
  sr_read :: nat
  sr_fired :: nat
  sr_suppressed :: nat
  sr_refused :: nat
  sr_skipped :: nat

definition did :: "RuleEffect \<Rightarrow> RuleEngine \<Rightarrow> RuleEngine" where
  "did eff e = e\<lparr>re_trace := re_trace e @ [eff]\<rparr>"

definition emptyStatus :: "string \<Rightarrow> RuleStatus" where
  "emptyStatus i =
     \<lparr>rs_ruleId = i, rs_fired = [], rs_lastFiredAt = None, rs_suppressed = 0, rs_refusal = None,
      rs_refusedAt = None\<rparr>"

subsection \<open>The file\<close>

definition num :: "rat \<Rightarrow> json" where "num x = JNum (Fin x)"

definition opt_num :: "string \<Rightarrow> rat option \<Rightarrow> (string \<times> json) list" where
  "opt_num k v = (case v of None \<Rightarrow> [] | Some x \<Rightarrow> [(k, num x)])"

definition action_json :: "RuleAction \<Rightarrow> json" where
  "action_json a =
     (case a of
        Notify \<Rightarrow> JObj [(''type'', JStr ''notify'')]
      | RunJob spec targets approval \<Rightarrow>
          JObj ([(''type'', JStr ''job''), (''spec'', spec), (''targets'', JArr (map target_json targets))]
                @ (case approval of None \<Rightarrow> [] | Some v \<Rightarrow> [(''approval'', v)])))"

definition limit_json :: "RuleLimit \<Rightarrow> json" where
  "limit_json l = JObj [(''maxFirings'', num (of_int (rl_maxFirings l))),
                        (''windowMs'', num (of_int (rl_windowMs l)))]"

definition rule_json :: "Rule \<Rightarrow> json" where
  "rule_json r = JObj
     [(''id'', JStr (ru_id r)), (''name'', JStr (ru_name r)), (''enabled'', JBool (ru_enabled r)),
      (''trigger'', JObj [(''kind'', JStr (rt_kind (ru_trigger r))),
                          (''event'', JStr (rt_event (ru_trigger r)))]),
      (''filter'', JObj (opt_field ''serverId'' (rf_serverId (ru_filter r))
                         @ opt_num ''minValue'' (rf_minValue (ru_filter r)))),
      (''action'', action_json (ru_action r)), (''limit'', limit_json (ru_limit r)),
      (''armedAt'', num (ru_armedAt r)), (''unattendedAt'', num (ru_unattendedAt r))]"

definition status_json :: "RuleStatus \<Rightarrow> json" where
  "status_json s = JObj
     ([(''ruleId'', JStr (rs_ruleId s)), (''fired'', JArr (map num (rs_fired s))),
       (''suppressed'', num (of_nat (rs_suppressed s)))]
      @ opt_num ''lastFiredAt'' (rs_lastFiredAt s) @ opt_field ''refusal'' (rs_refusal s)
      @ opt_num ''refusedAt'' (rs_refusedAt s))"

definition cursor_json :: "EventCursor \<Rightarrow> json" where
  "cursor_json c = JObj [(''ts'', num (ec_ts c)), (''id'', num (ec_id c))]"

definition file_json :: "RuleEngine \<Rightarrow> json" where
  "file_json e = JObj
     [(''v'', num 1),
      (''watermark'', (case re_watermark e of None \<Rightarrow> JNull | Some c \<Rightarrow> cursor_json c)),
      (''rules'', JArr (map rule_json (re_rules e))),
      (''status'', JArr (map (status_json \<circ> snd) (re_status e)))]"

definition sanitiseStatus :: "json \<Rightarrow> RuleStatus option" where
  "sanitiseStatus r =
     (if \<not> is_object r then None else
      case as_string (field_of r ''ruleId'') of None \<Rightarrow> None | Some i \<Rightarrow>
      if i = [] then None else Some
        \<lparr>rs_ruleId = i,
         rs_fired = List.map_filter (\<lambda>t. as_finite (Some t))
           (nullish (as_array (field_of r ''fired'')) []),
         rs_lastFiredAt = as_finite (field_of r ''lastFiredAt''),
         rs_suppressed = (case as_finite (field_of r ''suppressed'') of
             None \<Rightarrow> 0 | Some x \<Rightarrow> nat (floor x)),
         rs_refusal = (case as_string (field_of r ''refusal'') of
             None \<Rightarrow> None | Some s \<Rightarrow> if s = [] then None else Some s),
         rs_refusedAt = as_finite (field_of r ''refusedAt'')\<rparr>)"

definition sanitiseWatermark :: "json option \<Rightarrow> EventCursor option" where
  "sanitiseWatermark raw =
     (case raw of
        None \<Rightarrow> None
      | Some r \<Rightarrow>
          if \<not> is_object r then None
          else case (as_finite (field_of r ''ts''), as_finite (field_of r ''id'')) of
                 (Some ts, Some i) \<Rightarrow> Some \<lparr>ec_ts = ts, ec_id = i\<rparr>
               | _ \<Rightarrow> None)"

definition load_status :: "string list \<Rightarrow> json \<Rightarrow> (string, RuleStatus) jsmap \<Rightarrow> (string, RuleStatus) jsmap" where
  "load_status kept s m =
     (case sanitiseStatus s of
        None \<Rightarrow> m
      | Some parsed \<Rightarrow>
          if rs_ruleId parsed \<in> set kept then AList.update (rs_ruleId parsed) parsed m else m)"

definition ensure_status :: "string \<Rightarrow> (string, RuleStatus) jsmap \<Rightarrow> (string, RuleStatus) jsmap" where
  "ensure_status i m = (if map_of m i = None then AList.update i (emptyStatus i) m else m)"

text \<open>
  \<open>load\<close> on a fresh engine: \<open>raw\<close> is what \<open>read()\<close> returned, \<open>ids\<close> how many ids have been given
  out so far (the source draws them at random).
\<close>

definition load :: "nat \<Rightarrow> json \<Rightarrow> RuleEngine" where
  "load ids raw =
     (let file = (if is_object raw then raw else JObj []);
          rules = sanitiseRules (field_of file ''rules'');
          kept = map ru_id rules;
          read = fold (load_status kept) (nullish (as_array (field_of file ''status'')) []) []
      in \<lparr>re_rules = rules, re_status = fold ensure_status kept read,
          re_watermark = sanitiseWatermark (field_of file ''watermark''), re_ids = ids, re_trace = []\<rparr>)"

definition persist :: "RuleEngine \<Rightarrow> RuleEngine" where
  "persist e = did (Wrote (file_json e)) e"

definition statusFor :: "RuleEngine \<Rightarrow> string \<Rightarrow> RuleStatus" where
  "statusFor e i = nullish (map_of (re_status e) i) (emptyStatus i)"

definition put_status :: "string \<Rightarrow> RuleStatus \<Rightarrow> RuleEngine \<Rightarrow> RuleEngine" where
  "put_status i s e = e\<lparr>re_status := AList.update i s (re_status e)\<rparr>"

subsection \<open>Writing, switching and removing a rule\<close>

record RuleView =
  rv_rule :: Rule
  rv_status :: RuleStatus
  rv_verdict :: ApprovalVerdict

text \<open>\<open>list\<close> makes an empty status for a rule that has none and keeps it.\<close>

definition list_rules :: "RuleEngine \<Rightarrow> RuleEngine \<times> RuleView list" where
  "list_rules e =
     (let e' = e\<lparr>re_status := fold ensure_status (map ru_id (re_rules e)) (re_status e)\<rparr>
      in (e', map (\<lambda>r. \<lparr>rv_rule = r, rv_status = statusFor e' (ru_id r),
                        rv_verdict = verifyRuleAction r\<rparr>) (re_rules e)))"

record RuleDraft =
  rd_name :: string
  rd_trigger :: json
  rd_filter :: "json option"
  rd_limit :: "json option"
  rd_action :: json
  rd_unattended :: bool

definition is_job_action :: "json \<Rightarrow> bool" where
  "is_job_action a = (field_of a ''type'' = Some (JStr ''job''))"

definition drafted_rule :: "RuleDraft \<Rightarrow> string \<Rightarrow> rat \<Rightarrow> json" where
  "drafted_rule draft i now = JObj
     [(''id'', JStr i), (''name'', JStr (take 120 (rd_name draft))), (''enabled'', JBool True),
      (''trigger'', rd_trigger draft),
      (''filter'', nullish (rd_filter draft) (JObj [])), (''action'', rd_action draft),
      (''limit'', limit_json (clampRuleLimit (rd_limit draft))), (''armedAt'', num now),
      (''unattendedAt'', num (if is_job_action (rd_action draft) then now else 0))]"

definition create :: "RuleEngineDeps \<Rightarrow> rat \<Rightarrow> RuleDraft \<Rightarrow> RuleEngine \<Rightarrow> RuleEngine \<times> RuleView option" where
  "create deps now draft e =
     (if is_job_action (rd_action draft) \<and> \<not> rd_unattended draft then (e, None)
      else
        let i = de_newId deps (re_ids e); e1 = e\<lparr>re_ids := Suc (re_ids e)\<rparr>
        in case sanitiseRules (Some (JArr [drafted_rule draft i now])) of
             [] \<Rightarrow> (e1, None)
           | checked # _ \<Rightarrow>
               let e2 = e1\<lparr>re_watermark := (case re_watermark e of
                              None \<Rightarrow> Some \<lparr>ec_ts = now, ec_id = 0\<rparr> | Some c \<Rightarrow> Some c),
                           re_rules := re_rules e @ [checked],
                           re_status := AList.update (ru_id checked) (emptyStatus (ru_id checked))
                             (re_status e)\<rparr>;
                   (e4, views) = list_rules (persist e2)
               in (e4, find (\<lambda>v. ru_id (rv_rule v) = ru_id checked) views))"

text \<open>The first rule of that id is changed in place.\<close>

fun switch_first :: "string \<Rightarrow> bool \<Rightarrow> rat \<Rightarrow> Rule list \<Rightarrow> Rule list" where
  "switch_first i on now [] = []"
| "switch_first i on now (r # rs) =
     (if ru_id r = i
      then r\<lparr>ru_enabled := on, ru_armedAt := (if on then now else ru_armedAt r)\<rparr> # rs
      else r # switch_first i on now rs)"

definition setEnabled :: "rat \<Rightarrow> string \<Rightarrow> bool \<Rightarrow> RuleEngine \<Rightarrow> RuleEngine \<times> bool" where
  "setEnabled now i on e =
     (if find (\<lambda>r. ru_id r = i) (re_rules e) = None then (e, False)
      else (persist (e\<lparr>re_rules := switch_first i on now (re_rules e)\<rparr>), True))"

definition remove :: "string \<Rightarrow> RuleEngine \<Rightarrow> RuleEngine \<times> bool" where
  "remove i e =
     (let kept = filter (\<lambda>r. ru_id r \<noteq> i) (re_rules e)
      in if length kept = length (re_rules e) then (e\<lparr>re_rules := kept\<rparr>, False)
         else (persist (e\<lparr>re_rules := kept, re_status := AList.delete i (re_status e)\<rparr>), True))"

subsection \<open>Reading what is new\<close>

definition RULE_STALE_EVENT_MS :: rat where "RULE_STALE_EVENT_MS = 3600000"
definition RULE_SWEEP_MAX_EVENTS :: nat where "RULE_SWEEP_MAX_EVENTS = 2000"
definition RULE_SWEEP_PAGE :: nat where "RULE_SWEEP_PAGE = 200"

definition fresh :: "EventCursor \<Rightarrow> HistoryEvent \<Rightarrow> bool" where
  "fresh wm e = (he_ts e > ec_ts wm \<or> he_ts e = ec_ts wm \<and> he_id e > ec_id wm)"

definition fresh_row :: "EventCursor \<Rightarrow> HistoryEvent \<Rightarrow> (StoredAlertRow \<times> EventCursor) option" where
  "fresh_row wm e =
     (if \<not> fresh wm e then None
      else map_option (\<lambda>a. (alert_row a (he_ts e), cursor_of e))
             (sanitiseStoredAlert (nullish (he_payload e) JNull)))"

definition remaining :: "HistoryEvent list \<Rightarrow> rat \<Rightarrow> EventCursor option \<Rightarrow> nat" where
  "remaining logged from cur = length (filter (selected from cur) logged)"

text \<open>The last event of a page no longer passes the cursor made of it.\<close>

lemma remaining_decreases:
  assumes page: "page = readEvents logged from limit cur" and ne: "page \<noteq> []"
  shows "remaining logged from (Some (cursor_of (last page))) < remaining logged from cur"
proof -
  let ?l = "last page"
  have "?l \<in> set (newest_first (filter (selected from cur) logged))"
    using in_set_takeD last_in_set [OF ne] page unfolding readEvents_def by fast
  then have l: "?l \<in> set logged" "selected from cur ?l"
    by (auto simp: newest_first_def)
  have narrower: "selected from cur x" if "selected from (Some (cursor_of ?l)) x" for x
    using that l(2) by (auto simp: selected_def cursor_of_def split: option.splits)
  have "filter (selected from (Some (cursor_of ?l))) logged
      = filter (selected from (Some (cursor_of ?l))) (filter (selected from cur) logged)"
    using narrower by (auto intro!: filter_cong)
  moreover have "?l \<in> set (filter (selected from cur) logged)" using l by simp
  moreover have "\<not> selected from (Some (cursor_of ?l)) ?l" by (simp add: selected_def cursor_of_def)
  ultimately show ?thesis
    unfolding remaining_def by (metis length_filter_less)
qed

lemma full_page_decreases:
  assumes "\<not> length (readEvents logged from RULE_SWEEP_PAGE cur) < RULE_SWEEP_PAGE"
  shows "remaining logged from (Some (cursor_of (last (readEvents logged from RULE_SWEEP_PAGE cur))))
    < remaining logged from cur"
  by (rule remaining_decreases [OF refl]) (use assms in \<open>auto simp: RULE_SWEEP_PAGE_def\<close>)

function read_pages :: "HistoryEvent list \<Rightarrow> EventCursor \<Rightarrow> rat \<Rightarrow> EventCursor option
    \<Rightarrow> (StoredAlertRow \<times> EventCursor) list \<Rightarrow> (StoredAlertRow \<times> EventCursor) list \<times> bool" where
  "read_pages logged wm from cur rows =
     (if length rows < RULE_SWEEP_MAX_EVENTS then
        let page = readEvents logged from RULE_SWEEP_PAGE cur;
            rows' = rows @ List.map_filter (fresh_row wm) page
        in if length page < RULE_SWEEP_PAGE then (rows', True)
           else read_pages logged wm from (Some (cursor_of (last page))) rows'
      else (rows, False))"
  by pat_completeness auto
termination
  by (relation "measure (\<lambda>(logged, wm, from, cur, rows). remaining logged from cur)")
     (auto intro: full_page_decreases)

declare read_pages.simps [simp del]

subsection \<open>Acting\<close>

datatype FireOutcome = Fired | Refusing | Suppressed

definition tell :: "Rule \<Rightarrow> StoredAlertRow \<Rightarrow> RuleOutcome \<Rightarrow> RuleEngine \<Rightarrow> RuleEngine" where
  "tell rule row out e = did (Told (ruleNotice rule row out)) e"

text \<open>What each of the three refusals of \<open>fire\<close> does: keep the reason, record it, say so.\<close>

definition refuse :: "Rule \<Rightarrow> StoredAlertRow \<Rightarrow> rat \<Rightarrow> string \<Rightarrow> RuleEngine \<Rightarrow> RuleEngine" where
  "refuse rule row now reason e =
     tell rule row JobRefused
       (did (Recorded ''rule-refused'' None
               (JObj [(''ruleId'', JStr (ru_id rule)), (''name'', JStr (ru_name rule)),
                      (''reason'', JStr reason)]) now)
         (put_status (ru_id rule)
            ((statusFor e (ru_id rule))\<lparr>rs_refusal := Some reason, rs_refusedAt := Some now\<rparr>) e))"

definition settled_status :: "RuleStatus \<Rightarrow> RuleStatus" where
  "settled_status s = s\<lparr>rs_refusal := None, rs_refusedAt := None\<rparr>"

definition fired_payload :: "Rule \<Rightarrow> StoredAlertRow \<Rightarrow> (string \<times> json) list \<Rightarrow> json" where
  "fired_payload rule row extra = JObj
     ([(''ruleId'', JStr (ru_id rule)), (''name'', JStr (ru_name rule))] @ extra
      @ [(''kind'', JStr (sa_kind row)), (''event'', JStr (sa_event row))])"

text \<open>A pinned target is resolved, or its name (its id where the name is blank) is missing.\<close>

definition resolve_target :: "RuleEngineDeps \<Rightarrow> ApprovalTargetRef \<Rightarrow> (ApprovalTargetRef \<times> json) option" where
  "resolve_target deps t = map_option (\<lambda>cfg. (t, cfg)) (de_resolveTarget deps (serverId t))"

definition missing_name :: "ApprovalTargetRef \<Rightarrow> string" where
  "missing_name t = (if serverName t = [] then serverId t else serverName t)"

definition missing_names :: "RuleEngineDeps \<Rightarrow> ApprovalTargetRef list \<Rightarrow> string list" where
  "missing_names deps ts =
     map missing_name (filter (\<lambda>t. de_resolveTarget deps (serverId t) = None) ts)"

definition gone_reason :: "string list \<Rightarrow> string" where
  "gone_reason missing =
     join '', '' missing @ '' '' @ (if length missing = 1 then ''is'' else ''are'')
     @ '' no longer in this workspace. A ''
     @ ''rule runs on the server list it was confirmed against or it does not run.''"

text \<open>The part of \<open>fire\<close> behind the rate limit and the approval.\<close>

definition run_action :: "RuleEngineDeps \<Rightarrow> Rule \<Rightarrow> StoredAlertRow \<Rightarrow> rat \<Rightarrow> RuleEngine
    \<Rightarrow> RuleEngine \<times> FireOutcome" where
  "run_action deps rule row now e =
     (let i = ru_id rule; settle = (\<lambda>e. put_status i (settled_status (statusFor e i)) e) in
      case ru_action rule of
        Notify \<Rightarrow>
          (tell rule row Notified
             (did (Recorded ''rule-fired'' (Some (sa_serverId row))
                    (fired_payload rule row [(''action'', JStr ''notify'')]) now) (settle e)), Fired)
      | RunJob spec targets approval \<Rightarrow>
          let missing = missing_names deps targets;
              found = List.map_filter (resolve_target deps) targets
          in if missing \<noteq> [] then (refuse rule row now (gone_reason missing) e, Refusing)
             else
               let launch = \<lparr>la_jobId = de_newId deps (re_ids e), la_spec = spec,
                             la_approval = approval, la_targets = found\<rparr>;
                   e1 = did (Launched launch) (e\<lparr>re_ids := Suc (re_ids e)\<rparr>)
               in case de_runJob deps launch of
                    Some reason \<Rightarrow> (refuse rule row now reason e1, Refusing)
                  | None \<Rightarrow>
                      (tell rule row JobStarted
                         (did (Recorded ''rule-fired'' (Some (sa_serverId row))
                                (fired_payload rule row
                                   ([(''action'', JStr ''job'')]
                                    @ (case field_of spec ''title'' of None \<Rightarrow> [] | Some t \<Rightarrow> [(''title'', t)])
                                    @ [(''hosts'', num (of_nat (length found)))])) now) (settle e1)), Fired))"

definition fire :: "RuleEngineDeps \<Rightarrow> Rule \<Rightarrow> StoredAlertRow \<Rightarrow> rat \<Rightarrow> RuleEngine
    \<Rightarrow> RuleEngine \<times> FireOutcome" where
  "fire deps rule row now e =
     (let i = ru_id rule; status = statusFor e i;
          verdict = checkRuleLimit (rs_fired status) now (ru_limit rule)
      in if \<not> lv_allowed verdict then
           (put_status i (status\<lparr>rs_suppressed := Suc (rs_suppressed status),
                                 rs_fired := lv_fired verdict\<rparr>) e, Suppressed)
         else
           let e1 = put_status i (status\<lparr>rs_fired := lv_fired verdict, rs_lastFiredAt := Some now\<rparr>) e
           in case verifyRuleAction rule of
                Refused why \<Rightarrow> (refuse rule row now (de_sentence deps why) e1, Refusing)
              | Allowed \<Rightarrow> run_action deps rule row now e1)"

subsection \<open>A sweep\<close>

definition no_result :: RuleSweepResult where
  "no_result = \<lparr>sr_read = 0, sr_fired = 0, sr_suppressed = 0, sr_refused = 0, sr_skipped = 0\<rparr>"

record SweepState =
  ss_engine :: RuleEngine
  ss_result :: RuleSweepResult
  ss_suppressed :: "(string, nat) jsmap"
  ss_acted :: bool

definition sweep_rule :: "RuleEngineDeps \<Rightarrow> rat \<Rightarrow> StoredAlertRow \<Rightarrow> Rule \<Rightarrow> SweepState \<Rightarrow> SweepState" where
  "sweep_rule deps now row rule s =
     (if \<not> ruleMatches rule row then s else
      let (e, out) = fire deps rule row now (ss_engine s); r = ss_result s; i = ru_id rule in
      case out of
        Fired \<Rightarrow> s\<lparr>ss_engine := e, ss_result := r\<lparr>sr_fired := Suc (sr_fired r)\<rparr>, ss_acted := True\<rparr>
      | Refusing \<Rightarrow> s\<lparr>ss_engine := e, ss_result := r\<lparr>sr_refused := Suc (sr_refused r)\<rparr>, ss_acted := True\<rparr>
      | Suppressed \<Rightarrow>
          s\<lparr>ss_engine := e, ss_result := r\<lparr>sr_suppressed := Suc (sr_suppressed r)\<rparr>,
            ss_suppressed := AList.update i (nullish (map_of (ss_suppressed s) i) 0 + 1)
              (ss_suppressed s)\<rparr>)"

text \<open>One row: every rule in turn, then, if one acted, the watermark and the file.\<close>

definition sweep_row :: "RuleEngineDeps \<Rightarrow> rat \<Rightarrow> StoredAlertRow \<times> EventCursor \<Rightarrow> SweepState \<Rightarrow> SweepState" where
  "sweep_row deps now rc s =
     (let s1 = fold (sweep_rule deps now (fst rc)) (re_rules (ss_engine s)) (s\<lparr>ss_acted := False\<rparr>)
      in if ss_acted s1
         then s1\<lparr>ss_engine := persist ((ss_engine s1)\<lparr>re_watermark := Some (snd rc)\<rparr>)\<rparr>
         else s1)"

definition record_suppressed :: "rat \<Rightarrow> string \<times> nat \<Rightarrow> RuleEngine \<Rightarrow> RuleEngine" where
  "record_suppressed now ic e =
     did (Recorded ''rule-suppressed'' None
            (JObj [(''ruleId'', JStr (fst ic)),
                   (''name'', JStr (case find (\<lambda>r. ru_id r = fst ic) (re_rules e) of
                      None \<Rightarrow> [] | Some r \<Rightarrow> ru_name r)),
                   (''count'', num (of_nat (snd ic)))]) now) e"

definition oldest_first :: "(StoredAlertRow \<times> EventCursor) list \<Rightarrow> (StoredAlertRow \<times> EventCursor) list" where
  "oldest_first rows = sort_key (\<lambda>rc. position (snd rc)) rows"

definition record_skipped :: "rat \<Rightarrow> rat \<Rightarrow> (StoredAlertRow \<times> EventCursor) list \<Rightarrow> RuleEngine \<Rightarrow> RuleEngine" where
  "record_skipped from now rows e =
     did (Recorded ''rule-events-skipped'' None
            (JObj [(''from'', num from), (''oldestRead'', num (ec_ts (snd (hd rows)))),
                   (''read'', num (of_nat (length rows))),
                   (''cap'', num (of_nat RULE_SWEEP_MAX_EVENTS))]) now) e"

text \<open>The store is None where the history is not open.\<close>

definition runSweep :: "RuleEngineDeps \<Rightarrow> rat \<Rightarrow> HistoryEvent list option \<Rightarrow> RuleEngine
    \<Rightarrow> RuleEngine \<times> RuleSweepResult" where
  "runSweep deps now store e =
     (case store of None \<Rightarrow> (e, no_result) | Some logged \<Rightarrow>
      case re_watermark e of
        None \<Rightarrow> (persist (e\<lparr>re_watermark := Some \<lparr>ec_ts = now, ec_id = 0\<rparr>\<rparr>), no_result)
      | Some wm \<Rightarrow>
          let from = max (ec_ts wm) (now - RULE_STALE_EVENT_MS);
              (found, exhausted) = read_pages logged wm from None []
          in if found = [] then
               (if exhausted
                then persist (e\<lparr>re_watermark := Some \<lparr>ec_ts = max (ec_ts wm) from, ec_id = ec_id wm\<rparr>\<rparr>)
                else e, no_result)
             else
               let rows = oldest_first found;
                   e1 = (if exhausted then e else record_skipped from now rows e);
                   r1 = no_result\<lparr>sr_read := length rows, sr_skipped := (if exhausted then 0 else 1)\<rparr>;
                   s = fold (sweep_row deps now) rows
                         \<lparr>ss_engine = e1, ss_result = r1, ss_suppressed = [], ss_acted = False\<rparr>;
                   e2 = fold (record_suppressed now) (ss_suppressed s) (ss_engine s)
               in (persist (e2\<lparr>re_watermark := Some (snd (last rows))\<rparr>), ss_result s))"

end
