(* ===== verification/Rule_Laws.thy ===== *)
theory Rule_Laws
  imports Rule_Engine
begin

section \<open>What the rule engine keeps\<close>

text \<open>
  A rule that was read back is well formed and is read back from its own file unchanged; the
  states the engine reaches keep one ledger per rule; what a sweep starts is what was
  confirmed, at the rate that was set, from events no earlier sweep looked at.
\<close>

subsection \<open>Well-formed rules\<close>

definition wf_action :: "RuleAction \<Rightarrow> bool" where
  "wf_action a =
     (case a of
        Notify \<Rightarrow> True
      | RunJob spec targets approval \<Rightarrow>
          is_object spec
          \<and> (\<exists>steps. as_array (field_of spec ''steps'') = Some steps \<and> steps \<noteq> []
               \<and> (\<forall>s \<in> set steps. has_command s))
          \<and> targets \<noteq> []
          \<and> (\<forall>t \<in> set targets. serverId t \<noteq> [] \<and> length (serverName t) \<le> 120))"

definition wf_limit :: "RuleLimit \<Rightarrow> bool" where
  "wf_limit l = (1 \<le> rl_maxFirings l \<and> rl_maxFirings l \<le> 60
     \<and> 60000 \<le> rl_windowMs l \<and> rl_windowMs l \<le> 604800000)"

definition wf_rule :: "Rule \<Rightarrow> bool" where
  "wf_rule r =
     (ru_id r \<noteq> [] \<and> length (ru_id r) \<le> 120 \<and> length (ru_name r) \<le> 120
      \<and> rt_kind (ru_trigger r) \<in> set RULE_ALERT_KINDS
      \<and> rt_event (ru_trigger r) \<in> set RULE_TRIGGER_EVENTS
      \<and> (\<forall>s. rf_serverId (ru_filter r) = Some s \<longrightarrow> s \<noteq> [] \<and> length s \<le> 120)
      \<and> wf_action (ru_action r) \<and> wf_limit (ru_limit r))"

lemma clamp_wf: "wf_limit (clampRuleLimit raw)"
  by (auto simp: wf_limit_def clampRuleLimit_def Let_def RULE_LIMIT_MAX_FIRINGS_def
      RULE_LIMIT_MIN_WINDOW_MS_def RULE_LIMIT_MAX_WINDOW_MS_def RULE_LIMIT_DEFAULT_def split: jsnum.splits)

lemma find_text_Some: "find_text xs v = Some x \<Longrightarrow> x \<in> set xs \<and> v = Some (JStr x)"
  by (auto simp: find_text_def find_Some_iff)

lemma find_text_member: "x \<in> set xs \<Longrightarrow> find_text xs (Some (JStr x)) = Some x"
  by (induction xs) (auto simp: find_text_def)

lemma short_text_length: "length (short_text n v) \<le> n"
  by (auto simp: short_text_def split: option.splits)

lemma read_rule_target_wf:
  "read_rule_target j = Some t \<Longrightarrow> serverId t \<noteq> [] \<and> length (serverName t) \<le> 120"
  using short_text_length [of MAX_NAME]
  by (auto simp: read_rule_target_def MAX_NAME_def split: option.splits if_splits)

lemma sanitise_action_wf:
  assumes "sanitise_action act = Some a"
  shows "wf_action a"
proof -
  have targets: "ts \<noteq> [] \<and> (\<forall>t \<in> set ts. serverId t \<noteq> [] \<and> length (serverName t) \<le> 120)"
    if "all_some (map read_rule_target js) = Some ts" "js \<noteq> []" for js ts
  proof -
    from that(1) have eq: "map read_rule_target js = map Some ts" by (simp add: all_some_eq_Some_iff)
    have "read_rule_target (js ! i) = Some (ts ! i)" if "i < length ts" for i
      using eq that by (metis length_map nth_map)
    with that(2) eq show ?thesis
      by (metis read_rule_target_wf in_set_conv_nth map_is_Nil_conv)
  qed
  from assms show ?thesis
    by (auto simp: sanitise_action_def wf_action_def list_ex_iff dest!: targets
        split: if_splits option.splits)
qed

theorem sanitised_rule_wf: "sanitiseRule j = Some r \<Longrightarrow> wf_rule r"
  using sanitise_action_wf clamp_wf short_text_length [of MAX_NAME]
  by (auto simp: sanitiseRule_def wf_rule_def Let_def MAX_NAME_def sanitise_filter_def
      dest!: find_text_Some split: if_splits option.splits)

subsection \<open>A rule is read back from its file\<close>

lemma as_finite_num [simp]: "as_finite (Some (num x)) = Some x"
  by (simp add: num_def)

lemma js_number_num [simp]: "js_number (Some (num x)) = Fin x"
  by (simp add: num_def)

lemma clamp_limit_json: "wf_limit l \<Longrightarrow> clampRuleLimit (Some (limit_json l)) = l"
  by (cases l)
     (simp add: clampRuleLimit_def Let_def limit_json_def wf_limit_def RULE_LIMIT_MAX_FIRINGS_def
      RULE_LIMIT_MIN_WINDOW_MS_def RULE_LIMIT_MAX_WINDOW_MS_def)

lemma read_rule_target_json:
  "serverId t \<noteq> [] \<Longrightarrow> length (serverName t) \<le> 120 \<Longrightarrow> read_rule_target (target_json t) = Some t"
  by (cases t; cases "cohort t")
     (auto simp: read_rule_target_def target_json_def short_text_def MAX_NAME_def opt_field_def)

lemma sanitise_action_json:
  assumes "wf_action a"
  shows "sanitise_action (action_json a) = Some a"
proof (cases a)
  case Notify
  then show ?thesis by (simp add: sanitise_action_def action_json_def)
next
  case (RunJob spec targets approval)
  with assms have "all_some (map read_rule_target (map target_json targets)) = Some targets"
    by (auto simp: wf_action_def all_some_eq_Some_iff intro!: read_rule_target_json)
  with assms RunJob show ?thesis
    by (cases approval)
       (auto simp: sanitise_action_def action_json_def wf_action_def list_ex_iff)
qed

lemma sanitise_rule_json:
  assumes "wf_rule r"
  shows "sanitiseRule (rule_json r) = Some r"
proof -
  let ?f = "JObj (opt_field ''serverId'' (rf_serverId (ru_filter r))
                    @ opt_num ''minValue'' (rf_minValue (ru_filter r)))"
  have "sanitise_filter ?f = ru_filter r"
    using assms
    by (cases "ru_filter r"; cases "rf_serverId (ru_filter r)"; cases "rf_minValue (ru_filter r)")
       (auto simp: sanitise_filter_def wf_rule_def MAX_NAME_def opt_field_def opt_num_def)
  moreover have "is_object (action_json (ru_action r))"
    by (cases "ru_action r") (auto simp: action_json_def)
  moreover have "rt_event (ru_trigger r) \<in> set STORED_ALERT_EVENTS"
    using assms by (auto simp: wf_rule_def RULE_TRIGGER_EVENTS_def STORED_ALERT_EVENTS_def)
  ultimately show ?thesis
    using assms
    by (cases r; cases "ru_trigger r")
       (simp add: sanitiseRule_def rule_json_def Let_def wf_rule_def object_field_def
        find_text_member sanitise_action_json clamp_limit_json finite_or_zero_def short_text_def
        MAX_NAME_def)
qed

subsection \<open>The states the engine reaches\<close>

definition keyed :: "(string, RuleStatus) jsmap \<Rightarrow> bool" where
  "keyed m = (jsmap_wf m \<and> (\<forall>p \<in> set m. rs_ruleId (snd p) = fst p))"

definition engine_ok :: "RuleEngine \<Rightarrow> bool" where
  "engine_ok e =
     ((\<forall>r \<in> set (re_rules e). wf_rule r) \<and> distinct (map ru_id (re_rules e))
      \<and> keyed (re_status e) \<and> fst ` set (re_status e) = ru_id ` set (re_rules e))"

lemma keyed_update: "keyed m \<Longrightarrow> rs_ruleId s = i \<Longrightarrow> keyed (AList.update i s m)"
  using set_alist_update_subset [of i s m] by (auto simp: keyed_def)

lemma keyed_delete: "keyed m \<Longrightarrow> keyed (AList.delete i m)"
  by (auto simp: keyed_def AList.delete_eq distinct_map intro: inj_on_subset)

lemma sanitise_entries_ok:
  "\<forall>r \<in> set out. wf_rule r \<Longrightarrow> distinct (map ru_id out) \<Longrightarrow>
   (\<forall>r \<in> set (sanitise_entries es out). wf_rule r) \<and> distinct (map ru_id (sanitise_entries es out))"
proof (induction es out rule: sanitise_entries.induct)
  case (2 entry rest out)
  then show ?case
    by (cases "sanitiseRule entry") (auto dest: sanitised_rule_wf)
qed simp

lemma sanitiseRules_ok:
  "(\<forall>r \<in> set (sanitiseRules raw). wf_rule r) \<and> distinct (map ru_id (sanitiseRules raw))"
  using sanitise_entries_ok [of "[]"]
  by (auto simp: sanitiseRules_def split: option.splits json.splits)

lemma sanitise_entries_json:
  "\<forall>r \<in> set rs. wf_rule r \<Longrightarrow> distinct (map ru_id (out @ rs)) \<Longrightarrow>
   sanitise_entries (map rule_json rs) out = out @ rs"
proof (induction rs arbitrary: out)
  case (Cons r rs)
  then have "ru_id r \<notin> ru_id ` set out" by auto
  with Cons show ?case by (simp add: sanitise_rule_json)
qed simp

lemma sanitiseRules_json:
  assumes "\<forall>r \<in> set rs. wf_rule r" "distinct (map ru_id rs)"
  shows "sanitiseRules (Some (JArr (map rule_json rs))) = take MAX_RULES rs"
proof -
  have "\<forall>r \<in> set (take MAX_RULES rs). wf_rule r" using assms(1) by (blast dest: in_set_takeD)
  moreover have "distinct (map ru_id ([] @ take MAX_RULES rs))"
    using assms(2) by (simp flip: take_map)
  ultimately show ?thesis
    using sanitise_entries_json [of "take MAX_RULES rs" "[]"] by (simp add: sanitiseRules_def take_map)
qed

text \<open>A status comes back as it was, except that a refusal with a blank reason is dropped.\<close>

definition reread :: "RuleStatus \<Rightarrow> RuleStatus" where
  "reread s = s\<lparr>rs_refusal := (case rs_refusal s of Some [] \<Rightarrow> None | v \<Rightarrow> v)\<rparr>"

lemma map_filter_nums [simp]: "List.map_filter (\<lambda>t. as_finite (Some t)) (map num xs) = xs"
  by (induction xs) (auto simp: num_def List.map_filter_simps)

lemma sanitiseStatus_json:
  assumes "rs_ruleId s \<noteq> []"
  shows "sanitiseStatus (status_json s) = Some (reread s)"
  using assms
  by (cases s; cases "rs_lastFiredAt s"; cases "rs_refusal s"; cases "rs_refusedAt s")
     (auto simp: sanitiseStatus_def status_json_def reread_def opt_field_def opt_num_def
      split: list.splits)

lemma load_status_map:
  assumes "keyed m" "[] \<notin> fst ` set m"
  shows "map_of (fold (load_status kept) (map (status_json \<circ> snd) m) acc) i =
     (if i \<in> set kept then (case map_of m i of Some s \<Rightarrow> Some (reread s) | None \<Rightarrow> map_of acc i)
      else map_of acc i)"
  using assms
proof (induction m arbitrary: acc)
  case (Cons p m)
  obtain j s where p: "p = (j, s)" by (cases p)
  with Cons.prems have s: "rs_ruleId s = j" "j \<noteq> []" and k: "keyed m" by (auto simp: keyed_def)
  then have st: "sanitiseStatus (status_json s) = Some (reread s)" by (simp add: sanitiseStatus_json)
  have "rs_ruleId (reread s) = j" using s by (simp add: reread_def)
  with st have step: "load_status kept (status_json s) acc =
      (if j \<in> set kept then AList.update j (reread s) acc else acc)"
    by (simp add: load_status_def)
  have "j \<notin> fst ` set m" using Cons.prems p by (simp add: keyed_def)
  then have "map_of m j = None" by (simp add: map_of_eq_None_iff)
  with Cons p step k show ?case
    by (auto simp: update_conv' split: option.splits)
qed simp

lemma load_status_ok:
  assumes "keyed m" "fst ` set m \<subseteq> set kept"
  shows "keyed (fold (load_status kept) js m) \<and> fst ` set (fold (load_status kept) js m) \<subseteq> set kept"
  using assms
proof (induction js arbitrary: m)
  case (Cons j js)
  have "keyed (load_status kept j m)" "fst ` set (load_status kept j m) \<subseteq> set kept"
    using Cons.prems
    by (auto simp: load_status_def keyed_update keys_alist_update split: option.splits)
  with Cons.IH show ?case by simp
qed simp

lemma ensure_status_step:
  assumes "keyed m"
  shows "keyed (ensure_status i m) \<and> fst ` set (ensure_status i m) = insert i (fst ` set m)"
proof (cases "map_of m i")
  case None
  with assms show ?thesis
    by (simp add: ensure_status_def keyed_update emptyStatus_def keys_alist_update)
next
  case (Some s)
  then have "i \<in> fst ` set m" by (metis map_of_eq_None_iff option.distinct(1))
  with assms Some show ?thesis by (auto simp: ensure_status_def)
qed

lemma ensure_status_ok:
  assumes "keyed m"
  shows "keyed (fold ensure_status ids m) \<and> fst ` set (fold ensure_status ids m) = fst ` set m \<union> set ids"
  using assms by (induction ids arbitrary: m) (simp_all add: ensure_status_step)

lemma ensure_status_map:
  "map_of (fold ensure_status ids m) i =
     (case map_of m i of Some s \<Rightarrow> Some s | None \<Rightarrow> if i \<in> set ids then Some (emptyStatus i) else None)"
  by (induction ids arbitrary: m) (auto simp: ensure_status_def update_conv' split: option.splits)

lemma load_ok: "engine_ok (load n raw)"
proof -
  define doc where "doc = (if is_object raw then raw else JObj [])"
  define rules where "rules = sanitiseRules (field_of doc ''rules'')"
  define read where "read = fold (load_status (map ru_id rules))
     (nullish (as_array (field_of doc ''status'')) []) ([] :: (string, RuleStatus) jsmap)"
  have r: "\<forall>r \<in> set rules. wf_rule r" "distinct (map ru_id rules)"
    using sanitiseRules_ok by (auto simp: rules_def)
  have m: "keyed read \<and> fst ` set read \<subseteq> set (map ru_id rules)"
    unfolding read_def by (rule load_status_ok) (auto simp: keyed_def)
  have e: "load n raw = \<lparr>re_rules = rules, re_status = fold ensure_status (map ru_id rules) read,
      re_watermark = sanitiseWatermark (field_of doc ''watermark''), re_ids = n, re_trace = []\<rparr>"
    by (simp add: load_def Let_def doc_def rules_def read_def)
  show ?thesis
    using r m ensure_status_ok [of read "map ru_id rules"] unfolding e engine_ok_def by auto
qed

subsection \<open>A restart\<close>

lemma load_file:
  assumes ok: "engine_ok e"
  shows "re_rules (load n (file_json e)) = take MAX_RULES (re_rules e)"
    "re_watermark (load n (file_json e)) = re_watermark e"
    "r \<in> set (take MAX_RULES (re_rules e)) \<Longrightarrow>
       statusFor (load n (file_json e)) (ru_id r) = reread (statusFor e (ru_id r))"
proof -
  let ?kept = "map ru_id (take MAX_RULES (re_rules e))"
  let ?read = "fold (load_status ?kept) (map (status_json \<circ> snd) (re_status e)) []"
  have wm: "sanitiseWatermark (Some (case re_watermark e of None \<Rightarrow> JNull | Some c \<Rightarrow> cursor_json c))
      = re_watermark e"
    by (cases "re_watermark e") (simp_all add: sanitiseWatermark_def cursor_json_def)
  have rules: "sanitiseRules (Some (JArr (map rule_json (re_rules e)))) = take MAX_RULES (re_rules e)"
    using ok by (intro sanitiseRules_json) (auto simp: engine_ok_def)
  have l: "load n (file_json e) = \<lparr>re_rules = take MAX_RULES (re_rules e),
      re_status = fold ensure_status ?kept ?read, re_watermark = re_watermark e, re_ids = n, re_trace = []\<rparr>"
    using rules wm by (simp add: load_def file_json_def Let_def)
  then show "re_rules (load n (file_json e)) = take MAX_RULES (re_rules e)"
    "re_watermark (load n (file_json e)) = re_watermark e" by simp_all
  assume r: "r \<in> set (take MAX_RULES (re_rules e))"
  have st: "keyed (re_status e)" and wf: "[] \<notin> fst ` set (re_status e)"
    using ok by (auto simp: engine_ok_def wf_rule_def)
  have "ru_id r \<in> fst ` set (re_status e)"
    using ok in_set_takeD [OF r] by (auto simp: engine_ok_def)
  then obtain s where s: "map_of (re_status e) (ru_id r) = Some s"
    by (metis map_of_eq_None_iff not_None_eq)
  from load_status_map [OF st wf, of ?kept "[]" "ru_id r"] r s
  have "map_of ?read (ru_id r) = Some (reread s)" by simp
  then have "map_of (fold ensure_status ?kept ?read) (ru_id r) = Some (reread s)"
    by (simp add: ensure_status_map)
  with l s show "statusFor (load n (file_json e)) (ru_id r) = reread (statusFor e (ru_id r))"
    by (simp add: statusFor_def)
qed


end
