(* ===== verification/Rule_Sweep.thy ===== *)
theory Rule_Sweep
  imports Rule_Laws "HOL-Library.Multiset"
begin

section \<open>What a sweep reads and what it starts\<close>

text \<open>
  Paging through the log newest first reads the events that are new, each once; the
  watermark only moves forward, and what lies behind it is not looked at again. Every effect
  of a sweep is traced back to a rule, a row and the approval behind it.
\<close>

subsection \<open>Paging\<close>

definition pos :: "HistoryEvent \<Rightarrow> rat \<times> rat" where
  "pos e = (he_ts e, he_id e)"

text \<open>Row ids tell the events of one millisecond apart.\<close>

definition log_ok :: "HistoryEvent list \<Rightarrow> bool" where
  "log_ok logged = distinct (map pos logged)"

definition all_from :: "HistoryEvent list \<Rightarrow> rat \<Rightarrow> HistoryEvent list" where
  "all_from logged from = newest_first (filter (selected from None) logged)"

lemma newest_first_filter: "newest_first (filter P xs) = filter P (newest_first xs)"
  by (simp add: newest_first_def rev_filter flip: filter_sort)

lemma all_from_desc:
  assumes "log_ok logged"
  shows "sorted_wrt (\<lambda>a b. pos b < pos a) (all_from logged from)"
proof -
  let ?xs = "sort_key pos (filter (selected from None) logged)"
  have "distinct (map pos ?xs)"
    using assms by (simp add: log_ok_def distinct_map inj_on_def)
  moreover have "sorted (map pos ?xs)" by simp
  ultimately have "sorted_wrt (<) (map pos ?xs)" by (simp add: strict_sorted_iff)
  then have "sorted_wrt (\<lambda>a b. pos a < pos b) ?xs" by (simp add: sorted_wrt_map)
  then have "sorted_wrt (\<lambda>a b. pos b < pos a) (rev ?xs)" by (simp add: sorted_wrt_rev)
  then show ?thesis by (simp add: all_from_def newest_first_def pos_def [abs_def])
qed

lemma selected_cursor:
  "selected from (Some (cursor_of c)) e \<longleftrightarrow> selected from None e \<and> pos e < pos c"
  by (auto simp: selected_def cursor_of_def pos_def less_prod_def)

lemma filter_below:
  assumes "sorted_wrt (\<lambda>a b. f b < (f a :: 'b::linorder)) (xs @ c # ys)"
  shows "filter (\<lambda>e. f e < f c) (xs @ c # ys) = ys"
proof -
  have "\<forall>x \<in> set xs. f c < f x" using assms by (auto simp: sorted_wrt_append)
  then have "filter (\<lambda>e. f e < f c) xs = []" by (auto simp: filter_empty_conv)
  moreover have "\<forall>y \<in> set ys. f y < f c" using assms by (auto simp: sorted_wrt_append)
  ultimately show ?thesis by (simp add: filter_id_conv)
qed

text \<open>What is left behind a cursor is the tail of the whole read.\<close>

lemma behind_cursor:
  assumes "log_ok logged" "all_from logged from = xs @ c # ys"
  shows "newest_first (filter (selected from (Some (cursor_of c))) logged) = ys"
proof -
  have "filter (selected from (Some (cursor_of c))) logged
      = filter (\<lambda>e. pos e < pos c) (filter (selected from None) logged)"
    by (auto simp: selected_cursor intro: filter_cong)
  then have "newest_first (filter (selected from (Some (cursor_of c))) logged)
      = filter (\<lambda>e. pos e < pos c) (all_from logged from)"
    by (simp add: newest_first_filter all_from_def)
  with filter_below [of pos xs c ys] all_from_desc [OF assms(1), of "from"] assms(2) show ?thesis
    by metis
qed

lemma map_filter_append: "List.map_filter f (xs @ ys) = List.map_filter f xs @ List.map_filter f ys"
  by (simp add: List.map_filter_def)

lemma read_pages_prefix:
  assumes "log_ok logged" "all_from logged from = done @ todo"
    "newest_first (filter (selected from cur) logged) = todo"
    "rows = List.map_filter (fresh_row wm) done"
  shows "\<exists>pre suf. todo = pre @ suf
    \<and> fst (read_pages logged wm from cur rows) = List.map_filter (fresh_row wm) (done @ pre)
    \<and> (snd (read_pages logged wm from cur rows) \<longrightarrow> suf = [])
    \<and> (\<not> snd (read_pages logged wm from cur rows) \<longrightarrow>
         RULE_SWEEP_MAX_EVENTS \<le> length (fst (read_pages logged wm from cur rows)))"
  using assms
proof (induction logged wm "from" cur rows arbitrary: "done" todo rule: read_pages.induct)
  case (1 logged wm "from" cur rows)
  let ?page = "readEvents logged from RULE_SWEEP_PAGE cur"
  have page: "?page = take RULE_SWEEP_PAGE todo" using 1 by (simp add: readEvents_def)
  show ?case
  proof (cases "length rows < RULE_SWEEP_MAX_EVENTS")
    case False
    then have "read_pages logged wm from cur rows = (rows, False)"
      by (simp add: read_pages.simps [of logged wm "from" cur rows])
    with False 1(5) show ?thesis
      by (simp del: not_less) (rule exI [of _ "[]"], simp)
  next
    case room: True
    show ?thesis
    proof (cases "length ?page < RULE_SWEEP_PAGE")
      case True
      then have "?page = todo" using page by simp
      with room True have "read_pages logged wm from cur rows
          = (rows @ List.map_filter (fresh_row wm) todo, True)"
        by (simp add: read_pages.simps [of logged wm "from" cur rows])
      with 1(5) show ?thesis
        by (simp add: map_filter_append)
    next
      case full: False
      let ?rest = "drop RULE_SWEEP_PAGE todo"
      have ne: "?page \<noteq> []" using full by (auto simp: RULE_SWEEP_PAGE_def)
      then have split: "all_from logged from = (done @ butlast ?page) @ last ?page # ?rest"
        using 1(3) page by (metis append.assoc append_Cons append_Nil append_butlast_last_id append_take_drop_id)
      let ?rows = "rows @ List.map_filter (fresh_row wm) ?page"
      have "\<exists>pre suf. ?rest = pre @ suf
        \<and> fst (read_pages logged wm from (Some (cursor_of (last ?page))) ?rows)
            = List.map_filter (fresh_row wm) ((done @ ?page) @ pre)
        \<and> (snd (read_pages logged wm from (Some (cursor_of (last ?page))) ?rows) \<longrightarrow> suf = [])
        \<and> (\<not> snd (read_pages logged wm from (Some (cursor_of (last ?page))) ?rows) \<longrightarrow>
             RULE_SWEEP_MAX_EVENTS \<le> length (fst (read_pages logged wm from (Some (cursor_of (last ?page))) ?rows)))"
      proof (rule "1.IH" [OF room refl refl full])
        show "log_ok logged" by (rule 1(2))
        show "all_from logged from = (done @ ?page) @ ?rest" using 1(3) page by simp
        show "newest_first (filter (selected from (Some (cursor_of (last ?page)))) logged) = ?rest"
          by (rule behind_cursor [OF 1(2) split])
        show "?rows = List.map_filter (fresh_row wm) (done @ ?page)"
          using 1(5) by (simp add: map_filter_append)
      qed
      then obtain pre suf where ps: "?rest = pre @ suf"
        "fst (read_pages logged wm from (Some (cursor_of (last ?page))) ?rows)
            = List.map_filter (fresh_row wm) ((done @ ?page) @ pre)"
        "snd (read_pages logged wm from (Some (cursor_of (last ?page))) ?rows) \<longrightarrow> suf = []"
        "\<not> snd (read_pages logged wm from (Some (cursor_of (last ?page))) ?rows) \<longrightarrow>
             RULE_SWEEP_MAX_EVENTS \<le> length (fst (read_pages logged wm from (Some (cursor_of (last ?page))) ?rows))"
        by blast
      have todo: "todo = (?page @ pre) @ suf" using ps(1) page by (metis append.assoc append_take_drop_id)
      have unfold: "read_pages logged wm from cur rows
          = read_pages logged wm from (Some (cursor_of (last ?page))) ?rows"
        using room full by (simp add: read_pages.simps [of logged wm "from" cur rows] Let_def)
      show ?thesis
        unfolding unfold using todo ps(2-4) by (metis append.assoc)
    qed
  qed
qed

subsection \<open>What is new\<close>

definition news :: "HistoryEvent list \<Rightarrow> EventCursor \<Rightarrow> rat \<Rightarrow> (StoredAlertRow \<times> EventCursor) list" where
  "news logged wm from = List.map_filter (fresh_row wm) (all_from logged from)"

definition readable :: "HistoryEvent \<Rightarrow> bool" where
  "readable e = (he_kind e = ALERT_HISTORY_KIND \<and> sanitiseStoredAlert (nullish (he_payload e) JNull) \<noteq> None)"

lemma set_all_from: "e \<in> set (all_from logged from) \<longleftrightarrow>
    e \<in> set logged \<and> he_kind e = ALERT_HISTORY_KIND \<and> from \<le> he_ts e"
  by (auto simp: all_from_def newest_first_def selected_def)

lemma fresh_row_Some:
  "fresh_row wm e = Some rc \<longleftrightarrow> fresh wm e
     \<and> (\<exists>a. sanitiseStoredAlert (nullish (he_payload e) JNull) = Some a
          \<and> rc = (alert_row a (he_ts e), cursor_of e))"
  by (auto simp: fresh_row_def)

lemma set_news:
  "rc \<in> set (news logged wm from) \<longleftrightarrow>
     (\<exists>e \<in> set logged. he_kind e = ALERT_HISTORY_KIND \<and> from \<le> he_ts e \<and> fresh_row wm e = Some rc)"
  by (force simp: news_def List.map_filter_def image_iff set_all_from)

lemma position_cursor [simp]: "position (cursor_of e) = pos e"
  by (simp add: position_def cursor_of_def pos_def)

lemma fresh_iff: "fresh wm e \<longleftrightarrow> position wm < pos e"
  by (auto simp: fresh_def position_def pos_def less_prod_def)

lemma news_after: "rc \<in> set (news logged wm from) \<Longrightarrow> position wm < position (snd rc)"
  by (auto simp: set_news fresh_row_Some fresh_iff)

lemma sorted_wrt_map_filter:
  assumes "sorted_wrt P xs" "\<And>x y u v. P x y \<Longrightarrow> f x = Some u \<Longrightarrow> f y = Some v \<Longrightarrow> Q u v"
  shows "sorted_wrt Q (List.map_filter f xs)"
  using assms(1)
proof (induction xs)
  case (Cons x xs)
  then show ?case
    using assms(2)
    by (auto simp: List.map_filter_simps List.map_filter_def split: option.splits)
qed (simp add: List.map_filter_simps)

lemma news_desc:
  "log_ok logged \<Longrightarrow> sorted_wrt (\<lambda>a b. position (snd b) < position (snd a)) (news logged wm from)"
  unfolding news_def
  by (rule sorted_wrt_map_filter [OF all_from_desc]) (auto simp: fresh_row_Some)

lemma sorted_wrt_irrefl_distinct: "sorted_wrt P xs \<Longrightarrow> (\<And>x. \<not> P x x) \<Longrightarrow> distinct xs"
  by (induction xs) auto

definition sweep_from :: "EventCursor \<Rightarrow> rat \<Rightarrow> rat" where
  "sweep_from wm now = max (ec_ts wm) (now - RULE_STALE_EVENT_MS)"

definition sweep_read :: "HistoryEvent list \<Rightarrow> EventCursor \<Rightarrow> rat \<Rightarrow> (StoredAlertRow \<times> EventCursor) list \<times> bool" where
  "sweep_read logged wm now = read_pages logged wm (sweep_from wm now) None []"

lemma sweep_reads:
  assumes "log_ok logged"
  shows "\<exists>suf. news logged wm (sweep_from wm now) = fst (sweep_read logged wm now) @ suf
     \<and> (snd (sweep_read logged wm now) \<longrightarrow> suf = [])
     \<and> (\<not> snd (sweep_read logged wm now) \<longrightarrow> RULE_SWEEP_MAX_EVENTS \<le> length (fst (sweep_read logged wm now)))"
proof -
  let ?from = "sweep_from wm now"
  have "all_from logged ?from = [] @ all_from logged ?from" by simp
  from read_pages_prefix [OF assms this, of None "[]" wm] obtain pre suf where
    "all_from logged ?from = pre @ suf"
    "fst (sweep_read logged wm now) = List.map_filter (fresh_row wm) pre"
    "snd (sweep_read logged wm now) \<longrightarrow> suf = []"
    "\<not> snd (sweep_read logged wm now) \<longrightarrow> RULE_SWEEP_MAX_EVENTS \<le> length (fst (sweep_read logged wm now))"
    by (force simp: sweep_read_def all_from_def List.map_filter_simps)
  then show ?thesis
    by (intro exI [of _ "List.map_filter (fresh_row wm) suf"])
       (auto simp: news_def map_filter_append List.map_filter_simps)
qed

lemma sweep_reads_all:
  assumes "log_ok logged" "length (news logged wm (sweep_from wm now)) < RULE_SWEEP_MAX_EVENTS"
  shows "sweep_read logged wm now = (news logged wm (sweep_from wm now), True)"
proof -
  obtain suf where suf: "news logged wm (sweep_from wm now) = fst (sweep_read logged wm now) @ suf"
    "snd (sweep_read logged wm now) \<longrightarrow> suf = []"
    "\<not> snd (sweep_read logged wm now) \<longrightarrow> RULE_SWEEP_MAX_EVENTS \<le> length (fst (sweep_read logged wm now))"
    using sweep_reads [OF assms(1)] by blast
  with assms(2) have "snd (sweep_read logged wm now)" by auto
  with suf show ?thesis by (cases "sweep_read logged wm now") simp
qed

lemma sorted_desc_rev:
  assumes "sorted_wrt (\<lambda>a b. f b < (f a :: 'b::linorder)) xs"
  shows "sort_key f xs = rev xs"
proof (rule sort_key_inj_key_eq)
  show "mset xs = mset (rev xs)" by simp
  show "inj_on f (set xs)" using assms by (induction xs) fastforce+
  have "sorted_wrt (\<lambda>a b. f a < f b) (rev xs)" using assms by (simp add: sorted_wrt_rev)
  then have "sorted_wrt (<) (map f (rev xs))" by (simp add: sorted_wrt_map)
  then show "sorted (map f (rev xs))" by (simp add: strict_sorted_iff)
qed

text \<open>The rows in the order they are acted on: every older one before every newer one.\<close>

lemma oldest_first_sorted:
  assumes "log_ok logged"
  shows "oldest_first (fst (sweep_read logged wm now)) = rev (fst (sweep_read logged wm now))"
    "sorted_wrt (\<lambda>a b. position (snd a) < position (snd b)) (oldest_first (fst (sweep_read logged wm now)))"
proof -
  obtain suf where "news logged wm (sweep_from wm now) = fst (sweep_read logged wm now) @ suf"
    using sweep_reads [OF assms] by blast
  with news_desc [OF assms, of wm "sweep_from wm now"]
  have d: "sorted_wrt (\<lambda>a b. position (snd b) < position (snd a)) (fst (sweep_read logged wm now))"
    by (simp add: sorted_wrt_append)
  show r: "oldest_first (fst (sweep_read logged wm now)) = rev (fst (sweep_read logged wm now))"
    unfolding oldest_first_def by (rule sorted_desc_rev) (use d in simp)
  show "sorted_wrt (\<lambda>a b. position (snd a) < position (snd b)) (oldest_first (fst (sweep_read logged wm now)))"
    unfolding r using d by (simp add: sorted_wrt_rev)
qed

subsection \<open>The effects of one row\<close>

text \<open>
  A launch that carries out a rule: the rule applies to the row, its approval holds, and what
  is launched is its own spec, approval and every one of its targets.
\<close>

definition carries_out :: "RuleEngineDeps \<Rightarrow> StoredAlertRow \<Rightarrow> Rule \<Rightarrow> RuleJobLaunch \<Rightarrow> bool" where
  "carries_out deps row rule l =
     (ruleMatches rule row \<and> verifyRuleAction rule = Allowed
      \<and> ru_action rule = RunJob (la_spec l) (map fst (la_targets l)) (la_approval l)
      \<and> (\<forall>(t, cfg) \<in> set (la_targets l). de_resolveTarget deps (serverId t) = Some cfg))"

definition row_effect :: "RuleEngineDeps \<Rightarrow> Rule list \<Rightarrow> StoredAlertRow \<Rightarrow> RuleEffect \<Rightarrow> bool" where
  "row_effect deps rules row x =
     (case x of
        Wrote _ \<Rightarrow> False
      | Launched l \<Rightarrow> \<exists>rule \<in> set rules. carries_out deps row rule l
      | _ \<Rightarrow> True)"

text \<open>The engine \<open>e'\<close> has the rules and the watermark of \<open>e\<close> and has done \<open>es\<close> more.\<close>

definition went_on :: "(RuleEffect \<Rightarrow> bool) \<Rightarrow> RuleEngine \<Rightarrow> RuleEngine \<Rightarrow> bool" where
  "went_on P e e' = (re_rules e' = re_rules e \<and> re_watermark e' = re_watermark e
     \<and> (\<exists>es. re_trace e' = re_trace e @ es \<and> list_all P es))"

lemma went_on_refl [simp]: "went_on P e e"
  by (simp add: went_on_def)

lemma went_on_trans: "went_on P e e' \<Longrightarrow> went_on P e' e'' \<Longrightarrow> went_on P e e''"
  by (fastforce simp: went_on_def)

lemma went_on_did [simp]: "P x \<Longrightarrow> went_on P e (did x e)"
  by (simp add: went_on_def did_def)

lemma went_on_did_trans: "went_on P e e' \<Longrightarrow> P x \<Longrightarrow> went_on P e (did x e')"
  by (rule went_on_trans) auto

lemma went_on_put [simp]: "went_on P e (put_status i s e)"
  by (simp add: went_on_def put_status_def)

lemma went_on_ids [simp]: "went_on P e (e\<lparr>re_ids := n\<rparr>)"
  by (simp add: went_on_def)

lemma went_on_mono: "went_on P e e' \<Longrightarrow> (\<And>x. P x \<Longrightarrow> Q x) \<Longrightarrow> went_on Q e e'"
  by (auto simp: went_on_def intro: list.pred_mono_strong)

lemma went_on_refuse:
  "(\<And>k h p t. P (Recorded k h p t)) \<Longrightarrow> (\<And>n. P (Told n)) \<Longrightarrow> went_on P e (refuse rule row now why e)"
  unfolding refuse_def tell_def by (intro went_on_did_trans went_on_put)

lemma resolved_targets:
  "missing_names deps ts = [] \<Longrightarrow>
   map fst (List.map_filter (resolve_target deps) ts) = ts
   \<and> (\<forall>(t, cfg) \<in> set (List.map_filter (resolve_target deps) ts). de_resolveTarget deps (serverId t) = Some cfg)"
proof (induction ts)
  case (Cons t ts)
  then obtain cfg where "de_resolveTarget deps (serverId t) = Some cfg"
    by (auto simp: missing_names_def split: if_splits)
  with Cons show ?case
    by (auto simp: missing_names_def resolve_target_def List.map_filter_simps)
qed (simp add: List.map_filter_simps)

lemma run_action_effects:
  assumes "ruleMatches rule row" "verifyRuleAction rule = Allowed"
  shows "went_on (row_effect deps [rule] row) e (fst (run_action deps rule row now e))"
proof (cases "ru_action rule")
  case Notify
  then show ?thesis
    unfolding run_action_def tell_def
    by (simp add: Let_def) (intro went_on_did_trans went_on_put; simp add: row_effect_def)
next
  case (RunJob spec targets approval)
  show ?thesis
  proof (cases "missing_names deps targets = []")
    case False
    with RunJob show ?thesis
      by (simp add: run_action_def Let_def went_on_refuse row_effect_def)
  next
    case True
    define l where "l = \<lparr>la_jobId = de_newId deps (re_ids e), la_spec = spec, la_approval = approval,
      la_targets = List.map_filter (resolve_target deps) targets\<rparr>"
    define e1 where "e1 = did (Launched l) (e\<lparr>re_ids := Suc (re_ids e)\<rparr>)"
    have "carries_out deps row rule l"
      using assms RunJob resolved_targets [OF True] by (simp add: carries_out_def l_def)
    then have e1: "went_on (row_effect deps [rule] row) e e1"
      unfolding e1_def by (intro went_on_did_trans went_on_ids) (simp add: row_effect_def)
    show ?thesis
    proof (cases "de_runJob deps l")
      case None
      with RunJob True e1 show ?thesis
        unfolding run_action_def tell_def Let_def
        by (simp flip: l_def e1_def)
           (intro went_on_did_trans went_on_trans [OF e1] went_on_put; simp add: row_effect_def)
    next
      case (Some why)
      with RunJob True show ?thesis
        unfolding run_action_def Let_def
        by (simp flip: l_def e1_def)
           (rule went_on_trans [OF e1], simp add: went_on_refuse row_effect_def)
    qed
  qed
qed

lemma fire_effects:
  assumes "ruleMatches rule row"
  shows "went_on (row_effect deps [rule] row) e (fst (fire deps rule row now e))"
proof -
  let ?s = "statusFor e (ru_id rule)"
  let ?v = "checkRuleLimit (rs_fired ?s) now (ru_limit rule)"
  let ?e1 = "put_status (ru_id rule) (?s\<lparr>rs_fired := lv_fired ?v, rs_lastFiredAt := Some now\<rparr>) e"
  show ?thesis
  proof (cases "lv_allowed ?v")
    case True
    have "went_on (row_effect deps [rule] row) ?e1 (refuse rule row now why ?e1)" for why
      by (simp add: went_on_refuse row_effect_def)
    moreover have "went_on (row_effect deps [rule] row) ?e1 (fst (run_action deps rule row now ?e1))"
      if "verifyRuleAction rule = Allowed" using run_action_effects [OF assms that] .
    ultimately have "went_on (row_effect deps [rule] row) ?e1 (fst (fire deps rule row now e))"
      using True by (simp add: fire_def Let_def split: ApprovalVerdict.splits)
    then show ?thesis by (rule went_on_trans [OF went_on_put])
  qed (simp add: fire_def Let_def)
qed

lemma row_effect_mono: "row_effect deps [rule] row x \<Longrightarrow> rule \<in> set rules \<Longrightarrow> row_effect deps rules row x"
  by (auto simp: row_effect_def split: RuleEffect.splits)

lemma sweep_rule_engine:
  "ss_engine (sweep_rule deps now row rule s) =
     (if ruleMatches rule row then fst (fire deps rule row now (ss_engine s)) else ss_engine s)"
  by (cases "fire deps rule row now (ss_engine s)")
     (simp add: sweep_rule_def Let_def split: FireOutcome.split)

lemma sweep_rule_effects:
  assumes "rule \<in> set rules"
  shows "went_on (row_effect deps rules row) (ss_engine s) (ss_engine (sweep_rule deps now row rule s))"
proof (cases "ruleMatches rule row")
  case True
  have "went_on (row_effect deps rules row) (ss_engine s) (fst (fire deps rule row now (ss_engine s)))"
    by (rule went_on_mono [OF fire_effects [OF True] row_effect_mono [OF _ assms]])
  then show ?thesis
    using True by (simp add: sweep_rule_engine)
qed (simp add: sweep_rule_engine)

lemma sweep_rules_effects:
  "set rs \<subseteq> set rules \<Longrightarrow>
   went_on (row_effect deps rules row) (ss_engine s) (ss_engine (fold (sweep_rule deps now row) rs s))"
proof (induction rs arbitrary: s)
  case (Cons r rs)
  then show ?case
    using went_on_trans [OF sweep_rule_effects [of r rules] Cons.IH [of "sweep_rule deps now row r s"]]
    by simp
qed simp

subsection \<open>The effects of a sweep\<close>

text \<open>
  The last file written, and the watermark a process that starts from it reads; \<open>d\<close> is the
  watermark of the file this process started from.
\<close>

definition last_file :: "RuleEffect list \<Rightarrow> json option" where
  "last_file tr = fold (\<lambda>x d. case x of Wrote j \<Rightarrow> Some j | _ \<Rightarrow> d) tr None"

definition disk_mark :: "EventCursor option \<Rightarrow> RuleEffect list \<Rightarrow> EventCursor option" where
  "disk_mark d tr = (case last_file tr of
     None \<Rightarrow> d | Some j \<Rightarrow> sanitiseWatermark (field_of j ''watermark''))"

lemma file_watermark: "sanitiseWatermark (field_of (file_json e) ''watermark'') = re_watermark e"
  by (cases "re_watermark e") (simp_all add: file_json_def sanitiseWatermark_def cursor_json_def)

lemma last_file_quiet:
  "list_all (\<lambda>x. \<forall>j. x \<noteq> Wrote j) es \<Longrightarrow> last_file (tr @ es) = last_file tr"
  by (induction es arbitrary: tr rule: rev_induct) (auto simp: last_file_def split: RuleEffect.splits)

lemma disk_mark_quiet:
  "list_all (\<lambda>x. \<forall>j. x \<noteq> Wrote j) es \<Longrightarrow> disk_mark d (tr @ es) = disk_mark d tr"
  by (simp add: disk_mark_def last_file_quiet)

lemma disk_mark_wrote: "disk_mark d (tr @ [Wrote (file_json e)]) = re_watermark e"
  by (simp add: disk_mark_def last_file_def file_watermark)

lemma row_effect_quiet:
  "list_all (row_effect deps rules row) es \<Longrightarrow> list_all (\<lambda>x. \<forall>j. x \<noteq> Wrote j) es"
  by (induction es) (auto simp: row_effect_def)

text \<open>
  Every launch among \<open>es\<close>, done after \<open>tr\<close>, carries out one of the rules for one of the rows,
  and the file then on disk has a watermark before that row.
\<close>

definition traced :: "EventCursor option \<Rightarrow> RuleEngineDeps \<Rightarrow> Rule list \<Rightarrow> (StoredAlertRow \<times> EventCursor) set
    \<Rightarrow> RuleEffect list \<Rightarrow> RuleEffect list \<Rightarrow> bool" where
  "traced d deps rules rows tr es =
     (\<forall>p l q. es = p @ Launched l # q \<longrightarrow>
        (\<exists>(row, c) \<in> rows. \<exists>rule \<in> set rules. carries_out deps row rule l
           \<and> (\<exists>w. disk_mark d (tr @ p) = Some w \<and> position w < position c)))"

lemma traced_no_launch:
  assumes "list_all (\<lambda>x. \<forall>l. x \<noteq> Launched l) es"
  shows "traced d deps rules rows tr es"
  using assms by (auto simp: traced_def)

lemma traced_append:
  assumes "traced d deps rules rows tr es" "traced d deps rules rows' (tr @ es) es'"
    "rows \<subseteq> all" "rows' \<subseteq> all"
  shows "traced d deps rules all tr (es @ es')"
  unfolding traced_def
proof (intro allI impI)
  fix p l q
  assume "es @ es' = p @ Launched l # q"
  then consider r where "es = p @ Launched l # r" | r where "p = es @ r" "es' = r @ Launched l # q"
    by (auto simp: append_eq_append_conv2 append_eq_Cons_conv Cons_eq_append_conv)
  then show "\<exists>(row, c) \<in> all. \<exists>rule \<in> set rules. carries_out deps row rule l
      \<and> (\<exists>w. disk_mark d (tr @ p) = Some w \<and> position w < position c)"
  proof cases
    case 1
    with assms(1,3) show ?thesis unfolding traced_def by blast
  next
    case 2
    with assms(2,4) show ?thesis unfolding traced_def by fastforce
  qed
qed

lemma traced_row:
  assumes es: "list_all (row_effect deps rules (fst rc)) es"
    and w: "disk_mark d tr = Some w" "position w < position (snd rc)"
  shows "traced d deps rules {rc} tr es"
  unfolding traced_def
proof (intro allI impI)
  fix p l q
  assume eq: "es = p @ Launched l # q"
  with row_effect_quiet [OF es] have p: "list_all (\<lambda>x. \<forall>j. x \<noteq> Wrote j) p" by simp
  from es eq obtain rule where "rule \<in> set rules" "carries_out deps (fst rc) rule l"
    by (auto simp: list_all_iff row_effect_def)
  with w p show "\<exists>(row, c) \<in> {rc}. \<exists>rule \<in> set rules. carries_out deps row rule l
      \<and> (\<exists>w. disk_mark d (tr @ p) = Some w \<and> position w < position c)"
    by (cases rc) (auto simp: disk_mark_quiet)
qed

lemma sweep_row_traced:
  fixes s :: SweepState
  defines "e \<equiv> ss_engine s"
  assumes w: "disk_mark d (re_trace e) = Some w" "position w < position (snd rc)"
  shows "\<exists>es. re_rules (ss_engine (sweep_row deps now rc s)) = re_rules e
    \<and> re_trace (ss_engine (sweep_row deps now rc s)) = re_trace e @ es
    \<and> traced d deps (re_rules e) {rc} (re_trace e) es
    \<and> (\<exists>w'. disk_mark d (re_trace e @ es) = Some w' \<and> position w' \<le> position (snd rc))"
proof -
  let ?s1 = "fold (sweep_rule deps now (fst rc)) (re_rules e) (s\<lparr>ss_acted := False\<rparr>)"
  let ?f = "(ss_engine ?s1)\<lparr>re_watermark := Some (snd rc)\<rparr>"
  have "went_on (row_effect deps (re_rules e) (fst rc)) e (ss_engine ?s1)"
    using sweep_rules_effects [of "re_rules e" "re_rules e" deps "fst rc" "s\<lparr>ss_acted := False\<rparr>" now]
    by (simp add: e_def)
  then obtain es where es: "re_trace (ss_engine ?s1) = re_trace e @ es" "re_rules (ss_engine ?s1) = re_rules e"
    "list_all (row_effect deps (re_rules e) (fst rc)) es"
    by (auto simp: went_on_def)
  have t: "traced d deps (re_rules e) {rc} (re_trace e) es" by (rule traced_row [OF es(3) w])
  show ?thesis
  proof (cases "ss_acted ?s1")
    case True
    have "traced d deps (re_rules e) {rc} (re_trace e) (es @ [Wrote (file_json ?f)])"
      by (rule traced_append [OF t traced_no_launch]) auto
    moreover have "disk_mark d (re_trace e @ es @ [Wrote (file_json ?f)]) = Some (snd rc)"
      using disk_mark_wrote [of d "re_trace e @ es" ?f] by simp
    ultimately show ?thesis
      using es True
      by (intro exI [of _ "es @ [Wrote (file_json ?f)]"])
         (simp add: sweep_row_def Let_def persist_def did_def flip: e_def)
  next
    case False
    have "disk_mark d (re_trace e @ es) = Some w"
      using w row_effect_quiet [OF es(3)] by (simp add: disk_mark_quiet)
    with False es t w show ?thesis
      by (intro exI [of _ es]) (auto simp: sweep_row_def Let_def simp flip: e_def)
  qed
qed

lemma sweep_rows_traced:
  assumes "sorted_wrt (\<lambda>a b. position (snd a) < position (snd b)) rows"
    "disk_mark d (re_trace (ss_engine s)) = Some w" "\<forall>rc \<in> set rows. position w < position (snd rc)"
  shows "\<exists>es. re_rules (ss_engine (fold (sweep_row deps now) rows s)) = re_rules (ss_engine s)
    \<and> re_trace (ss_engine (fold (sweep_row deps now) rows s)) = re_trace (ss_engine s) @ es
    \<and> traced d deps (re_rules (ss_engine s)) (set rows) (re_trace (ss_engine s)) es"
  using assms
proof (induction rows arbitrary: s w)
  case Nil
  then show ?case by (auto intro: traced_no_launch)
next
  case (Cons rc rows)
  let ?e = "ss_engine s" and ?s = "sweep_row deps now rc s"
  obtain es w' where row: "re_rules (ss_engine ?s) = re_rules ?e" "re_trace (ss_engine ?s) = re_trace ?e @ es"
    "traced d deps (re_rules ?e) {rc} (re_trace ?e) es" "disk_mark d (re_trace ?e @ es) = Some w'"
    "position w' \<le> position (snd rc)"
    using sweep_row_traced [of d s w rc deps now] Cons.prems by auto
  have "\<forall>r \<in> set rows. position w' < position (snd r)"
    using row(5) Cons.prems(1) by (auto intro: le_less_trans)
  then obtain es' where rest: "re_rules (ss_engine (fold (sweep_row deps now) rows ?s)) = re_rules ?e"
    "re_trace (ss_engine (fold (sweep_row deps now) rows ?s)) = (re_trace ?e @ es) @ es'"
    "traced d deps (re_rules ?e) (set rows) (re_trace ?e @ es) es'"
    using Cons.IH [of ?s w'] Cons.prems(1) row by auto
  have "traced d deps (re_rules ?e) (set (rc # rows)) (re_trace ?e) (es @ es')"
    by (rule traced_append [OF row(3) rest(3)]) auto
  with rest show ?case by (auto intro!: exI [of _ "es @ es'"])
qed

lemma record_suppressed_effects:
  "re_rules (fold (record_suppressed now) xs e) = re_rules e
   \<and> re_watermark (fold (record_suppressed now) xs e) = re_watermark e
   \<and> (\<exists>es. re_trace (fold (record_suppressed now) xs e) = re_trace e @ es
         \<and> list_all (\<lambda>x. \<exists>k h p t. x = Recorded k h p t) es)"
proof (induction xs arbitrary: e)
  case (Cons x xs)
  then show ?case
    using Cons [of "record_suppressed now x e"] by (fastforce simp: record_suppressed_def did_def)
qed simp

lemma runSweep_traced:
  assumes ok: "log_ok logged" and wm: "re_watermark e = Some wm"
    and disk: "disk_mark d (re_trace e) = Some wm"
  shows "\<exists>es. re_trace (fst (runSweep deps now (Some logged) e)) = re_trace e @ es
    \<and> re_rules (fst (runSweep deps now (Some logged) e)) = re_rules e
    \<and> traced d deps (re_rules e) (set (news logged wm (sweep_from wm now))) (re_trace e) es"
proof -
  obtain found ex where read: "sweep_read logged wm now = (found, ex)" by (cases "sweep_read logged wm now")
  then have rp: "read_pages logged wm (max (ec_ts wm) (now - RULE_STALE_EVENT_MS)) None [] = (found, ex)"
    by (simp add: sweep_read_def sweep_from_def)
  let ?rows = "oldest_first found"
  have sub: "set ?rows \<subseteq> set (news logged wm (sweep_from wm now))"
    using sweep_reads [OF ok, of wm now] read by (auto simp: oldest_first_def)
  have sorted: "sorted_wrt (\<lambda>a b. position (snd a) < position (snd b)) ?rows"
    using oldest_first_sorted(2) [OF ok, of wm now] read by simp
  show ?thesis
  proof (cases "found = []")
    case True
    then show ?thesis
      using wm rp
      by (auto simp: runSweep_def persist_def did_def intro!: traced_no_launch)
  next
    case False
    define e1 where "e1 = (if ex then e else record_skipped
       (max (ec_ts wm) (now - RULE_STALE_EVENT_MS)) now ?rows e)"
    define s0 where "s0 = \<lparr>ss_engine = e1, ss_result = no_result\<lparr>sr_read := length ?rows,
       sr_skipped := (if ex then 0 else 1)\<rparr>, ss_suppressed = [], ss_acted = False\<rparr>"
    define s where "s = fold (sweep_row deps now) ?rows s0"
    define e2 where "e2 = fold (record_suppressed now) (ss_suppressed s) (ss_engine s)"
    have run: "fst (runSweep deps now (Some logged) e)
        = persist (e2\<lparr>re_watermark := Some (snd (last ?rows))\<rparr>)"
      using wm rp False by (simp add: runSweep_def e1_def s0_def s_def e2_def Let_def)
    have e1: "re_rules e1 = re_rules e" "\<exists>es. re_trace e1 = re_trace e @ es
        \<and> list_all (\<lambda>x. \<exists>k h p t. x = Recorded k h p t) es"
      by (auto simp: e1_def record_skipped_def did_def)
    then obtain es1 where es1: "re_trace e1 = re_trace e @ es1"
      "list_all (\<lambda>x. \<exists>k h p t. x = Recorded k h p t) es1" by blast
    have d1: "disk_mark d (re_trace e1) = Some wm"
      unfolding es1(1) using disk es1(2)
      by (subst disk_mark_quiet) (auto simp: list_all_iff)
    have new: "\<forall>rc \<in> set ?rows. position wm < position (snd rc)"
      using sub news_after by blast
    obtain es2 where es2: "re_rules (ss_engine s) = re_rules e1"
      "re_trace (ss_engine s) = re_trace e1 @ es2"
      "traced d deps (re_rules e1) (set ?rows) (re_trace e1) es2"
      using sweep_rows_traced [of ?rows d s0 wm deps now] sorted d1 new
      by (auto simp: s_def s0_def)
    obtain es3 where es3: "re_rules e2 = re_rules (ss_engine s)" "re_trace e2 = re_trace (ss_engine s) @ es3"
      "list_all (\<lambda>x. \<exists>k h p t. x = Recorded k h p t) es3"
      using record_suppressed_effects [of now "ss_suppressed s" "ss_engine s"] by (auto simp: e2_def)
    let ?last = "[Wrote (file_json (e2\<lparr>re_watermark := Some (snd (last ?rows))\<rparr>))]"
    have no: "list_all (\<lambda>x. \<forall>l. x \<noteq> Launched l) es1" "list_all (\<lambda>x. \<forall>l. x \<noteq> Launched l) (es3 @ ?last)"
      using es1(2) es3(3) by (auto simp: list_all_iff)
    have "traced d deps (re_rules e) (set ?rows) (re_trace e) (es1 @ es2)"
      by (rule traced_append [OF traced_no_launch [OF no(1)]]) (use es1 es2(3) e1(1) in auto)
    then have "traced d deps (re_rules e) (set (news logged wm (sweep_from wm now))) (re_trace e)
        ((es1 @ es2) @ (es3 @ ?last))"
      by (rule traced_append [OF _ traced_no_launch [OF no(2)]]) (use sub in auto)
    then show ?thesis
      unfolding run using es1 es2 es3 e1(1)
      by (intro exI [of _ "(es1 @ es2) @ (es3 @ ?last)"]) (simp add: persist_def did_def)
  qed
qed

end
