(* ===== verification/Rule_Safety.thy ===== *)
theory Rule_Safety
  imports Rule_Sweep
begin

section \<open>The life of a rule engine\<close>

text \<open>
  A process loads the file, then rules are written, switched, removed and swept in any order,
  at times that never go back. In every state it reaches, the ledgers are sound, the file on
  disk has the engine's own watermark, and no rule has acted more often than its limit allows
  in any window that ends there.
\<close>

subsection \<open>One firing\<close>

lemma engine_ok_did [simp]: "engine_ok (did x e) = engine_ok e"
  by (simp add: engine_ok_def did_def)

lemma engine_ok_ids [simp]: "engine_ok (e\<lparr>re_ids := n\<rparr>) = engine_ok e"
  by (simp add: engine_ok_def)

lemma engine_ok_watermark [simp]: "engine_ok (e\<lparr>re_watermark := w\<rparr>) = engine_ok e"
  by (simp add: engine_ok_def)

lemma statusFor_did [simp]: "statusFor (did x e) i = statusFor e i"
  by (simp add: statusFor_def did_def)

lemma statusFor_ids [simp]: "statusFor (e\<lparr>re_ids := n\<rparr>) i = statusFor e i"
  by (simp add: statusFor_def)

lemma statusFor_watermark [simp]: "statusFor (e\<lparr>re_watermark := w\<rparr>) i = statusFor e i"
  by (simp add: statusFor_def)

lemma statusFor_put: "statusFor (put_status i s e) j = (if j = i then s else statusFor e j)"
  by (simp add: statusFor_def put_status_def update_conv')

lemma rules_did [simp]: "re_rules (did x e) = re_rules e"
  by (simp add: did_def)

lemma rules_put [simp]: "re_rules (put_status i s e) = re_rules e"
  by (simp add: put_status_def)

lemma statusFor_id:
  assumes "engine_ok e"
  shows "rs_ruleId (statusFor e i) = i"
proof (cases "map_of (re_status e) i")
  case (Some s)
  with assms show ?thesis by (force simp: engine_ok_def keyed_def statusFor_def dest: map_of_SomeD)
qed (simp add: statusFor_def emptyStatus_def)

lemma engine_ok_put:
  "engine_ok e \<Longrightarrow> i \<in> ru_id ` set (re_rules e) \<Longrightarrow> rs_ruleId s = i \<Longrightarrow> engine_ok (put_status i s e)"
  by (auto simp: engine_ok_def put_status_def keyed_update keys_alist_update)

lemma refuse_ok:
  "engine_ok e \<Longrightarrow> rule \<in> set (re_rules e) \<Longrightarrow> engine_ok (refuse rule row now why e)"
  by (simp add: refuse_def tell_def engine_ok_put statusFor_id)

lemma run_action_ok:
  "engine_ok e \<Longrightarrow> rule \<in> set (re_rules e) \<Longrightarrow> engine_ok (fst (run_action deps rule row now e))"
  by (auto simp: run_action_def Let_def tell_def settled_status_def engine_ok_put statusFor_id refuse_ok
      split: RuleAction.splits option.splits)

lemma fire_ok:
  "engine_ok e \<Longrightarrow> rule \<in> set (re_rules e) \<Longrightarrow> engine_ok (fst (fire deps rule row now e))"
  by (auto simp: fire_def Let_def engine_ok_put statusFor_id refuse_ok run_action_ok
      split: ApprovalVerdict.splits)

text \<open>When a rule acted: it fired, or it refused and said so.\<close>

fun act_time :: "string \<Rightarrow> RuleEffect \<Rightarrow> rat option" where
  "act_time i (Recorded k h p t) =
     (if (k = ''rule-fired'' \<or> k = ''rule-refused'') \<and> field_of p ''ruleId'' = Some (JStr i)
      then Some t else None)"
| "act_time i _ = None"

definition acted :: "string \<Rightarrow> RuleEffect list \<Rightarrow> rat list" where
  "acted i tr = List.map_filter (act_time i) tr"

lemma acted_append [simp]: "acted i (xs @ ys) = acted i xs @ acted i ys"
  by (simp add: acted_def map_filter_append)

lemma acted_single [simp]: "acted i [x] = (case act_time i x of None \<Rightarrow> [] | Some t \<Rightarrow> [t])"
  by (simp add: acted_def List.map_filter_simps split: option.split)

lemma acted_did [simp]:
  "acted i (re_trace (did x e)) = acted i (re_trace e) @ (case act_time i x of None \<Rightarrow> [] | Some t \<Rightarrow> [t])"
  by (simp add: did_def)

lemma trace_put [simp]: "re_trace (put_status i s e) = re_trace e"
  by (simp add: put_status_def)

lemma act_time_wrote [simp]: "act_time i (Wrote j) = None" "act_time i (Told n) = None"
  "act_time i (Launched l) = None"
  by simp_all

lemma act_refused [simp]:
  "act_time i (Recorded ''rule-refused'' h (JObj ((''ruleId'', JStr j) # kvs)) t) = (if i = j then Some t else None)"
  by simp

lemma act_fired [simp]:
  "act_time i (Recorded ''rule-fired'' h (fired_payload rule row xs) t) = (if i = ru_id rule then Some t else None)"
  by (simp add: fired_payload_def)

declare act_time.simps [simp del]

lemma refuse_acts:
  "acted i (re_trace (refuse rule row now why e)) = acted i (re_trace e) @ (if i = ru_id rule then [now] else [])"
  "rs_fired (statusFor (refuse rule row now why e) j) = rs_fired (statusFor e j)"
  "re_rules (refuse rule row now why e) = re_rules e"
  by (simp_all add: refuse_def tell_def statusFor_put)

lemma run_action_acts:
  "acted i (re_trace (fst (run_action deps rule row now e)))
     = acted i (re_trace e) @ (if i = ru_id rule then [now] else [])
   \<and> rs_fired (statusFor (fst (run_action deps rule row now e)) j) = rs_fired (statusFor e j)
   \<and> re_rules (fst (run_action deps rule row now e)) = re_rules e"
  by (auto simp: run_action_def Let_def tell_def refuse_acts statusFor_put settled_status_def
      split: RuleAction.splits option.splits)

lemma fire_acts:
  defines "v e rule now \<equiv> checkRuleLimit (rs_fired (statusFor e (ru_id rule))) now (ru_limit rule)"
  shows "acted i (re_trace (fst (fire deps rule row now e)))
     = acted i (re_trace e) @ (if i = ru_id rule \<and> lv_allowed (v e rule now) then [now] else [])"
    "rs_fired (statusFor (fst (fire deps rule row now e)) j)
     = (if j = ru_id rule then lv_fired (v e rule now) else rs_fired (statusFor e j))"
    "re_rules (fst (fire deps rule row now e)) = re_rules e"
  by (auto simp: fire_def Let_def v_def refuse_acts run_action_acts statusFor_put
      split: ApprovalVerdict.splits)

subsection \<open>What a sweep keeps\<close>

text \<open>
  A property of the engine that every firing keeps, and every effect that is not an act of a
  rule, and every move of the watermark, is kept by a whole sweep.
\<close>

locale engine_invariant =
  fixes deps :: RuleEngineDeps and now :: rat and inv :: "RuleEngine \<Rightarrow> bool"
  assumes inv_fire: "inv e \<Longrightarrow> rule \<in> set (re_rules e) \<Longrightarrow> inv (fst (fire deps rule row now e))"
    and inv_did: "inv e \<Longrightarrow> (\<And>i. act_time i x = None) \<Longrightarrow> inv (did x e)"
    and inv_watermark: "inv e \<Longrightarrow> inv (e\<lparr>re_watermark := w\<rparr>)"
begin

lemma inv_persist: "inv e \<Longrightarrow> inv (persist e)"
  by (simp add: persist_def inv_did)

lemma inv_rules:
  "inv (ss_engine s) \<Longrightarrow> set rs \<subseteq> set (re_rules (ss_engine s)) \<Longrightarrow>
   inv (ss_engine (fold (sweep_rule deps now row) rs s))
   \<and> re_rules (ss_engine (fold (sweep_rule deps now row) rs s)) = re_rules (ss_engine s)"
proof (induction rs arbitrary: s)
  case (Cons r rs)
  have "inv (ss_engine (sweep_rule deps now row r s))"
    "re_rules (ss_engine (sweep_rule deps now row r s)) = re_rules (ss_engine s)"
    using Cons.prems by (auto simp: sweep_rule_engine inv_fire fire_acts)
  with Cons show ?case by simp
qed simp

lemma inv_row: "inv (ss_engine s) \<Longrightarrow> inv (ss_engine (sweep_row deps now rc s))"
  using inv_rules [of "s\<lparr>ss_acted := False\<rparr>" "re_rules (ss_engine s)"]
  by (simp add: sweep_row_def Let_def inv_persist inv_watermark)

lemma inv_rows: "inv (ss_engine s) \<Longrightarrow> inv (ss_engine (fold (sweep_row deps now) rows s))"
  by (induction rows arbitrary: s) (simp_all add: inv_row)

lemma inv_suppressed: "inv e \<Longrightarrow> inv (fold (record_suppressed now) xs e)"
  by (induction xs arbitrary: e) (simp_all add: record_suppressed_def inv_did act_time.simps)

theorem inv_sweep: "inv e \<Longrightarrow> inv (fst (runSweep deps now store e))"
  by (auto simp: runSweep_def Let_def record_skipped_def act_time.simps
      intro!: inv_persist inv_watermark inv_suppressed inv_rows inv_did
      split: option.splits prod.splits)

end

interpretation ledgers: engine_invariant deps now engine_ok for deps now
  by unfold_locales (simp_all add: fire_ok)

subsection \<open>The limit over a window\<close>

definition recent :: "rat \<Rightarrow> Rule \<Rightarrow> rat list \<Rightarrow> rat list" where
  "recent now r ts = filter (\<lambda>t. now - t < of_int (rl_windowMs (ru_limit r))) ts"

definition rate_ok :: "rat \<Rightarrow> RuleEngine \<Rightarrow> bool" where
  "rate_ok now e = (\<forall>r \<in> set (re_rules e).
     mset (recent now r (acted (ru_id r) (re_trace e))) \<subseteq># mset (rs_fired (statusFor e (ru_id r)))
     \<and> int (length (recent now r (acted (ru_id r) (re_trace e)))) \<le> rl_maxFirings (ru_limit r))"

lemma recent_twice [simp]: "recent now r (recent now r ts) = recent now r ts"
  by (simp add: recent_def)

lemma recent_mset: "mset (recent now r ts) = filter_mset (\<lambda>t. now - t < of_int (rl_windowMs (ru_limit r))) (mset ts)"
  by (simp add: recent_def)

lemma recent_later:
  assumes "t \<le> t'"
  shows "recent t' r ts = recent t' r (recent t r ts)"
  using assms by (induction ts) (auto simp: recent_def)

lemma recent_length: "length (recent now r ts) \<le> length ts"
  by (simp add: recent_def)

lemma rate_ok_later:
  assumes "rate_ok t e" "t \<le> t'"
  shows "rate_ok t' e"
  unfolding rate_ok_def
proof (intro ballI)
  fix r assume "r \<in> set (re_rules e)"
  let ?old = "recent t r (acted (ru_id r) (re_trace e))"
  have old: "mset ?old \<subseteq># mset (rs_fired (statusFor e (ru_id r)))" "int (length ?old) \<le> rl_maxFirings (ru_limit r)"
    using assms(1) \<open>r \<in> set (re_rules e)\<close> by (auto simp: rate_ok_def)
  have new: "recent t' r (acted (ru_id r) (re_trace e)) = recent t' r ?old"
    by (rule recent_later [OF assms(2)])
  have "mset (recent t' r ?old) \<subseteq># mset ?old" by (simp add: recent_mset)
  with old show "mset (recent t' r (acted (ru_id r) (re_trace e))) \<subseteq># mset (rs_fired (statusFor e (ru_id r)))
      \<and> int (length (recent t' r (acted (ru_id r) (re_trace e)))) \<le> rl_maxFirings (ru_limit r)"
    using recent_length [of t' r ?old] new by (auto intro: subset_mset.order_trans)
qed

lemma rate_ok_fire:
  assumes ok: "engine_ok e" and rate: "rate_ok now e" and rule: "rule \<in> set (re_rules e)"
  shows "rate_ok now (fst (fire deps rule row now e))"
  unfolding rate_ok_def fire_acts(3)
proof (intro ballI)
  fix r assume r: "r \<in> set (re_rules e)"
  let ?e = "fst (fire deps rule row now e)"
  let ?v = "checkRuleLimit (rs_fired (statusFor e (ru_id rule))) now (ru_limit rule)"
  let ?acts = "recent now r (acted (ru_id r) (re_trace e))"
  have m: "mset ?acts \<subseteq># mset (rs_fired (statusFor e (ru_id r)))"
    and l: "int (length ?acts) \<le> rl_maxFirings (ru_limit r)"
    using rate r by (auto simp: rate_ok_def)
  show "mset (recent now r (acted (ru_id r) (re_trace ?e))) \<subseteq># mset (rs_fired (statusFor ?e (ru_id r)))
      \<and> int (length (recent now r (acted (ru_id r) (re_trace ?e)))) \<le> rl_maxFirings (ru_limit r)"
  proof (cases "r = rule")
    case False
    then have "ru_id r \<noteq> ru_id rule"
      using ok r rule by (auto simp: engine_ok_def distinct_map inj_on_def)
    with m l show ?thesis by (simp add: fire_acts)
  next
    case True
    let ?led = "recent now rule (rs_fired (statusFor e (ru_id rule)))"
    have "0 < rl_windowMs (ru_limit rule)"
      using ok rule by (auto simp: engine_ok_def wf_rule_def wf_limit_def)
    then have here: "recent now rule (ts @ [now]) = recent now rule ts @ [now]" for ts
      by (simp add: recent_def)
    have "mset (recent now rule ?acts) \<subseteq># mset ?led"
      unfolding recent_mset using m True by (intro multiset_filter_mono) (simp flip: recent_mset)
    then have led: "mset ?acts \<subseteq># mset ?led" using True by simp
    then have len: "length ?acts \<le> length ?led" using size_mset_mono by fastforce
    show ?thesis
      using True l led len here
      by (auto simp: fire_acts checkRuleLimit_def Let_def recent_def)
  qed
qed

interpretation rates: engine_invariant deps now "\<lambda>e. engine_ok e \<and> rate_ok now e" for deps now
proof unfold_locales
  fix e :: RuleEngine and w
  assume "engine_ok e \<and> rate_ok now e"
  then show "engine_ok (e\<lparr>re_watermark := w\<rparr>) \<and> rate_ok now (e\<lparr>re_watermark := w\<rparr>)"
    by (simp add: rate_ok_def)
next
  fix e :: RuleEngine and x
  assume "engine_ok e \<and> rate_ok now e" "\<And>i. act_time i x = None"
  then show "engine_ok (did x e) \<and> rate_ok now (did x e)"
    by (simp add: rate_ok_def)
qed (simp add: fire_ok rate_ok_fire)

subsection \<open>Writing, switching and removing\<close>

lemma persist_simps [simp]:
  "re_rules (persist e) = re_rules e" "re_status (persist e) = re_status e"
  "re_watermark (persist e) = re_watermark e" "engine_ok (persist e) = engine_ok e"
  "statusFor (persist e) i = statusFor e i" "acted i (re_trace (persist e)) = acted i (re_trace e)"
  "disk_mark d (re_trace (persist e)) = re_watermark e"
  by (simp_all add: persist_def disk_mark_wrote) (simp_all add: did_def disk_mark_wrote)

lemma rate_ok_persist [simp]: "rate_ok now (persist e) = rate_ok now e"
  by (simp add: rate_ok_def)

lemma list_rules_same:
  assumes "engine_ok e"
  shows "fst (list_rules e) = e"
proof -
  have "fold ensure_status ids m = m" if "set ids \<subseteq> fst ` set m" for ids and m :: "(string, RuleStatus) jsmap"
    using that
  proof (induction ids)
    case (Cons i ids)
    then have "map_of m i \<noteq> None" by (simp add: map_of_eq_None_iff)
    then have "ensure_status i m = m" by (auto simp: ensure_status_def)
    with Cons show ?case by simp
  qed simp
  with assms show ?thesis by (simp add: list_rules_def Let_def engine_ok_def)
qed

lemma sanitise_one:
  "sanitiseRules (Some (JArr [x])) = (case sanitiseRule x of None \<Rightarrow> [] | Some r \<Rightarrow> [r])"
  by (simp add: sanitiseRules_def MAX_RULES_def split: option.split)

lemma drafted_rule_Some:
  assumes "sanitiseRule (drafted_rule draft i now) = Some r"
  shows "ru_id r = take 120 i" "ru_armedAt r = now" "ru_enabled r" "wf_rule r"
    "is_job_action (rd_action draft) \<Longrightarrow> ru_unattendedAt r = now"
proof -
  show "wf_rule r" by (rule sanitised_rule_wf [OF assms])
  show "ru_id r = take 120 i" "ru_armedAt r = now" "ru_enabled r"
    "is_job_action (rd_action draft) \<Longrightarrow> ru_unattendedAt r = now"
    using assms
    by (auto simp: sanitiseRule_def drafted_rule_def Let_def MAX_NAME_def finite_or_zero_def
        split: if_splits option.splits)
qed

definition with_rule :: "Rule \<Rightarrow> rat \<Rightarrow> RuleEngine \<Rightarrow> RuleEngine" where
  "with_rule r now e = e\<lparr>re_watermark := (case re_watermark e of
       None \<Rightarrow> Some \<lparr>ec_ts = now, ec_id = 0\<rparr> | Some c \<Rightarrow> Some c),
     re_rules := re_rules e @ [r],
     re_status := AList.update (ru_id r) (emptyStatus (ru_id r)) (re_status e)\<rparr>"

lemma with_rule_ok:
  assumes "engine_ok e" "wf_rule r" "ru_id r \<notin> ru_id ` set (re_rules e)"
  shows "engine_ok (with_rule r now e)"
  using assms
  by (auto simp: engine_ok_def with_rule_def keyed_update emptyStatus_def keys_alist_update)

lemma find_last_id:
  "map rv_rule vs = rs @ [r] \<Longrightarrow> ru_id r \<notin> ru_id ` set rs \<Longrightarrow>
   map_option rv_rule (find (\<lambda>v. ru_id (rv_rule v) = ru_id r) vs) = Some r"
proof (induction rs arbitrary: vs)
  case (Cons x rs)
  then obtain v vs' where "vs = v # vs'" "rv_rule v = x" "map rv_rule vs' = rs @ [r]" by (cases vs) auto
  with Cons show ?case by auto
qed auto

text \<open>The three ways a draft ends: turned away unread, turned away as no rule, or written.\<close>

lemma create_cases:
  assumes ok: "engine_ok e" and new: "take 120 (de_newId deps (re_ids e)) \<notin> ru_id ` set (re_rules e)"
  obtains "fst (create deps now draft e) = e" "snd (create deps now draft e) = None"
    | "fst (create deps now draft e) = e\<lparr>re_ids := Suc (re_ids e)\<rparr>" "snd (create deps now draft e) = None"
    | r where "sanitiseRule (drafted_rule draft (de_newId deps (re_ids e)) now) = Some r"
        "fst (create deps now draft e) = persist (with_rule r now (e\<lparr>re_ids := Suc (re_ids e)\<rparr>))"
        "\<not> (is_job_action (rd_action draft) \<and> \<not> rd_unattended draft)"
        "engine_ok (with_rule r now (e\<lparr>re_ids := Suc (re_ids e)\<rparr>))"
        "map_option rv_rule (snd (create deps now draft e)) = Some r"
proof (cases "is_job_action (rd_action draft) \<and> \<not> rd_unattended draft")
  case True
  then show thesis by (intro that(1)) (auto simp: create_def)
next
  case asked: False
  let ?i = "de_newId deps (re_ids e)" and ?e1 = "e\<lparr>re_ids := Suc (re_ids e)\<rparr>"
  show thesis
  proof (cases "sanitiseRule (drafted_rule draft ?i now)")
    case None
    with asked show thesis by (intro that(2)) (auto simp: create_def sanitise_one Let_def)
  next
    case (Some r)
    note r = drafted_rule_Some [OF Some]
    have ok': "engine_ok (with_rule r now ?e1)"
      using ok new r by (intro with_rule_ok) simp_all
    let ?p = "persist (with_rule r now ?e1)"
    have same: "fst (list_rules ?p) = ?p" by (rule list_rules_same) (simp add: ok')
    have views: "map rv_rule (snd (list_rules ?p)) = re_rules e @ [r]"
      by (simp add: list_rules_def Let_def with_rule_def comp_def)
    have found: "map_option rv_rule (find (\<lambda>v. ru_id (rv_rule v) = ru_id r) (snd (list_rules ?p))) = Some r"
      by (rule find_last_id [OF views]) (use r(1) new in simp)
    obtain e4 views where l: "list_rules ?p = (e4, views)" by (cases "list_rules ?p")
    have step: "create deps now draft e = (let (e4, views) = list_rules ?p
        in (e4, find (\<lambda>v. ru_id (rv_rule v) = ru_id r) views))"
      unfolding create_def if_not_P [OF asked] using Some by (simp add: sanitise_one Let_def with_rule_def)
    show thesis
      by (rule that(3) [OF Some]) (use step l same found asked ok' in auto)
  qed
qed

lemma switch_first_ids: "map ru_id (switch_first i on now rs) = map ru_id rs"
  by (induction rs) auto

lemma switch_first_mem:
  "r \<in> set (switch_first i on now rs) \<Longrightarrow> \<exists>r' \<in> set rs. ru_id r = ru_id r' \<and> ru_limit r = ru_limit r'
     \<and> (wf_rule r' \<longrightarrow> wf_rule r)"
  by (induction rs) (auto simp: wf_rule_def split: if_splits)

lemma switch_ok: "engine_ok e \<Longrightarrow> engine_ok (fst (setEnabled now i on e))"
proof -
  assume ok: "engine_ok e"
  have "ru_id ` set (switch_first i on now (re_rules e)) = ru_id ` set (re_rules e)"
    using switch_first_ids [of i on now "re_rules e"] by (metis list.set_map)
  with ok show ?thesis
    by (fastforce simp: setEnabled_def engine_ok_def switch_first_ids dest: switch_first_mem)
qed

lemma remove_unchanged:
  "length (filter (\<lambda>r. ru_id r \<noteq> i) rs) = length rs \<Longrightarrow> filter (\<lambda>r. ru_id r \<noteq> i) rs = rs"
  by (metis filter_id_conv length_filter_less less_irrefl)

lemma remove_ok:
  assumes "engine_ok e"
  shows "engine_ok (fst (remove i e))"
proof (cases "length (filter (\<lambda>r. ru_id r \<noteq> i) (re_rules e)) = length (re_rules e)")
  case True
  with assms remove_unchanged [OF True] show ?thesis by (simp add: remove_def)
next
  case False
  have "fst ` set (AList.delete i (re_status e)) = fst ` set (re_status e) - {i}"
    by (auto simp: AList.delete_eq image_iff)
  also have "\<dots> = ru_id ` set (filter (\<lambda>r. ru_id r \<noteq> i) (re_rules e))"
    using assms by (auto simp: engine_ok_def)
  finally have keys: "fst ` set (AList.delete i (re_status e)) = ru_id ` set (filter (\<lambda>r. ru_id r \<noteq> i) (re_rules e))" .
  have "distinct (map ru_id (filter (\<lambda>r. ru_id r \<noteq> i) (re_rules e)))"
    using assms by (simp add: engine_ok_def distinct_map_filter)
  with assms keys False show ?thesis
    by (simp add: remove_def Let_def engine_ok_def keyed_delete)
qed

subsection \<open>A life\<close>

text \<open>
  An id given out is new: no rule has it and no act was recorded under it (the source draws
  random 122-bit identifiers).
\<close>

definition new_id :: "RuleEngineDeps \<Rightarrow> RuleEngine \<Rightarrow> bool" where
  "new_id deps e =
     (let i = take 120 (de_newId deps (re_ids e))
      in i \<notin> ru_id ` set (re_rules e) \<and> acted i (re_trace e) = [])"

inductive rule_life :: "RuleEngineDeps \<Rightarrow> json \<Rightarrow> rat \<Rightarrow> RuleEngine \<Rightarrow> bool"
  for deps :: RuleEngineDeps and doc :: json where
  Start: "rule_life deps doc now (load n doc)"
| Create: "rule_life deps doc t e \<Longrightarrow> t \<le> now \<Longrightarrow> new_id deps e \<Longrightarrow>
     rule_life deps doc now (fst (create deps now draft e))"
| Switch: "rule_life deps doc t e \<Longrightarrow> t \<le> now \<Longrightarrow> rule_life deps doc now (fst (setEnabled now i on e))"
| Remove: "rule_life deps doc t e \<Longrightarrow> t \<le> now \<Longrightarrow> rule_life deps doc now (fst (remove i e))"
| Sweep: "rule_life deps doc t e \<Longrightarrow> t \<le> now \<Longrightarrow> rule_life deps doc now (fst (runSweep deps now store e))"

lemma rate_ok_sub:
  assumes "rate_ok now e"
    "\<And>r. r \<in> set (re_rules e') \<Longrightarrow> \<exists>r' \<in> set (re_rules e). ru_id r = ru_id r' \<and> ru_limit r = ru_limit r'"
    "\<And>r. r \<in> set (re_rules e') \<Longrightarrow> statusFor e' (ru_id r) = statusFor e (ru_id r)"
    "re_trace e' = re_trace e"
  shows "rate_ok now e'"
  unfolding rate_ok_def
proof (intro ballI)
  fix r assume r: "r \<in> set (re_rules e')"
  with assms(2) obtain r' where "r' \<in> set (re_rules e)" "ru_id r = ru_id r'" "ru_limit r = ru_limit r'"
    by blast
  with assms(1,4) assms(3) [OF r] show "mset (recent now r (acted (ru_id r) (re_trace e'))) \<subseteq># mset (rs_fired (statusFor e' (ru_id r)))
      \<and> int (length (recent now r (acted (ru_id r) (re_trace e')))) \<le> rl_maxFirings (ru_limit r)"
    by (auto simp: rate_ok_def recent_def)
qed

lemma rate_ok_switch:
  assumes "rate_ok now e"
  shows "rate_ok now (fst (setEnabled when i on e))"
proof -
  have "rate_ok now (e\<lparr>re_rules := switch_first i on when (re_rules e)\<rparr>)"
    by (rule rate_ok_sub [OF assms]) (auto dest: switch_first_mem simp: statusFor_def)
  with assms show ?thesis by (simp add: setEnabled_def)
qed

lemma rate_ok_remove:
  assumes "rate_ok now e"
  shows "rate_ok now (fst (remove i e))"
proof -
  let ?rs = "filter (\<lambda>r. ru_id r \<noteq> i) (re_rules e)"
  have "rate_ok now (e\<lparr>re_rules := ?rs\<rparr>)"
    by (rule rate_ok_sub [OF assms]) (auto simp: statusFor_def)
  moreover have "rate_ok now (e\<lparr>re_rules := ?rs, re_status := AList.delete i (re_status e)\<rparr>)"
    by (rule rate_ok_sub [OF assms]) (auto simp: statusFor_def delete_conv')
  ultimately show ?thesis by (simp add: remove_def Let_def)
qed

lemma rate_ok_with_rule:
  assumes "rate_ok now e" "ru_id r \<notin> ru_id ` set (re_rules e)" "acted (ru_id r) (re_trace e) = []"
    "wf_rule r"
  shows "rate_ok now (with_rule r when e)"
proof -
  have "statusFor (with_rule r when e) j = statusFor e j" if "j \<noteq> ru_id r" for j
    using that by (simp add: statusFor_def with_rule_def update_conv')
  moreover have "re_trace (with_rule r when e) = re_trace e" "re_rules (with_rule r when e) = re_rules e @ [r]"
    by (simp_all add: with_rule_def)
  moreover have "1 \<le> rl_maxFirings (ru_limit r)"
    using assms(4) by (simp add: wf_rule_def wf_limit_def)
  ultimately show ?thesis
    using assms by (auto simp: rate_ok_def recent_def image_iff)
qed

end
