(* ===== verification/Rule_Properties.thy ===== *)
theory Rule_Properties
  imports Rule_Safety
begin

section \<open>What the rule engine promises\<close>

text \<open>
  The properties of the rule engine, over every life of an engine, and one small life in
  which they can all be watched: a rule that runs one command when a unit fails.
\<close>

subsection \<open>Every reachable state\<close>

lemma disk_mark_sweep:
  assumes "disk_mark d (re_trace e) = re_watermark e"
  shows "disk_mark d (re_trace (fst (runSweep deps now store e))) = re_watermark (fst (runSweep deps now store e))"
  using assms by (auto simp: runSweep_def Let_def split: option.splits prod.splits)

lemma disk_mark_edit:
  assumes "disk_mark d (re_trace e) = re_watermark e"
  shows "disk_mark d (re_trace (fst (setEnabled now i on e))) = re_watermark (fst (setEnabled now i on e))"
    "disk_mark d (re_trace (fst (remove i e))) = re_watermark (fst (remove i e))"
  using assms by (auto simp: setEnabled_def remove_def Let_def)

lemma disk_mark_start [simp]: "disk_mark d [] = d"
  by (simp add: disk_mark_def last_file_def)

lemma load_parts: "re_trace (load n doc) = []" "re_watermark (load n doc) = re_watermark (load 0 doc)"
  by (simp_all add: load_def Let_def)

lemma rule_life_ok:
  assumes "rule_life deps doc t e"
  shows "engine_ok e \<and> rate_ok t e \<and> disk_mark (re_watermark (load 0 doc)) (re_trace e) = re_watermark e"
  using assms
proof induction
  case (Start now n)
  have none: "recent now r (acted (ru_id r) (re_trace (load n doc))) = []" for r
    by (simp add: load_parts acted_def List.map_filter_simps recent_def)
  have "0 \<le> rl_maxFirings (ru_limit r)" if "r \<in> set (re_rules (load n doc))" for r
    using load_ok [of n doc] that by (force simp: engine_ok_def wf_rule_def wf_limit_def)
  then have "rate_ok now (load n doc)" by (simp add: rate_ok_def none)
  then show ?case using load_ok [of n doc] load_parts [of n doc] by simp
next
  case (Create t e now draft)
  then have ok: "engine_ok e" "rate_ok now e" by (auto intro: rate_ok_later)
  from \<open>new_id deps e\<close> have new: "take 120 (de_newId deps (re_ids e)) \<notin> ru_id ` set (re_rules e)"
    "acted (take 120 (de_newId deps (re_ids e))) (re_trace e) = []"
    by (simp_all add: new_id_def Let_def)
  show ?case
  proof (rule create_cases [OF ok(1) new(1), of now draft])
    assume "fst (create deps now draft e) = e"
    with ok Create show ?case by simp
  next
    assume "fst (create deps now draft e) = e\<lparr>re_ids := Suc (re_ids e)\<rparr>"
    with ok Create show ?case by (simp add: rate_ok_def)
  next
    fix r
    let ?e = "e\<lparr>re_ids := Suc (re_ids e)\<rparr>"
    assume r: "sanitiseRule (drafted_rule draft (de_newId deps (re_ids e)) now) = Some r"
      "fst (create deps now draft e) = persist (with_rule r now ?e)" "engine_ok (with_rule r now ?e)"
    note d = drafted_rule_Some [OF r(1)]
    have "rate_ok now ?e" using ok(2) by (simp add: rate_ok_def)
    then have "rate_ok now (with_rule r now ?e)"
      using new d by (intro rate_ok_with_rule) simp_all
    with r show ?case by simp
  qed
next
  case (Switch t e now i on)
  then have "rate_ok now e" by (auto intro: rate_ok_later)
  with Switch switch_ok [of e now i on] rate_ok_switch [of now e now i on] show ?case
    by (simp add: disk_mark_edit)
next
  case (Remove t e now i)
  then have "rate_ok now e" by (auto intro: rate_ok_later)
  with Remove remove_ok [of e i] rate_ok_remove [of now e i] show ?case
    by (simp add: disk_mark_edit)
next
  case (Sweep t e now store)
  then have "engine_ok e \<and> rate_ok now e" by (auto intro: rate_ok_later)
  then show ?case using Sweep disk_mark_sweep rates.inv_sweep by blast
qed

subsection \<open>A small life\<close>

definition unit_spec :: json where
  "unit_spec = JObj [(''kind'', JStr ''command''), (''title'', JStr ''look''),
     (''steps'', JArr [JObj [(''command'', JStr ''uptime'')]])]"

definition unit_target :: ApprovalTargetRef where
  "unit_target = \<lparr>serverId = ''s1'', serverName = ''web'', cohort = None\<rparr>"

definition unit_rule :: Rule where
  "unit_rule = \<lparr>ru_id = ''r1'', ru_name = ''look'', ru_enabled = True,
     ru_trigger = \<lparr>rt_kind = ''disk'', rt_event = ''raised''\<rparr>,
     ru_filter = \<lparr>rf_serverId = None, rf_minValue = None\<rparr>,
     ru_action = RunJob unit_spec [unit_target]
       (Some (jobApprovalFor (spec_view unit_spec) [unit_target] (Some ''RUN'') 1)),
     ru_limit = RULE_LIMIT_DEFAULT, ru_armedAt = 0, ru_unattendedAt = 1\<rparr>"

definition unit_engine :: RuleEngine where
  "unit_engine = \<lparr>re_rules = [unit_rule], re_status = [(''r1'', emptyStatus ''r1'')],
     re_watermark = Some \<lparr>ec_ts = 0, ec_id = 0\<rparr>, re_ids = 0, re_trace = []\<rparr>"

definition unit_log :: "HistoryEvent list" where
  "unit_log = [\<lparr>he_ts = 5, he_id = 1, he_kind = ''alert'',
     he_payload = Some (JObj [(''event'', JStr ''raised''), (''kind'', JStr ''disk''),
                              (''serverId'', JStr ''s1''), (''serverName'', JStr ''web'')])\<rparr>]"

definition unit_deps :: RuleEngineDeps where
  "unit_deps = \<lparr>de_newId = (\<lambda>n. ''id-'' @ show_nat n), de_resolveTarget = (\<lambda>s. Some (JStr s)),
     de_runJob = (\<lambda>l. None), de_sentence = (\<lambda>why. ''refused'')\<rparr>"

lemma unit_rule_verified: "verifyRuleAction unit_rule = Allowed"
proof -
  have "answered (job_demand (spec_view unit_spec, [unit_target])) (Some ''RUN'')"
    by (simp add: answered_def job_demand_def planJob_def Let_def confirmationFor_def)
  then have "job_verify (job_mint (spec_view unit_spec, [unit_target]) (Some ''RUN'') 1) (spec_view unit_spec, [unit_target]) = Allowed"
    by (intro job.mint_verifies) (simp_all add: unit_target_def)
  then show ?thesis
    by (simp add: verifyRuleAction_def unit_rule_def job_verify_def job_mint_def)
qed

definition unit_row :: StoredAlertRow where
  "unit_row = \<lparr>sa_event = ''raised'', sa_kind = ''disk'', sa_serverId = ''s1'', sa_serverName = ''web'',
     sa_value = None, sa_threshold = None, sa_detail = None, sa_until = None, sa_at = 5\<rparr>"

definition unit_cursor :: EventCursor where "unit_cursor = \<lparr>ec_ts = 5, ec_id = 1\<rparr>"

lemma unit_log_ok: "log_ok unit_log"
  by (simp add: log_ok_def unit_log_def)

lemma unit_news: "news unit_log \<lparr>ec_ts = 0, ec_id = 0\<rparr> (sweep_from \<lparr>ec_ts = 0, ec_id = 0\<rparr> 10) = [(unit_row, unit_cursor)]"
proof -
  have "sanitiseStoredAlert (JObj [(''event'', JStr ''raised''), (''kind'', JStr ''disk''),
      (''serverId'', JStr ''s1''), (''serverName'', JStr ''web'')]) = Some
      \<lparr>sa_event = ''raised'', sa_kind = ''disk'', sa_serverId = ''s1'', sa_serverName = ''web'',
       sa_value = None, sa_threshold = None, sa_detail = None, sa_until = None\<rparr>"
    by (simp add: sanitiseStoredAlert_def find_text_def STORED_ALERT_EVENTS_def STORE_ALERT_KINDS_def
        NUMERIC_ALERT_KINDS_def STATE_ALERT_KINDS_def EVENT_ALERT_KINDS_def ALERT_MAX_NAME_def short_text_def)
  then show ?thesis
    by (simp add: news_def all_from_def newest_first_def selected_def unit_log_def ALERT_HISTORY_KIND_def
        sweep_from_def RULE_STALE_EVENT_MS_def List.map_filter_simps fresh_row_def fresh_def alert_row_def
        cursor_of_def unit_row_def unit_cursor_def StoredAlertRow.defs StoredAlertEvent.defs)
qed

lemma unit_matches: "ruleMatches unit_rule unit_row"
  by (simp add: ruleMatches_def unit_rule_def unit_row_def)

text \<open>The job is started, then recorded and told, and only then is the file written.\<close>

definition unit_launch :: RuleJobLaunch where
  "unit_launch = \<lparr>la_jobId = ''id-0'', la_spec = unit_spec,
     la_approval = Some (jobApprovalFor (spec_view unit_spec) [unit_target] (Some ''RUN'') 1),
     la_targets = [(unit_target, JStr ''s1'')]\<rparr>"

lemma unit_fire:
  "\<exists>es. re_trace (fst (fire unit_deps unit_rule unit_row 10 unit_engine)) = Launched unit_launch # es
     \<and> list_all (\<lambda>x. \<forall>j. x \<noteq> Wrote j) es"
  "snd (fire unit_deps unit_rule unit_row 10 unit_engine) = Fired"
proof -
  have limit: "lv_allowed (checkRuleLimit (rs_fired (statusFor unit_engine ''r1'')) 10 RULE_LIMIT_DEFAULT)"
    by (simp add: checkRuleLimit_def statusFor_def unit_engine_def emptyStatus_def RULE_LIMIT_DEFAULT_def)
  have [simp]: "ru_id unit_rule = ''r1''" "ru_limit unit_rule = RULE_LIMIT_DEFAULT"
    "ru_action unit_rule = RunJob unit_spec [unit_target]
       (Some (jobApprovalFor (spec_view unit_spec) [unit_target] (Some ''RUN'') 1))"
    by (simp_all add: unit_rule_def)
  have [simp]: "show_nat 0 = ''0''" by (subst show_nat.simps) (simp add: numeral_eq_Suc, code_simp)
  have [simp]: "missing_names unit_deps [unit_target] = []"
    "resolve_target unit_deps unit_target = Some (unit_target, JStr ''s1'')"
    by (simp_all add: missing_names_def resolve_target_def unit_deps_def unit_target_def List.map_filter_simps)
  show "\<exists>es. re_trace (fst (fire unit_deps unit_rule unit_row 10 unit_engine)) = Launched unit_launch # es
     \<and> list_all (\<lambda>x. \<forall>j. x \<noteq> Wrote j) es"
    "snd (fire unit_deps unit_rule unit_row 10 unit_engine) = Fired"
    using limit unit_rule_verified
    by (simp_all add: fire_def Let_def run_action_def tell_def put_status_def did_def unit_launch_def
          List.map_filter_simps)
       (simp_all add: unit_deps_def unit_engine_def did_def tell_def put_status_def)
qed

lemma unit_sweep:
  "\<exists>es. re_trace (fst (runSweep unit_deps 10 (Some unit_log) unit_engine)) = Launched unit_launch # es"
proof -
  have read: "read_pages unit_log \<lparr>ec_ts = 0, ec_id = 0\<rparr>
      (max (ec_ts \<lparr>ec_ts = 0, ec_id = 0\<rparr>) (10 - RULE_STALE_EVENT_MS)) None [] = ([(unit_row, unit_cursor)], True)"
    using sweep_reads_all [OF unit_log_ok, of "\<lparr>ec_ts = 0, ec_id = 0\<rparr>" 10] unit_news
    by (simp add: sweep_read_def sweep_from_def RULE_SWEEP_MAX_EVENTS_def)
  obtain es where es: "re_trace (fst (fire unit_deps unit_rule unit_row 10 unit_engine)) = Launched unit_launch # es"
    using unit_fire(1) by blast
  let ?s = "\<lparr>ss_engine = unit_engine, ss_result = no_result\<lparr>sr_read := 1, sr_skipped := 0\<rparr>,
     ss_suppressed = [], ss_acted = False\<rparr>"
  have "\<exists>es. re_trace (ss_engine (sweep_row unit_deps 10 (unit_row, unit_cursor) ?s)) = Launched unit_launch # es"
    using es by (auto simp: sweep_row_def Let_def sweep_rule_engine unit_matches persist_def did_def unit_engine_def)
  then obtain es1 where "re_trace (ss_engine (sweep_row unit_deps 10 (unit_row, unit_cursor) ?s)) = Launched unit_launch # es1" ..
  moreover obtain es2 where "re_trace (fold (record_suppressed 10)
      (ss_suppressed (sweep_row unit_deps 10 (unit_row, unit_cursor) ?s))
      (ss_engine (sweep_row unit_deps 10 (unit_row, unit_cursor) ?s)))
      = re_trace (ss_engine (sweep_row unit_deps 10 (unit_row, unit_cursor) ?s)) @ es2"
    using record_suppressed_effects by blast
  moreover have "re_watermark unit_engine = Some \<lparr>ec_ts = 0, ec_id = 0\<rparr>" by (simp add: unit_engine_def)
  ultimately show ?thesis
    using read by (simp add: runSweep_def Let_def oldest_first_def persist_def did_def)
qed

lemma unit_rule_wf: "wf_rule unit_rule"
  by (simp add: wf_rule_def unit_rule_def wf_action_def unit_spec_def has_command_def wf_limit_def
      RULE_LIMIT_DEFAULT_def unit_target_def RULE_ALERT_KINDS_def ALERT_KINDS_def STORE_ALERT_KINDS_def
      NUMERIC_ALERT_KINDS_def RULE_TRIGGER_EVENTS_def)

lemma unit_life: "rule_life unit_deps (file_json unit_engine) t unit_engine"
proof -
  have ok: "engine_ok unit_engine"
    using unit_rule_wf by (simp add: engine_ok_def unit_engine_def keyed_def emptyStatus_def) (simp add: unit_rule_def)
  have "sanitiseRules (Some (JArr [rule_json unit_rule])) = [unit_rule]"
    using sanitiseRules_json [of "[unit_rule]"] unit_rule_wf by (simp add: MAX_RULES_def)
  moreover have "sanitiseStatus (status_json (emptyStatus ''r1'')) = Some (emptyStatus ''r1'')"
    by (simp add: sanitiseStatus_json emptyStatus_def reread_def)
  moreover have "ru_id unit_rule = ''r1''" by (simp add: unit_rule_def)
  ultimately have "load 0 (file_json unit_engine) = unit_engine"
    by (simp add: load_def Let_def file_json_def unit_engine_def load_status_def ensure_status_def
        sanitiseWatermark_def cursor_json_def emptyStatus_def)
  then show ?thesis using rule_life.Start [of unit_deps "file_json unit_engine" t 0] by simp
qed

subsection \<open>What a sweep starts\<close>

lemma life_sweep_traced:
  assumes "rule_life deps doc t e" "log_ok logged" "re_watermark e = Some wm"
    "re_trace (fst (runSweep deps now (Some logged) e)) = re_trace e @ p @ Launched l # q"
  shows "\<exists>rule \<in> set (re_rules e). \<exists>event \<in> set logged. \<exists>row. carries_out deps row rule l
    \<and> fresh_row wm event = Some (row, cursor_of event) \<and> he_kind event = ALERT_HISTORY_KIND
    \<and> sweep_from wm now \<le> he_ts event
    \<and> (\<exists>w. disk_mark (re_watermark (load 0 doc)) (re_trace e @ p) = Some w
         \<and> fresh_row w event = Some (row, cursor_of event))"
proof -
  from rule_life_ok [OF assms(1)] assms(3)
  have "disk_mark (re_watermark (load 0 doc)) (re_trace e) = Some wm" by simp
  from runSweep_traced [OF assms(2,3) this, of deps now] assms(4)
  have "traced (re_watermark (load 0 doc)) deps (re_rules e) (set (news logged wm (sweep_from wm now)))
      (re_trace e) (p @ Launched l # q)" by auto
  then obtain row c rule w where "(row, c) \<in> set (news logged wm (sweep_from wm now))"
    "rule \<in> set (re_rules e)" "carries_out deps row rule l"
    "disk_mark (re_watermark (load 0 doc)) (re_trace e @ p) = Some w" "position w < position c"
    unfolding traced_def by blast
  moreover from this(1) obtain event where "event \<in> set logged" "he_kind event = ALERT_HISTORY_KIND"
    "sweep_from wm now \<le> he_ts event" "fresh_row wm event = Some (row, c)"
    by (auto simp: set_news)
  moreover from this(4) have "c = cursor_of event" by (auto simp: fresh_row_Some)
  ultimately show ?thesis
    by (intro bexI [of _ rule] bexI [of _ event] exI [of _ row]) (auto simp: fresh_row_Some fresh_iff)
qed



text \<open>
  A job is started before anything about it is on disk: at the moment of the launch, the file
  a new process would start from still has a watermark before the alert that caused it. A
  process that dies while the job runs reads that alert as new and, the rule still applying
  and its approval still holding, has every reason to run the job again.\<close>

theorem started_job_is_not_yet_on_disk:
  assumes "rule_life deps doc t e" "log_ok logged" "re_watermark e = Some wm"
    "re_trace (fst (runSweep deps now (Some logged) e)) = re_trace e @ p @ Launched l # q"
  shows "\<exists>w event row c rule. disk_mark (re_watermark (load 0 doc)) (re_trace e @ p) = Some w
    \<and> event \<in> set logged \<and> fresh_row w event = Some (row, c)
    \<and> rule \<in> set (re_rules e) \<and> ruleMatches rule row \<and> verifyRuleAction rule = Allowed
    \<and> ru_action rule = RunJob (la_spec l) (map fst (la_targets l)) (la_approval l)"
  using life_sweep_traced [OF assms] by (auto simp: carries_out_def)

text \<open>
  The small life, twice: the first process starts the job and dies with the file as it was;
  the second starts from that file and starts the job again.\<close>

theorem started_job_is_not_yet_on_disk_witness:
  "(\<exists>q. re_trace (fst (runSweep unit_deps 10 (Some unit_log) unit_engine)) = Launched unit_launch # q)
   \<and> (\<exists>w event row c. disk_mark (re_watermark (load 0 (file_json unit_engine))) [] = Some w
        \<and> event \<in> set unit_log \<and> fresh_row w event = Some (row, c))"
proof -
  have tr: "re_trace unit_engine = []" "re_watermark unit_engine = Some \<lparr>ec_ts = 0, ec_id = 0\<rparr>"
    by (simp_all add: unit_engine_def)
  obtain q where q: "re_trace (fst (runSweep unit_deps 10 (Some unit_log) unit_engine)) = Launched unit_launch # q"
    using unit_sweep by auto
  with started_job_is_not_yet_on_disk [OF unit_life unit_log_ok tr(2), of 10 "[]" unit_launch q] tr(1)
  have "\<exists>w event row c. disk_mark (re_watermark (load 0 (file_json unit_engine))) [] = Some w
        \<and> event \<in> set unit_log \<and> fresh_row w event = Some (row, c)"
    by simp blast
  with q show ?thesis by blast
qed

subsection \<open>How often, and from which events\<close>



lemma last_row_newest:
  assumes "sorted_wrt (\<lambda>a b. f a < (f b :: 'b::linorder)) xs" "x \<in> set xs"
  shows "f x \<le> f (last xs)"
  using assms by (induction xs) (auto intro: less_imp_le)

lemma news_first_newest:
  assumes "log_ok logged" "news logged wm from = found @ suf" "found \<noteq> []" "rc \<in> set (news logged wm from)"
  shows "position (snd rc) \<le> position (snd (hd found))"
proof -
  obtain x xs where "found = x # xs" using assms(3) by (cases found) auto
  with news_desc [OF assms(1), of wm "from"] assms(2,4) show ?thesis by (auto intro: less_imp_le)
qed

text \<open>
  An event is looked at once: after a sweep the watermark has not moved back, and every alert
  of the log the sweep could read lies behind it, so no later sweep counts it as new, however
  the log has grown and whatever the sweep did with it.\<close>

theorem swept_events_are_done:
  assumes ok: "log_ok logged" and wm: "re_watermark e = Some wm"
  shows "\<exists>w. re_watermark (fst (runSweep deps now (Some logged) e)) = Some w \<and> position wm \<le> position w
    \<and> (\<forall>event \<in> set logged. readable event \<longrightarrow> fresh_row w event = None)"
proof -
  let ?from = "sweep_from wm now" and ?e' = "fst (runSweep deps now (Some logged) e)"
  obtain found ex where read: "sweep_read logged wm now = (found, ex)" by (cases "sweep_read logged wm now")
  then have rp: "read_pages logged wm (max (ec_ts wm) (now - RULE_STALE_EVENT_MS)) None [] = (found, ex)"
    by (simp add: sweep_read_def sweep_from_def)
  obtain suf where suf: "news logged wm ?from = found @ suf" "ex \<longrightarrow> suf = []"
    "\<not> ex \<longrightarrow> RULE_SWEEP_MAX_EVENTS \<le> length found"
    using sweep_reads [OF ok, of wm now] read by auto
  have behind: "fresh_row w event = None"
    if "event \<in> set logged" "readable event" "position wm \<le> position w" "?from \<le> ec_ts w"
      "\<And>rc. rc \<in> set (news logged wm ?from) \<Longrightarrow> position (snd rc) \<le> position w" for w event
  proof (rule ccontr)
    assume "fresh_row w event \<noteq> None"
    then obtain rc where rc: "fresh_row w event = Some rc" by blast
    then have new: "position w < pos event" by (simp add: fresh_row_Some fresh_iff)
    with that(3) have "fresh_row wm event = Some rc"
      using rc by (auto simp: fresh_row_Some fresh_iff)
    moreover have "?from \<le> he_ts event"
      using new that(4) by (auto simp: position_def pos_def less_prod_def)
    ultimately have "rc \<in> set (news logged wm ?from)"
      using that(1,2) by (auto simp: set_news readable_def)
    from that(5) [OF this] new rc show False by (auto simp: fresh_row_Some)
  qed
  show ?thesis
  proof (cases "found = []")
    case True
    then have ex: "ex" using suf(3) by (auto simp: RULE_SWEEP_MAX_EVENTS_def)
    let ?w = "\<lparr>ec_ts = max (ec_ts wm) ?from, ec_id = ec_id wm\<rparr>"
    have "re_watermark ?e' = Some ?w"
      using True ex rp wm by (simp add: runSweep_def sweep_from_def)
    moreover have "position wm \<le> position ?w" by (simp add: position_def less_eq_prod_def sweep_from_def)
    moreover have "news logged wm ?from = []" using True ex suf by simp
    ultimately show ?thesis using behind [of _ ?w] by auto
  next
    case False
    let ?rows = "oldest_first found"
    have rows: "?rows = rev found" using oldest_first_sorted(1) [OF ok, of wm now] read by simp
    let ?w = "snd (hd found)"
    have "re_watermark ?e' = Some ?w"
      using False rp wm rows by (auto simp: runSweep_def Let_def last_rev split: prod.splits)
    moreover have w: "hd found \<in> set (news logged wm ?from)" using False suf(1) by simp
    then have "position wm \<le> position ?w" using news_after by (blast intro: less_imp_le)
    moreover have "?from \<le> ec_ts ?w"
      using w by (auto simp: set_news fresh_row_Some cursor_of_def)
    ultimately show ?thesis
      using behind [of _ ?w] news_first_newest [OF ok suf(1) False] by auto
  qed
qed

theorem swept_events_are_done_witness:
  "readable (hd unit_log) \<and> (\<exists>w. re_watermark (fst (runSweep unit_deps 10 (Some unit_log) unit_engine)) = Some w
     \<and> fresh_row w (hd unit_log) = None)"
proof -
  have "(unit_row, unit_cursor) \<in> set (news unit_log \<lparr>ec_ts = 0, ec_id = 0\<rparr> (sweep_from \<lparr>ec_ts = 0, ec_id = 0\<rparr> 10))"
    by (simp add: unit_news)
  then have "readable (hd unit_log)" "hd unit_log \<in> set unit_log"
    by (auto simp: set_news fresh_row_Some readable_def unit_log_def)
  then show ?thesis
    using swept_events_are_done [OF unit_log_ok, of unit_engine "\<lparr>ec_ts = 0, ec_id = 0\<rparr>" unit_deps 10]
    by (auto simp: unit_engine_def)
qed

text \<open>C25:
  Paging reads what is new and nothing else: with fewer than two thousand new readable alerts
  in the window, the pages together hold exactly them, newest first, each once; with more,
  the newest ones, at least two thousand, and the sweep says that it stopped short.\<close>

theorem sweep_reads_what_is_new:
  assumes "log_ok logged"
  shows "(length (news logged wm from) < 2000 \<longrightarrow> read_pages logged wm from None [] = (news logged wm from, True))
    \<and> (\<exists>suf. news logged wm from = fst (read_pages logged wm from None []) @ suf)
    \<and> (\<not> snd (read_pages logged wm from None []) \<longrightarrow> 2000 \<le> length (fst (read_pages logged wm from None [])))
    \<and> distinct (news logged wm from)
    \<and> (\<forall>rc. rc \<in> set (news logged wm from) \<longleftrightarrow>
          (\<exists>event \<in> set logged. he_kind event = ''alert'' \<and> from \<le> he_ts event \<and> fresh_row wm event = Some rc))"
proof -
  have "all_from logged from = [] @ all_from logged from" by simp
  from read_pages_prefix [OF assms this, of None "[]" wm] obtain pre suf where
    p: "all_from logged from = pre @ suf"
      "fst (read_pages logged wm from None []) = List.map_filter (fresh_row wm) pre"
      "snd (read_pages logged wm from None []) \<longrightarrow> suf = []"
      "\<not> snd (read_pages logged wm from None []) \<longrightarrow> 2000 \<le> length (fst (read_pages logged wm from None []))"
    by (force simp: all_from_def List.map_filter_simps RULE_SWEEP_MAX_EVENTS_def)
  then have n: "news logged wm from = fst (read_pages logged wm from None []) @ List.map_filter (fresh_row wm) suf"
    by (simp add: news_def map_filter_append)
  have "length (news logged wm from) < 2000 \<longrightarrow> read_pages logged wm from None [] = (news logged wm from, True)"
    using n p(3,4) by (cases "read_pages logged wm from None []") (auto simp: List.map_filter_simps)
  moreover have "distinct (news logged wm from)"
    by (rule sorted_wrt_irrefl_distinct [OF news_desc [OF assms]]) simp
  moreover have "\<forall>rc. rc \<in> set (news logged wm from) \<longleftrightarrow>
      (\<exists>event \<in> set logged. he_kind event = ''alert'' \<and> from \<le> he_ts event \<and> fresh_row wm event = Some rc)"
    by (simp add: set_news ALERT_HISTORY_KIND_def)
  ultimately show ?thesis
    using n p(4) by blast
qed

theorem sweep_reads_what_is_new_witness:
  "read_pages unit_log \<lparr>ec_ts = 0, ec_id = 0\<rparr> (sweep_from \<lparr>ec_ts = 0, ec_id = 0\<rparr> 10) None []
     = ([(unit_row, unit_cursor)], True)"
  using sweep_reads_what_is_new [OF unit_log_ok, of "\<lparr>ec_ts = 0, ec_id = 0\<rparr>" "sweep_from \<lparr>ec_ts = 0, ec_id = 0\<rparr> 10"]
  by (simp add: unit_news)

subsection \<open>Rules on disk\<close>

text \<open>C27:
  Every rule that is read back is well formed: named and identified within bounds, watching an
  alert kind both vocabularies know, limited to between one and sixty firings in a window
  between one minute and seven days, and, where it runs a job, with at least one command and
  one host; and what is written of such a rule reads back as that very rule.\<close>

theorem rules_read_back_are_well_formed:
  assumes "sanitiseRule raw = Some r"
  shows "ru_id r \<noteq> [] \<and> length (ru_id r) \<le> 120 \<and> length (ru_name r) \<le> 120
    \<and> rt_kind (ru_trigger r) \<in> set ALERT_KINDS \<inter> set STORE_ALERT_KINDS
    \<and> rt_event (ru_trigger r) \<in> {''raised'', ''resolved''}
    \<and> 1 \<le> rl_maxFirings (ru_limit r) \<and> rl_maxFirings (ru_limit r) \<le> 60
    \<and> 60000 \<le> rl_windowMs (ru_limit r) \<and> rl_windowMs (ru_limit r) \<le> 604800000
    \<and> (\<forall>spec targets approval. ru_action r = RunJob spec targets approval \<longrightarrow>
         targets \<noteq> [] \<and> sp_steps (spec_view spec) \<noteq> [] \<and> (\<forall>s \<in> set (sp_steps (spec_view spec)). js_command s \<noteq> []))
    \<and> sanitiseRule (rule_json r) = Some r"
proof -
  have wf: "wf_rule r" by (rule sanitised_rule_wf [OF assms])
  have steps: "sp_steps (spec_view spec) \<noteq> [] \<and> (\<forall>s \<in> set (sp_steps (spec_view spec)). js_command s \<noteq> []) \<and> targets \<noteq> []"
    if "ru_action r = RunJob spec targets approval" for spec targets approval
    using wf that
    by (auto simp: wf_rule_def wf_action_def spec_view_def step_view_def has_command_def split: option.splits)
  have trig: "rt_kind (ru_trigger r) \<in> set ALERT_KINDS \<inter> set STORE_ALERT_KINDS"
    "rt_event (ru_trigger r) \<in> {''raised'', ''resolved''}"
    using wf by (auto simp: wf_rule_def RULE_ALERT_KINDS_def RULE_TRIGGER_EVENTS_def)
  show ?thesis
    using wf steps trig sanitise_rule_json [OF wf] by (simp add: wf_rule_def wf_limit_def)
qed

theorem rules_read_back_are_well_formed_witness:
  "sanitiseRule (rule_json unit_rule) = Some unit_rule \<and> 60000 \<le> rl_windowMs (ru_limit unit_rule)"
  using rules_read_back_are_well_formed [OF sanitise_rule_json [OF unit_rule_wf]] by simp



lemma switch_first_armed:
  "r \<in> set (switch_first i True now rs) \<Longrightarrow> distinct (map ru_id rs) \<Longrightarrow> ru_id r = i \<Longrightarrow> ru_armedAt r = now"
proof (induction rs)
  case (Cons x xs)
  show ?case
  proof (cases "ru_id x = i")
    case True
    with Cons.prems have "r \<notin> set xs" by auto
    with True Cons.prems(1) show ?thesis by auto
  next
    case False
    with Cons show ?thesis by auto
  qed
qed simp

text \<open>No rule acts on what came before it: a rule just written, and a rule just switched on
  again, applies to no alert of that moment or earlier; and a rule that runs a job is only
  written when the draft says that a person typed the word for it, at the clock's own time.\<close>

theorem rules_start_from_now:
  assumes "rule_life deps doc t e" "new_id deps e"
  shows "(\<forall>v row. snd (create deps now draft e) = Some v \<and> ruleMatches (rv_rule v) row \<longrightarrow> now < sa_at row)
    \<and> (\<forall>v. snd (create deps now draft e) = Some v \<and> is_job_action (rd_action draft) \<longrightarrow>
         rd_unattended draft \<and> ru_unattendedAt (rv_rule v) = now)
    \<and> (\<forall>r row. snd (setEnabled now i True e) \<and> r \<in> set (re_rules (fst (setEnabled now i True e)))
         \<and> ru_id r = i \<and> ruleMatches r row \<longrightarrow> now < sa_at row)"
proof (intro conjI allI impI)
  have ok: "engine_ok e" using rule_life_ok [OF assms(1)] by blast
  have new: "take 120 (de_newId deps (re_ids e)) \<notin> ru_id ` set (re_rules e)"
    using assms(2) by (simp add: new_id_def Let_def)
  have made: "ru_armedAt (rv_rule v) = now \<and> (is_job_action (rd_action draft) \<longrightarrow>
      rd_unattended draft \<and> ru_unattendedAt (rv_rule v) = now)"
    if v: "snd (create deps now draft e) = Some v" for v
  proof (rule create_cases [OF ok new, of now draft])
    fix r
    assume r: "sanitiseRule (drafted_rule draft (de_newId deps (re_ids e)) now) = Some r"
      "\<not> (is_job_action (rd_action draft) \<and> \<not> rd_unattended draft)"
      "map_option rv_rule (snd (create deps now draft e)) = Some r"
    from r(3) v have "rv_rule v = r" by simp
    with r(2) drafted_rule_Some(2,5) [OF r(1)] show ?thesis by blast
  qed (use v in simp_all)
  show "now < sa_at row" if "snd (create deps now draft e) = Some v \<and> ruleMatches (rv_rule v) row" for v row
    using that made by (auto simp: ruleMatches_def split: if_splits)
  show "rd_unattended draft" "ru_unattendedAt (rv_rule v) = now"
    if "snd (create deps now draft e) = Some v \<and> is_job_action (rd_action draft)" for v
    using that made by blast+
  fix r row
  assume r: "snd (setEnabled now i True e) \<and> r \<in> set (re_rules (fst (setEnabled now i True e)))
    \<and> ru_id r = i \<and> ruleMatches r row"
  then have "r \<in> set (switch_first i True now (re_rules e))"
    by (simp add: setEnabled_def split: if_splits)
  moreover have "distinct (map ru_id (re_rules e))" using ok by (simp add: engine_ok_def)
  ultimately have "ru_armedAt r = now" using r switch_first_armed by blast
  with r show "now < sa_at row" by (auto simp: ruleMatches_def split: if_splits)
qed

theorem rules_start_from_now_witness:
  "ruleMatches unit_rule unit_row \<and> \<not> ruleMatches (unit_rule\<lparr>ru_armedAt := 20\<rparr>) unit_row
     \<and> re_rules (fst (setEnabled 20 ''r1'' True unit_engine)) = [unit_rule\<lparr>ru_armedAt := 20\<rparr>]"
proof -
  have id: "ru_id unit_rule = ''r1''" "ru_enabled unit_rule" by (simp_all add: unit_rule_def)
  have rules: "snd (setEnabled 20 ''r1'' True unit_engine)"
    "re_rules (fst (setEnabled 20 ''r1'' True unit_engine)) = [unit_rule\<lparr>ru_armedAt := 20\<rparr>]"
    using id by (simp_all add: setEnabled_def unit_engine_def)
  have "new_id unit_deps unit_engine"
    using id by (simp add: new_id_def unit_deps_def unit_engine_def acted_def List.map_filter_simps Let_def)
  from rules_start_from_now [OF unit_life this, of 20 undefined "''r1''"] rules id
  have "\<not> ruleMatches (unit_rule\<lparr>ru_armedAt := 20\<rparr>) unit_row"
    by (auto simp: unit_row_def)
  with rules unit_matches show ?thesis by blast
qed

end
