(* ===== verification/Policy_Store.thy ===== *)
theory Policy_Store
  imports Policy_Core
begin

section \<open>The policy store (main/services/policyStore.ts)\<close>

text \<open>
  The access groups, the assignments that restrict a target, the Protected scopes and the
  aliases, held in memory and in one file. Reading an older file brings it up to date in
  five passes. A random identifier is the argument \<open>uid\<close>, a stream whose elements a
  function takes from the position it is given; none of them is ever compared with a
  decision. A file is missing, unusable (unreadable, not JSON, or of a shape that makes the
  passes throw), or a state.
\<close>

subsection \<open>Seeded capabilities\<close>

definition AI_CAPABILITIES :: "AiCapability list" where
  "AI_CAPABILITIES =
     [ViewServer, Terminal, ReadFiles, WriteFiles, SftpDownload, SftpUpload, SshTunnel, DatabaseAccess, Sudo,
      ServerMetrics, HostFacts, FirewallRules, SudoersRead, ManageServers, VpnControl, Containers,
      ContainerControl, BackupRead, FleetRead, CiRead, CiTrigger]"

type_synonym caps = "AiCapability \<Rightarrow> PermissionValue option"

definition allow_base :: "AiCapability \<Rightarrow> PermissionValue" where
  "allow_base cap =
     (if cap \<in> {HostFacts, FirewallRules, SudoersRead, ManageServers, VpnControl, CiRead, CiTrigger}
      then Deny else Allow)"

definition allowAll :: "caps \<Rightarrow> caps" where
  "allowAll overrides = (\<lambda>cap. case overrides cap of Some v \<Rightarrow> Some v | None \<Rightarrow> Some (allow_base cap))"

definition FULL_ACCESS_GRANTS :: caps where
  "FULL_ACCESS_GRANTS =
     [Sudo \<mapsto> Ask, HostFacts \<mapsto> Allow, CiRead \<mapsto> Allow, CiTrigger \<mapsto> Allow, ManageServers \<mapsto> Allow, VpnControl \<mapsto> Allow]"

definition FULL_ACCESS_V2 :: "(AiCapability \<times> PermissionValue) list" where
  "FULL_ACCESS_V2 = [(HostFacts, Deny), (CiRead, Deny), (CiTrigger, Deny), (ManageServers, Ask), (VpnControl, Ask)]"

definition OBSERVER_CAPABILITIES :: caps where
  "OBSERVER_CAPABILITIES =
     (\<lambda>cap. Some (if cap \<in> {ViewServer, ReadFiles, SftpDownload, ServerMetrics} then Allow else Deny))"

subsection \<open>Seeded path rules\<close>

abbreviation both_denied :: "string \<Rightarrow> string \<times> PermissionValue option \<times> PermissionValue option" where
  "both_denied pattern \<equiv> (pattern, Some Deny, Some Deny)"

abbreviation history_homes :: "string list" where
  "history_homes \<equiv> [''/root'', ''/home/*'', ''/Users/*'', ''?:/Users/*'']"

definition history_rules :: "(string \<times> PermissionValue option \<times> PermissionValue option) list" where
  "history_rules = concat (map (\<lambda>home.
     [both_denied (home @ ''/.*_history''), both_denied (home @ ''/.local/share/fish/fish_history'')]) history_homes)"

definition windows_rules :: "(string \<times> PermissionValue option \<times> PermissionValue option) list" where
  "windows_rules =
     [both_denied ''/Users/*/.ssh/**'',
      both_denied ''?:/Users/*/.ssh/**'',
      both_denied ''?:/Users/*/AppData/Roaming/Microsoft/Crypto/**'',
      both_denied ''?:/Users/*/AppData/Roaming/Microsoft/Protect/**'',
      both_denied ''?:/Users/*/AppData/Local/Microsoft/Credentials/**'',
      both_denied ''?:/Users/*/AppData/Roaming/Microsoft/Credentials/**'',
      both_denied ''?:/Users/*/AppData/Roaming/Microsoft/Windows/PowerShell/PSReadLine/**'']"

definition seeded_rules :: "(string \<times> PermissionValue option \<times> PermissionValue option) list" where
  "seeded_rules =
     [both_denied ''/etc/shadow'', both_denied ''/etc/gshadow'', both_denied ''/root/.ssh/**'', both_denied ''/home/*/.ssh/**'']
     @ windows_rules @ history_rules @ [(''/etc/nginx/**'', None, Some Ask), (''/var/www/**'', None, Some Ask)]"

definition mk_rule :: "string \<Rightarrow> string \<times> PermissionValue option \<times> PermissionValue option \<Rightarrow> FilePathRule" where
  "mk_rule i r = \<lparr>fr_id = i, fr_pattern = fst r, fr_read = fst (snd r), fr_write = snd (snd r)\<rparr>"

definition defaultFilePolicies :: "(nat \<Rightarrow> string) \<Rightarrow> nat \<Rightarrow> FilePathRule list" where
  "defaultFilePolicies uid n = map (\<lambda>(k, r). mk_rule (uid (n + k)) r) (enumerate 0 seeded_rules)"

subsection \<open>Seeded groups\<close>

definition built_in :: "string \<Rightarrow> string \<Rightarrow> caps \<Rightarrow> bool \<Rightarrow> FilePathRule list \<Rightarrow> AccessGroup" where
  "built_in i name capabilities confirm rules =
     \<lparr>ag_id = i, ag_name = name, ag_builtIn = True, ag_capabilities = capabilities, ag_filePolicies = rules,
      ag_confirmRisky = Some confirm\<rparr>"

definition defaultGroups :: "(nat \<Rightarrow> string) \<Rightarrow> AccessGroup list" where
  "defaultGroups uid =
     (let rules = (\<lambda>k. defaultFilePolicies uid (k * length seeded_rules)) in
      [built_in ''grp-observer'' ''Read Only'' OBSERVER_CAPABILITIES True (rules 0),
       built_in ''grp-read-only'' ''Commands, no writes''
         (allowAll [WriteFiles \<mapsto> Deny, SftpUpload \<mapsto> Deny, SshTunnel \<mapsto> Deny, Sudo \<mapsto> Deny]) True (rules 1),
       built_in ''grp-read-write'' ''Read & Write''
         (allowAll [WriteFiles \<mapsto> Ask, SftpUpload \<mapsto> Ask, SshTunnel \<mapsto> Ask, Sudo \<mapsto> Deny, ManageServers \<mapsto> Ask,
            VpnControl \<mapsto> Ask]) True (rules 2),
       built_in ''grp-sudo'' ''Sudo Access''
         (allowAll [WriteFiles \<mapsto> Ask, SftpUpload \<mapsto> Ask, SshTunnel \<mapsto> Ask, Sudo \<mapsto> Ask, ManageServers \<mapsto> Ask,
            VpnControl \<mapsto> Ask]) True (rules 3),
       built_in ''grp-full'' ''Full Access'' (allowAll FULL_ACCESS_GRANTS) False (rules 4)])"

subsection \<open>The state\<close>

record ServerAiMeta =
  sm_serverId :: string
  sm_aliases :: "string list"

record PolicyState =
  ps_version :: "int option"
  ps_groups :: "AccessGroup list"
  ps_assignments :: "PolicyAssignment list"
  ps_serverMeta :: "ServerAiMeta list"
  ps_generation :: "int option"
  ps_protected :: "PolicyScope list option"
  ps_cleared :: "PolicyAssignment list option"

definition POLICY_VERSION :: int where "POLICY_VERSION = 3"
definition ASSIGNMENTS_CLEARED_VERSION :: int where "ASSIGNMENTS_CLEARED_VERSION = 2"

record FilePolicyGeneration =
  fg_generation :: int
  fg_patterns :: "FilePathRule list option"
  fg_retire :: "(string \<times> PermissionValue option \<times> PermissionValue option) list option"

definition FILE_POLICY_GENERATIONS :: "FilePolicyGeneration list" where
  "FILE_POLICY_GENERATIONS =
     [\<lparr>fg_generation = 1, fg_patterns = Some (map (mk_rule []) (windows_rules @ history_rules)), fg_retire = None\<rparr>]"

definition latest_generation :: "FilePolicyGeneration list \<Rightarrow> int" where
  "latest_generation gens = (if gens = [] then 0 else fg_generation (last gens))"

definition seed :: "(nat \<Rightarrow> string) \<Rightarrow> PolicyState" where
  "seed uid = \<lparr>ps_version = Some POLICY_VERSION, ps_groups = defaultGroups uid, ps_assignments = [], ps_serverMeta = [],
     ps_generation = Some (latest_generation FILE_POLICY_GENERATIONS), ps_protected = None, ps_cleared = None\<rparr>"

subsection \<open>Bringing an older file up to date\<close>

definition STALE_BUILTIN_NAMES :: "(string \<times> string \<times> string) list" where
  "STALE_BUILTIN_NAMES = [(''grp-read-only'', ''Read Only'', ''Commands, no writes'')]"

text \<open>\<open>find\<close>, then a write through the reference: the first match only.\<close>

fun update_first :: "('a \<Rightarrow> bool) \<Rightarrow> ('a \<Rightarrow> 'a) \<Rightarrow> 'a list \<Rightarrow> 'a list" where
  "update_first P f [] = []"
| "update_first P f (x # xs) = (if P x then f x # xs else x # update_first P f xs)"

definition rename_stale :: "string \<times> string \<times> string \<Rightarrow> AccessGroup list \<Rightarrow> AccessGroup list" where
  "rename_stale r gs = (case r of (i, was, now) \<Rightarrow>
     update_first (\<lambda>g. ag_id g = i \<and> ag_builtIn g) (\<lambda>g. if ag_name g = was then g\<lparr>ag_name := now\<rparr> else g) gs)"

definition splice_in :: "nat \<times> AccessGroup \<Rightarrow> AccessGroup list \<Rightarrow> AccessGroup list" where
  "splice_in p gs = (case p of (index, fresh) \<Rightarrow>
     take (min index (length gs)) gs @ fresh # drop (min index (length gs)) gs)"

definition insert_missing :: "string set \<Rightarrow> nat \<times> AccessGroup \<Rightarrow> AccessGroup list \<Rightarrow> AccessGroup list" where
  "insert_missing have_ids p gs = (if ag_id (snd p) \<in> have_ids then gs else splice_in p gs)"

definition backfillGroups :: "(nat \<Rightarrow> string) \<Rightarrow> PolicyState \<Rightarrow> PolicyState" where
  "backfillGroups uid st =
     (let renamed = fold rename_stale STALE_BUILTIN_NAMES (ps_groups st);
          have_ids = set (map ag_id renamed)
      in st\<lparr>ps_groups := fold (insert_missing have_ids) (enumerate 0 (defaultGroups uid)) renamed\<rparr>)"

definition seeded_capabilities :: "(nat \<Rightarrow> string) \<Rightarrow> string \<Rightarrow> caps option" where
  "seeded_capabilities uid i = map_of (map (\<lambda>g. (ag_id g, ag_capabilities g)) (defaultGroups uid)) i"

definition backfill_group :: "(nat \<Rightarrow> string) \<Rightarrow> AccessGroup \<Rightarrow> AccessGroup" where
  "backfill_group uid g =
     (let fresh = seeded_capabilities uid (ag_id g) in
      g\<lparr>ag_capabilities := (\<lambda>cap.
          if cap \<in> set AI_CAPABILITIES \<and> ag_capabilities g cap = None
          then Some (nullish (Option.bind fresh (\<lambda>f. f cap)) Deny)
          else ag_capabilities g cap)\<rparr>)"

definition backfillCapabilities :: "(nat \<Rightarrow> string) \<Rightarrow> PolicyState \<Rightarrow> PolicyState" where
  "backfillCapabilities uid st = st\<lparr>ps_groups := map (backfill_group uid) (ps_groups st)\<rparr>"

definition is_dead :: "FilePathRule \<Rightarrow> string \<times> PermissionValue option \<times> PermissionValue option \<Rightarrow> bool" where
  "is_dead p dead = (fr_pattern p = fst dead \<and> fr_read p = fst (snd dead) \<and> fr_write p = snd (snd dead))"

definition push_rule :: "(nat \<Rightarrow> string) \<Rightarrow> FilePathRule \<Rightarrow> nat \<times> FilePathRule list \<Rightarrow> nat \<times> FilePathRule list" where
  "push_rule uid rule acc =
     (let (n, rules) = acc in
      if \<exists>p \<in> set rules. fr_pattern p = fr_pattern rule then (n, rules)
      else (Suc n, rules @ [rule\<lparr>fr_id := uid n\<rparr>]))"

definition upgrade_rules :: "(nat \<Rightarrow> string) \<Rightarrow> FilePolicyGeneration \<Rightarrow> nat \<Rightarrow> FilePathRule list \<Rightarrow> nat \<times> FilePathRule list" where
  "upgrade_rules uid gen n rules =
     fold (push_rule uid) (nullish (fg_patterns gen) [])
       (n, filter (\<lambda>p. \<not> (\<exists>dead \<in> set (nullish (fg_retire gen) []). is_dead p dead)) rules)"

definition upgrade_one :: "(nat \<Rightarrow> string) \<Rightarrow> FilePolicyGeneration \<Rightarrow> nat \<Rightarrow> AccessGroup \<Rightarrow> nat \<times> AccessGroup" where
  "upgrade_one uid gen n g =
     (if ag_builtIn g
      then (let r = upgrade_rules uid gen n (ag_filePolicies g) in (fst r, g\<lparr>ag_filePolicies := snd r\<rparr>))
      else (n, g))"

fun upgrade_groups :: "(nat \<Rightarrow> string) \<Rightarrow> FilePolicyGeneration \<Rightarrow> nat \<Rightarrow> AccessGroup list \<Rightarrow> nat \<times> AccessGroup list" where
  "upgrade_groups uid gen n [] = (n, [])"
| "upgrade_groups uid gen n (g # gs) =
     (let r = upgrade_one uid gen n g; rest = upgrade_groups uid gen (fst r) gs
      in (fst rest, snd r # snd rest))"

definition backfillFilePolicies :: "(nat \<Rightarrow> string) \<Rightarrow> FilePolicyGeneration list \<Rightarrow> PolicyState \<Rightarrow> PolicyState" where
  "backfillFilePolicies uid gens st =
     (let latest = latest_generation gens; since = nullish (ps_generation st) 0 in
      if latest \<le> since then st
      else st\<lparr>ps_groups := snd (fold (\<lambda>gen acc. if fg_generation gen \<le> since then acc
                                               else upgrade_groups uid gen (fst acc) (snd acc)) gens (0, ps_groups st)),
             ps_generation := Some latest\<rparr>)"

definition dropLegacyAssignments :: "PolicyState \<Rightarrow> PolicyState" where
  "dropLegacyAssignments st =
     (if ASSIGNMENTS_CLEARED_VERSION \<le> nullish (ps_version st) 1 then st
      else let cleared = filter (\<lambda>a. truthy (pa_groupId a) \<noteq> None) (ps_assignments st) in
        st\<lparr>ps_version := Some ASSIGNMENTS_CLEARED_VERSION, ps_assignments := [],
           ps_cleared := (if cleared \<noteq> [] then Some cleared else None)\<rparr>)"

definition raise_key :: "AiCapability \<times> PermissionValue \<Rightarrow> caps \<Rightarrow> caps" where
  "raise_key kw c = (case kw of (key, was) \<Rightarrow>
     if c key = Some was then c(key \<mapsto> nullish (FULL_ACCESS_GRANTS key) Allow) else c)"

definition to_v3 :: "AccessGroup \<Rightarrow> AccessGroup" where
  "to_v3 g =
     (let full = (ag_id g = ''grp-full'');
          g' = (if ag_confirmRisky g = None then g\<lparr>ag_confirmRisky := Some (\<not> full)\<rparr> else g)
      in if full then g'\<lparr>ag_capabilities := fold raise_key FULL_ACCESS_V2 (ag_capabilities g')\<rparr> else g')"

definition migrateToV3 :: "PolicyState \<Rightarrow> PolicyState" where
  "migrateToV3 st =
     (if POLICY_VERSION \<le> nullish (ps_version st) 1 then st
      else st\<lparr>ps_groups := map to_v3 (ps_groups st), ps_version := Some POLICY_VERSION\<rparr>)"

definition upgrade :: "(nat \<Rightarrow> string) \<Rightarrow> PolicyState \<Rightarrow> PolicyState" where
  "upgrade uid st =
     migrateToV3 (dropLegacyAssignments (backfillFilePolicies uid FILE_POLICY_GENERATIONS
       (backfillCapabilities uid (backfillGroups uid st))))"

subsection \<open>File and cache\<close>

datatype policy_file = NoFile | BadFile | PolicyFile PolicyState

record policy_store =
  po_file :: policy_file
  po_cache :: "PolicyState option"

definition read_policy :: "(nat \<Rightarrow> string) \<Rightarrow> policy_file \<Rightarrow> PolicyState" where
  "read_policy uid f = (case f of PolicyFile st \<Rightarrow> upgrade uid st | _ \<Rightarrow> seed uid)"

definition load_policy :: "(nat \<Rightarrow> string) \<Rightarrow> policy_store \<Rightarrow> PolicyState" where
  "load_policy uid po = (case po_cache po of Some st \<Rightarrow> st | None \<Rightarrow> read_policy uid (po_file po))"

text \<open>A change: the loaded state is the cache, changed in place and written.\<close>

definition write_state :: "PolicyState \<Rightarrow> policy_store \<Rightarrow> policy_store" where
  "write_state st po = po\<lparr>po_file := PolicyFile st, po_cache := Some st\<rparr>"

definition change_policy :: "(nat \<Rightarrow> string) \<Rightarrow> (PolicyState \<Rightarrow> PolicyState) \<Rightarrow> policy_store \<Rightarrow> policy_store" where
  "change_policy uid f po = write_state (f (load_policy uid po)) po"

subsection \<open>Operations\<close>

definition getGroup :: "PolicyState \<Rightarrow> string \<Rightarrow> AccessGroup option" where
  "getGroup st i = find (\<lambda>g. ag_id g = i) (ps_groups st)"

definition save_group :: "AccessGroup \<Rightarrow> AccessGroup list \<Rightarrow> AccessGroup list" where
  "save_group g gs = (if \<exists>h \<in> set gs. ag_id h = ag_id g then update_first (\<lambda>h. ag_id h = ag_id g) (\<lambda>_. g) gs else gs @ [g])"

definition saveGroup :: "AccessGroup \<Rightarrow> PolicyState \<Rightarrow> PolicyState" where
  "saveGroup g st = st\<lparr>ps_groups := save_group g (ps_groups st)\<rparr>"

definition createGroup :: "(nat \<Rightarrow> string) \<Rightarrow> string \<Rightarrow> AccessGroup" where
  "createGroup uid name =
     \<lparr>ag_id = uid 0, ag_name = name, ag_builtIn = False,
      ag_capabilities = allowAll [Terminal \<mapsto> Ask, WriteFiles \<mapsto> Deny, SftpUpload \<mapsto> Deny, SshTunnel \<mapsto> Deny,
        DatabaseAccess \<mapsto> Ask, Sudo \<mapsto> Deny],
      ag_filePolicies = defaultFilePolicies uid 1, ag_confirmRisky = Some True\<rparr>"

datatype delete_result = Deleted | NothingToDelete | BuiltInRefused

definition deleteGroup :: "string \<Rightarrow> PolicyState \<Rightarrow> delete_result \<times> PolicyState" where
  "deleteGroup i st =
     (case getGroup st i of
        None \<Rightarrow> (NothingToDelete, st)
      | Some g \<Rightarrow>
          if ag_builtIn g then (BuiltInRefused, st)
          else (Deleted, st\<lparr>ps_groups := filter (\<lambda>g. ag_id g \<noteq> i) (ps_groups st),
                  ps_assignments := map (\<lambda>a. if pa_groupId a = Some i then a\<lparr>pa_groupId := None\<rparr> else a) (ps_assignments st)\<rparr>))"

definition setAssignment :: "string \<Rightarrow> PolicyScope \<Rightarrow> string option \<Rightarrow> PolicyState \<Rightarrow> PolicyState" where
  "setAssignment newId scope groupId st = st\<lparr>ps_assignments :=
     (if \<exists>a \<in> set (ps_assignments st). pa_scope a = scope
      then update_first (\<lambda>a. pa_scope a = scope) (\<lambda>a. a\<lparr>pa_groupId := groupId\<rparr>) (ps_assignments st)
      else ps_assignments st @ [\<lparr>pa_id = newId, pa_scope = scope, pa_groupId = groupId\<rparr>])\<rparr>"

definition removeAssignment :: "string \<Rightarrow> PolicyState \<Rightarrow> PolicyState" where
  "removeAssignment i st = st\<lparr>ps_assignments := filter (\<lambda>a. pa_id a \<noteq> i) (ps_assignments st)\<rparr>"

definition listProtected :: "PolicyState \<Rightarrow> PolicyScope list" where
  "listProtected st = nullish (ps_protected st) []"

definition setProtected :: "PolicyScope \<Rightarrow> bool \<Rightarrow> PolicyState \<Rightarrow> PolicyState" where
  "setProtected scope on st =
     (let rest = filter (\<lambda>p. p \<noteq> scope) (listProtected st) in
      st\<lparr>ps_protected := Some (if on then rest @ [scope] else rest)\<rparr>)"

definition clean_aliases :: "string list \<Rightarrow> string list" where
  "clean_aliases aliases = dedup (filter (\<lambda>a. a \<noteq> []) (map (\<lambda>a. lower (trim a)) aliases))"

definition setServerAliases :: "string \<Rightarrow> string list \<Rightarrow> PolicyState \<Rightarrow> PolicyState" where
  "setServerAliases serverId aliases st =
     (let meta = \<lparr>sm_serverId = serverId, sm_aliases = clean_aliases aliases\<rparr> in
      st\<lparr>ps_serverMeta := (if \<exists>m \<in> set (ps_serverMeta st). sm_serverId m = serverId
                           then update_first (\<lambda>m. sm_serverId m = serverId) (\<lambda>_. meta) (ps_serverMeta st)
                           else ps_serverMeta st @ [meta])\<rparr>)"

definition getServerMeta :: "PolicyState \<Rightarrow> string \<Rightarrow> ServerAiMeta" where
  "getServerMeta st i = nullish (find (\<lambda>m. sm_serverId m = i) (ps_serverMeta st)) \<lparr>sm_serverId = i, sm_aliases = []\<rparr>"

subsection \<open>Profiles\<close>

fun profile_name :: "SessionMode \<Rightarrow> string" where
  "profile_name ReadOnly = ''readOnly''"
| "profile_name AskFirst = ''ask''"
| "profile_name Auto = ''auto''"
| "profile_name Bypass = ''bypass''"
| "profile_name Custom = ''custom''"

fun PROFILE_NAMES :: "SessionMode \<Rightarrow> string" where
  "PROFILE_NAMES ReadOnly = ''Read only''"
| "PROFILE_NAMES AskFirst = ''Ask first''"
| "PROFILE_NAMES Auto = ''Auto''"
| "PROFILE_NAMES Bypass = ''Bypass permissions''"
| "PROFILE_NAMES Custom = []"

text \<open>Bypass stands on Auto's baseline; Custom is never asked for one.\<close>

definition profileGroup :: "(nat \<Rightarrow> string) \<Rightarrow> SessionMode \<Rightarrow> AccessGroup" where
  "profileGroup uid mode =
     (let m = (if mode = Bypass then Auto else mode); auto = (m = Auto) in
      \<lparr>ag_id = ''profile-'' @ profile_name m, ag_name = PROFILE_NAMES m, ag_builtIn = True,
       ag_capabilities = allowAll [HostFacts \<mapsto> Allow, ManageServers \<mapsto> Allow, VpnControl \<mapsto> Allow, CiRead \<mapsto> Allow,
         CiTrigger \<mapsto> Allow, Sudo \<mapsto> (if auto then Ask else Allow)],
       ag_filePolicies = filter (\<lambda>p. fr_read p = Some Deny \<or> fr_write p = Some Deny) (defaultFilePolicies uid 0),
       ag_confirmRisky = Some auto\<rparr>)"

end
