(* ===== verification/Agent_Sessions.thy ===== *)
theory Agent_Sessions
  imports Policy_Store
begin

section \<open>Agent sessions (main/services/mcpAuth.ts)\<close>

text \<open>
  Who an agent is: a session holds the hash of its token, its workspaces, its access group
  and its mode, and can expire or be revoked. Instants are milliseconds; the random
  identifier and token of a new session are arguments, and so is the digest \<open>hash\<close>
  (SHA-256 in the source). Two stored digests are compared as the bytes they encode, which
  for digests this code wrote is equality.
\<close>

subsection \<open>Types\<close>

datatype SessionKind = KindOauth | KindRelay

record WorkspaceRef =
  wr_id :: string
  wr_name :: string

record McpAgentSession =
  as_id :: string
  as_agentName :: string
  as_workspaces :: "WorkspaceRef list"
  as_groupId :: "string option"
  as_groupName :: string
  as_tokenHash :: string
  as_createdAt :: int
  as_expiresAt :: "int option"
  as_lastActiveAt :: int
  as_revoked :: bool
  as_kind :: "SessionKind option"
  as_mode :: "SessionMode option"
  as_modeSchema :: "nat option"

record McpGlobalConfig =
  mc_enabled :: bool
  mc_defaultSessionMode :: "SessionMode option"
  mc_modeSchema :: "nat option"

definition sessionModeOf :: "McpAgentSession option \<Rightarrow> SessionMode" where
  "sessionModeOf s = nullish (Option.bind s as_mode) Custom"

subsection \<open>Loading\<close>

text \<open>A stored record may be from before sessions had several workspaces.\<close>

record RawSession =
  rs_session :: McpAgentSession
  rs_workspaces :: "WorkspaceRef list option"
  rs_workspaceId :: "string option"
  rs_workspaceName :: "string option"

definition migrate_mode :: "McpAgentSession \<Rightarrow> McpAgentSession" where
  "migrate_mode s =
     (if as_modeSchema s \<noteq> Some 2
      then s\<lparr>as_mode := (if as_mode s = Some Auto \<or> as_mode s = None then Some Custom else as_mode s),
             as_modeSchema := Some 2\<rparr>
      else s)"

definition migrateSession :: "RawSession \<Rightarrow> McpAgentSession" where
  "migrateSession r =
     (let s = migrate_mode (rs_session r) in
      case rs_workspaces r of
        Some ws \<Rightarrow> s\<lparr>as_workspaces := ws\<rparr>
      | None \<Rightarrow>
          s\<lparr>as_workspaces := (case (rs_workspaceId r, rs_workspaceName r) of
                (Some i, Some n) \<Rightarrow> [\<lparr>wr_id = i, wr_name = n\<rparr>] | _ \<Rightarrow> []),
            as_kind := None, as_modeSchema := Some 2\<rparr>)"

definition migrate_config :: "McpGlobalConfig \<Rightarrow> McpGlobalConfig" where
  "migrate_config c =
     (if mc_modeSchema c \<noteq> Some 2
      then c\<lparr>mc_defaultSessionMode := (if mc_defaultSessionMode c = Some Auto then Some Custom else mc_defaultSessionMode c),
             mc_modeSchema := Some 2\<rparr>
      else c)"

subsection \<open>Making and changing sessions\<close>

definition isExpired :: "int \<Rightarrow> McpAgentSession \<Rightarrow> bool" where
  "isExpired now s = (case as_expiresAt s of None \<Rightarrow> False | Some e \<Rightarrow> e \<le> now)"

definition PICKERLESS_MODE :: SessionMode where
  "PICKERLESS_MODE = Custom"

definition initialMode :: "McpGlobalConfig \<Rightarrow> SessionMode option \<Rightarrow> SessionMode" where
  "initialMode cfg asked =
     (case asked of Some m \<Rightarrow> m | None \<Rightarrow> nullish (mc_defaultSessionMode cfg) PICKERLESS_MODE)"

record CreateSessionInput =
  cn_agentName :: string
  cn_workspaces :: "WorkspaceRef list"
  cn_groupId :: "string option"
  cn_groupName :: string
  cn_ttlMinutes :: "int option"
  cn_kind :: "SessionKind option"
  cn_mode :: "SessionMode option"

definition expiry :: "int \<Rightarrow> int option \<Rightarrow> int option" where
  "expiry now ttl = (case ttl of None \<Rightarrow> None | Some m \<Rightarrow> if m = 0 then None else Some (now + m * 60000))"

definition createSession :: "McpGlobalConfig \<Rightarrow> (string \<Rightarrow> string) \<Rightarrow> CreateSessionInput \<Rightarrow> string \<Rightarrow> string \<Rightarrow> int
    \<Rightarrow> McpAgentSession list \<Rightarrow> McpAgentSession \<times> McpAgentSession list" where
  "createSession cfg hash input i raw now ss =
     (let s = \<lparr>as_id = i, as_agentName = cn_agentName input, as_workspaces = cn_workspaces input,
               as_groupId = cn_groupId input, as_groupName = cn_groupName input, as_tokenHash = hash raw,
               as_createdAt = now, as_expiresAt = expiry now (cn_ttlMinutes input), as_lastActiveAt = now,
               as_revoked = False, as_kind = cn_kind input, as_mode = Some (initialMode cfg (cn_mode input)),
               as_modeSchema = Some 2\<rparr>
      in (s, ss @ [s]))"

definition getSession :: "McpAgentSession list \<Rightarrow> string \<Rightarrow> McpAgentSession option" where
  "getSession ss i = find (\<lambda>s. as_id s = i) ss"

definition rotateSessionToken :: "(string \<Rightarrow> string) \<Rightarrow> string \<Rightarrow> int option \<Rightarrow> string \<Rightarrow> int
    \<Rightarrow> McpAgentSession list \<Rightarrow> McpAgentSession option \<times> McpAgentSession list" where
  "rotateSessionToken hash i ttl raw now ss =
     (case getSession ss i of
        None \<Rightarrow> (None, ss)
      | Some s \<Rightarrow>
          if as_revoked s then (None, ss)
          else
            let f = (\<lambda>s. s\<lparr>as_tokenHash := hash raw, as_expiresAt := expiry now ttl, as_lastActiveAt := now\<rparr>)
            in (Some (f s), update_first (\<lambda>s. as_id s = i) f ss))"

definition setSessionGroup :: "string \<Rightarrow> string option \<Rightarrow> string \<Rightarrow> McpAgentSession list \<Rightarrow> McpAgentSession list" where
  "setSessionGroup i groupId groupName ss =
     update_first (\<lambda>s. as_id s = i) (\<lambda>s. s\<lparr>as_groupId := groupId, as_groupName := groupName\<rparr>) ss"

definition setSessionMode :: "string \<Rightarrow> SessionMode \<Rightarrow> McpAgentSession list \<Rightarrow> McpAgentSession list" where
  "setSessionMode i mode ss = update_first (\<lambda>s. as_id s = i) (\<lambda>s. s\<lparr>as_mode := Some mode\<rparr>) ss"

definition revokeSession :: "string \<Rightarrow> McpAgentSession list \<Rightarrow> McpAgentSession list" where
  "revokeSession i ss = update_first (\<lambda>s. as_id s = i) (\<lambda>s. s\<lparr>as_revoked := True\<rparr>) ss"

fun remove_first :: "('a \<Rightarrow> bool) \<Rightarrow> 'a list \<Rightarrow> 'a list" where
  "remove_first P [] = []"
| "remove_first P (x # xs) = (if P x then xs else x # remove_first P xs)"

definition deleteSession :: "string \<Rightarrow> McpAgentSession list \<Rightarrow> bool \<times> McpAgentSession list" where
  "deleteSession i ss = (getSession ss i \<noteq> None, remove_first (\<lambda>s. as_id s = i) ss)"

definition killAllSessions :: "McpAgentSession list \<Rightarrow> nat \<times> McpAgentSession list" where
  "killAllSessions ss =
     (length (filter (\<lambda>s. \<not> as_revoked s) ss), map (\<lambda>s. if as_revoked s then s else s\<lparr>as_revoked := True\<rparr>) ss)"

subsection \<open>Authentication\<close>

datatype AuthFailureReason = MissingToken | InvalidToken | RevokedSession | ExpiredSession | AiDisabled

definition authenticate :: "(string \<Rightarrow> string) \<Rightarrow> McpGlobalConfig \<Rightarrow> string option \<Rightarrow> int \<Rightarrow> McpAgentSession list
    \<Rightarrow> (AuthFailureReason + McpAgentSession) \<times> McpAgentSession list" where
  "authenticate hash cfg rawToken now ss =
     (if \<not> mc_enabled cfg then (Inl AiDisabled, ss)
      else case truthy rawToken of
          None \<Rightarrow> (Inl MissingToken, ss)
        | Some raw \<Rightarrow>
            (case find (\<lambda>s. as_tokenHash s = hash raw) ss of
               None \<Rightarrow> (Inl InvalidToken, ss)
             | Some s \<Rightarrow>
                 if as_revoked s then (Inl RevokedSession, ss)
                 else if isExpired now s then (Inl ExpiredSession, ss)
                 else
                   let f = (\<lambda>s. s\<lparr>as_lastActiveAt := now\<rparr>)
                   in (Inr (f s), update_first (\<lambda>s. as_tokenHash s = hash raw) f ss)))"

end
