(* ===== verification/Cloud_Target.thy ===== *)
theory Cloud_Target
  imports Json Regex
begin

section \<open>Cloud servers: targets and command lines (shared/cloud.ts, shared/cloudCommands.ts)\<close>

text \<open>
  A cloud server is reached through its vendor's own program. What names it arrives as
  untyped data (a form, a synced record, a restored backup), is validated field by field,
  and becomes an argument vector: no shell is involved, so the danger is a value the
  program would read as an option. \<open>safeArgument\<close> throws on such a value; a builder that
  throws is None. The wording of a problem is display text, so a problem is its field and
  the kind of complaint.
\<close>

subsection \<open>Targets\<close>

record GcpTarget =
  gt_project :: string
  gt_zone :: string
  gt_instance :: string
  gt_transport :: string

record AwsTarget =
  at_profile :: string
  at_region :: string
  at_instanceId :: string
  at_osUser :: string
  at_transport :: string

record AzureTarget =
  zt_subscription :: string
  zt_resourceGroup :: string
  zt_vm :: string
  zt_authentication :: string

datatype Complaint = Required | Unsafe | Invalid | Choice | NoTarget | UnknownProvider

type_synonym FieldProblem = "string \<times> Complaint"

subsection \<open>One value\<close>

definition hasControlChar :: "string \<Rightarrow> bool" where
  "hasControlChar v = list_ex (\<lambda>c. code c < 0x20 \<or> code c = 0x7F) v"

definition argumentIsSafe :: "string \<Rightarrow> bool" where
  "argumentIsSafe v = (v \<noteq> [] \<and> \<not> starts_with ''-'' v \<and> \<not> hasControlChar v)"

definition checkField :: "json option \<Rightarrow> rx \<Rightarrow> string \<Rightarrow> FieldProblem option" where
  "checkField v pattern field =
     (case as_string v of
        None \<Rightarrow> Some (field, Required)
      | Some s \<Rightarrow>
          if s = [] then Some (field, Required)
          else if \<not> argumentIsSafe s then Some (field, Unsafe)
          else if \<not> rx_test pattern s then Some (field, Invalid)
          else None)"

definition checkChoice :: "json option \<Rightarrow> string list \<Rightarrow> string \<Rightarrow> FieldProblem option" where
  "checkChoice v allowed field =
     (case as_string v of
        None \<Rightarrow> Some (field, Choice)
      | Some s \<Rightarrow> if s \<in> set allowed then None else Some (field, Choice))"

subsection \<open>The patterns\<close>

definition anchored :: "rx \<Rightarrow> rx" where
  "anchored r = Seq Bol (Seq r Eol)"

text \<open>\<open>{n}\<close> and \<open>{m,n}\<close>\<close>

primrec exactly :: "nat \<Rightarrow> rx \<Rightarrow> rx" where
  "exactly 0 r = Empty"
| "exactly (Suc n) r = Seq r (exactly n r)"

definition between :: "nat \<Rightarrow> nat \<Rightarrow> rx \<Rightarrow> rx" where
  "between m n r = Seq (exactly m r) (upto (n - m) r)"

definition az_c :: rx where "az_c = Cls is_lower"
definition az09_c :: rx where "az09_c = Cls (\<lambda>c. is_lower c \<or> is_digit c)"
definition az09d_c :: rx where "az09d_c = Cls (\<lambda>c. is_lower c \<or> is_digit c \<or> c = CHR ''-'')"
definition cloud_alnum_c :: rx where "cloud_alnum_c = Cls (\<lambda>c. is_alpha c \<or> is_digit c)"
definition alnum_or :: "string \<Rightarrow> rx" where
  "alnum_or cs = Cls (\<lambda>c. is_alpha c \<or> is_digit c \<or> c \<in> set cs)"
definition lower_hex_c :: rx where
  "lower_hex_c = Cls (\<lambda>c. is_digit c \<or> c \<in> set ''abcdef'')"
definition hex_c :: rx where
  "hex_c = Cls (\<lambda>c. is_digit c \<or> c \<in> set ''abcdefABCDEF'')"

definition GCP_PROJECT :: rx where
  "GCP_PROJECT = anchored (seqs [az_c, between 4 28 az09d_c, az09_c])"

definition GCP_ZONE :: rx where
  "GCP_ZONE = anchored (seqs [az_c, Star az09_c, lit ''-'', many1 az09_c, lit ''-'', az_c])"

definition GCP_INSTANCE :: rx where
  "GCP_INSTANCE = anchored (seqs [az_c, opt (Seq (upto 61 az09d_c) az09_c)])"

definition AWS_PROFILE :: rx where
  "AWS_PROFILE = anchored (seqs [alnum_or ''_+=,.@'', upto 63 (alnum_or ''_+=,.@-'')])"

definition AWS_REGION :: rx where
  "AWS_REGION = anchored (seqs [exactly 2 az_c, many1 (Seq (lit ''-'') (many1 az_c)), lit ''-'', Cls is_digit])"

definition AWS_INSTANCE :: rx where
  "AWS_INSTANCE = anchored (Seq (lit ''i-'') (Alt (exactly 8 lower_hex_c) (exactly 17 lower_hex_c)))"

definition AWS_USER :: rx where
  "AWS_USER = anchored (Seq (Cls (\<lambda>c. is_lower c \<or> c = CHR ''_''))
     (upto 31 (Cls (\<lambda>c. is_lower c \<or> is_digit c \<or> c \<in> set ''_-''))))"

definition AZ_SUBSCRIPTION :: rx where
  "AZ_SUBSCRIPTION = anchored (Alt
     (seqs [exactly 8 hex_c, lit ''-'', exactly 4 hex_c, lit ''-'', exactly 4 hex_c, lit ''-'', exactly 4 hex_c,
            lit ''-'', exactly 12 hex_c])
     (Seq cloud_alnum_c (upto 79 (alnum_or '' ._()-''))))"

definition AZ_GROUP :: rx where
  "AZ_GROUP = anchored (seqs [cloud_alnum_c, upto 88 (alnum_or ''._()-''), alnum_or ''_()-''])"

definition AZ_VM :: rx where
  "AZ_VM = anchored (seqs [cloud_alnum_c, upto 62 (alnum_or ''._-''), alnum_or ''_-''])"

definition GCP_TRANSPORTS :: "string list" where "GCP_TRANSPORTS = [''auto'', ''direct'', ''iap'']"
definition AWS_TRANSPORTS :: "string list" where "AWS_TRANSPORTS = [''auto'', ''ip'', ''eice'']"
definition AZURE_AUTHENTICATIONS :: "string list" where "AZURE_AUTHENTICATIONS = [''entra'']"

subsection \<open>A whole target\<close>

definition collected :: "FieldProblem option list \<Rightarrow> FieldProblem list" where
  "collected ps = List.map_filter id ps"

definition gcp_problems :: "json \<Rightarrow> FieldProblem list" where
  "gcp_problems t = collected
     [checkField (field_of t ''project'') GCP_PROJECT ''project'',
      checkField (field_of t ''zone'') GCP_ZONE ''zone'',
      checkField (field_of t ''instance'') GCP_INSTANCE ''instance'',
      checkChoice (field_of t ''transport'') GCP_TRANSPORTS ''transport'']"

definition aws_problems :: "json \<Rightarrow> FieldProblem list" where
  "aws_problems t = collected
     [checkField (field_of t ''profile'') AWS_PROFILE ''profile'',
      checkField (field_of t ''region'') AWS_REGION ''region'',
      checkField (field_of t ''instanceId'') AWS_INSTANCE ''instanceId'',
      checkField (field_of t ''osUser'') AWS_USER ''osUser'',
      checkChoice (field_of t ''transport'') AWS_TRANSPORTS ''transport'']"

definition azure_problems :: "json \<Rightarrow> FieldProblem list" where
  "azure_problems t = collected
     [checkField (field_of t ''subscription'') AZ_SUBSCRIPTION ''subscription'',
      checkField (field_of t ''resourceGroup'') AZ_GROUP ''resourceGroup'',
      checkField (field_of t ''vm'') AZ_VM ''vm'',
      checkChoice (field_of t ''authentication'') AZURE_AUTHENTICATIONS ''authentication'']"

definition validateCloudTarget :: "json option \<Rightarrow> FieldProblem list" where
  "validateCloudTarget target =
     (case target of
        None \<Rightarrow> [(''type'', NoTarget)]
      | Some t \<Rightarrow>
          if \<not> is_object t then [(''type'', NoTarget)]
          else if as_string (field_of t ''type'') = Some ''gcp'' then gcp_problems t
          else if as_string (field_of t ''type'') = Some ''aws'' then aws_problems t
          else if as_string (field_of t ''type'') = Some ''azure'' then azure_problems t
          else [(''type'', UnknownProvider)])"

definition isValidCloudTarget :: "json option \<Rightarrow> bool" where
  "isValidCloudTarget target = (validateCloudTarget target = [])"

subsection \<open>Command lines\<close>

definition safeArgument :: "string \<Rightarrow> string option" where
  "safeArgument v = (if argumentIsSafe v then Some v else None)"

text \<open>A word of a command line: the program's own, or a value that goes through the gate.\<close>

datatype cloud_arg = Fixed string | Value string

definition build :: "cloud_arg list \<Rightarrow> string list option" where
  "build ws = all_some (map (\<lambda>w. case w of Fixed s \<Rightarrow> Some s | Value v \<Rightarrow> safeArgument v) ws)"

definition awsAuthStatusArgs :: "string \<Rightarrow> cloud_arg list" where
  "awsAuthStatusArgs prof =
     [Fixed ''sts'', Fixed ''get-caller-identity'', Fixed ''--output'', Fixed ''json'', Fixed ''--profile'', Value prof]"

definition gcpZonesArgs :: "string \<Rightarrow> cloud_arg list" where
  "gcpZonesArgs project =
     [Fixed ''compute'', Fixed ''zones'', Fixed ''list'', Fixed ''--project'', Value project, Fixed ''--format=json'']"

definition gcpInstancesArgs :: "string \<Rightarrow> string \<Rightarrow> cloud_arg list" where
  "gcpInstancesArgs project zone =
     [Fixed ''compute'', Fixed ''instances'', Fixed ''list'', Fixed ''--project'', Value project,
      Fixed ''--zones'', Value zone, Fixed ''--format=json'']"

definition AWS_BOOTSTRAP_REGION :: string where
  "AWS_BOOTSTRAP_REGION = ''us-east-1''"

definition awsRegionsArgs :: "string \<Rightarrow> cloud_arg list" where
  "awsRegionsArgs prof =
     [Fixed ''ec2'', Fixed ''describe-regions'', Fixed ''--output'', Fixed ''json'', Fixed ''--profile'', Value prof,
      Fixed ''--region'', Fixed AWS_BOOTSTRAP_REGION]"

definition awsInstancesArgs :: "string \<Rightarrow> string \<Rightarrow> cloud_arg list" where
  "awsInstancesArgs prof region =
     [Fixed ''ec2'', Fixed ''describe-instances'', Fixed ''--output'', Fixed ''json'', Fixed ''--profile'', Value prof,
      Fixed ''--region'', Value region]"

definition azureResourceGroupsArgs :: "string \<Rightarrow> cloud_arg list" where
  "azureResourceGroupsArgs subscription =
     [Fixed ''group'', Fixed ''list'', Fixed ''--subscription'', Value subscription, Fixed ''--output'', Fixed ''json'']"

definition azureVmsArgs :: "string \<Rightarrow> string \<Rightarrow> cloud_arg list" where
  "azureVmsArgs subscription resourceGroup =
     [Fixed ''vm'', Fixed ''list'', Fixed ''--subscription'', Value subscription, Fixed ''--resource-group'',
      Value resourceGroup, Fixed ''--show-details'', Fixed ''--output'', Fixed ''json'']"

definition gcpIapTunnelArgs :: "GcpTarget \<Rightarrow> cloud_arg list" where
  "gcpIapTunnelArgs t =
     [Fixed ''compute'', Fixed ''start-iap-tunnel'', Value (gt_instance t), Fixed ''22'', Fixed ''--project'',
      Value (gt_project t), Fixed ''--zone'', Value (gt_zone t), Fixed ''--local-host-port=localhost:0'']"

definition gcpDescribeInstanceArgs :: "GcpTarget \<Rightarrow> cloud_arg list" where
  "gcpDescribeInstanceArgs t =
     [Fixed ''compute'', Fixed ''instances'', Fixed ''describe'', Value (gt_instance t), Fixed ''--project'',
      Value (gt_project t), Fixed ''--zone'', Value (gt_zone t), Fixed ''--format=json'']"

definition gcpOsLoginProfileArgs :: "string \<Rightarrow> cloud_arg list" where
  "gcpOsLoginProfileArgs project =
     [Fixed ''compute'', Fixed ''os-login'', Fixed ''describe-profile'', Fixed ''--project'', Value project,
      Fixed ''--format=json'']"

text \<open>The public key is the program's own key material, not an identifier; it is not gated.\<close>

definition awsSendPublicKeyArgs :: "AwsTarget \<Rightarrow> string \<Rightarrow> cloud_arg list" where
  "awsSendPublicKeyArgs t publicKey =
     [Fixed ''ec2-instance-connect'', Fixed ''send-ssh-public-key'', Fixed ''--instance-id'', Value (at_instanceId t),
      Fixed ''--instance-os-user'', Value (at_osUser t), Fixed ''--ssh-public-key'', Fixed publicKey,
      Fixed ''--region'', Value (at_region t), Fixed ''--profile'', Value (at_profile t), Fixed ''--output'',
      Fixed ''json'']"

definition awsOpenTunnelArgs :: "AwsTarget \<Rightarrow> nat \<Rightarrow> cloud_arg list" where
  "awsOpenTunnelArgs t localPort =
     [Fixed ''ec2-instance-connect'', Fixed ''open-tunnel'', Fixed ''--instance-id'', Value (at_instanceId t),
      Fixed ''--local-port'', Fixed (show_nat localPort), Fixed ''--region'', Value (at_region t),
      Fixed ''--profile'', Value (at_profile t)]"

definition awsDescribeInstanceArgs :: "AwsTarget \<Rightarrow> cloud_arg list" where
  "awsDescribeInstanceArgs t =
     [Fixed ''ec2'', Fixed ''describe-instances'', Fixed ''--instance-ids'', Value (at_instanceId t), Fixed ''--region'',
      Value (at_region t), Fixed ''--profile'', Value (at_profile t), Fixed ''--output'', Fixed ''json'']"

definition azureSshConfigArgs :: "AzureTarget \<Rightarrow> string \<Rightarrow> cloud_arg list" where
  "azureSshConfigArgs t configPath =
     [Fixed ''ssh'', Fixed ''config'', Fixed ''--file'', Value configPath, Fixed ''--resource-group'',
      Value (zt_resourceGroup t), Fixed ''--name'', Value (zt_vm t), Fixed ''--subscription'',
      Value (zt_subscription t), Fixed ''--overwrite'', Fixed ''--yes'']"

subsection \<open>What an accepted value looks like\<close>

text \<open>Every class of a pattern lies within a set of characters, and so does what it matches.\<close>

primrec rx_within :: "(char \<Rightarrow> bool) \<Rightarrow> rx \<Rightarrow> bool" where
  "rx_within P Empty = True"
| "rx_within P (Cls q) = (\<forall>c. q c \<longrightarrow> P c)"
| "rx_within P (Seq a b) = (rx_within P a \<and> rx_within P b)"
| "rx_within P (Alt a b) = (rx_within P a \<and> rx_within P b)"
| "rx_within P (Star a) = rx_within P a"
| "rx_within P Bol = True"
| "rx_within P Eol = True"
| "rx_within P WordB = True"
| "rx_within P (Look a) = True"
| "rx_within P (NLook a) = True"

definition run_of :: "(char \<Rightarrow> bool) \<Rightarrow> string \<Rightarrow> nat \<Rightarrow> nat \<Rightarrow> bool" where
  "run_of P s i j = (\<forall>k. i \<le> k \<and> k < j \<longrightarrow> k < length s \<and> P (s ! k))"

lemma run_of_trans: "run_of P s i k \<Longrightarrow> run_of P s k j \<Longrightarrow> run_of P s i j"
  unfolding run_of_def by (meson leI)

lemma run_of_refl [simp]: "run_of P s i i"
  by (auto simp: run_of_def)

lemma rx_within_run: "rx_within P r \<Longrightarrow> (i, j) \<in> rx_rel r s \<Longrightarrow> run_of P s i j"
proof (induction r arbitrary: i j)
  case (Seq a b)
  from Seq.prems obtain k where "(i, k) \<in> rx_rel a s" "(k, j) \<in> rx_rel b s" by auto
  with Seq show ?case by (auto intro: run_of_trans [of P s i k j])
next
  case (Star a)
  from Star.prems(2) have "(i, j) \<in> (rx_rel a s)\<^sup>*" by simp
  then show ?case
    using Star.IH Star.prems(1) by (induction rule: rtrancl_induct) (auto intro: run_of_trans)
qed (auto simp: run_of_def less_Suc_eq_le dest!: le_antisym)

lemma rx_within_anchored:
  assumes "rx_test (anchored r) s" and "rx_within P r"
  shows "\<forall>c \<in> set s. P c"
proof -
  from assms(1) have "(0, length s) \<in> rx_rel r s"
    by (auto simp: rx_test_iff anchored_def)
  with assms(2) have "run_of P s 0 (length s)" by (rule rx_within_run)
  then show ?thesis by (auto simp: run_of_def in_set_conv_nth)
qed

lemma rx_within_exactly [simp]: "rx_within P r \<Longrightarrow> rx_within P (exactly n r)"
  by (induction n) auto

lemma rx_within_upto [simp]: "rx_within P r \<Longrightarrow> rx_within P (upto n r)"
  by (induction n) (auto simp: opt_def)

lemma rx_within_lit [simp]: "rx_within P (lit w) \<longleftrightarrow> (\<forall>c \<in> set w. P c)"
  by (induction w) auto

text \<open>No quote, no white space but the space, no character a shell or a log gives a meaning.\<close>

definition inert :: "char \<Rightarrow> bool" where
  "inert c = (is_alpha c \<or> is_digit c \<or> c \<in> set ''_+=,.@- ()'')"

lemma inert_of: "is_lower c \<Longrightarrow> inert c" "is_alpha c \<Longrightarrow> inert c" "is_digit c \<Longrightarrow> inert c"
  by (simp_all add: inert_def is_alpha_def)

lemmas cloud_patterns = GCP_PROJECT_def GCP_ZONE_def GCP_INSTANCE_def AWS_PROFILE_def AWS_REGION_def
  AWS_INSTANCE_def AWS_USER_def AZ_SUBSCRIPTION_def AZ_GROUP_def AZ_VM_def

lemmas cloud_classes = az_c_def az09_c_def az09d_c_def cloud_alnum_c_def alnum_or_def lower_hex_c_def hex_c_def
  between_def many1_def opt_def

definition cloud_rules :: "rx list" where
  "cloud_rules = [GCP_PROJECT, GCP_ZONE, GCP_INSTANCE, AWS_PROFILE, AWS_REGION, AWS_INSTANCE, AWS_USER,
     AZ_SUBSCRIPTION, AZ_GROUP, AZ_VM]"

lemma cloud_rules_inert:
  assumes "r \<in> set cloud_rules" and "rx_test r s"
  shows "\<forall>c \<in> set s. inert c"
proof -
  have "\<exists>q. r = anchored q \<and> rx_within inert q"
  proof -
    have *: "rx_within inert q" if "q \<in> {az_c, az09_c, az09d_c, cloud_alnum_c, lower_hex_c, hex_c, Cls is_digit,
        Cls (\<lambda>c. is_lower c \<or> c = CHR ''_''), Cls (\<lambda>c. is_lower c \<or> is_digit c \<or> c \<in> set ''_-'')}
        \<union> alnum_or ` {''_+=,.@'', ''_+=,.@-'', '' ._()-'', ''._()-'', ''_()-'', ''._-'', ''_-''}" for q
      using that by (auto simp: cloud_classes inert_of)
         (auto simp: inert_def is_alpha_def is_lower_def is_upper_def is_digit_def code_def)
    have i: "is_alpha CHR ''i''" by (simp add: is_alpha_def is_lower_def code_def)
    show ?thesis
      using assms(1) * inert_of i unfolding cloud_rules_def cloud_patterns
      by (auto simp: between_def many1_def opt_def inert_def)
  qed
  with assms(2) show ?thesis using rx_within_anchored by blast
qed

subsection \<open>From validation to the command line\<close>

text \<open>The values the source reads from an accepted target (a cast in the source).\<close>

definition str_field :: "json \<Rightarrow> string \<Rightarrow> string" where
  "str_field t k = nullish (as_string (field_of t k)) []"

definition gcp_target :: "json \<Rightarrow> GcpTarget" where
  "gcp_target t = \<lparr>gt_project = str_field t ''project'', gt_zone = str_field t ''zone'',
     gt_instance = str_field t ''instance'', gt_transport = str_field t ''transport''\<rparr>"

definition aws_target :: "json \<Rightarrow> AwsTarget" where
  "aws_target t = \<lparr>at_profile = str_field t ''profile'', at_region = str_field t ''region'',
     at_instanceId = str_field t ''instanceId'', at_osUser = str_field t ''osUser'',
     at_transport = str_field t ''transport''\<rparr>"

definition azure_target :: "json \<Rightarrow> AzureTarget" where
  "azure_target t = \<lparr>zt_subscription = str_field t ''subscription'', zt_resourceGroup = str_field t ''resourceGroup'',
     zt_vm = str_field t ''vm'', zt_authentication = str_field t ''authentication''\<rparr>"

definition cloud_identifiers :: "json \<Rightarrow> string list" where
  "cloud_identifiers t =
     (let ty = as_string (field_of t ''type'') in
      if ty = Some ''gcp'' then [str_field t ''project'', str_field t ''zone'', str_field t ''instance'']
      else if ty = Some ''aws'' then
        [str_field t ''profile'', str_field t ''region'', str_field t ''instanceId'', str_field t ''osUser'']
      else if ty = Some ''azure'' then [str_field t ''subscription'', str_field t ''resourceGroup'', str_field t ''vm'']
      else [])"

lemma checkField_ok:
  assumes "checkField (field_of t k) r f = None" and "r \<in> set cloud_rules"
  shows "argumentIsSafe (str_field t k) \<and> (\<forall>c \<in> set (str_field t k). inert c)"
proof (cases "as_string (field_of t k)")
  case None
  with assms(1) show ?thesis by (simp add: checkField_def)
next
  case (Some s)
  with assms(1) have "argumentIsSafe s" "rx_test r s" by (auto simp: checkField_def split: if_splits)
  with Some cloud_rules_inert [OF assms(2)] show ?thesis by (simp add: str_field_def)
qed

lemma collected_nil: "collected ps = [] \<longleftrightarrow> (\<forall>p \<in> set ps. p = None)"
  by (induction ps) (auto simp: collected_def map_filter_simps split: option.splits)

lemma cloud_identifiers_ok:
  assumes "isValidCloudTarget (Some t)" and "v \<in> set (cloud_identifiers t)"
  shows "argumentIsSafe v \<and> (\<forall>c \<in> set v. inert c)"
proof -
  have "\<exists>k r f. v = str_field t k \<and> checkField (field_of t k) r f = None \<and> r \<in> set cloud_rules"
    using assms
    by (auto simp: isValidCloudTarget_def validateCloudTarget_def cloud_identifiers_def gcp_problems_def
        aws_problems_def azure_problems_def collected_nil cloud_rules_def Let_def split: if_splits)
  then show ?thesis using checkField_ok by blast
qed

lemma build_safe:
  "(\<And>v. Value v \<in> set ws \<Longrightarrow> argumentIsSafe v) \<Longrightarrow>
   build ws = Some (map (\<lambda>w. case w of Fixed s \<Rightarrow> s | Value v \<Rightarrow> v) ws)"
  by (induction ws) (auto simp: build_def safeArgument_def split: cloud_arg.splits)

lemma build_nth:
  assumes "build ws = Some argv" and "i < length ws"
  shows "(case ws ! i of Fixed s \<Rightarrow> argv ! i = s | Value v \<Rightarrow> argv ! i = v \<and> argumentIsSafe v)"
proof -
  from assms(1) have *: "map (\<lambda>w. case w of Fixed s \<Rightarrow> Some s | Value v \<Rightarrow> safeArgument v) ws = map Some argv"
    by (simp add: build_def all_some_eq_Some_iff)
  then have len: "length argv = length ws" using map_eq_imp_length_eq by metis
  from * have "(case ws ! i of Fixed s \<Rightarrow> Some s | Value v \<Rightarrow> safeArgument v) = Some (argv ! i)"
    using assms(2) len by (metis nth_map)
  then show ?thesis
    by (auto simp: safeArgument_def split: cloud_arg.splits if_splits)
qed

lemma build_length: "build ws = Some argv \<Longrightarrow> length argv = length ws"
  unfolding build_def by (drule all_some_length) simp

lemma build_None: "build ws = None \<longleftrightarrow> (\<exists>v. Value v \<in> set ws \<and> \<not> argumentIsSafe v)"
proof
  assume "build ws = None"
  then show "\<exists>v. Value v \<in> set ws \<and> \<not> argumentIsSafe v" using build_safe [of ws] by force
next
  assume "\<exists>v. Value v \<in> set ws \<and> \<not> argumentIsSafe v"
  then obtain i v where "i < length ws" "ws ! i = Value v" "\<not> argumentIsSafe v"
    by (auto simp: in_set_conv_nth)
  then show "build ws = None" using build_nth [of ws _ i] by (cases "build ws") auto
qed

text \<open>The command lines built from a target alone.\<close>

definition target_commands :: "json \<Rightarrow> cloud_arg list list" where
  "target_commands t =
     (let ty = as_string (field_of t ''type''); g = gcp_target t; a = aws_target t; z = azure_target t in
      if ty = Some ''gcp'' then [gcpIapTunnelArgs g, gcpDescribeInstanceArgs g, gcpOsLoginProfileArgs (gt_project g)]
      else if ty = Some ''aws'' then [awsDescribeInstanceArgs a, awsAuthStatusArgs (at_profile a), awsRegionsArgs (at_profile a),
        awsInstancesArgs (at_profile a) (at_region a)]
      else if ty = Some ''azure'' then [azureResourceGroupsArgs (zt_subscription z),
        azureVmsArgs (zt_subscription z) (zt_resourceGroup z)]
      else [])"

lemma target_commands_values:
  "ws \<in> set (target_commands t) \<Longrightarrow> Value v \<in> set ws \<Longrightarrow> v \<in> set (cloud_identifiers t)"
  by (auto simp: target_commands_def Let_def cloud_identifiers_def gcp_target_def aws_target_def azure_target_def
      gcpIapTunnelArgs_def gcpDescribeInstanceArgs_def gcpOsLoginProfileArgs_def awsDescribeInstanceArgs_def
      awsAuthStatusArgs_def awsRegionsArgs_def awsInstancesArgs_def azureResourceGroupsArgs_def azureVmsArgs_def
      split: if_splits)

subsection \<open>Properties\<close>


definition sample_target :: json where
  "sample_target = JObj [(''type'', JStr ''gcp''), (''project'', JStr ''abcdef''), (''zone'', JStr ''a-b-c''),
     (''instance'', JStr ''w''), (''transport'', JStr ''iap'')]"

lemma sample_target_valid: "isValidCloudTarget (Some sample_target)"
  by code_simp


end
