(* ===== verification/Data_Cache.thy ===== *)
theory Data_Cache
  imports Cloud_Target Policy_Core
begin

section \<open>What the agent bridge knows of the saved data (main/services/mcpDataCache.ts)\<close>

text \<open>
  The bridge reads the user's data file into typed records, keeping only what an agent may
  learn: a VPN profile is its name, its engine and two counts, never where it points. The
  input is untyped; a record without a string id and workspace is dropped, every other
  field that does not fit gets a default. A server's fallback name is whatever its \<open>host\<close>
  holds, so \<open>name\<close> stays an untyped value.
\<close>

subsection \<open>Types\<close>

datatype SshAuth = AuthPassword | AuthKey | AuthAgent | AuthCertificate

datatype DbKind = Postgres | Mysql | Mssql | Mongodb | Redis | Clickhouse

datatype TunnelKind = TunnelLocal | TunnelRemote | TunnelSocks

datatype VpnMode = Userspace | System

datatype CicdProvider = Jenkins | Gitlab | Github

record CachedHop =
  ch_host :: string
  ch_port :: jsnum
  ch_username :: string
  ch_auth :: SshAuth
  ch_keyPath :: "string option"
  ch_serverId :: "string option"

record RdpSettings =
  rdp_port :: jsnum
  rdp_domain :: "string option"
  rdp_nla :: bool
  rdp_kdcProxyUrl :: "string option"

record CachedWorkspace =
  cw_id :: string
  cw_name :: string

record CachedServer =
  cs_id :: string
  cs_workspaceId :: string
  cs_name :: json
  cs_host :: string
  cs_port :: jsnum
  cs_username :: string
  cs_auth :: SshAuth
  cs_rev :: "jsnum option"
  cs_os :: string
  cs_route :: "CachedHop list"
  cs_vpnProfileId :: "string option"
  cs_rdp :: "RdpSettings option"
  cs_cloud :: "json option"

record CachedDatabase =
  cd_id :: string
  cd_workspaceId :: string
  cd_name :: string
  cd_kind :: DbKind
  cd_host :: string
  cd_port :: jsnum
  cd_username :: string
  cd_database :: string
  cd_ssl :: bool
  cd_tlsVerify :: "bool option"
  cd_uri :: bool
  cd_sshServerId :: "string option"
  cd_container :: "string option"
  cd_vpnProfileId :: "string option"
  cd_rev :: "jsnum option"

record CachedTunnel =
  ct_id :: string
  ct_workspaceId :: string
  ct_name :: string
  ct_kind :: TunnelKind
  ct_serverId :: "string option"
  ct_listen :: string
  ct_target :: string

record CachedVpn =
  cv_id :: string
  cv_workspaceId :: string
  cv_name :: string
  cv_kind :: VpnKind
  cv_mode :: VpnMode
  cv_listenerCount :: nat
  cv_proxyCount :: nat
  cv_autoStart :: bool

record CachedCicdConnection =
  cc_id :: string
  cc_workspaceId :: string
  cc_name :: string
  cc_provider :: CicdProvider
  cc_enabled :: bool

subsection \<open>Reading one field\<close>

definition asString :: "json option \<Rightarrow> string \<Rightarrow> string" where
  "asString v fallback = nullish (as_string v) fallback"

definition as_num :: "json option \<Rightarrow> jsnum option" where
  "as_num v = (case v of Some (JNum n) \<Rightarrow> Some n | _ \<Rightarrow> None)"

definition asNumber :: "json option \<Rightarrow> jsnum \<Rightarrow> jsnum" where
  "asNumber v fallback = nullish (as_num v) fallback"

definition isSshAuth :: "json option \<Rightarrow> SshAuth option" where
  "isSshAuth v =
     (if v = Some (JStr ''password'') then Some AuthPassword
      else if v = Some (JStr ''key'') then Some AuthKey
      else if v = Some (JStr ''agent'') then Some AuthAgent
      else if v = Some (JStr ''certificate'') then Some AuthCertificate
      else None)"

definition isDbKind :: "json option \<Rightarrow> DbKind option" where
  "isDbKind v =
     (if v = Some (JStr ''postgres'') then Some Postgres
      else if v = Some (JStr ''mysql'') then Some Mysql
      else if v = Some (JStr ''mssql'') then Some Mssql
      else if v = Some (JStr ''mongodb'') then Some Mongodb
      else if v = Some (JStr ''redis'') then Some Redis
      else if v = Some (JStr ''clickhouse'') then Some Clickhouse
      else None)"

definition isTunnelKind :: "json option \<Rightarrow> TunnelKind option" where
  "isTunnelKind v =
     (if v = Some (JStr ''local'') then Some TunnelLocal
      else if v = Some (JStr ''remote'') then Some TunnelRemote
      else if v = Some (JStr ''socks'') then Some TunnelSocks
      else None)"

definition isVpnKind :: "json option \<Rightarrow> VpnKind option" where
  "isVpnKind v =
     (if v = Some (JStr ''wireguard'') then Some Wireguard
      else if v = Some (JStr ''openvpn'') then Some Openvpn
      else if v = Some (JStr ''frp'') then Some Frp
      else None)"

definition isCicdProvider :: "json option \<Rightarrow> CicdProvider option" where
  "isCicdProvider v =
     (if v = Some (JStr ''jenkins'') then Some Jenkins
      else if v = Some (JStr ''gitlab'') then Some Gitlab
      else if v = Some (JStr ''github'') then Some Github
      else None)"

text \<open>\<open>Array.isArray(raw)\<close>, then the elements that are objects with string \<open>id\<close> and \<open>workspaceId\<close>.\<close>

definition json_records :: "json option \<Rightarrow> json list" where
  "json_records raw = (case as_array raw of None \<Rightarrow> [] | Some xs \<Rightarrow> filter is_object xs)"

definition keyed_records :: "json option \<Rightarrow> json list" where
  "keyed_records raw = filter (\<lambda>r. as_string (field_of r ''id'') \<noteq> None \<and> as_string (field_of r ''workspaceId'') \<noteq> None)
     (json_records raw)"

definition non_empty :: "string option \<Rightarrow> string option" where
  "non_empty s = (if s = Some [] then None else s)"

subsection \<open>Reading the lists\<close>

definition parseRoute :: "json option \<Rightarrow> CachedHop list" where
  "parseRoute raw = map (\<lambda>h.
     \<lparr>ch_host = asString (field_of h ''host'') [], ch_port = asNumber (field_of h ''port'') (Fin 22),
      ch_username = asString (field_of h ''username'') [], ch_auth = nullish (isSshAuth (field_of h ''auth'')) AuthKey,
      ch_keyPath = as_string (field_of h ''keyPath''), ch_serverId = as_string (field_of h ''serverId'')\<rparr>)
     (json_records raw)"

definition parseWorkspaces :: "json option \<Rightarrow> CachedWorkspace list" where
  "parseWorkspaces raw =
     map (\<lambda>w. \<lparr>cw_id = asString (field_of w ''id'') [], cw_name = asString (field_of w ''name'') []\<rparr>)
       (filter (\<lambda>w. as_string (field_of w ''id'') \<noteq> None \<and> as_string (field_of w ''name'') \<noteq> None) (json_records raw))"

definition rdp_port_ok :: "jsnum \<Rightarrow> bool" where
  "rdp_port_ok p = (case p of Fin x \<Rightarrow> x = of_int \<lfloor>x\<rfloor> \<and> 1 \<le> x \<and> x \<le> 65535 | _ \<Rightarrow> False)"

definition parseRdp :: "json option \<Rightarrow> RdpSettings option" where
  "parseRdp raw =
     (case raw of
        None \<Rightarrow> None
      | Some r \<Rightarrow>
          if \<not> is_object r then None
          else
            let port = asNumber (field_of r ''port'') (Fin 3389) in
            if \<not> rdp_port_ok port then None
            else Some \<lparr>rdp_port = port, rdp_domain = non_empty (as_string (field_of r ''domain'')),
                       rdp_nla = (field_of r ''nla'' \<noteq> Some (JBool False)),
                       rdp_kdcProxyUrl = non_empty (as_string (field_of r ''kdcProxyUrl''))\<rparr>)"

definition parseServer :: "json \<Rightarrow> CachedServer" where
  "parseServer s =
     \<lparr>cs_id = asString (field_of s ''id'') [], cs_workspaceId = asString (field_of s ''workspaceId'') [],
      cs_name = (case as_string (field_of s ''name'') of
                   Some n \<Rightarrow> JStr n
                 | None \<Rightarrow> nullish (field_of s ''host'') (JStr [])),
      cs_host = asString (field_of s ''host'') [], cs_port = asNumber (field_of s ''port'') (Fin 22),
      cs_username = asString (field_of s ''username'') [],
      cs_auth = nullish (isSshAuth (field_of s ''auth'')) AuthKey, cs_rev = as_num (field_of s ''rev''),
      cs_os = asString (field_of s ''os'') ''Linux'', cs_route = parseRoute (field_of s ''route''),
      cs_vpnProfileId = as_string (field_of s ''vpnProfileId''), cs_rdp = parseRdp (field_of s ''rdp''),
      cs_cloud = (if isValidCloudTarget (field_of s ''cloud'') then field_of s ''cloud'' else None)\<rparr>"

definition parseServers :: "json option \<Rightarrow> CachedServer list" where
  "parseServers raw = map parseServer (keyed_records raw)"

definition parseDatabase :: "json \<Rightarrow> CachedDatabase" where
  "parseDatabase d =
     \<lparr>cd_id = asString (field_of d ''id'') [], cd_workspaceId = asString (field_of d ''workspaceId'') [],
      cd_name = asString (field_of d ''name'') (asString (field_of d ''host'') []),
      cd_kind = nullish (isDbKind (field_of d ''kind'')) Postgres, cd_host = asString (field_of d ''host'') [],
      cd_port = asNumber (field_of d ''port'') (Fin 0), cd_username = asString (field_of d ''username'') [],
      cd_database = asString (field_of d ''database'') [], cd_ssl = (field_of d ''ssl'' = Some (JBool True)),
      cd_tlsVerify = (if field_of d ''tlsVerify'' = Some (JBool False) then Some False else None),
      cd_uri = (field_of d ''uri'' = Some (JBool True)), cd_sshServerId = as_string (field_of d ''sshServerId''),
      cd_container = non_empty (as_string (field_of d ''container'')),
      cd_vpnProfileId = as_string (field_of d ''vpnProfileId''), cd_rev = as_num (field_of d ''rev'')\<rparr>"

definition parseDatabases :: "json option \<Rightarrow> CachedDatabase list" where
  "parseDatabases raw = map parseDatabase (keyed_records raw)"

definition parseTunnels :: "json option \<Rightarrow> CachedTunnel list" where
  "parseTunnels raw = map (\<lambda>t.
     \<lparr>ct_id = asString (field_of t ''id'') [], ct_workspaceId = asString (field_of t ''workspaceId'') [],
      ct_name = asString (field_of t ''name'') (asString (field_of t ''id'') []),
      ct_kind = nullish (isTunnelKind (field_of t ''kind'')) TunnelLocal,
      ct_serverId = as_string (field_of t ''serverId''), ct_listen = asString (field_of t ''listen'') [],
      ct_target = asString (field_of t ''target'') []\<rparr>) (keyed_records raw)"

definition list_len :: "json option \<Rightarrow> nat" where
  "list_len v = (case as_array v of None \<Rightarrow> 0 | Some xs \<Rightarrow> length xs)"

definition parseVpn :: "json \<Rightarrow> CachedVpn" where
  "parseVpn v =
     (let spec = (case field_of v ''spec'' of Some s \<Rightarrow> if is_object s then s else JObj [] | None \<Rightarrow> JObj []);
          kind = nullish (isVpnKind (field_of spec ''kind'')) Wireguard
      in \<lparr>cv_id = asString (field_of v ''id'') [], cv_workspaceId = asString (field_of v ''workspaceId'') [],
          cv_name = asString (field_of v ''name'') (asString (field_of v ''id'') []), cv_kind = kind,
          cv_mode = (if kind = Wireguard \<and> field_of spec ''mode'' = Some (JStr ''userspace'') then Userspace else System),
          cv_listenerCount = list_len (field_of spec ''listeners''),
          cv_proxyCount = list_len (field_of spec ''proxies''),
          cv_autoStart = (field_of v ''autoStart'' = Some (JBool True))\<rparr>)"

definition parseVpns :: "json option \<Rightarrow> CachedVpn list" where
  "parseVpns raw = map parseVpn (keyed_records raw)"

definition parseCicdConnections :: "json option \<Rightarrow> CachedCicdConnection list" where
  "parseCicdConnections raw = List.map_filter (\<lambda>c.
     map_option (\<lambda>prov.
       \<lparr>cc_id = asString (field_of c ''id'') [], cc_workspaceId = asString (field_of c ''workspaceId'') [],
        cc_name = asString (field_of c ''name'') (asString (field_of c ''id'') []), cc_provider = prov,
        cc_enabled = (field_of c ''enabled'' \<noteq> Some (JBool False))\<rparr>)
     (isCicdProvider (field_of c ''provider''))) (keyed_records raw)"

subsection \<open>The cache\<close>

record data_cache =
  dc_workspaces :: "CachedWorkspace list"
  dc_servers :: "CachedServer list"
  dc_databases :: "CachedDatabase list"
  dc_tunnels :: "CachedTunnel list"
  dc_vpns :: "CachedVpn list"
  dc_cicd :: "CachedCicdConnection list"

text \<open>\<open>data\<close> is the document handed in or loaded; null and undefined read as no lists.\<close>

definition refreshMcpDataCache :: "json option \<Rightarrow> data_cache" where
  "refreshMcpDataCache data =
     (let get = (\<lambda>k. Option.bind data (\<lambda>d. field_of d k)) in
      \<lparr>dc_workspaces = parseWorkspaces (get ''workspaces''), dc_servers = parseServers (get ''servers''),
       dc_databases = parseDatabases (get ''databases''), dc_tunnels = parseTunnels (get ''tunnels''),
       dc_vpns = parseVpns (get ''vpns''), dc_cicd = parseCicdConnections (get ''cicdConnections'')\<rparr>)"

definition getCachedServer :: "data_cache \<Rightarrow> string \<Rightarrow> CachedServer option" where
  "getCachedServer dc i = find (\<lambda>s. cs_id s = i) (dc_servers dc)"

definition getCachedWorkspace :: "data_cache \<Rightarrow> string \<Rightarrow> CachedWorkspace option" where
  "getCachedWorkspace dc i = find (\<lambda>w. cw_id w = i) (dc_workspaces dc)"

definition getCachedVpn :: "data_cache \<Rightarrow> string \<Rightarrow> CachedVpn option" where
  "getCachedVpn dc i = find (\<lambda>v. cv_id v = i) (dc_vpns dc)"

text \<open>The lists of the session's workspaces (an array argument is always given by the bridge).\<close>

definition listCachedVpns :: "data_cache \<Rightarrow> string list \<Rightarrow> CachedVpn list" where
  "listCachedVpns dc ids = filter (\<lambda>v. cv_workspaceId v \<in> set ids) (dc_vpns dc)"

definition listCachedDatabases :: "data_cache \<Rightarrow> string list \<Rightarrow> CachedDatabase list" where
  "listCachedDatabases dc ids = filter (\<lambda>d. cd_workspaceId d \<in> set ids) (dc_databases dc)"

definition listCachedTunnels :: "data_cache \<Rightarrow> string list \<Rightarrow> CachedTunnel list" where
  "listCachedTunnels dc ids = filter (\<lambda>t. ct_workspaceId t \<in> set ids) (dc_tunnels dc)"

definition listCachedCicdConnections :: "data_cache \<Rightarrow> string list \<Rightarrow> CachedCicdConnection list" where
  "listCachedCicdConnections dc ids = filter (\<lambda>c. cc_workspaceId c \<in> set ids) (dc_cicd dc)"

definition listCachedServersIn :: "data_cache \<Rightarrow> string list \<Rightarrow> CachedServer list" where
  "listCachedServersIn dc ids = filter (\<lambda>s. cs_workspaceId s \<in> set ids) (dc_servers dc)"

end
