(* ===== verification/Agent_Gate.thy ===== *)
theory Agent_Gate
  imports Agent_Sessions Data_Cache Approvals Policy_Command Policy_Path
begin

section \<open>The agent gateway's permission checks (main/services/mcpServer.ts)\<close>

text \<open>
  Every tool of the bridge asks one of the checks below for a decision and hands it to the
  gate (\<open>Gate_Machine\<close>). What the checks read is one record: the cached data, the policy
  state, the marks of unconfirmed sync arrivals, this machine's own names and the sessions.
  An evaluator of a group may throw (the command evaluator does on some inputs), so a check
  that calls one returns an option. A dash of the source's display text that is not one
  character here is written as two hyphens.
\<close>

subsection \<open>What the checks read\<close>

text \<open>\<open>syncTrust.ts\<close>: which servers moved between workspaces by sync and are unconfirmed.\<close>

record sync_marks =
  tm_unreadable :: bool
  tm_moves :: "(string \<times> string \<times> string) list"

definition pendingWorkspace :: "sync_marks \<Rightarrow> string \<Rightarrow> string \<Rightarrow> string option" where
  "pendingWorkspace t serverId currentWs =
     (if tm_unreadable t then Some UNKNOWN_WORKSPACE
      else case map_of (tm_moves t) serverId of
          Some (was, now) \<Rightarrow> if now = currentWs then Some was else None
        | None \<Rightarrow> None)"

record bridge =
  br_cache :: data_cache
  br_policy :: PolicyState
  br_marks :: sync_marks
  br_uid :: "nat \<Rightarrow> string"
  br_hostname :: string
  br_addresses :: "string list"

definition isProtected :: "bridge \<Rightarrow> string option \<Rightarrow> string option \<Rightarrow> bool" where
  "isProtected b serverId workspaceId =
     (let sid = truthy serverId; ws = truthy workspaceId;
          moved = (case sid of
                     None \<Rightarrow> None
                   | Some s \<Rightarrow> pendingWorkspace (br_marks b) s
                       (case getCachedServer (br_cache b) s of Some c \<Rightarrow> cs_workspaceId c | None \<Rightarrow> []))
      in if moved = Some UNKNOWN_WORKSPACE then True
         else list_ex (\<lambda>p. case p of
                ScopeServer i \<Rightarrow> sid = Some i
              | ScopeWorkspace w \<Rightarrow> ws = Some w \<or> truthy moved = Some w) (listProtected (br_policy b)))"

subsection \<open>The grant and the restriction\<close>

definition modeOf :: "McpAgentSession \<Rightarrow> SessionMode" where
  "modeOf s = sessionModeOf (Some s)"

definition sessionGroupFor :: "bridge \<Rightarrow> McpAgentSession \<Rightarrow> AccessGroup option" where
  "sessionGroupFor b s =
     (if modeOf s \<noteq> Custom then Some (profileGroup (br_uid b) (modeOf s))
      else case truthy (as_groupId s) of Some g \<Rightarrow> getGroup (br_policy b) g | None \<Rightarrow> None)"

definition NO_AI_ACCESS :: Decision where
  "NO_AI_ACCESS = (decide Deny ''This target is set to No AI Access.'')\<lparr>outOfScope := True\<rparr>"

definition NO_GROUP :: Decision where
  "NO_GROUP = (decide Deny ''This AI session has no access group.'')\<lparr>outOfScope := True\<rparr>"

definition restrictionOf :: "bridge \<Rightarrow> string \<Rightarrow> string \<Rightarrow> Restriction" where
  "restrictionOf b serverId workspaceId =
     resolveRestriction (ps_assignments (br_policy b)) serverId workspaceId
       (pendingWorkspace (br_marks b) serverId workspaceId)"

definition restriction_group :: "bridge \<Rightarrow> Restriction \<Rightarrow> AccessGroup option" where
  "restriction_group b r = (case r of InGroup g \<Rightarrow> getGroup (br_policy b) g | _ \<Rightarrow> None)"

definition resolveGroups :: "bridge \<Rightarrow> McpAgentSession \<Rightarrow> string \<Rightarrow> AccessGroup option \<times> AccessGroup option \<times> bool" where
  "resolveGroups b session serverId =
     (let found = (case getCachedServer (br_cache b) serverId of
                     Some server \<Rightarrow> restrictionOf b serverId (cs_workspaceId server)
                   | None \<Rightarrow> NoRestriction)
      in (sessionGroupFor b session, restriction_group b found, found = NoAiAccess))"

definition withRestriction :: "Decision \<Rightarrow> Decision option \<Rightarrow> string \<Rightarrow> Decision" where
  "withRestriction grant restriction label =
     (case restriction of
        None \<Rightarrow> grant
      | Some r \<Rightarrow>
          if decision grant = Ask \<and> decision r = Ask \<and> reason grant \<noteq> reason r
          then decide Ask (reason grant @ '' + '' @ reason r)
          else
            let winner = mostRestrictive grant r in
            if RANK (decision grant) \<le> RANK (decision r) then winner
            else decide (decision r) (reason r @ '' -- '' @ label
              @ '' is held below what this AI session's own access group allows. Remove or widen that assignment under AI & MCP -> Access Groups to lift it.''))"

subsection \<open>The two checks every permission answer comes through\<close>

definition group_label :: "string \<Rightarrow> AccessGroup option \<Rightarrow> string" where
  "group_label what g = what @ '' (\"'' @ (case g of Some r \<Rightarrow> ag_name r | None \<Rightarrow> ''undefined'') @ ''\")''"

definition combine :: "(AccessGroup \<Rightarrow> Decision option) \<Rightarrow> AccessGroup \<Rightarrow> AccessGroup option \<Rightarrow> string \<Rightarrow> Decision option" where
  "combine evaluate grant restriction label =
     (case evaluate grant of
        None \<Rightarrow> None
      | Some d \<Rightarrow>
          (case restriction of
             None \<Rightarrow> Some (withRestriction d None label)
           | Some r \<Rightarrow> map_option (\<lambda>n. withRestriction d (Some n) label) (evaluate r)))"

definition serverCheck :: "bridge \<Rightarrow> McpAgentSession \<Rightarrow> string \<Rightarrow> (AccessGroup \<Rightarrow> Decision option) \<Rightarrow> bool \<Rightarrow> Decision option" where
  "serverCheck b session serverId evaluate mutating =
     (let server = getCachedServer (br_cache b) serverId;
          (grant, restriction, shut) = resolveGroups b session serverId
      in if shut then Some NO_AI_ACCESS
         else case grant of
             None \<Rightarrow> Some NO_GROUP
           | Some g \<Rightarrow>
               map_option (\<lambda>d. applyMode d (modeOf session)
                   (isProtected b (Some serverId) (map_option cs_workspaceId server)) mutating)
                 (combine evaluate g restriction (group_label ''the server's own access group'' restriction)))"

definition workspaceCheck :: "bridge \<Rightarrow> McpAgentSession \<Rightarrow> string \<Rightarrow> (AccessGroup \<Rightarrow> Decision option) \<Rightarrow> bool
    \<Rightarrow> string option \<Rightarrow> Decision option" where
  "workspaceCheck b session workspaceId evaluate mutating protectServerId =
     (case sessionGroupFor b session of
        None \<Rightarrow> Some NO_GROUP
      | Some g \<Rightarrow>
          let found = resolveRestriction (ps_assignments (br_policy b)) [] workspaceId None in
          if found = NoAiAccess then Some NO_AI_ACCESS
          else
            map_option (\<lambda>d. applyMode d (modeOf session) (isProtected b protectServerId (Some workspaceId)) mutating)
              (combine evaluate g (restriction_group b found)
                (group_label ''the workspace's access group'' (restriction_group b found))))"

subsection \<open>The checks of the tools\<close>

definition effectiveCapability :: "bridge \<Rightarrow> McpAgentSession \<Rightarrow> string \<Rightarrow> AiCapability \<Rightarrow> bool option \<Rightarrow> Decision option" where
  "effectiveCapability b session serverId cap mutating =
     serverCheck b session serverId (\<lambda>g. Some (evaluateAsEnforced (Some g) cap))
       (nullish mutating (cap \<in> set MUTATING_CAPABILITIES))"

definition effectiveWorkspaceCapability :: "bridge \<Rightarrow> McpAgentSession \<Rightarrow> string \<Rightarrow> AiCapability \<Rightarrow> bool option \<Rightarrow> Decision option" where
  "effectiveWorkspaceCapability b session workspaceId cap mutating =
     workspaceCheck b session workspaceId (\<lambda>g. Some (evaluateAsEnforced (Some g) cap))
       (nullish mutating (cap \<in> set MUTATING_CAPABILITIES)) None"

definition workspacesThatMayList :: "bridge \<Rightarrow> McpAgentSession \<Rightarrow> AiCapability \<Rightarrow> string list" where
  "workspacesThatMayList b session cap =
     dedup (filter (\<lambda>i. map_option decision (effectiveWorkspaceCapability b session i cap (Some False)) \<noteq> Some Deny)
       (map wr_id (as_workspaces session)))"

definition effectiveCommand :: "bridge \<Rightarrow> McpAgentSession \<Rightarrow> string \<Rightarrow> string \<Rightarrow> Decision option" where
  "effectiveCommand b session serverId command =
     serverCheck b session serverId (\<lambda>g. evaluateCommand (Some g) command) True"

definition effectiveFilePath :: "bridge \<Rightarrow> McpAgentSession \<Rightarrow> string \<Rightarrow> string \<Rightarrow> FileMode \<Rightarrow> Decision option" where
  "effectiveFilePath b session serverId path mode =
     serverCheck b session serverId
       (\<lambda>g. Some (mostRestrictive (evaluateFilePath (Some g) path mode)
              (evaluateCapability (Some g) (if mode = ModeRead then SftpDownload else SftpUpload))))
       (mode = ModeWrite)"

definition rename_decision :: "AccessGroup \<Rightarrow> string \<Rightarrow> string \<Rightarrow> Decision" where
  "rename_decision g source target =
     (let parts = [evaluateFilePath (Some g) source ModeRead, evaluateFilePath (Some g) source ModeWrite,
                   evaluateFilePath (Some g) target ModeWrite, evaluateCapability (Some g) SftpUpload];
          winner = foldl mostRestrictive (hd parts) (tl parts)
      in if decision winner \<noteq> Ask then winner
         else decide Ask (join '' + '' (dedup (map reason (filter (\<lambda>d. decision d = Ask) parts)))))"

definition effectiveRename :: "bridge \<Rightarrow> McpAgentSession \<Rightarrow> string \<Rightarrow> string \<Rightarrow> string \<Rightarrow> Decision option" where
  "effectiveRename b session serverId source target =
     serverCheck b session serverId (\<lambda>g. Some (rename_decision g source target)) True"

definition serverWriteCheck :: "bridge \<Rightarrow> McpAgentSession \<Rightarrow> CachedServer \<Rightarrow> ServerAct \<Rightarrow> Decision option" where
  "serverWriteCheck b session server act =
     serverCheck b session (cs_id server) (\<lambda>g. Some (evaluateServerWrite (Some g) act)) True"

subsection \<open>The fence around what an agent may save\<close>

text \<open>\<open>replace(/^\[|\]$/g, '')\<close>\<close>

definition strip_brackets :: "string \<Rightarrow> string" where
  "strip_brackets h =
     (let h = (if starts_with ''['' h then tl h else h)
      in if h \<noteq> [] \<and> last h = CHR '']'' then butlast h else h)"

definition first_label :: "string \<Rightarrow> string" where
  "first_label s = hd (split_on (CHR ''.'') s)"

definition isThisMachine :: "bridge \<Rightarrow> string \<Rightarrow> bool" where
  "isThisMachine b host =
     (let h = strip_brackets (lower (trim host)); me = lower (br_hostname b) in
      h \<noteq> []
      \<and> (h = ''localhost'' \<or> ends_with ''.localhost'' h \<or> starts_with ''127.'' h
         \<or> h = ''::1'' \<or> h = ''0.0.0.0'' \<or> h = ''::'' \<or> h = ''0:0:0:0:0:0:0:1''
         \<or> h = me \<or> h = me @ ''.local'' \<or> h = first_label me
         \<or> list_ex (\<lambda>a. lower a = h) (br_addresses b)))"

definition THIS_MACHINE :: Decision where
  "THIS_MACHINE = (decide Deny
     ''That address is the machine OpsMaxx itself runs on. An agent may not save a connection to it in any mode: it would be a shell on the OpsMaxx host, which this bridge never offers.'')\<lparr>outOfScope := True\<rparr>"

fun json_text :: "json \<Rightarrow> string" where
  "json_text (JStr s) = s"
| "json_text _ = []"

definition fence_named :: "McpAgentSession \<Rightarrow> CachedServer \<Rightarrow> string" where
  "fence_named session s =
     (if cs_workspaceId s \<in> set (map wr_id (as_workspaces session))
      then ''\"'' @ json_text (cs_name s) @ ''\"'' else ''a server outside this session'')"

text \<open>The fence one saved server is, if any.\<close>

definition fence_of :: "bridge \<Rightarrow> McpAgentSession \<Rightarrow> CachedServer \<Rightarrow> Decision option" where
  "fence_of b session s =
     (if restrictionOf b (cs_id s) (cs_workspaceId s) = NoAiAccess then
        Some ((decide Deny (''That address and port are the same machine as '' @ fence_named session s
          @ '', which is set to No AI Access.''))\<lparr>outOfScope := True\<rparr>)
      else if isProtected b (Some (cs_id s)) (Some (cs_workspaceId s)) then
        Some ((decide Ask (''That address and port are the same machine as '' @ fence_named session s
          @ '', which is Protected: every change is approved first.''))\<lparr>protectedTarget := True\<rparr>)
      else None)"

definition same_machine :: "string \<Rightarrow> jsnum \<Rightarrow> string option \<Rightarrow> CachedServer \<Rightarrow> bool" where
  "same_machine h port excludeId s =
     (\<not> (Some (cs_id s) = excludeId \<or> cs_cloud s \<noteq> None \<or> cs_port s \<noteq> port \<or> lower (trim (cs_host s)) \<noteq> h))"

fun first_fence :: "bridge \<Rightarrow> McpAgentSession \<Rightarrow> CachedServer list \<Rightarrow> Decision option" where
  "first_fence b session [] = None"
| "first_fence b session (s # ss) =
     (case fence_of b session s of Some d \<Rightarrow> Some d | None \<Rightarrow> first_fence b session ss)"

definition fenceForTarget :: "bridge \<Rightarrow> McpAgentSession \<Rightarrow> string \<Rightarrow> jsnum \<Rightarrow> string option \<Rightarrow> Decision option" where
  "fenceForTarget b session host port excludeId =
     (let h = lower (trim host) in
      if h = [] then None
      else if isThisMachine b h then Some THIS_MACHINE
      else first_fence b session (filter (same_machine h port excludeId) (dc_servers (br_cache b))))"

definition withFence :: "Decision \<Rightarrow> Decision option \<Rightarrow> Decision" where
  "withFence check fence =
     (case fence of
        None \<Rightarrow> check
      | Some f \<Rightarrow>
          if decision f = Deny then f
          else if decision check = Deny then check else f)"

subsection \<open>Starting and stopping a VPN\<close>

definition proxy_refusal :: "CachedVpn \<Rightarrow> Decision" where
  "proxy_refusal vpn = decide Deny (''\"'' @ cv_name vpn
     @ ''\" is a reverse proxy (frp). Each of its proxies makes a port on the user's own machine reachable from the frp server, so OpsMaxx does not let an AI agent open or close one unless the user has put this session in Bypass mode. This is not a permission that can be raised -- ask the user to do it in OpsMaxx themselves.'')"

text \<open>\<open>live\<close>: a session reaches its host through the profile now.\<close>

definition setVpnCheck :: "bridge \<Rightarrow> McpAgentSession \<Rightarrow> CachedVpn \<Rightarrow> bool \<Rightarrow> bool \<Rightarrow> Decision option" where
  "setVpnCheck b session vpn running live =
     (if isVpnKindRefusedForAi (cv_kind vpn) then
        workspaceCheck b session (cv_workspaceId vpn) (\<lambda>_. Some (proxy_refusal vpn)) True None
      else
        workspaceCheck b session (cv_workspaceId vpn)
          (\<lambda>g. Some (evaluateVpnControl (Some g) (if running then VpnStart else VpnStop) live)) True None)"

fun vpn_kind_name :: "VpnKind \<Rightarrow> string" where
  "vpn_kind_name Wireguard = ''wireguard''"
| "vpn_kind_name Openvpn = ''openvpn''"
| "vpn_kind_name Frp = ''frp''"
| "vpn_kind_name Tailscale = ''tailscale''"
| "vpn_kind_name Ngrok = ''ngrok''"

definition vpnSummary :: "CachedVpn \<Rightarrow> string" where
  "vpnSummary v =
     (if cv_kind v = Frp
      then ''frp, '' @ show_nat (cv_proxyCount v) @ '' '' @ (if cv_proxyCount v = 1 then ''proxy'' else ''proxies'')
      else join '', '' ([vpn_kind_name (cv_kind v), if cv_mode v = Userspace then ''userspace'' else ''system'']
        @ (if cv_mode v = Userspace
           then [show_nat (cv_listenerCount v) @ '' listener'' @ (if cv_listenerCount v = 1 then [] else ''s'')]
           else [])))"

end
