(* ===== verification/Gate_Machine.thy ===== *)
theory Gate_Machine
  imports Agent_Gate
begin

section \<open>The gate (main/services/mcpServer.ts)\<close>

text \<open>
  \<open>gate\<close> turns a decision into a call that may run. It is asynchronous: it first decides
  whether a person has to be asked (\<open>gate_check\<close>), then tells the client that it waits, then
  puts the question (\<open>gate_ask\<close>), and goes on when the promise resolves (\<open>gate_resume\<close>). Other
  operations run in between. The remembered approvals are the set \<open>sessionElevations\<close> of
  strings, built and cleared as the source does it.
\<close>

subsection \<open>Calls\<close>

datatype GateApproval = NotRequired | ApprovedOnce | ApprovedSession | ApprovedEarlier | WasBypassed

record AuditContext =
  ac_session :: McpAgentSession
  ac_mode :: "SessionMode option"
  ac_workspaceId :: "string option"
  ac_workspaceName :: "string option"
  ac_serverId :: "string option"
  ac_serverName :: "string option"
  ac_action :: string
  ac_capability :: "AiCapability option"
  ac_workspaceWide :: bool

record GateSubject =
  gs_toolName :: string
  gs_containment :: "bool option"
  gs_perCall :: bool
  gs_elevationScope :: "string option"
  gs_writeContent :: "string option"

datatype ApprovalTarget = TargetServer string | TargetWorkspace string

fun target_kind :: "ApprovalTarget \<Rightarrow> string" where
  "target_kind (TargetServer _) = ''server''"
| "target_kind (TargetWorkspace _) = ''workspace''"

fun target_id :: "ApprovalTarget \<Rightarrow> string" where
  "target_id (TargetServer i) = i"
| "target_id (TargetWorkspace i) = i"

definition elevationKey :: "string \<Rightarrow> ApprovalTarget \<Rightarrow> string \<Rightarrow> string" where
  "elevationKey sessionId target scope =
     sessionId @ nul # target_kind target @ nul # target_id target @ nul # scope"

definition clearSessionElevations :: "string \<Rightarrow> string set \<Rightarrow> string set" where
  "clearSessionElevations sessionId el = {k \<in> el. \<not> starts_with (sessionId @ [nul]) k}"

definition clearAllSessionElevations :: "string set \<Rightarrow> string set" where
  "clearAllSessionElevations el = {}"

subsection \<open>Audit rows the gate writes\<close>

datatype RowApproval = RowNotRequired | RowNotAsked | RowDenied | RowTimeout | RowDisconnected

record AuditRow =
  ar_sessionId :: string
  ar_action :: string
  ar_mode :: SessionMode
  ar_approval :: RowApproval
  ar_error :: "string option"

definition denied_row :: "AuditContext \<Rightarrow> RowApproval \<Rightarrow> string option \<Rightarrow> AuditRow" where
  "denied_row ctx how err =
     \<lparr>ar_sessionId = as_id (ac_session ctx), ar_action = ac_action ctx,
      ar_mode = nullish (ac_mode ctx) (modeOf (ac_session ctx)), ar_approval = how, ar_error = err\<rparr>"

subsection \<open>Deciding whether to ask\<close>

definition target_of :: "AuditContext \<Rightarrow> ApprovalTarget option" where
  "target_of ctx =
     (if ac_workspaceWide ctx \<and> ac_serverId ctx = None \<and> ac_serverName ctx = None \<and> truthy (ac_workspaceId ctx) \<noteq> None
      then map_option TargetWorkspace (ac_workspaceId ctx)
      else if truthy (ac_serverId ctx) \<noteq> None \<and> truthy (ac_serverName ctx) \<noteq> None
      then map_option TargetServer (ac_serverId ctx)
      else None)"

text \<open>The question a call waits with: everything \<open>gate\<close> holds across its awaits.\<close>

record Question =
  qu_ctx :: AuditContext
  qu_perCall :: bool
  qu_key :: string
  qu_input :: CreateApprovalInput

definition call_scope :: "GateSubject \<Rightarrow> AiCapability \<Rightarrow> string" where
  "call_scope subject cap = nullish (gs_elevationScope subject) (capability_name cap)"

definition perCallOf :: "AuditContext \<Rightarrow> Decision \<Rightarrow> GateSubject \<Rightarrow> bool" where
  "perCallOf ctx check subject =
     (ac_capability ctx = Some CiTrigger \<or> gs_perCall subject \<or> protectedTarget check)"

definition question_of :: "AuditContext \<Rightarrow> Decision \<Rightarrow> GateSubject \<Rightarrow> ApprovalTarget \<Rightarrow> AiCapability \<Rightarrow> string \<Rightarrow> Question" where
  "question_of ctx check subject target cap ws =
     (let perCall = perCallOf ctx check subject;
          sid = as_id (ac_session ctx)
      in \<lparr>qu_ctx = ctx, qu_perCall = perCall,
          qu_key = elevationKey sid target (call_scope subject cap @ nul # reason check),
          qu_input = \<lparr>ci_sessionId = sid, ci_workspaceId = ws, ci_serverId = ac_serverId ctx,
            ci_capability = capability_name cap, ci_containment = gs_containment subject,
            ci_sessionGrant = (if perCall then None
              else if truthy (gs_elevationScope subject) \<noteq> None then Some GrantTool else Some GrantCapability),
            ci_preview = gs_writeContent subject, ci_aborted = False\<rparr>\<rparr>)"

datatype gate_outcome =
    Passed GateApproval "string option"
  | Refused AuditRow
  | MustAsk Question

definition stamp_mode :: "AuditContext \<Rightarrow> AuditContext" where
  "stamp_mode ctx = (if ac_mode ctx = None then ctx\<lparr>ac_mode := Some (modeOf (ac_session ctx))\<rparr> else ctx)"

abbreviation no_target :: string where
  "no_target \<equiv> ''this action requires approval, and it names neither a server nor a workspace to ask about''"

definition gate_check :: "AuditContext \<Rightarrow> Decision \<Rightarrow> GateSubject \<Rightarrow> string set \<Rightarrow> gate_outcome" where
  "gate_check ctx check subject elevations =
     (let ctx = stamp_mode ctx in
      case decision check of
        Deny \<Rightarrow> Refused (denied_row ctx RowNotRequired (Some (reason check)))
      | Ask \<Rightarrow>
          (case (target_of ctx, ac_capability ctx, truthy (ac_workspaceId ctx), truthy (ac_workspaceName ctx)) of
             (Some target, Some cap, Some ws, Some _) \<Rightarrow>
               let q = question_of ctx check subject target cap ws in
               if \<not> qu_perCall q \<and> qu_key q \<in> elevations then Passed ApprovedEarlier None else MustAsk q
           | _ \<Rightarrow> Refused (denied_row ctx RowNotRequired (Some no_target)))
      | Allow \<Rightarrow> Passed (if bypassed check then WasBypassed else NotRequired) None)"

subsection \<open>Asking\<close>

text \<open>\<open>aborted\<close>: the client's signal when the question is put.\<close>

definition gate_ask :: "Question \<Rightarrow> bool \<Rightarrow> string \<Rightarrow> int \<Rightarrow> approvals \<Rightarrow> ApprovalDecision option \<times> approvals" where
  "gate_ask q aborted i now ap = requestApproval ((qu_input q)\<lparr>ci_aborted := aborted\<rparr>) i now ap"

subsection \<open>Going on with the answer\<close>

fun row_of :: "ApprovalDecision \<Rightarrow> RowApproval" where
  "row_of Denied = RowDenied"
| "row_of TimedOut = RowTimeout"
| "row_of Disconnected = RowDisconnected"
| "row_of _ = RowNotAsked"

fun error_of :: "ApprovalDecision \<Rightarrow> string option" where
  "error_of RefusedVolume = Some ''OpsMaxx did not ask: this session already had too many approval requests open, or the same action was denied moments ago''"
| "error_of RefusedWithdrawn = Some ''OpsMaxx did not ask: this session withdrew several approval requests in the last minute before they were answered''"
| "error_of _ = None"

definition is_yes :: "ApprovalDecision \<Rightarrow> bool" where
  "is_yes d = (d = Approved \<or> d = ApprovedForSession)"

definition gate_resume :: "Question \<Rightarrow> ApprovalDecision \<Rightarrow> bool \<Rightarrow> string set \<Rightarrow> gate_outcome \<times> string set" where
  "gate_resume q d aborted elevations =
     (if is_yes d \<and> aborted then
        (Refused (denied_row (qu_ctx q) RowDisconnected
           (Some ''Approved, but the agent disconnected before it ran, so nothing was run'')), elevations)
      else
        let elevations = (if d = ApprovedForSession \<and> \<not> qu_perCall q then insert (qu_key q) elevations else elevations) in
        if \<not> is_yes d then (Refused (denied_row (qu_ctx q) (row_of d) (error_of d)), elevations)
        else if d = ApprovedForSession \<and> \<not> qu_perCall q then (Passed ApprovedSession (Some (qu_key q)), elevations)
        else (Passed ApprovedOnce None, elevations))"

subsection \<open>One question per workspace\<close>

text \<open>
  A call that reads whole workspaces is gated once for each that does not allow it, those
  that would be refused without asking first. \<open>outcomes\<close> are what those gates end with, in
  order; the first refusal ends the call and takes back the session grants given in it.
\<close>

definition workspace_ctx :: "McpAgentSession \<Rightarrow> string \<Rightarrow> AiCapability \<Rightarrow> WorkspaceRef \<Rightarrow> AuditContext" where
  "workspace_ctx session action cap w =
     \<lparr>ac_session = session, ac_mode = None, ac_workspaceId = Some (wr_id w), ac_workspaceName = Some (wr_name w),
      ac_serverId = None, ac_serverName = None, ac_action = action, ac_capability = Some cap, ac_workspaceWide = True\<rparr>"

definition refuses :: "McpAgentSession \<Rightarrow> AiCapability \<Rightarrow> bool option \<Rightarrow> int \<Rightarrow> approvals \<Rightarrow> WorkspaceRef \<Rightarrow> bool" where
  "refuses session cap containment now ap w =
     fst (wouldRefuse \<lparr>ci_sessionId = as_id session, ci_workspaceId = wr_id w, ci_serverId = None,
       ci_capability = capability_name cap, ci_containment = containment, ci_sessionGrant = None, ci_preview = None,
       ci_aborted = False\<rparr> now ap)"

definition asking_order :: "(WorkspaceRef \<Rightarrow> bool) \<Rightarrow> (WorkspaceRef \<times> Decision) list \<Rightarrow> (WorkspaceRef \<times> Decision) list" where
  "asking_order refused checked =
     (let asking = filter (\<lambda>c. decision (snd c) \<noteq> Allow) checked in
      filter (\<lambda>c. refused (fst c)) asking @ filter (\<lambda>c. \<not> refused (fst c)) asking)"

definition ws_subject :: "GateSubject \<Rightarrow> string \<Rightarrow> GateSubject" where
  "ws_subject subject action =
     subject\<lparr>gs_elevationScope := (case gs_elevationScope subject of None \<Rightarrow> Some action | s \<Rightarrow> s)\<rparr>"

record ws_run =
  wk_granted :: "string list"
  wk_answers :: "(string \<times> GateApproval) list"
  wk_passed :: "(AuditContext \<times> GateApproval) option"

definition ws_start :: ws_run where
  "ws_start = \<lparr>wk_granted = [], wk_answers = [], wk_passed = None\<rparr>"

text \<open>\<open>ctx\<close> is the context of that question, its mode stamped by the gate.\<close>

definition ws_pass :: "WorkspaceRef \<Rightarrow> AuditContext \<Rightarrow> GateApproval \<Rightarrow> string option \<Rightarrow> ws_run \<Rightarrow> ws_run" where
  "ws_pass w ctx how granted r =
     r\<lparr>wk_granted := (case granted of None \<Rightarrow> wk_granted r | Some k \<Rightarrow> wk_granted r @ [k]),
       wk_answers := AList.update (wr_id w) how (wk_answers r),
       wk_passed := (case wk_passed r of
                       None \<Rightarrow> Some (ctx, how)
                     | Some p \<Rightarrow> if snd p = ApprovedEarlier then Some (ctx, how) else Some p)\<rparr>"

datatype ws_outcome = WsPassed ws_run | WsRefused AuditRow "string list" | WsWaiting

fun gateWorkspaces_loop :: "(WorkspaceRef \<times> Decision) list \<Rightarrow> (AuditContext \<times> gate_outcome) list \<Rightarrow> ws_run \<Rightarrow> ws_outcome" where
  "gateWorkspaces_loop [] _ r = WsPassed r"
| "gateWorkspaces_loop (c # cs) ((ctx, Passed how granted) # outcomes) r =
     gateWorkspaces_loop cs outcomes (ws_pass (fst c) ctx how granted r)"
| "gateWorkspaces_loop (c # cs) ((ctx, Refused row) # outcomes) r = WsRefused row (wk_granted r)"
| "gateWorkspaces_loop (c # cs) _ r = WsWaiting"

definition take_back :: "string list \<Rightarrow> string set \<Rightarrow> string set" where
  "take_back keys elevations = elevations - set keys"

text \<open>
  The row of a call that passed: whose answer it carries, and how every workspace was let
  through. The tools call with at least one workspace.
\<close>

definition ws_label :: "ws_run \<Rightarrow> (WorkspaceRef \<times> Decision) list \<Rightarrow> WorkspaceRef \<Rightarrow> string" where
  "ws_label r checked w =
     (let answer = map_of (wk_answers r) (wr_id w);
          check = map_option snd (find (\<lambda>c. wr_id (fst c) = wr_id w) checked)
      in if answer = None \<or> answer = Some NotRequired
         then (if map_option bypassed check = Some True then ''bypassed'' else ''allowed'')
         else case answer of
             Some ApprovedOnce \<Rightarrow> ''approved''
           | Some ApprovedSession \<Rightarrow> ''approved-for-session''
           | Some ApprovedEarlier \<Rightarrow> ''approved-earlier''
           | _ \<Rightarrow> ''bypassed'')"

definition ws_row :: "McpAgentSession \<Rightarrow> string \<Rightarrow> AiCapability \<Rightarrow> (WorkspaceRef \<times> Decision) list \<Rightarrow> ws_run \<Rightarrow> AuditContext \<times> GateApproval" where
  "ws_row session action cap checked r =
     (let p = (case wk_passed r of
                 Some p \<Rightarrow> p
               | None \<Rightarrow> (workspace_ctx session action cap (fst (hd checked)), if list_ex (\<lambda>c. bypassed (snd c)) checked then WasBypassed else NotRequired));
          ctx = fst p
      in (if length checked > 1
          then ctx\<lparr>ac_action := action @ '' ('' @ join '', '' (map (\<lambda>c. wr_name (fst c) @ '': '' @ ws_label r checked (fst c)) checked) @ '')''\<rparr>
          else ctx, snd p))"

end
