(* ===== verification/Gate_Laws.thy ===== *)
theory Gate_Laws
  imports Gate_Machine Approvals_Laws
begin

section \<open>What passes the gate\<close>

text \<open>
  The gate and the approval queue together, under any interleaving: calls arrive with any
  decision, wait, are answered by a person, time out or are withdrawn, sessions are
  cleared, and a call over several workspaces takes its grants back. A log (newest entry
  first) records what happened, so that what passed can be traced to who said yes.
\<close>

subsection \<open>The combined system\<close>

record gate_call =
  gc_ctx :: AuditContext
  gc_check :: Decision
  gc_subject :: GateSubject

datatype gate_event =
    EvAsked string gate_call Question
  | EvPerson string bool
  | EvGranted string string
  | EvPassed "string option" gate_call GateApproval
  | EvRefused gate_call AuditRow
  | EvCleared string
  | EvClearedAll
  | EvTaken "string list"

record gate_sys =
  gw_elevations :: "string set"
  gw_approvals :: approvals
  gw_noted :: "(gate_call \<times> Question) list"
  gw_waiting :: "(string \<times> gate_call \<times> Question) list"
  gw_log :: "gate_event list"

definition gate_idle :: gate_sys where
  "gate_idle = \<lparr>gw_elevations = {}, gw_approvals = no_approvals, gw_noted = [], gw_waiting = [], gw_log = []\<rparr>"

definition arrive :: "gate_call \<Rightarrow> gate_sys \<Rightarrow> gate_sys" where
  "arrive c s =
     (case gate_check (gc_ctx c) (gc_check c) (gc_subject c) (gw_elevations s) of
        Passed how g \<Rightarrow> s\<lparr>gw_log := EvPassed None c how # gw_log s\<rparr>
      | Refused row \<Rightarrow> s\<lparr>gw_log := EvRefused c row # gw_log s\<rparr>
      | MustAsk q \<Rightarrow> s\<lparr>gw_noted := (c, q) # gw_noted s\<rparr>)"

text \<open>What \<open>gate_resume\<close> ends with, logged; a grant is logged before the pass it came with.\<close>

definition resumed :: "string \<Rightarrow> gate_call \<Rightarrow> gate_outcome \<times> string set \<Rightarrow> gate_sys \<Rightarrow> gate_sys" where
  "resumed i c r s =
     s\<lparr>gw_elevations := snd r,
       gw_log := (case fst r of
           Passed how None \<Rightarrow> EvPassed (Some i) c how # gw_log s
         | Passed how (Some k) \<Rightarrow> EvPassed (Some i) c how # EvGranted i k # gw_log s
         | Refused row \<Rightarrow> EvRefused c row # gw_log s
         | MustAsk _ \<Rightarrow> gw_log s)\<rparr>"

definition put_question :: "string \<Rightarrow> int \<Rightarrow> bool \<Rightarrow> gate_call \<times> Question \<Rightarrow> gate_sys \<Rightarrow> gate_sys" where
  "put_question i now aborted cq s =
     (let s = s\<lparr>gw_noted := remove1 cq (gw_noted s)\<rparr>; (c, q) = cq;
          (answer, ap) = gate_ask q aborted i now (gw_approvals s);
          s = s\<lparr>gw_approvals := ap, gw_log := EvAsked i c q # gw_log s\<rparr>
      in case answer of
           Some d \<Rightarrow> resumed i c (gate_resume q d aborted (gw_elevations s)) s
         | None \<Rightarrow> s\<lparr>gw_waiting := (i, c, q) # gw_waiting s\<rparr>)"

definition resume_call :: "string \<times> gate_call \<times> Question \<Rightarrow> ApprovalDecision \<Rightarrow> bool \<Rightarrow> gate_sys \<Rightarrow> gate_sys" where
  "resume_call w d aborted s =
     (case w of (i, c, q) \<Rightarrow>
        resumed i c (gate_resume q d aborted (gw_elevations s)) (s\<lparr>gw_waiting := remove1 w (gw_waiting s)\<rparr>))"

definition answer_question :: "string \<Rightarrow> bool \<Rightarrow> bool \<Rightarrow> int \<Rightarrow> gate_sys \<Rightarrow> gate_sys" where
  "answer_question i approve scope now s =
     (let r = respondToApproval i approve scope now (gw_approvals s) in
      s\<lparr>gw_approvals := snd r, gw_log := (if fst r \<and> approve then EvPerson i scope # gw_log s else gw_log s)\<rparr>)"

text \<open>The queue's operations that are nobody's answer.\<close>

inductive queue_step :: "int \<Rightarrow> approvals \<Rightarrow> approvals \<Rightarrow> bool" where
  q_probe: "queue_step now ap (snd (wouldRefuse input now ap))"
| q_arm: "queue_step now ap (snd (armApproval timeoutSeconds i now ap))"
| q_arm_all: "queue_step now ap (snd (armAllPendingApprovals timeoutSeconds now ap))"
| q_extend: "queue_step now ap (snd (extendApproval i seconds now ap))"
| q_abort: "queue_step now ap (signal_aborts i now ap)"
| q_fire: "queue_step now ap (timer_fires i now ap)"
| q_deny_session: "queue_step now ap (snd (denyPendingForSession sid now ap))"
| q_deny_all: "queue_step now ap (snd (denyAllPending now ap))"

inductive gate_step :: "gate_sys \<Rightarrow> gate_sys \<Rightarrow> bool" where
  g_arrive: "gate_step s (arrive c s)"
| g_put: "cq \<in> set (gw_noted s) \<Longrightarrow> i \<notin> used_ids (gw_approvals s) \<Longrightarrow> gate_step s (put_question i now aborted cq s)"
| g_resume: "w \<in> set (gw_waiting s) \<Longrightarrow> (fst w, d) \<in> set (ap_answers (gw_approvals s)) \<Longrightarrow>
    gate_step s (resume_call w d aborted s)"
| g_answer: "gate_step s (answer_question i approve scope now s)"
| g_queue: "queue_step now (gw_approvals s) ap \<Longrightarrow> gate_step s (s\<lparr>gw_approvals := ap\<rparr>)"
| g_clear: "gate_step s (s\<lparr>gw_elevations := clearSessionElevations sid (gw_elevations s), gw_log := EvCleared sid # gw_log s\<rparr>)"
| g_clear_all: "gate_step s (s\<lparr>gw_elevations := clearAllSessionElevations (gw_elevations s), gw_log := EvClearedAll # gw_log s\<rparr>)"
| g_take_back: "gate_step s (s\<lparr>gw_elevations := take_back ks (gw_elevations s), gw_log := EvTaken ks # gw_log s\<rparr>)"

inductive gate_reach :: "gate_sys \<Rightarrow> bool" where
  g_start: "gate_reach gate_idle"
| g_step: "gate_reach s \<Longrightarrow> gate_step s s' \<Longrightarrow> gate_reach s'"

subsection \<open>Reading the log\<close>

text \<open>The grants that stand: given, and neither cleared nor taken back since.\<close>

fun live_grants :: "gate_event list \<Rightarrow> string set" where
  "live_grants [] = {}"
| "live_grants (EvGranted i k # l) = insert k (live_grants l)"
| "live_grants (EvCleared sid # l) = clearSessionElevations sid (live_grants l)"
| "live_grants (EvClearedAll # l) = {}"
| "live_grants (EvTaken ks # l) = live_grants l - set ks"
| "live_grants (_ # l) = live_grants l"

definition said_yes :: "gate_event list \<Rightarrow> string \<Rightarrow> bool" where
  "said_yes l i = (EvPerson i True \<in> set l \<or> EvPerson i False \<in> set l)"

text \<open>Why a call may run, given what happened before.\<close>

definition justified :: "gate_event list \<Rightarrow> string option \<Rightarrow> gate_call \<Rightarrow> GateApproval \<Rightarrow> bool" where
  "justified l i c how =
     (case decision (gc_check c) of
        Deny \<Rightarrow> False
      | Allow \<Rightarrow> i = None \<and> how = (if bypassed (gc_check c) then WasBypassed else NotRequired)
      | Ask \<Rightarrow>
          (case i of
             None \<Rightarrow> how = ApprovedEarlier
               \<and> \<not> perCallOf (stamp_mode (gc_ctx c)) (gc_check c) (gc_subject c)
               \<and> (\<exists>q. gate_check (gc_ctx c) (gc_check c) (gc_subject c) {} = MustAsk q \<and> qu_key q \<in> live_grants l)
           | Some j \<Rightarrow> (how = ApprovedOnce \<or> how = ApprovedSession) \<and> said_yes l j
               \<and> (\<exists>q. EvAsked j c q \<in> set l)))"

fun event_ok :: "gate_event list \<Rightarrow> gate_event \<Rightarrow> bool" where
  "event_ok l (EvPassed i c how) = justified l i c how"
| "event_ok l (EvGranted j k) = (EvPerson j True \<in> set l \<and> (\<exists>c q. EvAsked j c q \<in> set l \<and> qu_key q = k \<and> \<not> qu_perCall q))"
| "event_ok l (EvAsked j c q) =
     (decision (gc_check c) = Ask \<and> gate_check (gc_ctx c) (gc_check c) (gc_subject c) {} = MustAsk q)"
| "event_ok l _ = True"

fun log_ok :: "gate_event list \<Rightarrow> bool" where
  "log_ok [] = True"
| "log_ok (e # l) = (event_ok l e \<and> log_ok l)"

definition gate_inv :: "gate_sys \<Rightarrow> bool" where
  "gate_inv s =
     (gw_elevations s = live_grants (gw_log s) \<and> log_ok (gw_log s)
      \<and> (\<forall>(c, q) \<in> set (gw_noted s). decision (gc_check c) = Ask
           \<and> gate_check (gc_ctx c) (gc_check c) (gc_subject c) {} = MustAsk q)
      \<and> (\<forall>(i, c, q) \<in> set (gw_waiting s). EvAsked i c q \<in> set (gw_log s))
      \<and> (\<forall>(i, d) \<in> set (ap_answers (gw_approvals s)). is_yes d \<longrightarrow>
           (if d = ApprovedForSession then EvPerson i True \<in> set (gw_log s) else said_yes (gw_log s) i)))"

subsection \<open>Who can say yes\<close>

lemma finish_answers:
  "(j, d') \<in> set (ap_answers (finish i f sc now ap)) \<Longrightarrow> (j, d') \<notin> set (ap_answers ap) \<Longrightarrow>
   j = i \<and> (is_yes d' \<longrightarrow> f = FinApproved) \<and> (d' = ApprovedForSession \<longrightarrow> sc = ScopeSession)"
  by (cases f) (auto simp: finish_def is_yes_def Let_def split: option.splits if_splits)

lemma finish_no_yes:
  "f \<noteq> FinApproved \<Longrightarrow> is_yes d' \<Longrightarrow> (j, d') \<in> set (ap_answers (finish i f sc now ap)) \<Longrightarrow> (j, d') \<in> set (ap_answers ap)"
  using finish_answers by blast

lemma refusal_answers [simp]: "ap_answers (snd (refusal input now ap)) = ap_answers ap"
  by (simp add: refusal_def Let_def)

lemma refusal_not_yes: "fst (refusal input now ap) = Some d \<Longrightarrow> \<not> is_yes d"
  by (auto simp: refusal_def is_yes_def Let_def split: if_splits)

lemma requestApproval_answers:
  "is_yes d' \<Longrightarrow> (j, d') \<in> set (ap_answers (snd (requestApproval input i now ap))) \<Longrightarrow> (j, d') \<in> set (ap_answers ap)"
  by (auto simp: requestApproval_def Let_def split: prod.splits if_splits dest!: finish_no_yes [rotated 2])
     (metis refusal_answers snd_conv)+

lemma requestApproval_not_yes: "fst (requestApproval input i now ap) = Some d \<Longrightarrow> \<not> is_yes d"
  using refusal_not_yes by (auto simp: requestApproval_def Let_def split: prod.splits if_splits) (metis fst_conv)+

lemma deny_ids_answers:
  "is_yes d' \<Longrightarrow> (j, d') \<in> set (ap_answers (deny_ids ids now ap)) \<Longrightarrow> (j, d') \<in> set (ap_answers ap)"
  unfolding deny_ids_def
  by (induction ids arbitrary: ap) (auto dest: finish_no_yes [rotated 1])

lemma arm_answers [simp]: "ap_answers (snd (armApproval t i now ap)) = ap_answers ap"
  by (simp add: armApproval_def Let_def split: option.split)

lemma arm_all_answers [simp]: "ap_answers (snd (armAllPendingApprovals t now ap)) = ap_answers ap"
proof -
  have "ap_answers (snd (arm_one t now i acc)) = ap_answers (snd acc)" for i acc
    by (simp add: arm_one_def case_prod_beta)
  then have "ap_answers (snd (fold (arm_one t now) ids acc)) = ap_answers (snd acc)" for ids acc
    by (induction ids arbitrary: acc) simp_all
  then show ?thesis by (simp add: armAllPendingApprovals_def)
qed

lemma extend_answers [simp]: "ap_answers (snd (extendApproval i secs now ap)) = ap_answers ap"
  by (simp add: extendApproval_def Let_def split: option.split jsnum.split)

lemma queue_step_answers:
  "queue_step now ap ap' \<Longrightarrow> is_yes d \<Longrightarrow> (j, d) \<in> set (ap_answers ap') \<Longrightarrow> (j, d) \<in> set (ap_answers ap)"
proof (induction rule: queue_step.induct)
  case (q_probe now ap input)
  then show ?case by (simp add: wouldRefuse_def Let_def)
next
  case (q_abort now ap i)
  then show ?case unfolding signal_aborts_def by (blast intro: finish_no_yes [of FinDisconnected])
next
  case (q_fire now ap i)
  then show ?case
    unfolding timer_fires_def by (auto split: option.splits if_splits intro: finish_no_yes [of FinTimeout])
next
  case (q_deny_session now ap sid)
  then show ?case unfolding denyPendingForSession_def Let_def snd_conv by (rule deny_ids_answers)
next
  case (q_deny_all now ap)
  then show ?case unfolding denyAllPending_def Let_def snd_conv by (rule deny_ids_answers)
qed simp_all

lemma respond_answers:
  assumes "(j, d) \<in> set (ap_answers (snd (respondToApproval i approve scope now ap)))" and "is_yes d"
  shows "(j, d) \<in> set (ap_answers ap)
    \<or> j = i \<and> fst (respondToApproval i approve scope now ap) \<and> approve \<and> (d = ApprovedForSession \<longrightarrow> scope)"
proof (cases "map_of (ap_pending ap) i")
  case None
  with assms show ?thesis by (simp add: respondToApproval_def)
next
  case (Some e)
  with assms show ?thesis
    using finish_answers [of j d i "if approve then FinApproved else FinDenied" "if scope then ScopeSession else ScopeOnce" now ap]
    by (auto simp: respondToApproval_def split: if_splits)
qed

subsection \<open>The check and the resumption\<close>

lemma gate_check_passed:
  "gate_check ctx check subject el = Passed how g \<Longrightarrow>
     g = None \<and>
     (decision check = Allow \<and> how = (if bypassed check then WasBypassed else NotRequired)
      \<or> decision check = Ask \<and> how = ApprovedEarlier \<and> \<not> perCallOf (stamp_mode ctx) check subject
        \<and> (\<exists>q. gate_check ctx check subject {} = MustAsk q \<and> qu_key q \<in> el))"
  by (auto simp: gate_check_def question_of_def Let_def split: PermissionValue.splits option.splits if_splits)

lemma gate_check_ask:
  "gate_check ctx check subject el = MustAsk q \<Longrightarrow> decision check = Ask \<and> gate_check ctx check subject {} = MustAsk q"
  by (auto simp: gate_check_def Let_def split: PermissionValue.splits option.splits if_splits)

lemma gate_resume_cases:
  assumes "gate_resume q d aborted el = (out, el')"
  shows "(\<exists>row. out = Refused row \<and> el' = (if d = ApprovedForSession \<and> \<not> qu_perCall q \<and> \<not> is_yes d then insert (qu_key q) el else el))
    \<or> (out = Passed ApprovedOnce None \<and> el' = el \<and> is_yes d \<and> \<not> aborted)
    \<or> (out = Passed ApprovedSession (Some (qu_key q)) \<and> el' = insert (qu_key q) el \<and> d = ApprovedForSession
        \<and> \<not> qu_perCall q \<and> \<not> aborted)"
  using assms by (auto simp: gate_resume_def is_yes_def Let_def split: if_splits)

lemma said_yes_Cons: "said_yes l i \<Longrightarrow> said_yes (e # l) i"
  by (auto simp: said_yes_def)

definition answers_ok :: "approvals \<Rightarrow> gate_event list \<Rightarrow> bool" where
  "answers_ok ap l = (\<forall>(i, d) \<in> set (ap_answers ap). is_yes d \<longrightarrow>
     (if d = ApprovedForSession then EvPerson i True \<in> set l else said_yes l i))"

definition noted_ok :: "gate_call \<times> Question \<Rightarrow> bool" where
  "noted_ok cq = (case cq of (c, q) \<Rightarrow> decision (gc_check c) = Ask
     \<and> gate_check (gc_ctx c) (gc_check c) (gc_subject c) {} = MustAsk q)"

definition waiting_ok :: "gate_event list \<Rightarrow> string \<times> gate_call \<times> Question \<Rightarrow> bool" where
  "waiting_ok l w = (case w of (i, c, q) \<Rightarrow> EvAsked i c q \<in> set l)"

lemma gate_inv_iff:
  "gate_inv s \<longleftrightarrow> gw_elevations s = live_grants (gw_log s) \<and> log_ok (gw_log s)
     \<and> (\<forall>cq \<in> set (gw_noted s). noted_ok cq) \<and> (\<forall>w \<in> set (gw_waiting s). waiting_ok (gw_log s) w)
     \<and> answers_ok (gw_approvals s) (gw_log s)"
  by (simp add: gate_inv_def noted_ok_def waiting_ok_def answers_ok_def)

lemma answers_ok_Cons: "answers_ok ap l \<Longrightarrow> answers_ok ap (e # l)"
  by (fastforce simp: answers_ok_def said_yes_def split: if_splits)

lemma answers_ok_less:
  "answers_ok ap l \<Longrightarrow> (\<And>j d. is_yes d \<Longrightarrow> (j, d) \<in> set (ap_answers ap') \<Longrightarrow> (j, d) \<in> set (ap_answers ap)) \<Longrightarrow> answers_ok ap' l"
  unfolding answers_ok_def by blast

lemma waiting_ok_Cons: "waiting_ok l w \<Longrightarrow> waiting_ok (e # l) w"
  by (auto simp: waiting_ok_def)

lemma log_ok_asked:
  "log_ok l \<Longrightarrow> EvAsked i c q \<in> set l \<Longrightarrow>
   decision (gc_check c) = Ask \<and> gate_check (gc_ctx c) (gc_check c) (gc_subject c) {} = MustAsk q"
  by (induction l) auto

subsection \<open>The invariant\<close>

lemma arrive_inv: "gate_inv s \<Longrightarrow> gate_inv (arrive c s)"
proof -
  assume inv: "gate_inv s"
  show ?thesis
  proof (cases "gate_check (gc_ctx c) (gc_check c) (gc_subject c) (gw_elevations s)")
    case (Passed how g)
    from gate_check_passed [OF Passed] inv have "event_ok (gw_log s) (EvPassed None c how)"
      by (auto simp: justified_def gate_inv_iff)
    with Passed inv show ?thesis
      by (auto simp: arrive_def gate_inv_iff intro: answers_ok_Cons waiting_ok_Cons)
  next
    case (Refused row)
    with inv show ?thesis by (auto simp: arrive_def gate_inv_iff intro: answers_ok_Cons waiting_ok_Cons)
  next
    case (MustAsk q)
    with inv gate_check_ask [OF MustAsk] show ?thesis by (simp add: arrive_def gate_inv_iff noted_ok_def)
  qed
qed

text \<open>A resumption, given that the answer is a person's when it says yes.\<close>

lemma resumed_inv:
  assumes inv: "gate_inv s" and asked: "EvAsked i c q \<in> set (gw_log s)"
    and yes: "is_yes d \<Longrightarrow> (if d = ApprovedForSession then EvPerson i True \<in> set (gw_log s) else said_yes (gw_log s) i)"
  shows "gate_inv (resumed i c (gate_resume q d aborted (gw_elevations s)) s)"
proof -
  obtain out el' where r: "gate_resume q d aborted (gw_elevations s) = (out, el')" by force
  from inv asked have ask: "decision (gc_check c) = Ask"
    using log_ok_asked [of "gw_log s" i c q] by (simp add: gate_inv_iff)
  have yes': "is_yes d \<Longrightarrow> said_yes (gw_log s) i" using yes by (auto simp: said_yes_def split: if_splits)
  from gate_resume_cases [OF r] show ?thesis
  proof (elim disjE exE conjE)
    fix row assume "out = Refused row"
      "el' = (if d = ApprovedForSession \<and> \<not> qu_perCall q \<and> \<not> is_yes d then insert (qu_key q) (gw_elevations s) else gw_elevations s)"
    with r inv show ?thesis
      by (auto simp: resumed_def gate_inv_iff is_yes_def intro: answers_ok_Cons waiting_ok_Cons)
  next
    assume "out = Passed ApprovedOnce None" "el' = gw_elevations s" "is_yes d"
    with r inv ask asked yes' show ?thesis
      by (auto simp: resumed_def gate_inv_iff justified_def intro: answers_ok_Cons waiting_ok_Cons)
  next
    assume "out = Passed ApprovedSession (Some (qu_key q))" "el' = insert (qu_key q) (gw_elevations s)"
      and d: "d = ApprovedForSession" and "\<not> qu_perCall q"
    moreover have "is_yes d" using d by (simp add: is_yes_def)
    ultimately show ?thesis
      using r inv ask asked yes yes'
      by (auto simp: resumed_def gate_inv_iff justified_def said_yes_def intro!: answers_ok_Cons waiting_ok_Cons)
  qed
qed

lemma put_inv:
  assumes inv: "gate_inv s" and mem: "cq \<in> set (gw_noted s)"
  shows "gate_inv (put_question i now aborted cq s)"
proof -
  obtain c q where cq: "cq = (c, q)" by force
  let ?r = "gate_ask q aborted i now (gw_approvals s)"
  let ?s = "s\<lparr>gw_noted := remove1 cq (gw_noted s), gw_approvals := snd ?r, gw_log := EvAsked i c q # gw_log s\<rparr>"
  from inv mem have "noted_ok (c, q)" by (auto simp: gate_inv_iff cq)
  moreover have "answers_ok (snd ?r) (EvAsked i c q # gw_log s)"
  proof (rule answers_ok_Cons, rule answers_ok_less)
    show "answers_ok (gw_approvals s) (gw_log s)" using inv by (simp add: gate_inv_iff)
  qed (simp add: gate_ask_def requestApproval_answers)
  ultimately have s: "gate_inv ?s"
    using inv by (auto simp: gate_inv_iff noted_ok_def intro: waiting_ok_Cons dest: notin_set_remove1 [rotated] set_remove1_subset [THEN subsetD])
  show ?thesis
  proof (cases "fst ?r")
    case None
    then have "put_question i now aborted cq s = ?s\<lparr>gw_waiting := (i, c, q) # gw_waiting s\<rparr>"
      by (simp add: put_question_def cq Let_def split_beta)
    with s show ?thesis by (auto simp: gate_inv_iff waiting_ok_def)
  next
    case (Some d)
    then have "\<not> is_yes d" using requestApproval_not_yes unfolding gate_ask_def by blast
    then have "gate_inv (resumed i c (gate_resume q d aborted (gw_elevations ?s)) ?s)"
      using s by (intro resumed_inv) simp_all
    moreover have "put_question i now aborted cq s = resumed i c (gate_resume q d aborted (gw_elevations ?s)) ?s"
      using Some by (simp add: put_question_def cq Let_def split_beta)
    ultimately show ?thesis by simp
  qed
qed

lemma resume_inv:
  assumes inv: "gate_inv s" and w: "w \<in> set (gw_waiting s)" and a: "(fst w, d) \<in> set (ap_answers (gw_approvals s))"
  shows "gate_inv (resume_call w d aborted s)"
proof -
  obtain i c q where iq: "w = (i, c, q)" by (cases w) auto
  let ?s = "s\<lparr>gw_waiting := remove1 w (gw_waiting s)\<rparr>"
  from inv have "gate_inv ?s" by (auto simp: gate_inv_iff dest: set_remove1_subset [THEN subsetD])
  moreover have "EvAsked i c q \<in> set (gw_log ?s)" using inv w by (auto simp: gate_inv_iff waiting_ok_def iq)
  moreover have "is_yes d \<Longrightarrow> if d = ApprovedForSession then EvPerson i True \<in> set (gw_log ?s) else said_yes (gw_log ?s) i"
    using inv a by (auto simp: gate_inv_iff answers_ok_def iq)
  ultimately have "gate_inv (resumed i c (gate_resume q d aborted (gw_elevations ?s)) ?s)" by (rule resumed_inv)
  then show ?thesis by (simp add: resume_call_def iq)
qed

lemma answer_inv: "gate_inv s \<Longrightarrow> gate_inv (answer_question i approve scope now s)"
proof -
  assume inv: "gate_inv s"
  let ?r = "respondToApproval i approve scope now (gw_approvals s)"
  let ?l = "if fst ?r \<and> approve then EvPerson i scope # gw_log s else gw_log s"
  have "answers_ok (snd ?r) ?l"
    unfolding answers_ok_def
  proof (clarify, goal_cases)
    case (1 j d)
    from respond_answers [OF 1(1) 1(2)] show ?case
    proof
      assume "(j, d) \<in> set (ap_answers (gw_approvals s))"
      with 1(2) inv show ?thesis
        by (auto simp: gate_inv_iff answers_ok_def said_yes_def split: if_splits)
    next
      assume "j = i \<and> fst ?r \<and> approve \<and> (d = ApprovedForSession \<longrightarrow> scope)"
      then show ?thesis by (cases scope) (auto simp: said_yes_def)
    qed
  qed
  with inv show ?thesis
    by (auto simp: answer_question_def gate_inv_iff Let_def intro: waiting_ok_Cons)
qed

lemma gate_step_inv: "gate_step s s' \<Longrightarrow> gate_inv s \<Longrightarrow> gate_inv s'"
proof (induction rule: gate_step.induct)
  case (g_arrive s c)
  then show ?case by (rule arrive_inv)
next
  case (g_put cq s i now aborted)
  then show ?case using put_inv by blast
next
  case (g_resume w s d aborted)
  then show ?case using resume_inv by blast
next
  case (g_answer s i approve scope now)
  then show ?case by (rule answer_inv)
next
  case (g_queue now s ap)
  have "answers_ok ap (gw_log s)"
  proof (rule answers_ok_less)
    show "answers_ok (gw_approvals s) (gw_log s)" using g_queue by (simp add: gate_inv_iff)
  qed (rule queue_step_answers [OF g_queue(1)])
  with g_queue show ?case by (simp add: gate_inv_iff)
qed (auto simp: gate_inv_iff clearAllSessionElevations_def take_back_def intro: answers_ok_Cons waiting_ok_Cons)

lemma gate_reach_inv: "gate_reach s \<Longrightarrow> gate_inv s"
proof (induction rule: gate_reach.induct)
  case g_start
  show ?case by (simp add: gate_inv_iff gate_idle_def answers_ok_def no_approvals_def)
next
  case (g_step s s')
  then show ?case using gate_step_inv by blast
qed

end
