(* ===== verification/Gate_Properties.thy ===== *)
theory Gate_Properties
  imports Gate_Laws
begin

section \<open>The agent gateway: properties\<close>

text \<open>
  What the checks make of restrictions, protection and modes, and what may pass the gate;
  then the two together: a decision of a check, taken through the gate.
\<close>

subsection \<open>Restrictions and modes\<close>

lemma decision_withRestriction:
  "decision (withRestriction d r label) = (case r of None \<Rightarrow> decision d | Some n \<Rightarrow> min (decision d) (decision n))"
  by (cases r; cases "decision d"; cases "decision (the r)")
     (auto simp: withRestriction_def mostRestrictive_def Let_def min_def less_eq_PermissionValue_def)

lemma outOfScope_withRestriction:
  "\<not> outOfScope d \<Longrightarrow> (\<And>n. r = Some n \<Longrightarrow> \<not> outOfScope n) \<Longrightarrow> \<not> outOfScope (withRestriction d r label)"
  by (auto simp: withRestriction_def mostRestrictive_def Let_def split: option.split)

text \<open>What an evaluator says of a group, an evaluator that throws counted as deny.\<close>

definition said :: "(AccessGroup \<Rightarrow> Decision option) \<Rightarrow> AccessGroup \<Rightarrow> PermissionValue" where
  "said evaluate g = (case evaluate g of Some d \<Rightarrow> decision d | None \<Rightarrow> Deny)"

lemma combine_decision:
  "combine evaluate g r label = Some d \<Longrightarrow>
   decision d = (case r of None \<Rightarrow> said evaluate g | Some n \<Rightarrow> min (said evaluate g) (said evaluate n))"
  by (auto simp: combine_def said_def decision_withRestriction split: option.splits)

lemma applyMode_le:
  "\<not> (mode = Bypass \<and> \<not> prot) \<Longrightarrow> decision (applyMode d mode prot mutating) \<le> decision d"
proof (cases "outOfScope d")
  case False
  assume "\<not> (mode = Bypass \<and> \<not> prot)"
  with False show ?thesis
    by (cases mutating; cases mode; cases "decision d")
       (simp_all add: applyMode_mutating applyMode_reading min_def less_eq_PermissionValue_def)
qed (simp add: applyMode_def)

lemma applyMode_protected_flag:
  "\<not> outOfScope d \<Longrightarrow> mode \<in> {Auto, Custom, Bypass} \<Longrightarrow> decision (applyMode d mode True True) = Ask \<Longrightarrow>
   protectedTarget (applyMode d mode True True)"
  by (auto simp: applyMode_def applyEffectiveMode_def Let_def split: if_splits)

lemma serverCheck_cases:
  assumes "serverCheck b session i evaluate mutating = Some d"
  obtains "restrictionOf b i (cs_workspaceId (the (getCachedServer (br_cache b) i))) = NoAiAccess"
      "getCachedServer (br_cache b) i \<noteq> None" "d = NO_AI_ACCESS"
    | "sessionGroupFor b session = None" "d = NO_GROUP"
    | g d' where "sessionGroupFor b session = Some g"
      "combine evaluate g (fst (snd (resolveGroups b session i))) (group_label ''the server's own access group'' (fst (snd (resolveGroups b session i)))) = Some d'"
      "d = applyMode d' (modeOf session) (isProtected b (Some i) (map_option cs_workspaceId (getCachedServer (br_cache b) i))) mutating"
      "\<not> snd (snd (resolveGroups b session i))"
proof (cases "snd (snd (resolveGroups b session i))")
  case True
  then have "getCachedServer (br_cache b) i \<noteq> None"
    "restrictionOf b i (cs_workspaceId (the (getCachedServer (br_cache b) i))) = NoAiAccess"
    by (auto simp: resolveGroups_def Let_def split: option.splits)
  moreover have "d = NO_AI_ACCESS" using assms True by (simp add: serverCheck_def case_prod_beta Let_def)
  ultimately show ?thesis using that(1) by blast
next
  case False
  have fst_eq: "fst (resolveGroups b session i) = sessionGroupFor b session" by (simp add: resolveGroups_def Let_def)
  show ?thesis
  proof (cases "sessionGroupFor b session")
    case None
    with assms False show ?thesis using that(2) by (simp add: serverCheck_def case_prod_beta Let_def fst_eq)
  next
    case (Some g)
    with assms False fst_eq show ?thesis
      using that(3) by (auto simp: serverCheck_def case_prod_beta Let_def)
  qed
qed

subsection \<open>Reading what passed\<close>

lemma log_ok_split: "log_ok (l2 @ e # l1) \<Longrightarrow> event_ok l1 e"
  by (induction l2) auto

lemma log_ok_suffix: "log_ok (l2 @ l1) \<Longrightarrow> log_ok l1"
  by (induction l2) auto

lemma live_grants_trace:
  "k \<in> live_grants l \<Longrightarrow> \<exists>l2 i l1. l = l2 @ EvGranted i k # l1 \<and> EvClearedAll \<notin> set l2
     \<and> (\<forall>sid. EvCleared sid \<in> set l2 \<longrightarrow> \<not> starts_with (sid @ [nul]) k)
     \<and> (\<forall>ks. EvTaken ks \<in> set l2 \<longrightarrow> k \<notin> set ks)"
proof (induction l)
  case (Cons e l)
  show ?case
  proof (cases "\<exists>i. e = EvGranted i k")
    case True
    then show ?thesis by (metis append_Nil empty_iff list.set(1))
  next
    case False
    with Cons.prems have k: "k \<in> live_grants l"
      and e: "e \<noteq> EvClearedAll" "\<And>sid. e = EvCleared sid \<Longrightarrow> \<not> starts_with (sid @ [nul]) k"
        "\<And>ks. e = EvTaken ks \<Longrightarrow> k \<notin> set ks"
      by (cases e; auto simp: clearSessionElevations_def)+
    from Cons.IH [OF k] obtain l2 i l1 where l: "l = l2 @ EvGranted i k # l1" "EvClearedAll \<notin> set l2"
      "\<forall>sid. EvCleared sid \<in> set l2 \<longrightarrow> \<not> starts_with (sid @ [nul]) k" "\<forall>ks. EvTaken ks \<in> set l2 \<longrightarrow> k \<notin> set ks"
      by blast
    from l(1) have "e # l = (e # l2) @ EvGranted i k # l1" by simp
    with l(2-4) e show ?thesis by (intro exI [of _ "e # l2"] exI [of _ i] exI [of _ l1]) auto
  qed
qed simp

lemma key_starts: "starts_with (sid @ [nul]) (elevationKey sid t sc)"
  by (auto simp: elevationKey_def starts_with_iff)

lemma nul_split:
  assumes "a @ nul # r = a' @ nul # r'" and "nul \<notin> set a" and "nul \<notin> set a'"
  shows "a = a' \<and> r = r'"
  using assms
proof (induction a arbitrary: a')
  case Nil
  then show ?case by (cases a') auto
next
  case (Cons x a)
  then show ?case by (cases a') auto
qed

lemma target_eq_iff: "target_kind t = target_kind t' \<Longrightarrow> target_id t = target_id t' \<Longrightarrow> t = t'"
  by (cases t; cases t') auto

lemma elevationKey_inj:
  assumes "elevationKey s t (sc @ nul # r) = elevationKey s' t' (sc' @ nul # r')"
    and "nul \<notin> set s" "nul \<notin> set s'" "nul \<notin> set (target_id t)" "nul \<notin> set (target_id t')" "nul \<notin> set sc" "nul \<notin> set sc'"
  shows "s = s' \<and> t = t' \<and> sc = sc' \<and> r = r'"
proof -
  have kind: "nul \<notin> set (target_kind t)" for t by (cases t) auto
  from assms(1) have "s = s'" "target_kind t @ nul # target_id t @ nul # sc @ nul # r = target_kind t' @ nul # target_id t' @ nul # sc' @ nul # r'"
    using nul_split [OF _ assms(2,3)] unfolding elevationKey_def by blast+
  moreover from this(2) have "target_kind t = target_kind t'" "target_id t @ nul # sc @ nul # r = target_id t' @ nul # sc' @ nul # r'"
    using nul_split [OF _ kind kind] by blast+
  moreover from this(2) have "target_id t = target_id t'" "sc @ nul # r = sc' @ nul # r'"
    using nul_split [OF _ assms(4,5)] by blast+
  moreover from this(2) have "sc = sc'" "r = r'" using nul_split [OF _ assms(6,7)] by blast+
  ultimately show ?thesis using target_eq_iff by blast
qed

text \<open>The parts of a call's key.\<close>

definition call_session :: "gate_call \<Rightarrow> string" where
  "call_session c = as_id (ac_session (gc_ctx c))"

definition call_target :: "gate_call \<Rightarrow> ApprovalTarget option" where
  "call_target c = target_of (gc_ctx c)"

definition scope_of_call :: "gate_call \<Rightarrow> string" where
  "scope_of_call c = (case ac_capability (gc_ctx c) of Some cap \<Rightarrow> call_scope (gc_subject c) cap | None \<Rightarrow> [])"

definition nul_free :: "gate_call \<Rightarrow> bool" where
  "nul_free c = (nul \<notin> set (call_session c) \<and> (\<forall>t. call_target c = Some t \<longrightarrow> nul \<notin> set (target_id t))
     \<and> nul \<notin> set (scope_of_call c))"

lemma gate_check_must:
  "gate_check ctx check subject el = MustAsk q \<Longrightarrow>
   \<exists>t cap ws. target_of (stamp_mode ctx) = Some t \<and> ac_capability (stamp_mode ctx) = Some cap
     \<and> q = question_of (stamp_mode ctx) check subject t cap ws"
  by (auto simp: gate_check_def Let_def split: PermissionValue.splits option.splits if_splits)

lemma stamp_mode_keeps: "target_of (stamp_mode ctx) = target_of ctx" "ac_capability (stamp_mode ctx) = ac_capability ctx"
    "ac_session (stamp_mode ctx) = ac_session ctx"
proof -
  have sel: "ac_workspaceWide (ctx\<lparr>ac_mode := m\<rparr>) = ac_workspaceWide ctx" "ac_serverId (ctx\<lparr>ac_mode := m\<rparr>) = ac_serverId ctx"
    "ac_serverName (ctx\<lparr>ac_mode := m\<rparr>) = ac_serverName ctx" "ac_workspaceId (ctx\<lparr>ac_mode := m\<rparr>) = ac_workspaceId ctx" for m
    by simp_all
  have "target_of (ctx\<lparr>ac_mode := m\<rparr>) = target_of ctx" for m
    by (simp only: target_of_def sel)
  then show "target_of (stamp_mode ctx) = target_of ctx" by (simp add: stamp_mode_def)
qed (simp_all add: stamp_mode_def)

lemma asked_key:
  assumes "gate_check (gc_ctx c) (gc_check c) (gc_subject c) el = MustAsk q"
  obtains t where "call_target c = Some t"
    "qu_key q = elevationKey (call_session c) t (scope_of_call c @ nul # reason (gc_check c))"
    "qu_perCall q = perCallOf (stamp_mode (gc_ctx c)) (gc_check c) (gc_subject c)"
proof -
  from gate_check_must [OF assms] obtain t cap ws where
    "target_of (gc_ctx c) = Some t" "ac_capability (gc_ctx c) = Some cap"
    "q = question_of (stamp_mode (gc_ctx c)) (gc_check c) (gc_subject c) t cap ws"
    unfolding stamp_mode_keeps by blast
  then show ?thesis
    by (intro that [of t])
       (simp_all add: question_of_def call_target_def call_session_def scope_of_call_def stamp_mode_keeps Let_def)
qed

subsection \<open>Properties\<close>

text \<open>C1:
  Nothing passes the gate unless the policy allowed it, Bypass lifted it, or a person said
  yes. A call the policy denies never passes. A call it asks about passes only when a person
  answered the question put for that very call with yes, or when a standing session grant
  covers it; then the call is not one that is asked for every time, the grant was given by a
  person answering, for the whole session, a question of the same session about the same
  target, tool or capability and rule, and since then neither the session's grants nor all
  grants were cleared.\<close>

theorem nothing_passes_unasked:
  assumes "gate_reach s" and "gw_log s = l2 @ EvPassed i c how # l1"
  shows "decision (gc_check c) \<noteq> Deny
    \<and> (decision (gc_check c) = Allow \<longrightarrow> how = (if bypassed (gc_check c) then WasBypassed else NotRequired))
    \<and> (decision (gc_check c) = Ask \<longrightarrow>
        (\<exists>j q. i = Some j \<and> EvAsked j c q \<in> set l1 \<and> said_yes l1 j)
        \<or> how = ApprovedEarlier \<and> \<not> perCallOf (stamp_mode (gc_ctx c)) (gc_check c) (gc_subject c)
          \<and> (\<exists>la lb j k c' q'. l1 = la @ EvGranted j k # lb \<and> EvPerson j True \<in> set lb \<and> EvAsked j c' q' \<in> set lb
               \<and> \<not> qu_perCall q' \<and> EvClearedAll \<notin> set la \<and> EvCleared (call_session c) \<notin> set la
               \<and> (nul_free c \<and> nul_free c' \<longrightarrow> call_session c' = call_session c \<and> call_target c' = call_target c
                    \<and> scope_of_call c' = scope_of_call c \<and> reason (gc_check c') = reason (gc_check c))))"
proof -
  from gate_reach_inv [OF assms(1)] have log: "log_ok (gw_log s)" by (simp add: gate_inv_iff)
  with assms(2) have just: "justified l1 i c how" using log_ok_split [of l2 "EvPassed i c how" l1] by simp
  show ?thesis
  proof (cases "decision (gc_check c)")
    case Ask
    show ?thesis
    proof (cases i)
      case (Some j)
      with Ask just show ?thesis by (auto simp: justified_def)
    next
      case None
      with Ask just obtain q where how: "how = ApprovedEarlier"
        "\<not> perCallOf (stamp_mode (gc_ctx c)) (gc_check c) (gc_subject c)"
        and q: "gate_check (gc_ctx c) (gc_check c) (gc_subject c) {} = MustAsk q" "qu_key q \<in> live_grants l1"
        by (auto simp: justified_def)
      from asked_key [OF q(1)] obtain t where t: "call_target c = Some t"
        "qu_key q = elevationKey (call_session c) t (scope_of_call c @ nul # reason (gc_check c))" by blast
      from live_grants_trace [OF q(2)] obtain la j lb where l1: "l1 = la @ EvGranted j (qu_key q) # lb"
        "EvClearedAll \<notin> set la" "\<forall>sid. EvCleared sid \<in> set la \<longrightarrow> \<not> starts_with (sid @ [nul]) (qu_key q)" by blast
      from log assms(2) l1(1) have "log_ok ((l2 @ EvPassed i c how # la) @ EvGranted j (qu_key q) # lb)" by simp
      from log_ok_split [OF this] log_ok_suffix [OF this] obtain c' q' where g: "EvPerson j True \<in> set lb"
        "EvAsked j c' q' \<in> set lb" "qu_key q' = qu_key q" "\<not> qu_perCall q'" and lb: "log_ok lb" by auto
      from log_ok_asked [OF lb g(2)] have "gate_check (gc_ctx c') (gc_check c') (gc_subject c') {} = MustAsk q'" by simp
      from asked_key [OF this] obtain t' where t': "call_target c' = Some t'"
        "qu_key q' = elevationKey (call_session c') t' (scope_of_call c' @ nul # reason (gc_check c'))" by blast
      have same: "call_session c' = call_session c \<and> t' = t \<and> scope_of_call c' = scope_of_call c
          \<and> reason (gc_check c') = reason (gc_check c)" if "nul_free c" "nul_free c'"
        using that t t' g(3) by (intro elevationKey_inj) (simp_all add: nul_free_def)
      have "EvCleared (call_session c) \<notin> set la" using l1(3) t(2) key_starts by fastforce
      then have trace: "l1 = la @ EvGranted j (qu_key q) # lb \<and> EvPerson j True \<in> set lb \<and> EvAsked j c' q' \<in> set lb
               \<and> \<not> qu_perCall q' \<and> EvClearedAll \<notin> set la \<and> EvCleared (call_session c) \<notin> set la
               \<and> (nul_free c \<and> nul_free c' \<longrightarrow> call_session c' = call_session c \<and> call_target c' = call_target c
                    \<and> scope_of_call c' = scope_of_call c \<and> reason (gc_check c') = reason (gc_check c))"
        using l1(1,2) g same t(1) t'(1) by simp
      show ?thesis
        by (intro conjI impI disjI2) (simp add: Ask, simp add: Ask, rule how(1), rule how(2), intro exI, rule trace)
    qed
  qed (use just in \<open>auto simp: justified_def\<close>)
qed

text \<open>A session grant given once and used once.\<close>

definition sample_session :: McpAgentSession where
  "sample_session = \<lparr>as_id = ''s'', as_agentName = ''agent'', as_workspaces = [], as_groupId = None, as_groupName = [],
     as_tokenHash = ''h'', as_createdAt = 0, as_expiresAt = None, as_lastActiveAt = 0, as_revoked = False, as_kind = None,
     as_mode = Some Custom, as_modeSchema = Some 2\<rparr>"

definition sample_call :: gate_call where
  "sample_call = \<lparr>gc_ctx = \<lparr>ac_session = sample_session, ac_mode = None, ac_workspaceId = Some ''w'', ac_workspaceName = Some ''W'',
      ac_serverId = Some ''db'', ac_serverName = Some ''DB'', ac_action = ''ls'', ac_capability = Some Terminal, ac_workspaceWide = False\<rparr>,
     gc_check = decide Ask ''asked'',
     gc_subject = \<lparr>gs_toolName = ''execute_command'', gs_containment = None, gs_perCall = False, gs_elevationScope = None,
       gs_writeContent = None\<rparr>\<rparr>"

definition sample_question :: Question where
  "sample_question = question_of (stamp_mode (gc_ctx sample_call)) (gc_check sample_call) (gc_subject sample_call)
     (TargetServer ''db'') Terminal ''w''"

definition sample_asked :: gate_sys where
  "sample_asked = put_question ''i'' 0 False (sample_call, sample_question) (arrive sample_call gate_idle)"

definition sample_answered :: gate_sys where
  "sample_answered = resume_call (''i'', sample_call, sample_question) ApprovedForSession False
     (answer_question ''i'' True True 1 sample_asked)"

lemma sample_steps:
  "(sample_call, sample_question) \<in> set (gw_noted (arrive sample_call gate_idle))"
  "''i'' \<notin> used_ids (gw_approvals (arrive sample_call gate_idle))"
  "(''i'', sample_call, sample_question) \<in> set (gw_waiting (answer_question ''i'' True True 1 sample_asked))"
  "(''i'', ApprovedForSession) \<in> set (ap_answers (gw_approvals (answer_question ''i'' True True 1 sample_asked)))"
  by code_simp+

lemma sample_reach: "gate_reach (arrive sample_call sample_answered)"
proof -
  have "gate_reach (arrive sample_call gate_idle)" by (rule g_step [OF g_start g_arrive])
  then have "gate_reach sample_asked"
    unfolding sample_asked_def by (rule g_step) (rule g_put [OF sample_steps(1,2)])
  then have "gate_reach (answer_question ''i'' True True 1 sample_asked)" by (rule g_step) (rule g_answer)
  then have "gate_reach sample_answered"
    unfolding sample_answered_def by (rule g_step) (rule g_resume, rule sample_steps(3), simp add: sample_steps(4))
  then show ?thesis by (rule g_step) (rule g_arrive)
qed

lemma sample_log: "gw_log (arrive sample_call sample_answered) = [] @ EvPassed None sample_call ApprovedEarlier # gw_log sample_answered"
  by code_simp

theorem nothing_passes_unasked_witness:
  "\<exists>j. EvPerson j True \<in> set (gw_log sample_answered)"
  using nothing_passes_unasked [OF sample_reach sample_log] by (auto simp: sample_call_def)

text \<open>C2:
  No AI Access is final. A server or a workspace that carries it, also one whose move by
  sync is not yet confirmed or not known, is denied in every mode, Bypass included, for
  every evaluator, changing or not; the gate refuses such a decision whatever was approved
  in the session before.\<close>

theorem no_ai_access_is_final:
  "(getCachedServer (br_cache b) i = Some srv \<and> restrictionOf b i (cs_workspaceId srv) = NoAiAccess \<longrightarrow>
      serverCheck b session i evaluate mutating = Some NO_AI_ACCESS)
   \<and> (resolveRestriction (ps_assignments (br_policy b)) [] w None = NoAiAccess \<longrightarrow>
      (\<exists>d. workspaceCheck b session w evaluate mutating p = Some d \<and> decision d = Deny \<and> outOfScope d))
   \<and> (tm_unreadable (br_marks b) \<and> server_assignment (ps_assignments (br_policy b)) i = None \<longrightarrow>
      restrictionOf b i ws = NoAiAccess)
   \<and> (\<exists>row. gate_check ctx NO_AI_ACCESS subject elevations = Refused row)"
proof (intro conjI impI)
  assume "getCachedServer (br_cache b) i = Some srv \<and> restrictionOf b i (cs_workspaceId srv) = NoAiAccess"
  then show "serverCheck b session i evaluate mutating = Some NO_AI_ACCESS"
    by (simp add: serverCheck_def resolveGroups_def Let_def)
next
  assume "resolveRestriction (ps_assignments (br_policy b)) [] w None = NoAiAccess"
  then show "\<exists>d. workspaceCheck b session w evaluate mutating p = Some d \<and> decision d = Deny \<and> outOfScope d"
    by (simp add: workspaceCheck_def NO_AI_ACCESS_def NO_GROUP_def split: option.split)
next
  assume "tm_unreadable (br_marks b) \<and> server_assignment (ps_assignments (br_policy b)) i = None"
  then show "restrictionOf b i ws = NoAiAccess"
    by (simp add: restrictionOf_def pendingWorkspace_def resolveRestriction_def Let_def)
next
  show "\<exists>row. gate_check ctx NO_AI_ACCESS subject elevations = Refused row"
    by (simp add: gate_check_def NO_AI_ACCESS_def Let_def)
qed

definition sample_bridge :: bridge where
  "sample_bridge = \<lparr>br_cache = refreshMcpDataCache (Some (JObj [(''servers'', JArr
        [JObj [(''id'', JStr ''db''), (''workspaceId'', JStr ''w''), (''name'', JStr ''DB''), (''host'', JStr ''10.0.0.5'')]])])),
     br_policy = setAssignment ''a'' (ScopeServer ''db'') None (setProtected (ScopeServer ''web'') True (seed (\<lambda>_. ''u''))),
     br_marks = \<lparr>tm_unreadable = False, tm_moves = []\<rparr>, br_uid = (\<lambda>_. ''u''), br_hostname = ''desk'', br_addresses = []\<rparr>"

lemma sample_bridge_server:
  "\<exists>srv. getCachedServer (br_cache sample_bridge) ''db'' = Some srv \<and> cs_workspaceId srv = ''w''"
  by (simp add: sample_bridge_def refreshMcpDataCache_def parseServers_def keyed_records_def json_records_def getCachedServer_def
      parseServer_def asString_def Let_def)

theorem no_ai_access_is_final_witness:
  "serverCheck sample_bridge (sample_session\<lparr>as_mode := Some Bypass\<rparr>) ''db'' (\<lambda>_. Some (decide Allow ''yes'')) False = Some NO_AI_ACCESS"
proof -
  obtain srv where "getCachedServer (br_cache sample_bridge) ''db'' = Some srv" "cs_workspaceId srv = ''w''"
    using sample_bridge_server by blast
  moreover have "restrictionOf sample_bridge ''db'' ''w'' = NoAiAccess"
    by (simp add: restrictionOf_def sample_bridge_def setAssignment_def setProtected_def seed_def resolveRestriction_def
        server_assignment_def restriction_of_def truthy_def Let_def)
  ultimately show ?thesis
    using no_ai_access_is_final [of sample_bridge "''db''" srv] by simp
qed



text \<open>C3:
  On a Protected target a person answers every single change. Whatever check decided a
  changing call there, in the Auto, Custom and Bypass profiles the call passes the gate only
  after a person said yes to the question put for that very call; no approval given before,
  for the session or otherwise, lets it through.\<close>

theorem protected_change_is_answered_each_time:
  assumes "serverCheck b session i evaluate True = Some (gc_check c)"
    and "isProtected b (Some i) (map_option cs_workspaceId (getCachedServer (br_cache b) i))"
    and "modeOf session \<in> {Auto, Custom, Bypass}" and "\<And>g d. evaluate g = Some d \<Longrightarrow> \<not> outOfScope d"
    and "gate_reach s" and "gw_log s = l2 @ EvPassed k c how # l1"
  shows "\<exists>j q. k = Some j \<and> EvAsked j c q \<in> set l1 \<and> said_yes l1 j"
proof -
  have "decision (gc_check c) = Ask \<and> protectedTarget (gc_check c) \<or> decision (gc_check c) = Deny"
    using assms(1)
  proof (cases rule: serverCheck_cases)
    case (3 g d')
    have oos: "\<not> outOfScope d'"
      using 3(2) assms(4) outOfScope_withRestriction by (fastforce simp: combine_def split: option.splits)
    have d: "gc_check c = applyMode d' (modeOf session) True True" using 3(3) assms(2) by simp
    have "decision (gc_check c) \<noteq> Allow"
      unfolding d using assms(3) by (auto simp: applyMode_mutating [OF oos] min_def less_eq_PermissionValue_def split: if_splits)
    then show ?thesis
      using applyMode_protected_flag [OF oos assms(3)] unfolding d by (metis PermissionValue.exhaust)
  qed (simp_all add: NO_AI_ACCESS_def NO_GROUP_def)
  with gate_reach_inv [OF assms(5)] assms(6) log_ok_split [of l2 "EvPassed k c how" l1]
  have "justified l1 k c how" "decision (gc_check c) = Ask" "protectedTarget (gc_check c)"
    by (auto simp: gate_inv_iff justified_def)
  then show ?thesis by (auto simp: justified_def perCallOf_def split: option.splits)
qed

definition protected_call :: gate_call where
  "protected_call = sample_call\<lparr>gc_check := applyMode (decide Allow ''yes'') Auto True True\<rparr>"

definition protected_question :: Question where
  "protected_question = question_of (stamp_mode (gc_ctx protected_call)) (gc_check protected_call) (gc_subject protected_call)
     (TargetServer ''db'') Terminal ''w''"

definition protected_answered :: gate_sys where
  "protected_answered = answer_question ''i'' True True 1
     (put_question ''i'' 0 False (protected_call, protected_question) (arrive protected_call gate_idle))"

lemma protected_steps:
  "(protected_call, protected_question) \<in> set (gw_noted (arrive protected_call gate_idle))"
  "''i'' \<notin> used_ids (gw_approvals (arrive protected_call gate_idle))"
  "(''i'', protected_call, protected_question) \<in> set (gw_waiting protected_answered)"
  "(''i'', Approved) \<in> set (ap_answers (gw_approvals protected_answered))"
  by code_simp+

lemma protected_reach:
  "gate_reach (resume_call (''i'', protected_call, protected_question) Approved False protected_answered)"
proof -
  have "gate_reach (arrive protected_call gate_idle)" by (rule g_step [OF g_start g_arrive])
  then have "gate_reach (put_question ''i'' 0 False (protected_call, protected_question) (arrive protected_call gate_idle))"
    by (rule g_step) (rule g_put [OF protected_steps(1,2)])
  then have "gate_reach protected_answered" unfolding protected_answered_def by (rule g_step) (rule g_answer)
  then show ?thesis by (rule g_step) (rule g_resume, rule protected_steps(3), simp add: protected_steps(4))
qed

lemma protected_log:
  "gw_log (resume_call (''i'', protected_call, protected_question) Approved False protected_answered)
     = [] @ EvPassed (Some ''i'') protected_call ApprovedOnce # gw_log protected_answered"
  by code_simp

theorem protected_change_is_answered_each_time_witness:
  "said_yes (gw_log protected_answered) ''i''"
proof -
  let ?s = "sample_session\<lparr>as_mode := Some Auto\<rparr>"
  have none: "getCachedServer (br_cache sample_bridge) ''web'' = None"
    by (simp add: sample_bridge_def refreshMcpDataCache_def parseServers_def keyed_records_def json_records_def
        getCachedServer_def parseServer_def asString_def Let_def)
  have prot: "isProtected sample_bridge (Some ''web'') None"
    by (simp add: isProtected_def none truthy_def pendingWorkspace_def sample_bridge_def setAssignment_def setProtected_def
        listProtected_def seed_def UNKNOWN_WORKSPACE_def Let_def)
  have mode: "modeOf ?s = Auto" by (simp add: modeOf_def sessionModeOf_def)
  have "serverCheck sample_bridge ?s ''web'' (\<lambda>_. Some (decide Allow ''yes'')) True = Some (gc_check protected_call)"
    by (simp add: serverCheck_def resolveGroups_def none prot mode sessionGroupFor_def combine_def withRestriction_def
        restriction_group_def protected_call_def Let_def)
  then have "\<exists>j q. Some ''i'' = Some j \<and> EvAsked j protected_call q \<in> set (gw_log protected_answered)
      \<and> said_yes (gw_log protected_answered) j"
    by (rule protected_change_is_answered_each_time [OF _ _ _ _ protected_reach protected_log])
       (auto simp: none prot mode)
  then show ?thesis by simp
qed

end
