(* ===== verification/Gate_Tools.thy ===== *)
theory Gate_Tools
  imports Gate_Properties
begin

section \<open>The agent gateway: fences, VPN profiles and stopped sessions\<close>

text \<open>
  What an agent may save about machines that are fenced off, what the gateway makes of a
  VPN profile it does not know, what a call over several workspaces leaves behind when it is
  refused, and what remains of an agent once AI access was stopped.
\<close>

subsection \<open>A protected target in the Ask-first profile\<close>

text \<open>
  The cap of a Protected target is applied to profiles looser than Ask first only, so in
  that profile the question does not say the target is Protected and a session-wide yes is
  remembered: the same change passes the next time without a question.
\<close>

theorem ask_first_protected_is_remembered:
  assumes "gate_check ctx (applyMode (decide Allow why) AskFirst True True) subject {} = MustAsk q"
    and "ac_capability ctx \<noteq> Some CiTrigger" and "\<not> gs_perCall subject"
  shows "snd (gate_resume q ApprovedForSession False elevations) = insert (qu_key q) elevations
    \<and> gate_check ctx (applyMode (decide Allow why) AskFirst True True) subject (insert (qu_key q) elevations)
        = Passed ApprovedEarlier None"
proof -
  let ?d = "applyMode (decide Allow why) AskFirst True True"
  have d: "decision ?d = Ask" "\<not> protectedTarget ?d" by (simp_all add: applyMode_def applyEffectiveMode_def Let_def)
  from gate_check_must [OF assms(1)] obtain t cap ws where q: "ac_capability ctx = Some cap"
    "q = question_of (stamp_mode ctx) ?d subject t cap ws"
    unfolding stamp_mode_keeps by blast
  have pc: "\<not> qu_perCall q"
    using assms(2,3) d(2) by (simp add: q(2) question_of_def perCallOf_def stamp_mode_keeps Let_def)
  then have "snd (gate_resume q ApprovedForSession False elevations) = insert (qu_key q) elevations"
    by (simp add: gate_resume_def is_yes_def Let_def)
  moreover have "gate_check ctx ?d subject (insert (qu_key q) elevations) = Passed ApprovedEarlier None"
    using assms(1) d(1) pc
    by (auto simp: gate_check_def Let_def split: option.splits if_splits)
  ultimately show ?thesis by blast
qed

subsection \<open>The fence\<close>

lemma first_fence_in:
  "first_fence b session ss = Some d \<Longrightarrow> \<exists>s \<in> set ss. fence_of b session s = Some d"
  by (induction ss) (auto split: option.splits)

lemma first_fence_some:
  "s \<in> set ss \<Longrightarrow> fence_of b session s \<noteq> None \<Longrightarrow> first_fence b session ss \<noteq> None"
  by (induction ss) (auto split: option.splits)

lemma fence_of_shape:
  "fence_of b session s = Some d \<Longrightarrow>
   decision d = Deny \<and> outOfScope d \<or> decision d = Ask \<and> protectedTarget d"
  by (auto simp: fence_of_def split: if_splits)

lemma fenceForTarget_shape:
  "fenceForTarget b session host port x = Some d \<Longrightarrow>
   decision d = Deny \<and> outOfScope d \<or> decision d = Ask \<and> protectedTarget d"
  by (auto simp: fenceForTarget_def THIS_MACHINE_def Let_def split: if_splits dest!: first_fence_in fence_of_shape)

text \<open>
  The fence is the first one found, in the order the servers are stored: a Protected entry
  for the address hides a No AI Access entry behind it.
\<close>

theorem fence_hides_a_later_refusal:
  assumes "lower (trim host) \<noteq> []" and "\<not> isThisMachine b (lower (trim host))"
    and "filter (same_machine (lower (trim host)) port x) (dc_servers (br_cache b)) = s # rest"
    and "restrictionOf b (cs_id s) (cs_workspaceId s) \<noteq> NoAiAccess" "isProtected b (Some (cs_id s)) (Some (cs_workspaceId s))"
  shows "map_option decision (fenceForTarget b session host port x) = Some Ask"
  using assms by (simp add: fenceForTarget_def fence_of_def Let_def)

text \<open>C11:
  Saving a connection cannot get an agent around a fence. Whatever its own permission, a
  connection to the machine OpsMaxx runs on is denied in every mode; one to the address and
  port of a saved server that has No AI Access or is Protected is denied or becomes a
  question that names the protection and is asked every time; it is denied when none of the
  servers saved under that address is merely Protected; and the fence never turns a decision
  into a wider one.\<close>

theorem fence_holds:
  fixes host :: string
  defines "h \<equiv> lower (trim host)"
  shows "decision (withFence check (fenceForTarget b session host port x)) \<le> decision check
    \<and> (h \<noteq> [] \<and> isThisMachine b h \<longrightarrow> decision (withFence check (fenceForTarget b session host port x)) = Deny)
    \<and> (h \<noteq> [] \<and> s \<in> set (dc_servers (br_cache b)) \<and> same_machine h port x s
         \<and> (restrictionOf b (cs_id s) (cs_workspaceId s) = NoAiAccess \<or> isProtected b (Some (cs_id s)) (Some (cs_workspaceId s)))
        \<longrightarrow> decision (withFence check (fenceForTarget b session host port x)) = Deny
          \<or> decision (withFence check (fenceForTarget b session host port x)) = Ask
            \<and> protectedTarget (withFence check (fenceForTarget b session host port x)))
    \<and> (h \<noteq> [] \<and> s \<in> set (dc_servers (br_cache b)) \<and> same_machine h port x s
         \<and> restrictionOf b (cs_id s) (cs_workspaceId s) = NoAiAccess
         \<and> list_all (\<lambda>o'. same_machine h port x o' \<longrightarrow> restrictionOf b (cs_id o') (cs_workspaceId o') = NoAiAccess
               \<or> \<not> isProtected b (Some (cs_id o')) (Some (cs_workspaceId o'))) (dc_servers (br_cache b))
        \<longrightarrow> decision (withFence check (fenceForTarget b session host port x)) = Deny)"
proof -
  let ?f = "fenceForTarget b session host port x" and ?ss = "filter (same_machine h port x) (dc_servers (br_cache b))"
  have shape: "decision d = Deny \<and> outOfScope d \<or> decision d = Ask \<and> protectedTarget d" if "?f = Some d" for d
    using that by (rule fenceForTarget_shape)
  have le: "decision (withFence check ?f) \<le> decision check"
    using shape by (cases ?f; cases "decision check") (auto simp: withFence_def less_eq_PermissionValue_def)
  have here: "decision (withFence check ?f) = Deny" if "h \<noteq> []" "isThisMachine b h"
    using that by (simp add: fenceForTarget_def h_def THIS_MACHINE_def withFence_def Let_def)
  have fenced: "?f \<noteq> None" if "h \<noteq> []" "s \<in> set ?ss" "fence_of b session s \<noteq> None"
    using that first_fence_some [of s ?ss b session] by (auto simp: fenceForTarget_def h_def Let_def)
  have result: "decision (withFence check ?f) = Deny \<or> decision (withFence check ?f) = Ask \<and> protectedTarget (withFence check ?f)"
    if "?f \<noteq> None" using that shape by (auto simp: withFence_def)
  have deny: "decision (withFence check ?f) = Deny"
    if "h \<noteq> []" "s \<in> set ?ss" "restrictionOf b (cs_id s) (cs_workspaceId s) = NoAiAccess"
      "\<forall>o' \<in> set ?ss. restrictionOf b (cs_id o') (cs_workspaceId o') = NoAiAccess
               \<or> \<not> isProtected b (Some (cs_id o')) (Some (cs_workspaceId o'))"
  proof (cases "isThisMachine b h")
    case False
    from that(3) have "fence_of b session s \<noteq> None" by (simp add: fence_of_def)
    with fenced that obtain d where d: "?f = Some d" by blast
    with False that(1) have "first_fence b session ?ss = Some d" by (simp add: fenceForTarget_def h_def Let_def)
    from first_fence_in [OF this] that(4) have "decision d = Deny" by (auto simp: fence_of_def split: if_splits)
    with d show ?thesis by (simp add: withFence_def)
  qed (use here that in simp)
  have some: "fence_of b session s \<noteq> None"
    if "restrictionOf b (cs_id s) (cs_workspaceId s) = NoAiAccess \<or> isProtected b (Some (cs_id s)) (Some (cs_workspaceId s))"
    using that by (auto simp: fence_of_def)
  show ?thesis
  proof (intro conjI impI)
    assume a: "h \<noteq> [] \<and> s \<in> set (dc_servers (br_cache b)) \<and> same_machine h port x s
         \<and> (restrictionOf b (cs_id s) (cs_workspaceId s) = NoAiAccess \<or> isProtected b (Some (cs_id s)) (Some (cs_workspaceId s)))"
    then have "s \<in> set ?ss" by simp
    with a show "decision (withFence check ?f) = Deny \<or> decision (withFence check ?f) = Ask \<and> protectedTarget (withFence check ?f)"
      using result fenced some by blast
  next
    assume a: "h \<noteq> [] \<and> s \<in> set (dc_servers (br_cache b)) \<and> same_machine h port x s
         \<and> restrictionOf b (cs_id s) (cs_workspaceId s) = NoAiAccess
         \<and> list_all (\<lambda>o'. same_machine h port x o' \<longrightarrow> restrictionOf b (cs_id o') (cs_workspaceId o') = NoAiAccess
               \<or> \<not> isProtected b (Some (cs_id o')) (Some (cs_workspaceId o'))) (dc_servers (br_cache b))"
    then show "decision (withFence check ?f) = Deny" by (intro deny) (simp_all add: list_all_iff)
  qed (use le here in blast)+
qed

theorem fence_holds_witness:
  "decision (withFence (decide Allow ''may add servers'') (fenceForTarget sample_bridge sample_session '' LocalHost '' (Fin 22) None)) = Deny"
proof -
  have "lower (trim '' LocalHost '') = ''localhost''" by code_simp
  moreover have "isThisMachine sample_bridge ''localhost''"
  proof -
    have "strip_brackets (lower (trim ''localhost'')) = ''localhost''" by code_simp
    then show ?thesis by (simp add: isThisMachine_def Let_def)
  qed
  ultimately show ?thesis
    using fence_holds [of "decide Allow ''may add servers''" sample_bridge sample_session "'' LocalHost ''" "Fin 22" None] by simp
qed

subsection \<open>A VPN profile the gateway does not know\<close>

definition published_profile :: "string \<Rightarrow> json" where
  "published_profile kind = JObj [(''id'', JStr ''v''), (''workspaceId'', JStr ''w''), (''name'', JStr ''Publish''),
     (''spec'', JObj [(''kind'', JStr kind)])]"

definition full_access_session :: McpAgentSession where
  "full_access_session = sample_session\<lparr>as_groupId := Some ''grp-full'', as_mode := Some Custom\<rparr>"

lemma full_access_group:
  "sessionGroupFor (sample_bridge\<lparr>br_policy := seed u\<rparr>) full_access_session = Some
     (built_in ''grp-full'' ''Full Access'' (allowAll FULL_ACCESS_GRANTS) False (defaultFilePolicies u (4 * length seeded_rules)))"
  by (simp add: sessionGroupFor_def full_access_session_def modeOf_def sessionModeOf_def truthy_def getGroup_def seed_def
      defaultGroups_def built_in_def Let_def)

text \<open>The gateway takes an ngrok profile, which makes a port of this machine reachable from the
  internet, for a WireGuard profile: its kind is not one the cache knows, so the refusal of
  reverse proxies does not see it, the dialog and the audit row call it wireguard, and an
  agent on the built-in Full Access group starts it without a question, while it can start
  no frp profile.\<close>

theorem ngrok_is_taken_for_wireguard:
  "cv_kind (parseVpn (published_profile ''ngrok'')) = Wireguard
   \<and> vpnSummary (parseVpn (published_profile ''ngrok'')) = ''wireguard, system''
   \<and> map_option decision (setVpnCheck (sample_bridge\<lparr>br_policy := seed u\<rparr>) full_access_session
        (parseVpn (published_profile ''ngrok'')) True live) = Some Allow
   \<and> map_option decision (setVpnCheck (sample_bridge\<lparr>br_policy := seed u\<rparr>) full_access_session
        (parseVpn (published_profile ''frp'')) True live) = Some Deny"
proof -
  let ?b = "sample_bridge\<lparr>br_policy := seed u\<rparr>"
  have v: "parseVpn (published_profile ''ngrok'') = \<lparr>cv_id = ''v'', cv_workspaceId = ''w'', cv_name = ''Publish'',
      cv_kind = Wireguard, cv_mode = System, cv_listenerCount = 0, cv_proxyCount = 0, cv_autoStart = False\<rparr>"
    by (simp add: parseVpn_def published_profile_def asString_def isVpnKind_def list_len_def Let_def)
  have f: "parseVpn (published_profile ''frp'') = \<lparr>cv_id = ''v'', cv_workspaceId = ''w'', cv_name = ''Publish'',
      cv_kind = Frp, cv_mode = System, cv_listenerCount = 0, cv_proxyCount = 0, cv_autoStart = False\<rparr>"
    by (simp add: parseVpn_def published_profile_def asString_def isVpnKind_def list_len_def Let_def)
  have r: "resolveRestriction (ps_assignments (seed u)) [] ''w'' None = NoRestriction"
    by (simp add: seed_def resolveRestriction_def server_assignment_def workspace_assignment_def truthy_def Let_def)
  have p: "\<not> isProtected ?b None (Some ''w'')"
    by (simp add: isProtected_def truthy_def listProtected_def seed_def Let_def)
  have m: "modeOf full_access_session = Custom" by (simp add: full_access_session_def modeOf_def sessionModeOf_def)
  have e: "evaluateVpnControl (Some (built_in ''grp-full'' ''Full Access'' (allowAll FULL_ACCESS_GRANTS) False rules)) VpnStart live
      = decide Allow ''Full Access: vpnControl = allow''" for rules
    by (simp add: evaluateVpnControl_def evaluateCapability_def built_in_def allowAll_def FULL_ACCESS_GRANTS_def confirmsRisky_def
        Let_def)
  show ?thesis
    by (simp add: v f setVpnCheck_def isVpnKindRefusedForAi_def workspaceCheck_def full_access_group r restriction_group_def
        combine_def e withRestriction_def m p applyMode_def applyEffectiveMode_def proxy_refusal_def vpnSummary_def Let_def)
qed

subsection \<open>A call over several workspaces\<close>

definition grants_in :: "(AuditContext \<times> gate_outcome) list \<Rightarrow> string list" where
  "grants_in outs = List.map_filter (\<lambda>o'. case snd o' of Passed _ g \<Rightarrow> g | _ \<Rightarrow> None) outs"

lemma grants_in_simps [simp]:
  "grants_in [] = []"
  "grants_in ((ctx, Passed how g) # outs) = (case g of None \<Rightarrow> grants_in outs | Some k \<Rightarrow> k # grants_in outs)"
  by (simp_all add: grants_in_def map_filter_simps split: option.split)

lemma loop_refused:
  "gateWorkspaces_loop cs outs r = WsRefused row keys \<Longrightarrow>
   \<exists>n ctx. n < length outs \<and> n < length cs \<and> outs ! n = (ctx, Refused row) \<and> keys = wk_granted r @ grants_in (take n outs)"
proof (induction cs outs r rule: gateWorkspaces_loop.induct)
  case (2 c cs ctx how granted outcomes r)
  then obtain n ctx' where n: "n < length outcomes" "n < length cs" "outcomes ! n = (ctx', Refused row)"
    "keys = wk_granted (ws_pass (fst c) ctx how granted r) @ grants_in (take n outcomes)" by auto
  then show ?case
    by (intro exI [of _ "Suc n"] exI [of _ ctx']) (auto simp: ws_pass_def split: option.split)
next
  case (3 c cs ctx row' outcomes r)
  then show ?case by (intro exI [of _ 0] exI [of _ ctx]) simp
qed simp_all

lemma loop_passed:
  "gateWorkspaces_loop cs outs r = WsPassed r' \<Longrightarrow>
   length cs \<le> length outs \<and> (\<forall>i < length cs. \<exists>ctx how g. outs ! i = (ctx, Passed how g))"
proof (induction cs outs r rule: gateWorkspaces_loop.induct)
  case (2 c cs ctx how granted outcomes r)
  then show ?case by (auto simp: nth_Cons split: nat.split)
qed simp_all

lemma set_asking_order: "set (asking_order refused checked) = {c \<in> set checked. decision (snd c) \<noteq> Allow}"
  by (auto simp: asking_order_def Let_def)

text \<open>A call over several workspaces is all or nothing. It passes only when the gate passed
  every workspace that does not simply allow it, each with its own question; when one of
  them is refused the call is refused, and every session grant given while it was being
  asked about is taken back. The workspaces the queue would refuse are gated first.\<close>

theorem workspaces_pass_together:
  "(gateWorkspaces_loop (asking_order refused checked) outs ws_start = WsPassed r \<longrightarrow>
      (\<forall>c \<in> set checked. decision (snd c) \<noteq> Allow \<longrightarrow>
         (\<exists>n ctx how g. n < length (asking_order refused checked) \<and> asking_order refused checked ! n = c
            \<and> outs ! n = (ctx, Passed how g))))
   \<and> (gateWorkspaces_loop (asking_order refused checked) outs ws_start = WsRefused row keys \<longrightarrow>
      (\<exists>n ctx. n < length outs \<and> outs ! n = (ctx, Refused row)
         \<and> (\<forall>k \<in> set (grants_in (take n outs)). k \<notin> take_back keys elevations)))
   \<and> (\<forall>i j. i < j \<and> j < length (asking_order refused checked) \<and> refused (fst (asking_order refused checked ! j)) \<longrightarrow>
        refused (fst (asking_order refused checked ! i)))"
proof (intro conjI impI)
  let ?cs = "asking_order refused checked"
  assume p: "gateWorkspaces_loop ?cs outs ws_start = WsPassed r"
  show "\<forall>c \<in> set checked. decision (snd c) \<noteq> Allow \<longrightarrow>
         (\<exists>n ctx how g. n < length ?cs \<and> ?cs ! n = c \<and> outs ! n = (ctx, Passed how g))"
  proof (intro ballI impI)
    fix c assume "c \<in> set checked" "decision (snd c) \<noteq> Allow"
    then have "c \<in> set ?cs" by (simp add: set_asking_order)
    then obtain n where "n < length ?cs" "?cs ! n = c" by (auto simp: in_set_conv_nth)
    with loop_passed [OF p] show "\<exists>n ctx how g. n < length ?cs \<and> ?cs ! n = c \<and> outs ! n = (ctx, Passed how g)" by blast
  qed
next
  assume "gateWorkspaces_loop (asking_order refused checked) outs ws_start = WsRefused row keys"
  from loop_refused [OF this] show "\<exists>n ctx. n < length outs \<and> outs ! n = (ctx, Refused row)
         \<and> (\<forall>k \<in> set (grants_in (take n outs)). k \<notin> take_back keys elevations)"
    by (auto simp: take_back_def)
next
  let ?asking = "filter (\<lambda>c. decision (snd c) \<noteq> Allow) checked"
  let ?yes = "filter (\<lambda>c. refused (fst c)) ?asking" and ?no = "filter (\<lambda>c. \<not> refused (fst c)) ?asking"
  have split: "asking_order refused checked = ?yes @ ?no" by (simp add: asking_order_def Let_def)
  show "\<forall>i j. i < j \<and> j < length (asking_order refused checked) \<and> refused (fst (asking_order refused checked ! j)) \<longrightarrow>
        refused (fst (asking_order refused checked ! i))"
  proof (intro allI impI)
    fix i j
    assume a: "i < j \<and> j < length (asking_order refused checked) \<and> refused (fst (asking_order refused checked ! j))"
    have "j < length ?yes"
    proof (rule ccontr)
      assume "\<not> j < length ?yes"
      then have "asking_order refused checked ! j = ?no ! (j - length ?yes)" "j - length ?yes < length ?no"
        using a unfolding split by (auto simp: nth_append)
      then have "asking_order refused checked ! j \<in> set ?no" by (metis nth_mem)
      with a show False by simp
    qed
    with a have i: "i < length ?yes" by simp
    then have "asking_order refused checked ! i = ?yes ! i" unfolding split by (simp only: nth_append if_True)
    with nth_mem [OF i] have "asking_order refused checked ! i \<in> set ?yes" by simp
    then show "refused (fst (asking_order refused checked ! i))" by simp
  qed
qed

theorem workspaces_pass_together_witness:
  "\<exists>ctx how g. [(gc_ctx sample_call, Passed ApprovedOnce None)] ! 0 = (ctx, Passed how g)"
proof -
  let ?c = "(\<lparr>wr_id = ''w'', wr_name = ''W''\<rparr>, decide Ask ''asked'')"
  have o1: "asking_order (\<lambda>_. False) [?c] = [?c]" by (simp add: asking_order_def)
  have "gateWorkspaces_loop (asking_order (\<lambda>_. False) [?c]) [(gc_ctx sample_call, Passed ApprovedOnce None)] ws_start
      = WsPassed (ws_pass (fst ?c) (gc_ctx sample_call) ApprovedOnce None ws_start)" by (simp add: o1)
  with workspaces_pass_together [of "\<lambda>_. False" "[?c]" "[(gc_ctx sample_call, Passed ApprovedOnce None)]"] show ?thesis
    by (auto simp: o1)
qed

subsection \<open>Stopping AI access\<close>

datatype session_op =
    SoRotate string "int option" string int
  | SoGroup string "string option" string
  | SoMode string SessionMode
  | SoRevoke string
  | SoDelete string
  | SoAuthenticate "string option" int
  | SoKill

text \<open>Everything that is done to the sessions except making a new one.\<close>

fun session_step :: "(string \<Rightarrow> string) \<Rightarrow> McpGlobalConfig \<Rightarrow> session_op \<Rightarrow> McpAgentSession list \<Rightarrow> McpAgentSession list" where
  "session_step hash cfg (SoRotate i ttl raw now) ss = snd (rotateSessionToken hash i ttl raw now ss)"
| "session_step hash cfg (SoGroup i g n) ss = setSessionGroup i g n ss"
| "session_step hash cfg (SoMode i m) ss = setSessionMode i m ss"
| "session_step hash cfg (SoRevoke i) ss = revokeSession i ss"
| "session_step hash cfg (SoDelete i) ss = snd (deleteSession i ss)"
| "session_step hash cfg (SoAuthenticate raw now) ss = snd (authenticate hash cfg raw now ss)"
| "session_step hash cfg SoKill ss = snd (killAllSessions ss)"

lemma all_update_first: "(\<And>x. P x \<Longrightarrow> P (f x)) \<Longrightarrow> list_all P xs \<Longrightarrow> list_all P (update_first Q f xs)"
  by (induction xs) auto

lemma all_remove_first: "list_all P xs \<Longrightarrow> list_all P (remove_first Q xs)"
  by (induction xs) auto

lemma session_step_revoked: "list_all as_revoked ss \<Longrightarrow> list_all as_revoked (session_step hash cfg op ss)"
  by (cases op)
     (simp_all add: rotateSessionToken_def setSessionGroup_def setSessionMode_def revokeSession_def deleteSession_def
       authenticate_def killAllSessions_def list_all_length all_update_first [unfolded list_all_length]
       all_remove_first [unfolded list_all_length] Let_def split: option.split)

lemma authenticate_revoked:
  "list_all as_revoked ss \<Longrightarrow> \<exists>e. fst (authenticate hash cfg raw now ss) = Inl e"
  by (auto simp: authenticate_def list_all_iff Let_def split: option.split dest: find_Some_iff2)

text \<open>Stopping all AI access lets no agent back in. After every session was revoked, whatever
  is then done to the sessions short of making a new one (switching modes and groups,
  refreshing tokens, deleting, authenticating), no token authenticates and no refresh
  succeeds, and clearing the approvals leaves no grant standing.\<close>

theorem stopped_agents_stay_out:
  "(\<exists>e. fst (authenticate hash cfg raw now (fold (session_step hash cfg) ops (snd (killAllSessions ss)))) = Inl e)
   \<and> fst (rotateSessionToken hash i ttl raw' now (fold (session_step hash cfg) ops (snd (killAllSessions ss)))) = None
   \<and> gate_check ctx check subject (clearAllSessionElevations elevations) = gate_check ctx check subject {}"
proof -
  have "list_all as_revoked (fold (session_step hash cfg) ops ss')" if "list_all as_revoked ss'" for ss'
    using that by (induction ops arbitrary: ss') (auto intro: session_step_revoked)
  moreover have "list_all as_revoked (snd (killAllSessions ss))"
    by (auto simp: killAllSessions_def list_all_iff)
  ultimately have all: "list_all as_revoked (fold (session_step hash cfg) ops (snd (killAllSessions ss)))" by blast
  then have "fst (rotateSessionToken hash i ttl raw' now (fold (session_step hash cfg) ops (snd (killAllSessions ss)))) = None"
    by (auto simp: rotateSessionToken_def getSession_def list_all_iff split: option.split dest!: find_Some_iff2)
  with all show ?thesis by (simp add: authenticate_revoked clearAllSessionElevations_def)
qed

end
