(* ===== verification/Policy_Laws.thy ===== *)
theory Policy_Laws
  imports Policy_Store
begin

section \<open>The policy store: laws\<close>

text \<open>
  Upgrading a policy file settles in one step and gives a group its author defined nothing
  he did not give it; deleting a group closes what it restricted; and what an operation
  wrote is what the next launch reads.
\<close>

subsection \<open>Lists\<close>

lemma map_update_first: "(\<And>x. h (f x) = h x) \<Longrightarrow> map h (update_first P f xs) = map h xs"
  by (induction xs) auto

lemma find_update_first_key:
  assumes "\<And>x. key (f x) = key x"
  shows "find (\<lambda>x. key x = i) (update_first (\<lambda>x. key x = k \<and> Q x) f xs)
       = map_option (\<lambda>x. if key x = k \<and> Q x then f x else x) (find (\<lambda>x. key x = i) xs)"
proof (induction xs)
  case (Cons x xs)
  have "find (\<lambda>x. key x = i) xs = map_option (\<lambda>x. if key x = k \<and> Q x then f x else x) (find (\<lambda>x. key x = i) xs)"
    if "i \<noteq> k" using that by (cases "find (\<lambda>x. key x = i) xs") (auto dest!: find_Some_iff2)
  with Cons show ?case by (auto simp: assms)
qed simp

lemma find_map_key: "(\<And>x. key (f x) = key x) \<Longrightarrow>
   find (\<lambda>x. key x = i) (map f xs) = map_option f (find (\<lambda>x. key x = i) xs)"
  by (induction xs) auto

lemma find_None_key: "find (\<lambda>x. key x = i) xs = None \<longleftrightarrow> i \<notin> key ` set xs"
  by (auto simp: find_None_iff)

lemma find_append: "find P (xs @ ys) = (case find P xs of None \<Rightarrow> find P ys | Some x \<Rightarrow> Some x)"
  by (induction xs) auto

subsection \<open>Each pass on one group\<close>

abbreviation ids_of :: "PolicyState \<Rightarrow> string set" where
  "ids_of st \<equiv> ag_id ` set (ps_groups st)"

abbreviation seeded_ids :: "string set" where
  "seeded_ids \<equiv> {''grp-observer'', ''grp-read-only'', ''grp-read-write'', ''grp-sudo'', ''grp-full''}"

lemma seeded_ids: "ag_id ` set (defaultGroups uid) = seeded_ids"
  by (simp add: defaultGroups_def built_in_def Let_def)

lemma find_splice:
  "find (\<lambda>g. ag_id g = i) (splice_in (n, fresh) gs) =
     (if ag_id fresh = i \<and> find (\<lambda>g. ag_id g = i) gs = None then Some fresh
      else if ag_id fresh = i then find (\<lambda>g. ag_id g = i) (splice_in (n, fresh) gs)
      else find (\<lambda>g. ag_id g = i) gs)"
proof -
  let ?f = "find (\<lambda>g. ag_id g = i)" let ?m = "min n (length gs)"
  have "?f gs = ?f (take ?m gs @ drop ?m gs)" by simp
  then show ?thesis
    unfolding splice_in_def by (auto simp only: find_append prod.case split: option.splits) (auto split: if_splits)
qed

lemma set_splice: "set (splice_in p gs) = insert (snd p) (set gs)"
proof (cases p)
  case (Pair n fresh)
  have "set gs = set (take (min n (length gs)) gs) \<union> set (drop (min n (length gs)) gs)"
    using set_append [of "take (min n (length gs)) gs" "drop (min n (length gs)) gs"] by simp
  then show ?thesis by (auto simp: Pair splice_in_def)
qed

lemma insert_missing_all:
  "set (fold (insert_missing H) ps gs) = set gs \<union> {g \<in> snd ` set ps. ag_id g \<notin> H}"
  by (induction ps arbitrary: gs) (auto simp: insert_missing_def set_splice)

lemma insert_missing_find:
  "i \<in> H \<Longrightarrow> find (\<lambda>g. ag_id g = i) (fold (insert_missing H) ps gs) = find (\<lambda>g. ag_id g = i) gs"
proof (induction ps arbitrary: gs)
  case (Cons p ps)
  have "find (\<lambda>g. ag_id g = i) (insert_missing H p gs) = find (\<lambda>g. ag_id g = i) gs"
    using Cons.prems find_splice [of i "fst p" "snd p" gs] by (auto simp: insert_missing_def split: if_splits)
  with Cons show ?case by simp
qed simp

lemma insert_missing_none:
  "(\<And>p. p \<in> set ps \<Longrightarrow> ag_id (snd p) \<in> H) \<Longrightarrow> fold (insert_missing H) ps gs = gs"
  by (induction ps) (auto simp: insert_missing_def)

definition renamed_groups :: "AccessGroup list \<Rightarrow> AccessGroup list" where
  "renamed_groups gs = update_first (\<lambda>g. ag_id g = ''grp-read-only'' \<and> ag_builtIn g)
     (\<lambda>g. if ag_name g = ''Read Only'' then g\<lparr>ag_name := ''Commands, no writes''\<rparr> else g) gs"

lemma backfillGroups_eq:
  "backfillGroups uid st = st\<lparr>ps_groups := fold (insert_missing (ids_of st)) (enumerate 0 (defaultGroups uid))
     (renamed_groups (ps_groups st))\<rparr>"
proof -
  have "map ag_id (renamed_groups gs) = map ag_id gs" for gs
    unfolding renamed_groups_def by (rule map_update_first) simp
  then have "ag_id ` set (renamed_groups gs) = ag_id ` set gs" for gs by (metis list.set_map)
  then show ?thesis
    by (simp add: backfillGroups_def STALE_BUILTIN_NAMES_def rename_stale_def renamed_groups_def Let_def)
qed

lemma renamed_find:
  "find (\<lambda>g. ag_id g = i) (renamed_groups gs) = map_option (\<lambda>g. if ag_id g = ''grp-read-only'' \<and> ag_builtIn g \<and> ag_name g = ''Read Only''
      then g\<lparr>ag_name := ''Commands, no writes''\<rparr> else g) (find (\<lambda>g. ag_id g = i) gs)"
  unfolding renamed_groups_def
  by (subst find_update_first_key) (auto intro!: arg_cong [where f = "\<lambda>f. map_option f _"])

lemma backfillGroups_find:
  assumes "getGroup st i = Some g"
  shows "\<exists>name. getGroup (backfillGroups uid st) i = Some (g\<lparr>ag_name := name\<rparr>)"
proof -
  from assms have "i \<in> ids_of st" by (auto simp: getGroup_def dest!: find_Some_iff2)
  then have "getGroup (backfillGroups uid st) i = find (\<lambda>g. ag_id g = i) (renamed_groups (ps_groups st))"
    by (simp add: getGroup_def backfillGroups_eq insert_missing_find)
  also have "\<dots> = Some (g\<lparr>ag_name := (if ag_id g = ''grp-read-only'' \<and> ag_builtIn g \<and> ag_name g = ''Read Only''
      then ''Commands, no writes'' else ag_name g)\<rparr>)"
    using assms by (simp add: renamed_find getGroup_def)
  finally show ?thesis by blast
qed

lemma backfillCapabilities_find:
  "getGroup (backfillCapabilities uid st) i = map_option (backfill_group uid) (getGroup st i)"
  unfolding getGroup_def backfillCapabilities_def
  by (simp add: find_map_key backfill_group_def Let_def)

definition rules_only :: "AccessGroup \<Rightarrow> AccessGroup \<Rightarrow> bool" where
  "rules_only g g' = (\<exists>rules. g' = g\<lparr>ag_filePolicies := rules\<rparr> \<and> (ag_builtIn g \<or> rules = ag_filePolicies g))"

lemma upgrade_one_shape: "rules_only g (snd (upgrade_one uid gen n g))"
  by (auto simp: rules_only_def upgrade_one_def Let_def intro: exI [of _ "ag_filePolicies g"])

lemma upgrade_groups_shape: "list_all2 rules_only gs (snd (upgrade_groups uid gen n gs))"
  by (induction gs arbitrary: n) (simp_all add: Let_def upgrade_one_shape)

lemma find_list_all2:
  assumes "list_all2 R gs gs'" and "\<And>g g'. R g g' \<Longrightarrow> ag_id g' = ag_id g" and "find (\<lambda>g. ag_id g = i) gs = Some g"
  shows "\<exists>g'. find (\<lambda>g. ag_id g = i) gs' = Some g' \<and> R g g'"
  using assms(1,3) by (induction rule: list_all2_induct) (auto simp: assms(2) split: if_splits)

lemma backfillFilePolicies_find:
  assumes "getGroup st i = Some g"
  shows "\<exists>g'. getGroup (backfillFilePolicies uid FILE_POLICY_GENERATIONS st) i = Some g' \<and> rules_only g g'"
proof (cases "latest_generation FILE_POLICY_GENERATIONS \<le> nullish (ps_generation st) 0")
  case True
  with assms show ?thesis
    by (auto simp: backfillFilePolicies_def rules_only_def intro: exI [of _ "ag_filePolicies g"])
next
  case False
  let ?gen = "hd FILE_POLICY_GENERATIONS"
  from False have "ps_groups (backfillFilePolicies uid FILE_POLICY_GENERATIONS st)
      = snd (upgrade_groups uid ?gen 0 (ps_groups st))"
    by (simp add: backfillFilePolicies_def FILE_POLICY_GENERATIONS_def latest_generation_def Let_def)
  moreover have "\<exists>g'. find (\<lambda>g. ag_id g = i) (snd (upgrade_groups uid ?gen 0 (ps_groups st))) = Some g' \<and> rules_only g g'"
    using assms by (intro find_list_all2 [OF upgrade_groups_shape]) (auto simp: getGroup_def rules_only_def)
  ultimately show ?thesis by (simp add: getGroup_def)
qed

lemma dropLegacy_groups [simp]: "ps_groups (dropLegacyAssignments st) = ps_groups st"
  by (simp add: dropLegacyAssignments_def Let_def)

lemma to_v3_keeps [simp]: "ag_id (to_v3 g) = ag_id g" "ag_builtIn (to_v3 g) = ag_builtIn g"
  "ag_filePolicies (to_v3 g) = ag_filePolicies g" "ag_name (to_v3 g) = ag_name g"
  by (simp_all add: to_v3_def Let_def)

lemma migrateToV3_find:
  "getGroup (migrateToV3 st) i =
     (if POLICY_VERSION \<le> nullish (ps_version st) 1 then getGroup st i else map_option to_v3 (getGroup st i))"
  by (simp add: migrateToV3_def getGroup_def find_map_key)

subsection \<open>A whole upgrade of one group\<close>

definition needs_v3 :: "PolicyState \<Rightarrow> bool" where
  "needs_v3 st = (nullish (ps_version st) 1 < POLICY_VERSION)"

lemma needs_v3_kept:
  "(POLICY_VERSION \<le> nullish (ps_version (dropLegacyAssignments (backfillFilePolicies uid gens
      (backfillCapabilities uid (backfillGroups uid st))))) 1) = (\<not> needs_v3 st)"
  by (auto simp: dropLegacyAssignments_def backfillFilePolicies_def backfillCapabilities_def backfillGroups_def
      needs_v3_def POLICY_VERSION_def ASSIGNMENTS_CLEARED_VERSION_def Let_def)

lemma upgrade_find:
  assumes "getGroup st i = Some g"
  obtains name g' where "rules_only (backfill_group uid (g\<lparr>ag_name := name\<rparr>)) g'"
    "getGroup (upgrade uid st) i = Some (if needs_v3 st then to_v3 g' else g')"
proof -
  obtain name where 1: "getGroup (backfillGroups uid st) i = Some (g\<lparr>ag_name := name\<rparr>)"
    using backfillGroups_find [OF assms] by blast
  then have "getGroup (backfillCapabilities uid (backfillGroups uid st)) i = Some (backfill_group uid (g\<lparr>ag_name := name\<rparr>))"
    by (simp add: backfillCapabilities_find)
  from backfillFilePolicies_find [OF this, of uid] obtain g' where g':
    "getGroup (backfillFilePolicies uid FILE_POLICY_GENERATIONS (backfillCapabilities uid (backfillGroups uid st))) i = Some g'"
    "rules_only (backfill_group uid (g\<lparr>ag_name := name\<rparr>)) g'" by blast
  then have "getGroup (upgrade uid st) i = Some (if needs_v3 st then to_v3 g' else g')"
    unfolding upgrade_def migrateToV3_find needs_v3_kept by (simp add: getGroup_def)
  with g'(2) show ?thesis by (rule that)
qed

lemma AI_CAPABILITIES_all: "cap \<in> set AI_CAPABILITIES"
  by (cases cap) (simp_all add: AI_CAPABILITIES_def)

lemma raise_keys:
  "fold raise_key kws c cap = (if c cap \<noteq> None \<and> (cap, the (c cap)) \<in> set kws
     then fold raise_key kws c cap else c cap)"
proof (induction kws arbitrary: c)
  case (Cons kw kws)
  obtain k w where kw: "kw = (k, w)" by force
  show ?case
  proof (cases "cap = k \<and> c k = Some w")
    case False
    then have "raise_key kw c cap = c cap" by (auto simp: raise_key_def kw)
    with Cons.IH [of "raise_key kw c"] False show ?thesis by (auto simp: kw)
  qed (auto simp: kw)
qed simp

lemma upgrade_capability:
  assumes "getGroup st i = Some g"
  shows "\<exists>g'. getGroup (upgrade uid st) i = Some g' \<and> ag_builtIn g' = ag_builtIn g
    \<and> (\<forall>cap. ag_capabilities g' cap =
         (let v = (case ag_capabilities g cap of Some v \<Rightarrow> v
                   | None \<Rightarrow> nullish (Option.bind (seeded_capabilities uid i) (\<lambda>f. f cap)) Deny)
          in if needs_v3 st \<and> i = ''grp-full'' \<and> (cap, v) \<in> set FULL_ACCESS_V2
             then ag_capabilities g' cap else Some v))
    \<and> ag_confirmRisky g' = (if needs_v3 st \<and> ag_confirmRisky g = None then Some (i \<noteq> ''grp-full'') else ag_confirmRisky g)
    \<and> (\<not> ag_builtIn g \<longrightarrow> ag_filePolicies g' = ag_filePolicies g)"
proof -
  obtain name g1 where g1: "rules_only (backfill_group uid (g\<lparr>ag_name := name\<rparr>)) g1"
    "getGroup (upgrade uid st) i = Some (if needs_v3 st then to_v3 g1 else g1)"
    by (rule upgrade_find [OF assms])
  have i: "ag_id g = i" using assms by (auto simp: getGroup_def dest!: find_Some_iff2)
  from g1(1) have f: "ag_id g1 = i" "ag_builtIn g1 = ag_builtIn g" "ag_confirmRisky g1 = ag_confirmRisky g"
    "\<not> ag_builtIn g \<longrightarrow> ag_filePolicies g1 = ag_filePolicies g"
    by (auto simp: rules_only_def backfill_group_def i Let_def)
  have c: "ag_capabilities g1 cap = Some (case ag_capabilities g cap of Some v \<Rightarrow> v
      | None \<Rightarrow> nullish (Option.bind (seeded_capabilities uid i) (\<lambda>f. f cap)) Deny)" for cap
    using g1(1) AI_CAPABILITIES_all [of cap]
    by (auto simp: rules_only_def backfill_group_def i Let_def split: option.split)
  show ?thesis
  proof (intro exI conjI)
    show "getGroup (upgrade uid st) i = Some (if needs_v3 st then to_v3 g1 else g1)" by (rule g1(2))
  next
    show "\<forall>cap. ag_capabilities (if needs_v3 st then to_v3 g1 else g1) cap =
         (let v = (case ag_capabilities g cap of Some v \<Rightarrow> v
                   | None \<Rightarrow> nullish (Option.bind (seeded_capabilities uid i) (\<lambda>f. f cap)) Deny)
          in if needs_v3 st \<and> i = ''grp-full'' \<and> (cap, v) \<in> set FULL_ACCESS_V2
             then ag_capabilities (if needs_v3 st then to_v3 g1 else g1) cap else Some v)"
    proof
      fix cap
      show "ag_capabilities (if needs_v3 st then to_v3 g1 else g1) cap =
         (let v = (case ag_capabilities g cap of Some v \<Rightarrow> v
                   | None \<Rightarrow> nullish (Option.bind (seeded_capabilities uid i) (\<lambda>f. f cap)) Deny)
          in if needs_v3 st \<and> i = ''grp-full'' \<and> (cap, v) \<in> set FULL_ACCESS_V2
             then ag_capabilities (if needs_v3 st then to_v3 g1 else g1) cap else Some v)"
        using raise_keys [of FULL_ACCESS_V2 "ag_capabilities g1" cap] c [of cap] f(1)
        by (simp add: to_v3_def Let_def split: if_splits)
    qed
  qed (use f in \<open>auto simp: to_v3_def Let_def\<close>)
qed

subsection \<open>Settled states\<close>

text \<open>
  A state every pass leaves alone; an upgrade produces one. \<open>ro_name\<close> is the name of the
  group the rename looks at.
\<close>

definition ro_name :: "AccessGroup list \<Rightarrow> string option" where
  "ro_name gs = map_option ag_name (find (\<lambda>g. ag_id g = ''grp-read-only'' \<and> ag_builtIn g) gs)"

definition settled :: "PolicyState \<Rightarrow> bool" where
  "settled st = (seeded_ids \<subseteq> ids_of st
     \<and> ro_name (ps_groups st) \<noteq> Some ''Read Only''
     \<and> (\<forall>g \<in> set (ps_groups st). \<forall>cap. ag_capabilities g cap \<noteq> None)
     \<and> latest_generation FILE_POLICY_GENERATIONS \<le> nullish (ps_generation st) 0
     \<and> \<not> needs_v3 st)"

lemma ro_name_Nil [simp]: "ro_name [] = None"
  by (simp add: ro_name_def)

lemma ro_name_Cons:
  "ro_name (g # gs) = (if ag_id g = ''grp-read-only'' \<and> ag_builtIn g then Some (ag_name g) else ro_name gs)"
  by (simp add: ro_name_def)

lemma renamed_id: "ro_name gs \<noteq> Some ''Read Only'' \<Longrightarrow> renamed_groups gs = gs"
  by (induction gs) (auto simp: renamed_groups_def ro_name_Cons split: if_splits)

lemma renamed_ro_name: "ro_name (renamed_groups gs) \<noteq> Some ''Read Only''"
  by (induction gs) (auto simp: renamed_groups_def ro_name_Cons)

lemma ro_name_map:
  assumes "\<And>g. ag_id (f g) = ag_id g \<and> ag_builtIn (f g) = ag_builtIn g \<and> ag_name (f g) = ag_name g"
  shows "ro_name (map f gs) = ro_name gs"
  by (induction gs) (simp_all add: ro_name_Cons assms)

lemma ro_name_rules_only: "list_all2 rules_only gs gs' \<Longrightarrow> ro_name gs' = ro_name gs"
  by (induction rule: list_all2_induct) (auto simp: ro_name_Cons rules_only_def)

lemma ro_name_append: "ro_name (xs @ ys) = (case ro_name xs of None \<Rightarrow> ro_name ys | Some n \<Rightarrow> Some n)"
  by (induction xs) (simp_all add: ro_name_Cons)

lemma ro_name_splice:
  assumes "ro_name gs \<noteq> Some ''Read Only''" and "ro_name [fresh] \<noteq> Some ''Read Only''"
  shows "ro_name (splice_in (n, fresh) gs) \<noteq> Some ''Read Only''"
proof -
  let ?m = "min n (length gs)"
  have split: "ro_name (splice_in (n, fresh) gs) = ro_name (take ?m gs @ [fresh] @ drop ?m gs)" by (simp add: splice_in_def)
  have gs: "ro_name gs = ro_name (take ?m gs @ drop ?m gs)" by simp
  show ?thesis
    using assms unfolding split by (subst (asm) gs) (auto simp only: ro_name_append split: option.splits)
qed

lemma ro_name_insert_missing:
  "ro_name gs \<noteq> Some ''Read Only'' \<Longrightarrow> (\<And>p. p \<in> set ps \<Longrightarrow> ro_name [snd p] \<noteq> Some ''Read Only'') \<Longrightarrow>
   ro_name (fold (insert_missing H) ps gs) \<noteq> Some ''Read Only''"
proof (induction ps arbitrary: gs)
  case (Cons p ps)
  have "ro_name (insert_missing H p gs) \<noteq> Some ''Read Only''"
    using ro_name_splice [of gs "snd p" "fst p"] Cons.prems by (simp add: insert_missing_def)
  with Cons show ?case by simp
qed simp

lemma defaultGroups_names: "g \<in> set (defaultGroups uid) \<Longrightarrow> ro_name [g] \<noteq> Some ''Read Only''"
  by (auto simp: defaultGroups_def built_in_def Let_def ro_name_def)

lemma snd_enumerate: "snd ` set (enumerate n xs) = set xs"
  by (metis list.set_map map_snd_enumerate)

lemma backfill_group_id: "(\<And>cap. ag_capabilities g cap \<noteq> None) \<Longrightarrow> backfill_group uid g = g"
proof -
  assume "\<And>cap. ag_capabilities g cap \<noteq> None"
  then have "(\<lambda>cap. if cap \<in> set AI_CAPABILITIES \<and> ag_capabilities g cap = None then x cap else ag_capabilities g cap)
      = ag_capabilities g" for x by (simp del: not_None_eq)
  then show ?thesis by (simp only: backfill_group_def Let_def) simp
qed

lemma upgrade_settled: "settled st \<Longrightarrow> upgrade uid st = st"
proof -
  assume s: "settled st"
  have "ag_id (snd p) \<in> ids_of st" if "p \<in> set (enumerate 0 (defaultGroups uid))" for p
  proof -
    from that have "snd p \<in> set (defaultGroups uid)" using snd_enumerate [of 0 "defaultGroups uid"] by blast
    with s show ?thesis unfolding settled_def seeded_ids [of uid, symmetric] by blast
  qed
  with s have 1: "backfillGroups uid st = st"
    by (simp add: backfillGroups_eq settled_def renamed_id insert_missing_none)
  from s have "map (backfill_group uid) (ps_groups st) = ps_groups st"
    by (intro map_idI backfill_group_id) (simp add: settled_def)
  then have 2: "backfillCapabilities uid st = st" by (simp add: backfillCapabilities_def)
  from s have 3: "backfillFilePolicies uid FILE_POLICY_GENERATIONS st = st"
    by (simp add: backfillFilePolicies_def settled_def Let_def)
  from s have 4: "dropLegacyAssignments st = st" "migrateToV3 st = st"
    by (auto simp: dropLegacyAssignments_def migrateToV3_def settled_def needs_v3_def POLICY_VERSION_def
        ASSIGNMENTS_CLEARED_VERSION_def)
  show ?thesis by (simp add: upgrade_def 1 2 3 4)
qed

text \<open>The groups after the first three passes.\<close>

definition upgraded_groups :: "(nat \<Rightarrow> string) \<Rightarrow> PolicyState \<Rightarrow> AccessGroup list" where
  "upgraded_groups uid st = ps_groups (backfillFilePolicies uid FILE_POLICY_GENERATIONS
     (backfillCapabilities uid (backfillGroups uid st)))"

lemma rules_only_refl: "rules_only g g"
  unfolding rules_only_def by (rule exI [of _ "ag_filePolicies g"]) simp

lemma backfillFilePolicies_groups:
  "list_all2 rules_only (ps_groups st) (ps_groups (backfillFilePolicies uid FILE_POLICY_GENERATIONS st))"
proof -
  have "list_all2 rules_only gs gs" for gs
    by (rule list.rel_refl) (rule rules_only_refl)
  with upgrade_groups_shape show ?thesis
    by (auto simp: backfillFilePolicies_def FILE_POLICY_GENERATIONS_def latest_generation_def Let_def)
qed

lemma rules_only_ids: "list_all2 rules_only gs gs' \<Longrightarrow> ag_id ` set gs' = ag_id ` set gs"
  by (induction rule: list_all2_induct) (auto simp: rules_only_def)

lemma rules_only_caps:
  "list_all2 rules_only gs gs' \<Longrightarrow> \<forall>g \<in> set gs. \<forall>cap. ag_capabilities g cap \<noteq> None \<Longrightarrow>
   \<forall>g \<in> set gs'. \<forall>cap. ag_capabilities g cap \<noteq> None"
  by (induction rule: list_all2_induct) (auto simp: rules_only_def)

lemma backfillGroups_ids: "ids_of (backfillGroups uid st) = ids_of st \<union> seeded_ids"
proof -
  have r: "ag_id ` set (renamed_groups gs) = ag_id ` set gs" for gs
  proof -
    have "map ag_id (renamed_groups gs) = map ag_id gs" unfolding renamed_groups_def by (rule map_update_first) simp
    then show ?thesis by (metis list.set_map)
  qed
  show ?thesis
    unfolding backfillGroups_eq by (auto simp: insert_missing_all image_Un r snd_enumerate seeded_ids [of uid, symmetric])
qed

lemma upgraded_groups_ids: "ag_id ` set (upgraded_groups uid st) = ids_of st \<union> seeded_ids"
proof -
  have "ag_id ` set (ps_groups (backfillCapabilities uid (backfillGroups uid st))) = ids_of (backfillGroups uid st)"
    by (simp add: backfillCapabilities_def image_image backfill_group_def Let_def)
  then show ?thesis
    unfolding upgraded_groups_def rules_only_ids [OF backfillFilePolicies_groups] by (simp add: backfillGroups_ids)
qed

lemma upgraded_groups_ro: "ro_name (upgraded_groups uid st) \<noteq> Some ''Read Only''"
proof -
  have "ro_name (ps_groups (backfillGroups uid st)) \<noteq> Some ''Read Only''"
  proof -
    have "ro_name [snd p] \<noteq> Some ''Read Only''" if "p \<in> set (enumerate 0 (defaultGroups uid))" for p
      using that snd_enumerate [of 0 "defaultGroups uid"] by (intro defaultGroups_names) blast
    then show ?thesis by (simp add: backfillGroups_eq ro_name_insert_missing renamed_ro_name)
  qed
  moreover have "ro_name (ps_groups (backfillCapabilities uid st')) = ro_name (ps_groups st')" for st'
    unfolding backfillCapabilities_def by (simp add: ro_name_map backfill_group_def Let_def)
  ultimately show ?thesis
    unfolding upgraded_groups_def ro_name_rules_only [OF backfillFilePolicies_groups] by simp
qed

lemma upgraded_groups_caps: "\<forall>g \<in> set (upgraded_groups uid st). \<forall>cap. ag_capabilities g cap \<noteq> None"
  unfolding upgraded_groups_def
  by (rule rules_only_caps [OF backfillFilePolicies_groups])
     (simp add: backfillCapabilities_def backfill_group_def AI_CAPABILITIES_all Let_def)

lemma upgrade_groups_eq:
  "ps_groups (upgrade uid st) = (if needs_v3 st then map to_v3 (upgraded_groups uid st) else upgraded_groups uid st)"
  unfolding upgrade_def upgraded_groups_def migrateToV3_def needs_v3_kept by simp

lemma to_v3_caps: "(\<forall>cap. ag_capabilities g cap \<noteq> None) \<Longrightarrow> ag_capabilities (to_v3 g) cap \<noteq> None"
proof -
  assume "\<forall>cap. ag_capabilities g cap \<noteq> None"
  moreover have "\<forall>cap. c cap \<noteq> None \<Longrightarrow> \<forall>cap. fold raise_key kws c cap \<noteq> None" for c kws
    by (induction kws arbitrary: c) (auto simp: raise_key_def split: prod.splits)
  ultimately show ?thesis by (simp add: to_v3_def Let_def)
qed

lemma settled_upgrade: "settled (upgrade uid st)"
  unfolding settled_def
proof (intro conjI)
  show "seeded_ids \<subseteq> ids_of (upgrade uid st)"
    using upgraded_groups_ids [of uid st] by (auto simp: upgrade_groups_eq image_image)
  show "ro_name (ps_groups (upgrade uid st)) \<noteq> Some ''Read Only''"
    using upgraded_groups_ro [of uid st] by (simp add: upgrade_groups_eq ro_name_map)
  show "\<forall>g \<in> set (ps_groups (upgrade uid st)). \<forall>cap. ag_capabilities g cap \<noteq> None"
    using upgraded_groups_caps [of uid st] to_v3_caps by (auto simp: upgrade_groups_eq simp del: not_None_eq)
  show "latest_generation FILE_POLICY_GENERATIONS \<le> nullish (ps_generation (upgrade uid st)) 0"
    by (simp add: upgrade_def migrateToV3_def dropLegacyAssignments_def backfillFilePolicies_def Let_def)
  show "\<not> needs_v3 (upgrade uid st)"
    by (simp add: upgrade_def migrateToV3_def needs_v3_def POLICY_VERSION_def)
qed

lemma settled_seed: "settled (seed uid)"
  using seeded_ids [of uid] defaultGroups_names [of _ uid]
  by (auto simp: settled_def seed_def needs_v3_def defaultGroups_def built_in_def OBSERVER_CAPABILITIES_def
      allowAll_def ro_name_def Let_def split: option.split)

lemma settled_read: "settled (read_policy uid f)"
  by (simp add: read_policy_def settled_upgrade settled_seed split: policy_file.split)

subsection \<open>Operations\<close>

datatype policy_op =
    OpSave AccessGroup
  | OpDelete string
  | OpAssign string PolicyScope "string option"
  | OpUnassign string
  | OpProtect PolicyScope bool
  | OpAliases string "string list"

fun policy_step :: "policy_op \<Rightarrow> PolicyState \<Rightarrow> PolicyState" where
  "policy_step (OpSave g) st = saveGroup g st"
| "policy_step (OpDelete i) st = snd (deleteGroup i st)"
| "policy_step (OpAssign i scope g) st = setAssignment i scope g st"
| "policy_step (OpUnassign i) st = removeAssignment i st"
| "policy_step (OpProtect scope on) st = setProtected scope on st"
| "policy_step (OpAliases i as) st = setServerAliases i as st"

text \<open>
  The state between operations: settled, and a group that ships with the program carries
  its flag. The group editor sends a whole group and keeps that flag.
\<close>

definition policy_inv :: "PolicyState \<Rightarrow> bool" where
  "policy_inv st = (settled st \<and> (\<forall>g \<in> set (ps_groups st). ag_id g \<in> seeded_ids \<longrightarrow> ag_builtIn g))"

fun policy_op_ok :: "policy_op \<Rightarrow> bool" where
  "policy_op_ok (OpSave g) =
     ((\<forall>cap. ag_capabilities g cap \<noteq> None) \<and> \<not> (ag_id g = ''grp-read-only'' \<and> ag_name g = ''Read Only'')
      \<and> (ag_id g \<in> seeded_ids \<longrightarrow> ag_builtIn g))"
| "policy_op_ok _ = True"

lemma settled_groups_only:
  "ps_groups st' = ps_groups st \<Longrightarrow> ps_version st' = ps_version st \<Longrightarrow> ps_generation st' = ps_generation st \<Longrightarrow>
   policy_inv st' = policy_inv st"
  by (simp add: policy_inv_def settled_def needs_v3_def)

lemma ids_save_group: "ag_id ` set (save_group g gs) = insert (ag_id g) (ag_id ` set gs)"
proof (cases "\<exists>h \<in> set gs. ag_id h = ag_id g")
  case True
  then have "ag_id ` set (update_first (\<lambda>h. ag_id h = ag_id g) (\<lambda>_. g) gs) = ag_id ` set gs"
    by (induction gs) auto
  moreover from True have "ag_id g \<in> ag_id ` set gs" by (metis image_eqI)
  ultimately show ?thesis using True by (simp add: save_group_def insert_absorb)
qed (auto simp: save_group_def)

lemma set_save_group: "set (save_group g gs) \<subseteq> insert g (set gs)"
proof -
  have "set (update_first P (\<lambda>_. g) gs) \<subseteq> insert g (set gs)" for P by (induction gs) auto
  then show ?thesis by (auto simp: save_group_def)
qed

lemma ro_name_save_group:
  assumes "\<not> (ag_id g = ''grp-read-only'' \<and> ag_name g = ''Read Only'')" and "ro_name gs \<noteq> Some ''Read Only''"
    and "ag_id g = ''grp-read-only'' \<Longrightarrow> ag_builtIn g"
  shows "ro_name (save_group g gs) \<noteq> Some ''Read Only''"
proof -
  have "ro_name (update_first (\<lambda>h. ag_id h = ag_id g) (\<lambda>_. g) gs) \<noteq> Some ''Read Only''"
    using assms by (induction gs) (auto simp: ro_name_Cons split: if_splits)
  then show ?thesis
    using assms by (auto simp: save_group_def ro_name_append ro_name_Cons split: option.split)
qed

lemma saveGroup_inv:
  assumes ok: "policy_op_ok (OpSave g)" and inv: "policy_inv st"
  shows "policy_inv (saveGroup g st)"
proof -
  let ?gs = "save_group g (ps_groups st)"
  have "ro_name ?gs \<noteq> Some ''Read Only''"
    using ok inv by (intro ro_name_save_group) (simp_all add: policy_inv_def settled_def)
  moreover have "\<forall>h \<in> set ?gs. (\<forall>cap. ag_capabilities h cap \<noteq> None) \<and> (ag_id h \<in> seeded_ids \<longrightarrow> ag_builtIn h)"
  proof
    fix h assume "h \<in> set ?gs"
    then have "h = g \<or> h \<in> set (ps_groups st)" using set_save_group by blast
    then show "(\<forall>cap. ag_capabilities h cap \<noteq> None) \<and> (ag_id h \<in> seeded_ids \<longrightarrow> ag_builtIn h)"
      using ok inv unfolding policy_inv_def settled_def policy_op_ok.simps by blast
  qed
  moreover have "seeded_ids \<subseteq> ag_id ` set ?gs"
    using inv unfolding ids_save_group policy_inv_def settled_def by blast
  ultimately show ?thesis
    using inv unfolding policy_inv_def settled_def saveGroup_def needs_v3_def by simp
qed

lemma deleteGroup_inv: "policy_inv st \<Longrightarrow> policy_inv (snd (deleteGroup i st))"
proof -
  assume inv: "policy_inv st"
  show ?thesis
  proof (cases "fst (deleteGroup i st) = Deleted")
    case True
    then obtain g where g: "getGroup st i = Some g" "\<not> ag_builtIn g"
      by (auto simp: deleteGroup_def split: option.splits if_splits)
    with inv have i: "i \<notin> seeded_ids" by (auto simp: getGroup_def policy_inv_def dest!: find_Some_iff2)
    have "ro_name (filter (\<lambda>g. ag_id g \<noteq> i) gs) = ro_name gs" for gs
      using i by (induction gs) (auto simp: ro_name_Cons)
    with i inv g show ?thesis
      by (auto simp: deleteGroup_def policy_inv_def settled_def needs_v3_def simp del: not_None_eq)
  next
    case False
    then have "snd (deleteGroup i st) = st" by (auto simp: deleteGroup_def split: option.splits if_splits)
    with inv show ?thesis by simp
  qed
qed

lemma policy_step_inv: "policy_op_ok op \<Longrightarrow> policy_inv st \<Longrightarrow> policy_inv (policy_step op st)"
proof (induction op)
  case (OpSave g)
  then show ?case unfolding policy_step.simps by (rule saveGroup_inv)
next
  case (OpDelete i)
  then show ?case unfolding policy_step.simps by (intro deleteGroup_inv)
next
  case (OpAssign i scope g)
  then show ?case by (subst settled_groups_only [where st = st]) (simp_all add: setAssignment_def)
next
  case (OpUnassign i)
  then show ?case by (subst settled_groups_only [where st = st]) (simp_all add: removeAssignment_def)
next
  case (OpProtect scope on)
  then show ?case by (subst settled_groups_only [where st = st]) (simp_all add: setProtected_def Let_def)
next
  case (OpAliases i as)
  then show ?case by (subst settled_groups_only [where st = st]) (simp_all add: setServerAliases_def Let_def)
qed

lemma policy_inv_seed: "policy_inv (seed uid)"
  using settled_seed [of uid] by (auto simp: policy_inv_def seed_def defaultGroups_def built_in_def Let_def)

text \<open>Deleting a group.\<close>

definition closes :: "string \<Rightarrow> Restriction \<Rightarrow> Restriction" where
  "closes i r = (if r = InGroup i then NoAiAccess else r)"

definition unassign :: "string \<Rightarrow> PolicyAssignment \<Rightarrow> PolicyAssignment" where
  "unassign i a = (if pa_groupId a = Some i then a\<lparr>pa_groupId := None\<rparr> else a)"

lemma find_map_scope:
  "server_assignment (map (unassign i) as) s = map_option (unassign i) (server_assignment as s)"
  "workspace_assignment (map (unassign i) as) s = map_option (unassign i) (workspace_assignment as s)"
  unfolding server_assignment_def workspace_assignment_def by (induction as) (auto simp: unassign_def)

lemma restriction_of_unassign: "restriction_of (unassign i a) = closes i (restriction_of a)"
  by (auto simp: restriction_of_def unassign_def closes_def truthy_def split: option.splits)

lemma resolve_unassign:
  assumes "pa_groupId b \<noteq> pa_groupId n" "pa_groupId (unassign i b) = pa_groupId (unassign i n)"
  shows "restriction_of (unassign i n) = NoAiAccess"
  using assms by (simp add: unassign_def restriction_of_def truthy_def split: if_splits)

lemma unassign_diff:
  "pa_groupId b = pa_groupId n \<Longrightarrow> pa_groupId (unassign i b) = pa_groupId (unassign i n)"
  by (simp add: unassign_def)

lemma resolveRestriction_unassign:
  "resolveRestriction (map (unassign i) as) s w f = closes i (resolveRestriction as s w f)"
proof (cases "server_assignment as s")
  case (Some own)
  then show ?thesis by (simp add: resolveRestriction_def find_map_scope restriction_of_unassign)
next
  case own: None
  let ?before = "Option.bind (truthy f) (workspace_assignment as)"
  have nb: "Option.bind (truthy f) (workspace_assignment (map (unassign i) as)) = map_option (unassign i) ?before"
    by (cases "truthy f") (simp_all add: find_map_scope)
  have closed: "closes i NoAiAccess = NoAiAccess" "closes i NoRestriction = NoRestriction" by (simp_all add: closes_def)
  show ?thesis
  proof (cases "f = Some UNKNOWN_WORKSPACE")
    case True
    with own show ?thesis by (simp add: resolveRestriction_def find_map_scope closed Let_def)
  next
    case f: False
    show ?thesis
    proof (cases ?before)
      case None
      with own f show ?thesis
        by (cases "workspace_assignment as w")
           (simp_all add: resolveRestriction_def find_map_scope nb restriction_of_unassign closed Let_def)
    next
      case (Some b)
      show ?thesis
      proof (cases "workspace_assignment as w")
        case None
        with own f Some show ?thesis
          by (simp add: resolveRestriction_def find_map_scope nb restriction_of_unassign Let_def)
      next
        case n: (Some n)
        have "resolveRestriction as s w f = (if pa_groupId b \<noteq> pa_groupId n then NoAiAccess else restriction_of n)"
          using own f Some n by (simp add: resolveRestriction_def Let_def)
        moreover have "resolveRestriction (map (unassign i) as) s w f
            = (if pa_groupId (unassign i b) \<noteq> pa_groupId (unassign i n) then NoAiAccess else restriction_of (unassign i n))"
          using own f Some n by (simp add: resolveRestriction_def find_map_scope nb Let_def)
        ultimately show ?thesis
          using resolve_unassign [of b n i] unassign_diff [of b n i] by (simp add: restriction_of_unassign closed)
      qed
    qed
  qed
qed

lemma deleteGroup_eq:
  "fst (deleteGroup i st) = Deleted \<Longrightarrow>
     ps_assignments (snd (deleteGroup i st)) = map (unassign i) (ps_assignments st)
     \<and> ps_groups (snd (deleteGroup i st)) = filter (\<lambda>g. ag_id g \<noteq> i) (ps_groups st)"
  by (auto simp: deleteGroup_def unassign_def split: option.splits if_splits)

lemma upgrade_ids: "ids_of (upgrade uid st) = ids_of st \<union> seeded_ids"
  using upgraded_groups_ids [of uid st] by (simp add: upgrade_groups_eq image_image)

lemma getGroup_ids: "getGroup st i \<noteq> None \<longleftrightarrow> i \<in> ids_of st"
  by (simp add: getGroup_def find_None_key del: not_None_eq)

text \<open>Without a usable file every restriction and every protection is gone.\<close>

theorem unusable_policy_file_opens_up:
  "f \<noteq> Some UNKNOWN_WORKSPACE \<Longrightarrow>
   resolveRestriction (ps_assignments (read_policy uid BadFile)) s w f = NoRestriction
   \<and> listProtected (read_policy uid BadFile) = []"
  by (cases "truthy f")
     (simp_all add: read_policy_def seed_def resolveRestriction_def server_assignment_def workspace_assignment_def
       listProtected_def Let_def)

subsection \<open>Properties\<close>

text \<open>C12:
  Upgrading a policy file gives nobody a permission he was not given. A group its user made
  means afterwards exactly what it meant before: the value of every capability (an absent
  one counted as deny), the confirmation of risky actions and the path rules. In a group
  that ships with the program a stored value stays as it is, the only exception being the
  untouched version-2 values of Full Access. No other group appears than the ones that ship
  with the program, and a second upgrade changes nothing.\<close>

theorem upgrade_grants_nothing:
  assumes "getGroup st i = Some g"
  shows "\<exists>g'. getGroup (upgrade uid st) i = Some g'
    \<and> (i \<notin> seeded_ids \<and> \<not> ag_builtIn g \<longrightarrow>
         (\<forall>cap. capability_value g' cap = capability_value g cap)
         \<and> confirmsRisky g' = confirmsRisky g \<and> ag_filePolicies g' = ag_filePolicies g)
    \<and> (\<forall>cap v. ag_capabilities g cap = Some v
         \<and> \<not> (i = ''grp-full'' \<and> needs_v3 st \<and> (cap, v) \<in> set FULL_ACCESS_V2) \<longrightarrow> ag_capabilities g' cap = Some v)
    \<and> (\<forall>j. getGroup (upgrade uid st) j \<noteq> None \<longrightarrow> getGroup st j \<noteq> None \<or> j \<in> seeded_ids)
    \<and> upgrade uid' (upgrade uid st) = upgrade uid st"
proof -
  obtain g' where g': "getGroup (upgrade uid st) i = Some g'"
    and cap: "\<And>cap. ag_capabilities g' cap =
         (let v = (case ag_capabilities g cap of Some v \<Rightarrow> v
                   | None \<Rightarrow> nullish (Option.bind (seeded_capabilities uid i) (\<lambda>f. f cap)) Deny)
          in if needs_v3 st \<and> i = ''grp-full'' \<and> (cap, v) \<in> set FULL_ACCESS_V2
             then ag_capabilities g' cap else Some v)"
    and rest: "ag_confirmRisky g' = (if needs_v3 st \<and> ag_confirmRisky g = None then Some (i \<noteq> ''grp-full'') else ag_confirmRisky g)"
      "\<not> ag_builtIn g \<longrightarrow> ag_filePolicies g' = ag_filePolicies g"
    using upgrade_capability [OF assms, of uid] by blast
  have seeded: "seeded_capabilities uid i = None" if "i \<notin> seeded_ids"
  proof -
    have "fst ` set (map (\<lambda>g. (ag_id g, ag_capabilities g)) (defaultGroups uid)) = ag_id ` set (defaultGroups uid)"
      by (simp add: image_image)
    then show ?thesis
      unfolding seeded_capabilities_def map_of_eq_None_iff using that seeded_ids [of uid] by blast
  qed
  have custom: "capability_value g' cap = capability_value g cap" if "i \<notin> seeded_ids" for cap
    using cap [of cap] seeded [OF that] that by (cases "ag_capabilities g cap") (simp_all add: capability_value_def)
  have risky: "confirmsRisky g' = confirmsRisky g" if "i \<notin> seeded_ids"
    using rest(1) that by (auto simp: confirmsRisky_def)
  have kept: "ag_capabilities g' cap = Some v" if "ag_capabilities g cap = Some v"
    "\<not> (i = ''grp-full'' \<and> needs_v3 st \<and> (cap, v) \<in> set FULL_ACCESS_V2)" for cap v
  proof -
    from that(2) have "\<not> (needs_v3 st \<and> i = ''grp-full'' \<and> (cap, v) \<in> set FULL_ACCESS_V2)" by blast
    then show ?thesis
      using cap [of cap] by (simp only: that(1) option.case Let_def if_False)
  qed
  have new: "getGroup st j \<noteq> None \<or> j \<in> seeded_ids" if "getGroup (upgrade uid st) j \<noteq> None" for j
    using that by (simp only: getGroup_ids upgrade_ids Un_iff)
  show ?thesis
  proof (intro exI [of _ g'] conjI impI allI)
    show "upgrade uid' (upgrade uid st) = upgrade uid st" by (rule upgrade_settled [OF settled_upgrade])
  qed (use g' custom risky rest(2) kept new in \<open>simp_all del: not_None_eq\<close>)
qed

definition old_policy :: PolicyState where
  "old_policy = \<lparr>ps_version = Some 2,
     ps_groups = [\<lparr>ag_id = ''grp-mine'', ag_name = ''Mine'', ag_builtIn = False, ag_capabilities = [Terminal \<mapsto> Ask],
                  ag_filePolicies = [], ag_confirmRisky = None\<rparr>],
     ps_assignments = [], ps_serverMeta = [], ps_generation = None, ps_protected = None, ps_cleared = None\<rparr>"

theorem upgrade_grants_nothing_witness:
  "\<exists>g'. getGroup (upgrade (\<lambda>_. ''x'') old_policy) ''grp-mine'' = Some g'
     \<and> capability_value g' CiTrigger = Deny \<and> capability_value g' Terminal = Ask"
proof -
  have "getGroup old_policy ''grp-mine'' = Some (hd (ps_groups old_policy))" by (simp add: getGroup_def old_policy_def)
  from upgrade_grants_nothing [OF this, of "\<lambda>_. ''x''" "\<lambda>_. ''x''"] obtain g' where
    "getGroup (upgrade (\<lambda>_. ''x'') old_policy) ''grp-mine'' = Some g'"
    "\<forall>cap. capability_value g' cap = capability_value (hd (ps_groups old_policy)) cap"
    by (auto simp: old_policy_def)
  then show ?thesis by (auto simp: old_policy_def capability_value_def)
qed

text \<open>C13:
  Deleting an access group never opens what it restricted: a target that was held to the
  deleted group has no AI access afterwards, every other target resolves exactly as before,
  a built-in group is not deleted, and no remaining assignment names the deleted group.\<close>

theorem deleted_group_closes_its_targets:
  "(fst (deleteGroup i st) = Deleted \<longrightarrow>
      resolveRestriction (ps_assignments (snd (deleteGroup i st))) s w f
        = (if resolveRestriction (ps_assignments st) s w f = InGroup i then NoAiAccess
           else resolveRestriction (ps_assignments st) s w f)
      \<and> getGroup (snd (deleteGroup i st)) i = None
      \<and> (j \<noteq> i \<longrightarrow> getGroup (snd (deleteGroup i st)) j = getGroup st j)
      \<and> list_all (\<lambda>a. pa_groupId a \<noteq> Some i) (ps_assignments (snd (deleteGroup i st))))
   \<and> (fst (deleteGroup i st) \<noteq> Deleted \<longrightarrow> snd (deleteGroup i st) = st)
   \<and> (fst (deleteGroup i st) = Deleted \<longleftrightarrow> (\<exists>g. getGroup st i = Some g \<and> \<not> ag_builtIn g))"
proof (intro conjI impI)
  assume d: "fst (deleteGroup i st) = Deleted"
  note eq = deleteGroup_eq [OF d]
  show "resolveRestriction (ps_assignments (snd (deleteGroup i st))) s w f
        = (if resolveRestriction (ps_assignments st) s w f = InGroup i then NoAiAccess
           else resolveRestriction (ps_assignments st) s w f)"
    by (simp add: eq resolveRestriction_unassign closes_def)
  show "getGroup (snd (deleteGroup i st)) i = None" by (simp add: getGroup_def eq find_None_iff)
  show "list_all (\<lambda>a. pa_groupId a \<noteq> Some i) (ps_assignments (snd (deleteGroup i st)))"
    by (auto simp: eq list_all_iff unassign_def)
  assume "j \<noteq> i"
  then have "find (\<lambda>g. ag_id g = j) (filter (\<lambda>g. ag_id g \<noteq> i) gs) = find (\<lambda>g. ag_id g = j) gs" for gs
    by (induction gs) auto
  then show "getGroup (snd (deleteGroup i st)) j = getGroup st j" by (simp add: getGroup_def eq)
qed (auto simp: deleteGroup_def split: option.splits if_splits)

theorem deleted_group_closes_its_targets_witness:
  "resolveRestriction (ps_assignments (snd (deleteGroup ''grp-mine''
     (setAssignment ''a'' (ScopeServer ''db'') (Some ''grp-mine'') old_policy)))) ''db'' ''w'' None = NoAiAccess"
proof -
  let ?st = "setAssignment ''a'' (ScopeServer ''db'') (Some ''grp-mine'') old_policy"
  have "fst (deleteGroup ''grp-mine'' ?st) = Deleted"
    by (simp add: deleteGroup_def getGroup_def setAssignment_def old_policy_def)
  moreover have "resolveRestriction (ps_assignments ?st) ''db'' ''w'' None = InGroup ''grp-mine''"
    by (simp add: setAssignment_def old_policy_def resolveRestriction_def server_assignment_def restriction_of_def truthy_def)
  ultimately show ?thesis
    using deleted_group_closes_its_targets [of "''grp-mine''" ?st "''db''" "''w''" None "[]"] by simp
qed



end
