(* ===== verification/Credential_Link.thy ===== *)
theory Credential_Link
  imports Addy_Merge
begin

section \<open>Which credential a record uses (main/services/credentialLink.ts)\<close>

text \<open>
  A server or a database may have a credential stored on this device under its id, and a
  link to a vault entry in the synced record. A stored secret is text: here a payload, text
  that is not JSON or a document. The data file is a JSON value, None when there is none;
  the code's cache of the links is keyed by the file's time and size and is left out.
\<close>

type_synonym secrets = "string \<Rightarrow> payload option"

subsection \<open>JavaScript values\<close>

fun js_truthy :: "json option \<Rightarrow> bool" where
  "js_truthy None = False"
| "js_truthy (Some JNull) = False"
| "js_truthy (Some (JBool b)) = b"
| "js_truthy (Some (JNum n)) = (n \<noteq> Fin 0 \<and> n \<noteq> NaN)"
| "js_truthy (Some (JStr s)) = (s \<noteq> [])"
| "js_truthy (Some _) = True"

text \<open>The own properties of a value, as \<open>Object.keys\<close> and the spread of an object see them.\<close>

fun js_entries :: "json \<Rightarrow> (string, json) jsmap" where
  "js_entries (JObj kvs) = kvs"
| "js_entries (JArr xs) = zip (map show_nat [0..<length xs]) xs"
| "js_entries (JStr s) = zip (map show_nat [0..<length s]) (map (\<lambda>c. JStr [c]) s)"
| "js_entries _ = []"

definition str :: "json option \<Rightarrow> string" where
  "str v = nullish (as_string v) []"

definition spread :: "(string, json) jsmap \<Rightarrow> (string, json) jsmap \<Rightarrow> (string, json) jsmap" where
  "spread m kvs = foldl (\<lambda>acc (k, v). AList.update k v acc) m kvs"

definition filled_text :: "json option \<Rightarrow> string option" where
  "filled_text v = (case as_string v of Some s \<Rightarrow> if s = [] then None else Some s | None \<Rightarrow> None)"

subsection \<open>The device's own credential\<close>

definition CREDENTIAL_FIELDS :: "string list" where
  "CREDENTIAL_FIELDS =
     [''vaultEntryId'', ''vaultUriEntryId'', ''password'', ''keyPath'', ''passphrase'', ''uri'', ''agentSocket'']"

text \<open>Reading a field of \<open>null\<close> throws, and the handler then tests the text, which is not blank.\<close>

definition holdsCredential :: "payload \<Rightarrow> bool" where
  "holdsCredential raw =
     (case raw of
        NotJson s \<Rightarrow> trim s \<noteq> []
      | Doc JNull \<Rightarrow> True
      | Doc blob \<Rightarrow> list_ex (\<lambda>f. filled_text (field_of blob f) \<noteq> None) CREDENTIAL_FIELDS)"

definition hasOwnCredential :: "secrets \<Rightarrow> string \<Rightarrow> bool" where
  "hasOwnCredential sec i = (case sec i of Some own \<Rightarrow> holdsCredential own | None \<Rightarrow> False)"

subsection \<open>The links of the synced records\<close>

definition object_list :: "json option \<Rightarrow> string \<Rightarrow> json list" where
  "object_list data key =
     (case Option.bind data (\<lambda>d. field_of d key) of
        Some (JArr xs) \<Rightarrow> filter is_object xs
      | _ \<Rightarrow> [])"

definition server_link :: "json \<Rightarrow> (string \<times> payload) option" where
  "server_link s =
     (case (filled_text (field_of s ''id''), filled_text (field_of s ''vaultEntryId'')) of
        (Some i, Some v) \<Rightarrow> Some (i, Doc (JObj [(''vaultEntryId'', JStr v)]))
      | _ \<Rightarrow> None)"

definition database_link :: "json \<Rightarrow> (string \<times> payload) option" where
  "database_link d =
     (case (filled_text (field_of d ''id''), filled_text (field_of d ''vaultEntryId'')) of
        (Some i, Some v) \<Rightarrow>
          Some (i, Doc (JObj [(if field_of d ''uri'' = Some (JBool True) then ''vaultUriEntryId''
                               else ''vaultEntryId'', JStr v)]))
      | _ \<Rightarrow> None)"

definition linksOf :: "json option \<Rightarrow> (string, payload) jsmap" where
  "linksOf data =
     foldl (\<lambda>acc (k, v). AList.update k v acc) []
       (List.map_filter server_link (object_list data ''servers'')
        @ List.map_filter database_link (object_list data ''databases''))"

definition linkFor :: "json option \<Rightarrow> string \<Rightarrow> payload option" where
  "linkFor data i = map_of (linksOf data) i"

subsection \<open>The credential that is used\<close>

text \<open>\<open>JSON.stringify({...JSON.parse(own), ...JSON.parse(link)})\<close>, or the link when the stored
  text cannot be parsed.\<close>

definition over_own :: "payload \<Rightarrow> payload \<Rightarrow> payload" where
  "over_own own link =
     (case (own, link) of
        (Doc mine, Doc l) \<Rightarrow> Doc (JObj (spread (js_entries mine) (js_entries l)))
      | _ \<Rightarrow> link)"

definition storedCredential :: "secrets \<Rightarrow> json option \<Rightarrow> string \<Rightarrow> payload option" where
  "storedCredential sec data i =
     (if hasOwnCredential sec i then sec i
      else case linkFor data i of
             None \<Rightarrow> sec i
           | Some link \<Rightarrow> (case sec i of None \<Rightarrow> Some link | Some own \<Rightarrow> Some (over_own own link)))"

definition vaultLinkOf :: "payload option \<Rightarrow> string option" where
  "vaultLinkOf raw =
     (case raw of
        Some (Doc b) \<Rightarrow>
          (case field_of b ''vaultEntryId'' of
             Some v \<Rightarrow> if v = JNull then filled_text (field_of b ''vaultUriEntryId'') else filled_text (Some v)
           | None \<Rightarrow> filled_text (field_of b ''vaultUriEntryId''))
      | _ \<Rightarrow> None)"

text \<open>Deleting two members of \<open>null\<close> throws, and the handler answers nothing.\<close>

definition withoutLink :: "payload \<Rightarrow> payload option \<Rightarrow> payload option" where
  "withoutLink raw existing =
     (case raw of
        Doc b \<Rightarrow>
          if b = JNull then None
          else let left = filter (\<lambda>(k, _). k \<noteq> ''vaultEntryId'' \<and> k \<noteq> ''vaultUriEntryId'') (js_entries b)
               in if left = [] then None
                  else (case existing of
                          None \<Rightarrow> Some (Doc (JObj left))
                        | Some (Doc had) \<Rightarrow> Some (Doc (JObj (spread (js_entries had) left)))
                        | Some (NotJson s) \<Rightarrow> if s = [] then Some (Doc (JObj left)) else None)
      | NotJson _ \<Rightarrow> None)"

record to_store =
  st_store :: "payload option"
  st_confirms :: bool

definition credentialToStore :: "secrets \<Rightarrow> json option \<Rightarrow> string \<Rightarrow> payload \<Rightarrow> to_store" where
  "credentialToStore sec data i v =
     (let link = vaultLinkOf (Some v)
      in if link \<noteq> None \<and> \<not> hasOwnCredential sec i \<and> link = vaultLinkOf (storedCredential sec data i)
         then \<lparr>st_store = withoutLink v (sec i), st_confirms = False\<rparr>
         else \<lparr>st_store = Some v, st_confirms = True\<rparr>)"

end
