(* ===== verification/Sync_Trust.thy ===== *)
theory Sync_Trust
  imports Credential_Link
begin

section \<open>What sync brought and nobody here confirmed (main/services/syncTrust.ts)\<close>

text \<open>
  The marks file, what marks a record as it lands, and the checks that read the marks. The
  file is a value: absent, there but unreadable, or the document the code wrote. Outside
  values are the fields of \<open>trust_env\<close>: the text of a number, the hash, what \<open>loadData\<close>
  answers, whether the file can be written, and the stored secrets.
\<close>

datatype HeldKind = KServer | KDatabase | KCicd | KVpn

record Mark =
  mk_fields :: "(string, string) jsmap"
  mk_arrived :: bool
  mk_ws :: "(string \<times> string) option"

record HostMark =
  hm_fp :: string
  hm_mine :: "string option"

record TrustFile =
  tf_marks :: "(string, Mark) jsmap"
  tf_hostKeys :: "(string, HostMark) jsmap"
  tf_linksSeeded :: bool
  tf_unreadable :: bool

datatype trust_disk = NoTrust | DamagedTrust | TrustOn TrustFile

record trust_env =
  te_num :: "jsnum \<Rightarrow> string"
  te_digest :: "string \<Rightarrow> string"
  te_data :: "json option"
  te_writable :: bool
  te_secrets :: secrets

subsection \<open>Comparable text\<close>

definition nul_text :: string where
  "nul_text = [CHR 0x00]"

definition hex_digit :: "nat \<Rightarrow> char" where
  "hex_digit n = (if n < 10 then char_of (48 + n) else char_of (87 + n))"

text \<open>One character inside a string as \<open>JSON.stringify\<close> writes it.\<close>

definition escape_char :: "char \<Rightarrow> string" where
  "escape_char c =
     (let b = [CHR 0x5C]
      in if c = CHR 0x22 then b @ [CHR 0x22]
         else if c = CHR 0x5C then b @ b
         else if code c = 8 then b @ ''b''
         else if code c = 9 then b @ ''t''
         else if code c = 10 then b @ ''n''
         else if code c = 12 then b @ ''f''
         else if code c = 13 then b @ ''r''
         else if code c < 32 then b @ ''u00'' @ [hex_digit (code c div 16), hex_digit (code c mod 16)]
         else [c])"

definition quoted :: "string \<Rightarrow> string" where
  "quoted s = [CHR 0x22] @ concat (map escape_char s) @ [CHR 0x22]"

function stable :: "(jsnum \<Rightarrow> string) \<Rightarrow> json \<Rightarrow> string" where
  "stable num (JArr xs) = ''['' @ join '','' (map (stable num) xs) @ '']''"
| "stable num (JObj kvs) =
     ''{'' @ join '','' (map (\<lambda>(k, t). quoted k @ '':'' @ t)
              (sort_key fst (map (\<lambda>(k, v). (k, stable num v)) kvs))) @ ''}''"
| "stable num JNull = ''null''"
| "stable num (JBool b) = (if b then ''true'' else ''false'')"
| "stable num (JNum n) = num n"
| "stable num (JStr s) = quoted s"
  by pat_completeness auto
termination by lexicographic_order

definition stable_opt :: "(jsnum \<Rightarrow> string) \<Rightarrow> json option \<Rightarrow> string" where
  "stable_opt num v = stable num (nullish v JNull)"

definition norm :: "json option \<Rightarrow> string" where
  "norm v = lower (trim (str v))"

definition without :: "string list \<Rightarrow> (string, json) jsmap \<Rightarrow> (string, json) jsmap" where
  "without ks kvs = filter (\<lambda>(k, _). k \<notin> set ks) kvs"

definition vpnConnectionKey :: "(jsnum \<Rightarrow> string) \<Rightarrow> json option \<Rightarrow> string" where
  "vpnConnectionKey num spec =
     (case spec of
        Some v \<Rightarrow>
          if is_object v
          then stable num (JObj (without [''binaryPath'', ''sourcePath'', ''strippedDirectives''] (js_entries v)))
          else stable num v
      | None \<Rightarrow> stable_opt num None)"

subsection \<open>The values that decide where a credential goes\<close>

fun strip_trailing :: "string \<Rightarrow> string" where
  "strip_trailing s = rev (dropWhile (\<lambda>c. c = CHR ''/'') (rev s))"

definition server_fields :: "(jsnum \<Rightarrow> string) \<Rightarrow> json \<Rightarrow> (string, string) jsmap" where
  "server_fields num r =
     (let rdp = (case field_of r ''rdp'' of Some v \<Rightarrow> if is_object v then v else JObj [] | None \<Rightarrow> JObj [])
      in [(''host'', norm (field_of r ''host'')),
          (''cloud'', stable_opt num (field_of r ''cloud'')),
          (''rdp'', str (field_of rdp ''kdcProxyUrl'') @ ''|''
             @ (if field_of rdp ''nla'' = Some (JBool False) then ''0'' else ''1'') @ ''|''
             @ str (field_of rdp ''domain'')),
          (''credential'', str (field_of r ''vaultEntryId''))])"

definition database_fields :: "json \<Rightarrow> (string, string) jsmap" where
  "database_fields r =
     [(''host'', norm (field_of r ''host'')),
      (''via'', str (field_of r ''sshServerId'')),
      (''container'', str (field_of r ''container'')),
      (''tls'', if field_of r ''ssl'' = Some (JBool True)
                then (if field_of r ''tlsVerify'' = Some (JBool False) then ''1-unverified'' else ''1'')
                else ''0''),
      (''vpn'', str (field_of r ''vpnProfileId'')),
      (''ws'', str (field_of r ''workspaceId'')),
      (''credential'', if js_truthy (field_of r ''vaultEntryId'')
                       then (if field_of r ''uri'' = Some (JBool True) then ''u'' else ''p'') @ ''|''
                            @ str (field_of r ''vaultEntryId'')
                       else [])]"

definition cicd_fields :: "(jsnum \<Rightarrow> string) \<Rightarrow> json \<Rightarrow> (string, string) jsmap" where
  "cicd_fields num r =
     [(''url'', str (field_of r ''provider'') @ ''|'' @ strip_trailing (norm (field_of r ''baseUrl''))),
      (''user'', str (field_of r ''username'')),
      (''credential'', str (field_of r ''vaultEntryId'')),
      (''tls'', (if field_of r ''insecureTls'' = Some (JBool True) then ''1'' else ''0'') @ ''|''
                @ str (field_of r ''caPem'')),
      (''route'', stable_opt num (field_of r ''route'')),
      (''ws'', str (field_of r ''workspaceId''))]"

definition vpn_fields :: "(jsnum \<Rightarrow> string) \<Rightarrow> json \<Rightarrow> (string, string) jsmap option" where
  "vpn_fields num r =
     (case field_of r ''spec'' of
        None \<Rightarrow> None
      | Some spec \<Rightarrow>
          if \<not> is_object spec then None
          else let text = vpnConnectionKey num (Some spec)
               in if \<not> has_text (quoted ''vaultEntryId'') text then None
                  else Some [(''connection'', text), (''ws'', str (field_of r ''workspaceId''))])"

definition fieldsOf :: "(jsnum \<Rightarrow> string) \<Rightarrow> HeldKind \<Rightarrow> json \<Rightarrow> (string, string) jsmap option" where
  "fieldsOf num kind r =
     (case kind of
        KServer \<Rightarrow> Some (server_fields num r)
      | KDatabase \<Rightarrow> Some (database_fields r)
      | KCicd \<Rightarrow> Some (cicd_fields num r)
      | KVpn \<Rightarrow> vpn_fields num r)"

definition fields_or_none :: "(jsnum \<Rightarrow> string) \<Rightarrow> HeldKind \<Rightarrow> json \<Rightarrow> (string, string) jsmap" where
  "fields_or_none num kind r = nullish (fieldsOf num kind r) []"

subsection \<open>Kinds and records\<close>

fun kind_name :: "HeldKind \<Rightarrow> string" where
  "kind_name KServer = ''server''"
| "kind_name KDatabase = ''database''"
| "kind_name KCicd = ''cicd''"
| "kind_name KVpn = ''vpn''"

fun COLLECTION :: "HeldKind \<Rightarrow> string" where
  "COLLECTION KServer = ''servers''"
| "COLLECTION KDatabase = ''databases''"
| "COLLECTION KCicd = ''cicdConnections''"
| "COLLECTION KVpn = ''vpns''"

definition KINDS :: "HeldKind list" where
  "KINDS = [KServer, KDatabase, KCicd, KVpn]"

definition mark_key :: "HeldKind \<Rightarrow> string \<Rightarrow> string" where
  "mark_key kind i = kind_name kind @ '':'' @ i"

definition hashOf :: "(string \<Rightarrow> string) \<Rightarrow> HeldKind \<Rightarrow> string \<Rightarrow> string \<Rightarrow> string \<Rightarrow> string" where
  "hashOf digest kind i f v = digest (kind_name kind @ nul_text @ i @ nul_text @ f @ nul_text @ v)"

definition rec_id :: "json \<Rightarrow> string" where
  "rec_id r = str (field_of r ''id'')"

definition with_ids :: "json list \<Rightarrow> json list" where
  "with_ids xs = filter (\<lambda>r. is_object r \<and> as_string (field_of r ''id'') \<noteq> None) xs"

definition recordsOf :: "json option \<Rightarrow> HeldKind \<Rightarrow> json list" where
  "recordsOf data kind =
     (case Option.bind data (\<lambda>d. field_of d (COLLECTION kind)) of
        Some (JArr xs) \<Rightarrow> with_ids xs
      | _ \<Rightarrow> [])"

subsection \<open>Marking one record\<close>

definition moved_by_sync :: "Mark option \<Rightarrow> json \<Rightarrow> json \<Rightarrow> (string \<times> string) option" where
  "moved_by_sync prev r local =
     (let here = str (field_of local ''workspaceId'');
          was = (case Option.bind prev mk_ws of
                   Some (was, now) \<Rightarrow> if now = here then was else here
                 | None \<Rightarrow> here);
          now = str (field_of r ''workspaceId'')
      in if was \<noteq> [] \<and> now \<noteq> [] \<and> was \<noteq> now then Some (was, now) else None)"

definition mark_changed :: "(string \<Rightarrow> string) \<Rightarrow> HeldKind \<Rightarrow> string \<Rightarrow> (string, string) jsmap option
    \<Rightarrow> (string, string) jsmap \<Rightarrow> (string, string) jsmap \<Rightarrow> (string, string) jsmap" where
  "mark_changed digest kind i was now old =
     foldl (\<lambda>acc (f, v).
         if was = None \<or> map_of (nullish was []) f \<noteq> Some v
         then AList.update f (hashOf digest kind i f v) acc else acc) old now"

definition new_mark :: "trust_env \<Rightarrow> Mark option \<Rightarrow> HeldKind \<Rightarrow> json \<Rightarrow> json option \<Rightarrow> Mark" where
  "new_mark e prev kind r local =
     \<lparr>mk_fields = mark_changed (te_digest e) kind (rec_id r)
        (map_option (fields_or_none (te_num e) kind) local) (fields_or_none (te_num e) kind r)
        (case prev of Some m \<Rightarrow> mk_fields m | None \<Rightarrow> []),
      mk_arrived = (local = None \<or> (case prev of Some m \<Rightarrow> mk_arrived m | None \<Rightarrow> False)),
      mk_ws = (case local of Some l \<Rightarrow> if kind = KServer then moved_by_sync prev r l else None | None \<Rightarrow> None)\<rparr>"

definition markRecord :: "trust_env \<Rightarrow> HeldKind \<Rightarrow> json \<Rightarrow> json option \<Rightarrow> TrustFile \<Rightarrow> TrustFile" where
  "markRecord e kind r local t =
     (let key = mark_key kind (rec_id r);
          mark = new_mark e (map_of (tf_marks t) key) kind r local
      in if mk_fields mark \<noteq> [] \<or> mk_ws mark \<noteq> None
         then t\<lparr>tf_marks := AList.update key mark (tf_marks t)\<rparr> else t)"

subsection \<open>The file\<close>

definition empty_trust :: TrustFile where
  "empty_trust = \<lparr>tf_marks = [], tf_hostKeys = [], tf_linksSeeded = False, tf_unreadable = False\<rparr>"

fun read_trust :: "trust_disk \<Rightarrow> TrustFile" where
  "read_trust NoTrust = empty_trust"
| "read_trust (TrustOn t) = t\<lparr>tf_unreadable := False\<rparr>"
| "read_trust DamagedTrust = empty_trust\<lparr>tf_unreadable := True\<rparr>"

definition rebuilt :: "trust_env \<Rightarrow> TrustFile \<Rightarrow> TrustFile" where
  "rebuilt e t =
     foldl (\<lambda>t (kind, r). markRecord e kind r None t) (t\<lparr>tf_unreadable := False\<rparr>)
       (concat (map (\<lambda>kind. map (Pair kind) (recordsOf (te_data e) kind)) KINDS))"

definition open_trust :: "trust_env \<Rightarrow> trust_disk \<Rightarrow> TrustFile" where
  "open_trust e d = (let t = read_trust d in if tf_unreadable t then rebuilt e t else t)"

text \<open>None is the exception of a file that cannot be written.\<close>

definition mutate :: "trust_env \<Rightarrow> (TrustFile \<Rightarrow> TrustFile) \<Rightarrow> trust_disk \<Rightarrow> trust_disk option" where
  "mutate e change d = (if te_writable e then Some (TrustOn (change (open_trust e d))) else None)"

subsection \<open>Marking what arrives\<close>

fun ids_refused :: "string list \<Rightarrow> json list \<Rightarrow> bool" where
  "ids_refused seen [] = False"
| "ids_refused seen (r # rs) =
     (if \<not> is_object r then ids_refused seen rs
      else case filled_text (field_of r ''id'') of
             None \<Rightarrow> True
           | Some i \<Rightarrow> i \<in> set seen \<or> ids_refused (i # seen) rs)"

definition by_id :: "json list \<Rightarrow> (string, json) jsmap" where
  "by_id rs = foldl (\<lambda>acc r. AList.update (rec_id r) r acc) [] rs"

definition forget_deleted :: "HeldKind \<Rightarrow> json list \<Rightarrow> TrustFile \<Rightarrow> TrustFile" where
  "forget_deleted kind theirs t =
     (let ids = map (\<lambda>r. mark_key kind (rec_id r)) theirs
      in t\<lparr>tf_marks := filter (\<lambda>(key, _). \<not> (starts_with (kind_name kind @ '':'') key \<and> key \<notin> set ids))
                          (tf_marks t)\<rparr>)"

definition mark_all :: "trust_env \<Rightarrow> HeldKind \<Rightarrow> json list \<Rightarrow> json list \<Rightarrow> TrustFile \<Rightarrow> TrustFile" where
  "mark_all e kind local theirs t =
     forget_deleted kind theirs
       (foldl (\<lambda>t r. markRecord e kind r (map_of (by_id local) (rec_id r)) t) t theirs)"

definition markArrivals :: "trust_env \<Rightarrow> HeldKind \<Rightarrow> json list \<Rightarrow> json list \<Rightarrow> trust_disk \<Rightarrow> trust_disk option" where
  "markArrivals e kind local incoming d =
     (if ids_refused [] incoming then None
      else mutate e (mark_all e kind (with_ids local) (with_ids incoming)) d)"

subsection \<open>Host keys\<close>

definition REMOVED :: string where
  "REMOVED = ''-removed-''"

definition fpOf :: "json option \<Rightarrow> string \<Rightarrow> string option" where
  "fpOf m i =
     Option.bind (Option.bind m (\<lambda>v. map_of (js_entries v) i)) (\<lambda>r. as_string (field_of r ''fingerprint''))"

definition key_names :: "json option \<Rightarrow> string list" where
  "key_names m = (case m of Some v \<Rightarrow> map fst (js_entries v) | None \<Rightarrow> [])"

definition mark_arrived_key :: "json option \<Rightarrow> json option \<Rightarrow> TrustFile \<Rightarrow> string \<Rightarrow> TrustFile" where
  "mark_arrived_key local incoming t i =
     (case fpOf incoming i of
        None \<Rightarrow> t
      | Some fp \<Rightarrow>
          let mine = fpOf local i
          in if fp = [] \<or> mine = Some fp then t
             else let before =
                      (case map_of (tf_hostKeys t) i of
                         Some prev \<Rightarrow> if mine = Some (hm_fp prev) \<or> hm_fp prev = REMOVED \<and> mine = None
                                     then hm_mine prev else mine
                       | None \<Rightarrow> mine)
                  in t\<lparr>tf_hostKeys := AList.update i
                         \<lparr>hm_fp = fp, hm_mine = (if before = Some [] then None else before)\<rparr> (tf_hostKeys t)\<rparr>)"

definition mark_removed_key :: "json option \<Rightarrow> json option \<Rightarrow> TrustFile \<Rightarrow> string \<Rightarrow> TrustFile" where
  "mark_removed_key local incoming t i =
     (case fpOf local i of
        None \<Rightarrow> t
      | Some mine \<Rightarrow>
          if mine \<noteq> [] \<and> fpOf incoming i = None \<and> map_of (tf_hostKeys t) i = None
          then t\<lparr>tf_hostKeys := AList.update i \<lparr>hm_fp = REMOVED, hm_mine = Some mine\<rparr> (tf_hostKeys t)\<rparr>
          else t)"

definition mark_host_keys :: "json option \<Rightarrow> json option \<Rightarrow> TrustFile \<Rightarrow> TrustFile" where
  "mark_host_keys local incoming t =
     foldl (mark_removed_key local incoming)
       (foldl (mark_arrived_key local incoming) t (key_names incoming)) (key_names local)"

definition markHostKeyArrivals :: "trust_env \<Rightarrow> json option \<Rightarrow> json option \<Rightarrow> trust_disk \<Rightarrow> trust_disk option" where
  "markHostKeyArrivals e local incoming d = mutate e (mark_host_keys local incoming) d"

definition hostKeyExpected :: "trust_disk \<Rightarrow> string \<Rightarrow> string option \<Rightarrow> string option" where
  "hostKeyExpected d i fileFp =
     (let t = read_trust d
      in if tf_unreadable t then None
         else case map_of (tf_hostKeys t) i of
                Some m \<Rightarrow> if fileFp = Some (hm_fp m) \<or> hm_fp m = REMOVED \<and> fileFp = None
                          then hm_mine m else fileFp
              | None \<Rightarrow> fileFp)"

definition clearHostKeyMark :: "trust_env \<Rightarrow> string \<Rightarrow> trust_disk \<Rightarrow> trust_disk option" where
  "clearHostKeyMark e i d =
     (if map_of (tf_hostKeys (read_trust d)) i = None then Some d
      else mutate e (\<lambda>t. t\<lparr>tf_hostKeys := AList.delete i (tf_hostKeys t)\<rparr>) d)"

subsection \<open>Seeding and clearing\<close>

definition seed_record :: "trust_env \<Rightarrow> HeldKind \<Rightarrow> json \<Rightarrow> TrustFile \<Rightarrow> TrustFile" where
  "seed_record e kind r t =
     (case map_of (fields_or_none (te_num e) kind r) ''credential'' of
        None \<Rightarrow> t
      | Some credential \<Rightarrow>
          if credential = [] then t
          else let key = mark_key kind (rec_id r);
                   prev = nullish (map_of (tf_marks t) key) \<lparr>mk_fields = [], mk_arrived = False, mk_ws = None\<rparr>
               in t\<lparr>tf_marks := AList.update key
                      (prev\<lparr>mk_fields := AList.update ''credential''
                              (hashOf (te_digest e) kind (rec_id r) ''credential'' credential) (mk_fields prev)\<rparr>)
                      (tf_marks t)\<rparr>)"

definition seedLinkMarks :: "trust_env \<Rightarrow> json option \<Rightarrow> trust_disk \<Rightarrow> trust_disk option" where
  "seedLinkMarks e data d =
     (if tf_linksSeeded (read_trust d) then Some d
      else mutate e (\<lambda>t.
          (foldl (\<lambda>t (kind, r). seed_record e kind r t) t
             (map (Pair KServer) (recordsOf data KServer) @ map (Pair KDatabase) (recordsOf data KDatabase)))
          \<lparr>tf_linksSeeded := True\<rparr>) d)"

definition clearAllMarks :: "trust_env \<Rightarrow> trust_disk \<Rightarrow> trust_disk option" where
  "clearAllMarks e d =
     (if d = NoTrust then Some d
      else if te_writable e then Some (TrustOn (empty_trust\<lparr>tf_linksSeeded := True\<rparr>)) else None)"

definition confirmRecord :: "trust_env \<Rightarrow> HeldKind \<Rightarrow> string \<Rightarrow> trust_disk \<Rightarrow> trust_disk option" where
  "confirmRecord e kind i d =
     mutate e (\<lambda>t. t\<lparr>tf_marks := AList.delete (mark_key kind i) (tf_marks t)\<rparr>) d"

definition clear_fields_of :: "HeldKind \<Rightarrow> string \<Rightarrow> string list \<Rightarrow> TrustFile \<Rightarrow> TrustFile" where
  "clear_fields_of kind i keep t =
     (let key = mark_key kind i
      in case map_of (tf_marks t) key of
           None \<Rightarrow> t
         | Some m \<Rightarrow>
             let kept = filter (\<lambda>(f, _). f \<in> set keep) (mk_fields m)
             in if mk_ws m \<noteq> None \<or> kept \<noteq> []
                then t\<lparr>tf_marks := AList.update key \<lparr>mk_fields = kept, mk_arrived = False, mk_ws = mk_ws m\<rparr> (tf_marks t)\<rparr>
                else t\<lparr>tf_marks := AList.delete key (tf_marks t)\<rparr>)"

definition clearFields :: "trust_env \<Rightarrow> HeldKind \<Rightarrow> string \<Rightarrow> string list \<Rightarrow> trust_disk \<Rightarrow> trust_disk option" where
  "clearFields e kind i keep d = mutate e (clear_fields_of kind i keep) d"

definition owner_of :: "string \<Rightarrow> string" where
  "owner_of secretId =
     (if ends_with '':rdp'' secretId then take (length secretId - 4) secretId else secretId)"

definition confirmSecretOwner :: "trust_env \<Rightarrow> string \<Rightarrow> trust_disk \<Rightarrow> trust_disk option" where
  "confirmSecretOwner e secretId d =
     (let i = owner_of secretId;
          keep = (if ends_with '':rdp'' secretId then [''credential''] else []);
          clear = (\<lambda>kind d. if map_of (tf_marks (read_trust d)) (mark_key kind i) = None then Some d
                            else clearFields e kind i keep d)
      in Option.bind (clear KServer d) (clear KDatabase))"

subsection \<open>Checking\<close>

definition ownCredentialAside :: "trust_env \<Rightarrow> string \<Rightarrow> (string, string) jsmap \<Rightarrow> (string, string) jsmap" where
  "ownCredentialAside e i fs =
     (if map_of fs ''credential'' = None \<or> \<not> hasOwnCredential (te_secrets e) i then fs
      else filter (\<lambda>(f, _). f \<noteq> ''credential'') fs)"

definition field_held :: "trust_env \<Rightarrow> TrustFile \<Rightarrow> HeldKind \<Rightarrow> string \<Rightarrow> string \<Rightarrow> string \<Rightarrow> bool" where
  "field_held e t kind i f v =
     (case map_of (tf_marks t) (mark_key kind i) of
        None \<Rightarrow> False
      | Some m \<Rightarrow> map_of (mk_fields m) f = Some (hashOf (te_digest e) kind i f v))"

definition heldFields :: "trust_env \<Rightarrow> trust_disk \<Rightarrow> HeldKind \<Rightarrow> string \<Rightarrow> (string, string) jsmap \<Rightarrow> string list" where
  "heldFields e d kind i now =
     (let t = read_trust d
      in if tf_unreadable t then map fst now
         else map fst (filter (\<lambda>(f, v). field_held e t kind i f v) now))"

definition server_record :: "json option \<Rightarrow> string \<Rightarrow> json option" where
  "server_record data i = find (\<lambda>r. rec_id r = i) (recordsOf data KServer)"

definition serverFieldsNow :: "trust_env \<Rightarrow> string \<Rightarrow> string \<Rightarrow> (string, string) jsmap" where
  "serverFieldsNow e serverId dialled =
     (let i = owner_of serverId;
          r = nullish (server_record (te_data e) i) (JObj [(''host'', JStr dialled)]);
          fs = ownCredentialAside e i (fields_or_none (te_num e) KServer r)
      in if ends_with '':rdp'' serverId then filter (\<lambda>(f, _). f \<noteq> ''credential'') fs else fs)"

definition serverCredentialHeld :: "trust_env \<Rightarrow> trust_disk \<Rightarrow> string \<Rightarrow> string \<Rightarrow> bool" where
  "serverCredentialHeld e d secretId dialled =
     (heldFields e d KServer (owner_of secretId) (serverFieldsNow e secretId dialled) \<noteq> [])"

record db_config =
  dc_id :: "string option"
  dc_host :: string
  dc_via :: "string option"

definition databaseFieldsNow :: "trust_env \<Rightarrow> db_config \<Rightarrow> (string, string) jsmap" where
  "databaseFieldsNow e cfg =
     (let stored = (case find (\<lambda>r. Some (rec_id r) = dc_id cfg) (recordsOf (te_data e) KDatabase) of
                      Some r \<Rightarrow> fields_or_none (te_num e) KDatabase r
                    | None \<Rightarrow> [])
      in ownCredentialAside e (nullish (dc_id cfg) [])
           (AList.update ''via'' (nullish (dc_via cfg) [])
              (AList.update ''host'' (norm (Some (JStr (dc_host cfg)))) stored)))"

definition pendingMove :: "trust_disk \<Rightarrow> string \<Rightarrow> (string \<times> string) option" where
  "pendingMove d serverId =
     Option.bind (map_of (tf_marks (read_trust d)) (mark_key KServer serverId)) mk_ws"

text \<open>The dialog is the argument \<open>yes\<close>; what is nested in it is left out.\<close>

definition askToUse :: "trust_env \<Rightarrow> HeldKind \<Rightarrow> string \<Rightarrow> (string, string) jsmap \<Rightarrow> bool \<Rightarrow> trust_disk
    \<Rightarrow> (bool \<times> trust_disk) option" where
  "askToUse e kind i now yes d =
     (if heldFields e d kind i now = [] then Some (True, d)
      else if \<not> yes then Some (False, d)
      else map_option (Pair True) (clearFields e kind i [] d))"

subsection \<open>What is held, for the panel\<close>

record HeldRecord =
  hr_kind :: HeldKind
  hr_id :: string
  hr_name :: string
  hr_changed :: "string list"
  hr_arrived :: bool

definition LABEL :: "string \<Rightarrow> string" where
  "LABEL f =
     nullish (map_of
       [(''host'', ''address''), (''via'', ''jump host''), (''url'', ''address''), (''user'', ''user name''),
        (''credential'', ''saved credential''), (''tls'', ''certificate checks''), (''route'', ''route''),
        (''connection'', ''connection settings'')] f) f"

definition judged_fields :: "trust_env \<Rightarrow> HeldKind \<Rightarrow> string \<Rightarrow> json \<Rightarrow> (string, string) jsmap option" where
  "judged_fields e kind i r =
     map_option (if kind = KServer \<or> kind = KDatabase then ownCredentialAside e i else id)
       (fieldsOf (te_num e) kind r)"

definition held_changes :: "trust_env \<Rightarrow> trust_disk \<Rightarrow> HeldKind \<Rightarrow> string \<Rightarrow> json \<Rightarrow> string list" where
  "held_changes e d kind i r =
     (case judged_fields e kind i r of
        None \<Rightarrow> []
      | Some fs \<Rightarrow> map LABEL (heldFields e d kind i fs))"

definition has_secret :: "payload option \<Rightarrow> bool" where
  "has_secret s = (s \<noteq> None \<and> s \<noteq> Some (NotJson []))"

definition uses_credential :: "trust_env \<Rightarrow> HeldKind \<Rightarrow> string \<Rightarrow> bool" where
  "uses_credential e kind i =
     (kind \<noteq> KServer \<and> kind \<noteq> KDatabase
      \<or> has_secret (storedCredential (te_secrets e) (te_data e) i) \<or> has_secret (te_secrets e (i @ '':rdp'')))"

text \<open>A move is pending while the server is still where sync put it; a damaged file holds it too.\<close>

definition move_pending :: "trust_disk \<Rightarrow> json \<Rightarrow> bool" where
  "move_pending d r =
     (tf_unreadable (read_trust d)
      \<or> (case pendingMove d (rec_id r) of
           Some (_, now) \<Rightarrow> now = str (field_of r ''workspaceId'')
         | None \<Rightarrow> False))"

definition held_record :: "trust_env \<Rightarrow> trust_disk \<Rightarrow> HeldKind \<Rightarrow> json \<Rightarrow> HeldRecord option" where
  "held_record e d kind r =
     (let i = rec_id r;
          changes = (if uses_credential e kind i then held_changes e d kind i r else [])
                    @ (if kind = KServer \<and> move_pending d r then [''workspace''] else [])
      in if changes = [] then None
         else Some \<lparr>hr_kind = kind, hr_id = i,
                hr_name = (if str (field_of r ''name'') = [] then i else str (field_of r ''name'')),
                hr_changed = changes,
                hr_arrived = (case map_of (tf_marks (read_trust d)) (mark_key kind i) of
                                Some m \<Rightarrow> mk_arrived m | None \<Rightarrow> False)\<rparr>)"

definition heldRecords :: "trust_env \<Rightarrow> trust_disk \<Rightarrow> json option \<Rightarrow> HeldRecord list" where
  "heldRecords e d data =
     concat (map (\<lambda>kind. List.map_filter (held_record e d kind) (recordsOf data kind)) KINDS)"

end
