(* ===== verification/Sync_Sources.thy ===== *)
theory Sync_Sources
  imports Sync_Trust Rules
begin

section \<open>How an inbound collection lands (main/services/addy/collections.ts)\<close>

text \<open>
  A collection is read from and written to either a key of the data file or a file of its own.
  Five of them change what another device sent before it lands, and five mark what arrives
  first. An error has a code, when it is one of sync's own, and a message. The device is the data file, the other files, the marks and the keys the window has
  still to reload. A write that throws keeps what was saved before it threw.
\<close>

datatype addy_error = AddyError string string | OtherError string

datatype data_file = NoData | UnreadableData | DataOf "(string, json) jsmap"

record device =
  dv_data :: data_file
  dv_files :: "(string, payload) jsmap"
  dv_trust :: trust_disk
  dv_awaiting :: "(string, int) jsmap"

text \<open>\<open>saves\<close>: whether \<open>saveData\<close>, which reports no failure, reaches the disk.\<close>

record device_env = trust_env +
  de_saves :: bool
  de_file_ok :: bool
  de_now :: int

record 'd source =
  src_read :: "'d \<Rightarrow> addy_error + payload option"
  src_write :: "payload \<Rightarrow> 'd \<Rightarrow> 'd \<times> addy_error option"

subsection \<open>The data file\<close>

definition loadData :: "device \<Rightarrow> json option" where
  "loadData dv = (case dv_data dv of DataOf kvs \<Rightarrow> Some (JObj kvs) | _ \<Rightarrow> None)"

definition blobOrRefuse :: "device \<Rightarrow> addy_error + (string, json) jsmap option" where
  "blobOrRefuse dv =
     (case dv_data dv of
        DataOf kvs \<Rightarrow> Inr (Some kvs)
      | UnreadableData \<Rightarrow> Inl (AddyError ''config-invalid'' ''main.addy.collections.dataUnreadable'')
      | NoData \<Rightarrow> Inr None)"

definition read_key :: "string \<Rightarrow> device \<Rightarrow> addy_error + payload option" where
  "read_key key dv =
     (case blobOrRefuse dv of
        Inl err \<Rightarrow> Inl err
      | Inr None \<Rightarrow> Inr None
      | Inr (Some kvs) \<Rightarrow> Inr (map_option Doc (map_of kvs key)))"

definition write_key :: "device_env \<Rightarrow> string \<Rightarrow> payload \<Rightarrow> device \<Rightarrow> device \<times> addy_error option" where
  "write_key e key body dv =
     (case blobOrRefuse dv of
        Inl err \<Rightarrow> (dv, Some err)
      | Inr data \<Rightarrow>
          (case body of
             NotJson _ \<Rightarrow> (dv, Some (OtherError []))
           | Doc v \<Rightarrow>
               let saved = (if de_saves e then dv\<lparr>dv_data := DataOf (AList.update key v (nullish data []))\<rparr>
                            else dv);
                   back = Option.bind (loadData saved) (\<lambda>d. field_of d key)
               in if back \<noteq> Some v then (saved, Some (AddyError ''internal'' ''main.addy.collections.writeFailed''))
                  else (saved\<lparr>dv_awaiting := AList.update key (de_now e) (dv_awaiting saved)\<rparr>, None)))"

definition blobKey :: "device_env \<Rightarrow> string \<Rightarrow> device source" where
  "blobKey e key = \<lparr>src_read = read_key key, src_write = write_key e key\<rparr>"

definition write_file :: "device_env \<Rightarrow> string \<Rightarrow> payload \<Rightarrow> device \<Rightarrow> device \<times> addy_error option" where
  "write_file e name body dv =
     (if de_file_ok e then (dv\<lparr>dv_files := AList.update name body (dv_files dv)\<rparr>, None)
      else (dv, Some (OtherError [])))"

definition wholeFile :: "device_env \<Rightarrow> string \<Rightarrow> device source" where
  "wholeFile e name = \<lparr>src_read = (\<lambda>dv. Inr (map_of (dv_files dv) name)), src_write = write_file e name\<rparr>"

subsection \<open>What the window may write back\<close>

definition RELOAD_GRACE_MS :: int where
  "RELOAD_GRACE_MS = 10000"

definition fresh_reloads :: "device_env \<Rightarrow> device \<Rightarrow> (string, int) jsmap" where
  "fresh_reloads e dv = filter (\<lambda>(_, t). \<not> (de_now e - t > RELOAD_GRACE_MS)) (dv_awaiting dv)"

definition holdSyncedKeys :: "device_env \<Rightarrow> json option \<Rightarrow> device \<Rightarrow> device \<times> json option" where
  "holdSyncedKeys e incoming dv =
     (let waiting = fresh_reloads e dv; dv' = dv\<lparr>dv_awaiting := waiting\<rparr>
      in if waiting = [] then (dv', incoming)
         else case incoming of
             None \<Rightarrow> (dv', None)
           | Some v \<Rightarrow>
               if \<not> is_object v then (dv', Some v)
               else case loadData dv' of
                   None \<Rightarrow> (dv', Some v)
                 | Some disk \<Rightarrow>
                     (dv', Some (JObj (foldl (\<lambda>held (key, _).
                         case field_of disk key of Some x \<Rightarrow> AList.update key x held | None \<Rightarrow> held)
                       (js_entries v) waiting))))"

definition rendererReloaded :: "device \<Rightarrow> device" where
  "rendererReloaded dv = dv\<lparr>dv_awaiting := []\<rparr>"

subsection \<open>Servers arrive disconnected\<close>

definition arrive_offline :: "json \<Rightarrow> json" where
  "arrive_offline sv = JObj (AList.update ''status'' (JStr ''offline'') (js_entries sv))"

definition serversSource :: "device_env \<Rightarrow> device source" where
  "serversSource e =
     \<lparr>src_read = read_key ''servers'',
      src_write = (\<lambda>body dv.
        case body of
          NotJson _ \<Rightarrow> (dv, Some (OtherError []))
        | Doc (JArr xs) \<Rightarrow> write_key e ''servers'' (Doc (JArr (map arrive_offline xs))) dv
        | Doc v \<Rightarrow> write_key e ''servers'' body dv)\<rparr>"

subsection \<open>VPN profiles arrive without what belongs to another machine\<close>

definition parseList :: "payload option \<Rightarrow> json list" where
  "parseList buf = (case buf of Some (Doc (JArr xs)) \<Rightarrow> filter is_object xs | _ \<Rightarrow> [])"

definition isReverseProxyKind :: "json option \<Rightarrow> bool" where
  "isReverseProxyKind kind = (kind = Some (JStr ''frp'') \<or> kind = Some (JStr ''ngrok''))"

definition no_auto_start :: "(string, json) jsmap \<Rightarrow> (string, json) jsmap" where
  "no_auto_start p = AList.update ''autoStart'' (JBool False) p"

definition stop_auto :: "bool \<Rightarrow> (string, json) jsmap \<Rightarrow> (string, json) jsmap" where
  "stop_auto c p = (if c then no_auto_start p else p)"

definition strip_paths :: "json \<Rightarrow> (string, json) jsmap \<Rightarrow> (string, json) jsmap" where
  "strip_paths spec p =
     (if field_of spec ''kind'' = Some (JStr ''openvpn'')
      then AList.update ''spec'' (JObj (without [''binaryPath'', ''sourcePath''] (js_entries spec))) p
      else p)"

definition landProfile :: "(jsnum \<Rightarrow> string) \<Rightarrow> (string, string) jsmap \<Rightarrow> json \<Rightarrow> json" where
  "landProfile num before raw =
     (if \<not> is_object raw then raw
      else let profile = js_entries raw
           in case map_of profile ''spec'' of
                None \<Rightarrow> JObj profile
              | Some spec \<Rightarrow>
                  if \<not> is_object spec then JObj profile
                  else let p = stop_auto (isReverseProxyKind (field_of spec ''kind'')) (strip_paths spec profile);
                           mine = Option.bind (as_string (map_of p ''id'')) (map_of before)
                       in JObj (stop_auto (mine \<noteq> None \<and> mine \<noteq> Some (vpnConnectionKey num (map_of p ''spec''))) p))"

definition connections_by_id :: "(jsnum \<Rightarrow> string) \<Rightarrow> json list \<Rightarrow> (string, string) jsmap" where
  "connections_by_id num ps =
     foldl (\<lambda>acc p. case as_string (field_of p ''id'') of
         Some i \<Rightarrow> AList.update i (vpnConnectionKey num (field_of p ''spec'')) acc
       | None \<Rightarrow> acc) [] ps"

definition vpnsSource :: "device_env \<Rightarrow> device source" where
  "vpnsSource e =
     \<lparr>src_read = read_key ''vpns'',
      src_write = (\<lambda>body dv.
        case body of
          NotJson _ \<Rightarrow> (dv, Some (OtherError []))
        | Doc (JArr xs) \<Rightarrow>
            (case read_key ''vpns'' dv of
               Inl err \<Rightarrow> (dv, Some err)
             | Inr mine \<Rightarrow>
                 write_key e ''vpns'' (Doc (JArr (map (landProfile (te_num e)
                     (connections_by_id (te_num e) (parseList mine))) xs))) dv)
        | Doc v \<Rightarrow> write_key e ''vpns'' body dv)\<rparr>"

subsection \<open>Pointers to secrets are never dropped\<close>

text \<open>\<open>===\<close> on values that came from different texts: two objects are never the same one.\<close>

fun strict_eq :: "json option \<Rightarrow> json option \<Rightarrow> bool" where
  "strict_eq (Some (JArr _)) _ = False"
| "strict_eq (Some (JObj _)) _ = False"
| "strict_eq (Some (JNum NaN)) _ = False"
| "strict_eq a b = (a = b)"

definition same_ref :: "json \<Rightarrow> json \<Rightarrow> bool" where
  "same_ref a b =
     list_all (\<lambda>f. strict_eq (field_of a f) (field_of b f))
       [''serverId'', ''vaultEntryId'', ''slot'', ''fieldKey'']"

definition keep_ref :: "json list \<Rightarrow> json \<Rightarrow> json list" where
  "keep_ref merged ref =
     (if list_ex (\<lambda>r. is_object r \<and> same_ref r ref) merged then merged else merged @ [ref])"

definition ENV_FILE :: string where
  "ENV_FILE = ''opsmaxx-env-secrets.json''"

definition envSource :: "device_env \<Rightarrow> device source" where
  "envSource e =
     \<lparr>src_read = (\<lambda>dv. Inr (map_of (dv_files dv) ENV_FILE)),
      src_write = (\<lambda>body dv.
        case body of
          NotJson _ \<Rightarrow> (dv, Some (OtherError []))
        | Doc (JArr xs) \<Rightarrow>
            write_file e ENV_FILE
              (Doc (JArr (foldl keep_ref xs (parseList (map_of (dv_files dv) ENV_FILE))))) dv
        | Doc v \<Rightarrow> write_file e ENV_FILE body dv)\<rparr>"

subsection \<open>Checks run at this machine's pace and with its own trust\<close>

definition check_interval :: "json option \<Rightarrow> rat" where
  "check_interval v = (case js_number v of Fin n \<Rightarrow> min (max n 60) 86400 | _ \<Rightarrow> 60)"

fun insecure_here :: "json list \<Rightarrow> json option \<Rightarrow> bool" where
  "insecure_here [] i = False"
| "insecure_here (c # cs) i =
     (if list_ex (\<lambda>d. strict_eq (field_of d ''id'') i) cs then insecure_here cs i
      else strict_eq (field_of c ''id'') i \<and> field_of c ''insecureTls'' = Some (JBool True))"

definition land_check :: "json list \<Rightarrow> json \<Rightarrow> json" where
  "land_check mine raw =
     (if \<not> is_object raw then raw
      else let check = AList.update ''intervalSec''
                         (JNum (Fin (check_interval (map_of (js_entries raw) ''intervalSec'')))) (js_entries raw)
           in JObj (if insecure_here mine (map_of check ''id'')
                    then AList.update ''insecureTls'' (JBool True) check
                    else AList.delete ''insecureTls'' check))"

definition httpChecksSource :: "device_env \<Rightarrow> device source" where
  "httpChecksSource e =
     \<lparr>src_read = read_key ''httpChecks'',
      src_write = (\<lambda>body dv.
        case body of
          NotJson _ \<Rightarrow> (dv, Some (OtherError []))
        | Doc (JArr xs) \<Rightarrow>
            (case read_key ''httpChecks'' dv of
               Inl err \<Rightarrow> (dv, Some err)
             | Inr mine \<Rightarrow> write_key e ''httpChecks'' (Doc (JArr (map (land_check (parseList mine)) xs))) dv)
        | Doc v \<Rightarrow> write_key e ''httpChecks'' body dv)\<rparr>"

subsection \<open>Marked first, then landed\<close>

definition env_at :: "device_env \<Rightarrow> device \<Rightarrow> device_env" where
  "env_at e dv = e\<lparr>te_data := loadData dv\<rparr>"

definition marking :: "device_env \<Rightarrow> HeldKind \<Rightarrow> device source \<Rightarrow> device source" where
  "marking e kind inner =
     \<lparr>src_read = src_read inner,
      src_write = (\<lambda>body dv.
        case body of
          NotJson _ \<Rightarrow> (dv, Some (OtherError []))
        | Doc (JArr xs) \<Rightarrow>
            (case src_read inner dv of
               Inl err \<Rightarrow> (dv, Some err)
             | Inr mine \<Rightarrow>
                 (case markArrivals (trust_env.truncate (env_at e dv)) kind (parseList mine) xs (dv_trust dv) of
                    None \<Rightarrow> (dv, Some (OtherError []))
                  | Some t \<Rightarrow> src_write inner body (dv\<lparr>dv_trust := t\<rparr>)))
        | Doc v \<Rightarrow> src_write inner body dv)\<rparr>"

definition KNOWN_HOSTS_FILE :: string where
  "KNOWN_HOSTS_FILE = ''opsmaxx-known-hosts.json''"

definition knownHostsSource :: "device_env \<Rightarrow> device source" where
  "knownHostsSource e =
     \<lparr>src_read = (\<lambda>dv. Inr (map_of (dv_files dv) KNOWN_HOSTS_FILE)),
      src_write = (\<lambda>body dv.
        case body of
          NotJson _ \<Rightarrow> (dv, Some (OtherError []))
        | Doc incoming \<Rightarrow>
            (let mine = (case map_of (dv_files dv) KNOWN_HOSTS_FILE of Some (Doc v) \<Rightarrow> v | _ \<Rightarrow> JObj [])
             in case markHostKeyArrivals (trust_env.truncate (env_at e dv)) (Some mine) (Some incoming) (dv_trust dv) of
                  None \<Rightarrow> (dv, Some (OtherError []))
                | Some t \<Rightarrow> write_file e KNOWN_HOSTS_FILE body (dv\<lparr>dv_trust := t\<rparr>)))\<rparr>"

subsection \<open>The table\<close>

definition SYNCED_COLLECTIONS :: "string list" where
  "SYNCED_COLLECTIONS =
     [''apiCollections'', ''apiWorkspace'', ''cicdConnections'', ''databases'', ''deviceNames'', ''env'',
      ''folders'', ''httpChecks'', ''knownHosts'', ''manifest'', ''monitorGroups'', ''servers'', ''tunnels'',
      ''vault'', ''vpns'', ''workspaces'']"

definition SOURCES :: "device_env \<Rightarrow> string \<Rightarrow> device source option" where
  "SOURCES e name =
     (if name \<in> set [''apiCollections'', ''apiWorkspace'', ''folders'', ''monitorGroups'', ''tunnels'', ''workspaces'']
      then Some (blobKey e name)
      else if name = ''cicdConnections'' then Some (marking e KCicd (blobKey e ''cicdConnections''))
      else if name = ''databases'' then Some (marking e KDatabase (blobKey e ''databases''))
      else if name = ''httpChecks'' then Some (httpChecksSource e)
      else if name = ''servers'' then Some (marking e KServer (serversSource e))
      else if name = ''vpns'' then Some (marking e KVpn (vpnsSource e))
      else if name = ''vault'' then Some (wholeFile e ''opsmaxx-vault.json'')
      else if name = ''knownHosts'' then Some (knownHostsSource e)
      else if name = ''env'' then Some (envSource e)
      else None)"

definition PENDING :: "string list" where
  "PENDING = [''manifest'', ''deviceNames'']"

definition unaccountedCollections :: "device_env \<Rightarrow> string list" where
  "unaccountedCollections e = filter (\<lambda>c. SOURCES e c = None \<and> c \<notin> set PENDING) SYNCED_COLLECTIONS"

end
