(* ===== verification/Sync_Trust_Laws.thy ===== *)
theory Sync_Trust_Laws
  imports Sync_Sources
begin

section \<open>What arrives unconfirmed is held\<close>

text \<open>
  The lookup of a mark after one record was marked, after a whole collection was, and after
  the file was rebuilt from damage; then what a written collection leaves on the disk.
\<close>

subsection \<open>Keys and fields\<close>

lemma mark_key_inj [simp]: "mark_key k i = mark_key k' i' \<longleftrightarrow> k = k' \<and> i = i'"
  by (cases k; cases k') (auto simp: mark_key_def)

lemma starts_with_kind [simp]: "starts_with (kind_name k @ '':'') (mark_key k' i) \<longleftrightarrow> k = k'"
  by (cases k; cases k') (auto simp: mark_key_def)

lemma fields_distinct: "distinct (map fst (fields_or_none num kind r))"
  by (cases kind)
     (auto simp: fields_or_none_def fieldsOf_def server_fields_def database_fields_def cicd_fields_def
        vpn_fields_def Let_def split: option.splits)

lemma map_of_mark_changed:
  assumes "distinct (map fst now)"
  shows "map_of (mark_changed dg kind i was now old) f =
     (case map_of now f of
        None \<Rightarrow> map_of old f
      | Some v \<Rightarrow> if was = None \<or> map_of (nullish was []) f \<noteq> Some v then Some (hashOf dg kind i f v)
                  else map_of old f)"
  using assms
proof (induction now arbitrary: old)
  case Nil
  then show ?case by (simp add: mark_changed_def)
next
  case (Cons p now)
  obtain g w where p: "p = (g, w)" by (cases p)
  have step: "mark_changed dg kind i was (p # now) old =
      mark_changed dg kind i was now
        (if was = None \<or> map_of (nullish was []) g \<noteq> Some w then AList.update g (hashOf dg kind i g w) old else old)"
    by (simp add: mark_changed_def p)
  have none: "map_of now g = None" using Cons.prems by (simp add: p map_of_eq_None_iff)
  show ?case
    unfolding step using Cons.IH Cons.prems none by (auto simp: p map_of_update_eq split: option.split)
qed

subsection \<open>One record\<close>

definition held_in :: "trust_env \<Rightarrow> TrustFile \<Rightarrow> HeldKind \<Rightarrow> string \<Rightarrow> string \<Rightarrow> string \<Rightarrow> bool" where
  "held_in e t kind i f v =
     (\<exists>m. map_of (tf_marks t) (mark_key kind i) = Some m \<and>
          map_of (mk_fields m) f = Some (hashOf (te_digest e) kind i f v))"

lemma field_held_eq: "field_held e t kind i f v = held_in e t kind i f v"
  by (auto simp: field_held_def held_in_def split: option.split)

lemma markRecord_other:
  "(kind, rec_id r) \<noteq> (k, i) \<Longrightarrow> map_of (tf_marks (markRecord e kind r local t)) (mark_key k i) = map_of (tf_marks t) (mark_key k i)"
  by (auto simp: markRecord_def Let_def map_of_update_eq)

lemma new_mark_field:
  "map_of (mk_fields (new_mark e prev kind r local)) f =
     (case map_of (fields_or_none (te_num e) kind r) f of
        None \<Rightarrow> Option.bind prev (\<lambda>m. map_of (mk_fields m) f)
      | Some v \<Rightarrow> if local = None \<or> map_of (fields_or_none (te_num e) kind (the local)) f \<noteq> Some v
                  then Some (hashOf (te_digest e) kind (rec_id r) f v)
                  else Option.bind prev (\<lambda>m. map_of (mk_fields m) f))"
  by (cases local; cases prev)
     (auto simp: new_mark_def map_of_mark_changed [OF fields_distinct] split: option.split)

lemma held_after_mark:
  assumes "map_of (fields_or_none (te_num e) kind r) f = Some v"
  shows "held_in e (markRecord e kind r local t) kind (rec_id r) f v \<longleftrightarrow>
     local = None \<or> map_of (fields_or_none (te_num e) kind (the local)) f \<noteq> Some v
     \<or> held_in e t kind (rec_id r) f v"
proof -
  let ?prev = "map_of (tf_marks t) (mark_key kind (rec_id r))"
  let ?mark = "new_mark e ?prev kind r local"
  have field: "map_of (mk_fields ?mark) f =
      (if local = None \<or> map_of (fields_or_none (te_num e) kind (the local)) f \<noteq> Some v
       then Some (hashOf (te_digest e) kind (rec_id r) f v)
       else Option.bind ?prev (\<lambda>m. map_of (mk_fields m) f))"
    using assms by (simp add: new_mark_field)
  have prev: "held_in e t kind (rec_id r) f v \<longleftrightarrow>
      Option.bind ?prev (\<lambda>m. map_of (mk_fields m) f) = Some (hashOf (te_digest e) kind (rec_id r) f v)"
    by (cases ?prev) (auto simp: held_in_def)
  show ?thesis
  proof (cases "mk_fields ?mark \<noteq> [] \<or> mk_ws ?mark \<noteq> None")
    case True
    then have "held_in e (markRecord e kind r local t) kind (rec_id r) f v \<longleftrightarrow>
        map_of (mk_fields ?mark) f = Some (hashOf (te_digest e) kind (rec_id r) f v)"
      by (simp add: held_in_def markRecord_def Let_def map_of_update_eq)
    then show ?thesis by (auto simp: field prev)
  next
    case False
    then have "map_of (mk_fields ?mark) f = None" by simp
    then have same: "\<not> (local = None \<or> map_of (fields_or_none (te_num e) kind (the local)) f \<noteq> Some v)"
      by (auto simp: field split: if_splits)
    have "markRecord e kind r local t = t" using False by (simp add: markRecord_def Let_def)
    with same show ?thesis by auto
  qed
qed

lemma held_in_cong:
  "map_of (tf_marks t) (mark_key k i) = map_of (tf_marks t') (mark_key k i) \<Longrightarrow>
   held_in e t k i f v = held_in e t' k i f v"
  by (simp add: held_in_def)

subsection \<open>A whole collection\<close>

lemma marks_of_others:
  "i \<notin> rec_id ` set rs \<Longrightarrow>
   map_of (tf_marks (foldl (\<lambda>t r. markRecord e kind r (loc r) t) t rs)) (mark_key kind i) = map_of (tf_marks t) (mark_key kind i)"
  by (induction rs arbitrary: t) (auto simp: markRecord_other)

lemma held_after_all:
  assumes "distinct (map rec_id rs)" "r \<in> set rs"
    and "map_of (fields_or_none (te_num e) kind r) f = Some v"
  shows "held_in e (foldl (\<lambda>t r. markRecord e kind r (loc r) t) t rs) kind (rec_id r) f v \<longleftrightarrow>
     loc r = None \<or> map_of (fields_or_none (te_num e) kind (the (loc r))) f \<noteq> Some v
     \<or> held_in e t kind (rec_id r) f v"
  using assms
proof (induction rs arbitrary: t)
  case Nil
  then show ?case by simp
next
  case (Cons x rs)
  show ?case
  proof (cases "r = x")
    case True
    have fresh: "rec_id x \<notin> rec_id ` set rs" using Cons.prems(1) by simp
    have "held_in e (foldl (\<lambda>t r. markRecord e kind r (loc r) t) (markRecord e kind x (loc x) t) rs) kind (rec_id x) f v
        = held_in e (markRecord e kind x (loc x) t) kind (rec_id x) f v"
      by (intro held_in_cong marks_of_others fresh)
    then show ?thesis using held_after_mark [OF Cons.prems(3), of "loc x" t] by (simp add: True)
  next
    case False
    then have mem: "r \<in> set rs" using Cons.prems(2) by simp
    then have ne: "rec_id x \<noteq> rec_id r" using Cons.prems(1) by auto
    have "held_in e (markRecord e kind x (loc x) t) kind (rec_id r) f v = held_in e t kind (rec_id r) f v"
      by (intro held_in_cong markRecord_other) (use ne in auto)
    then show ?thesis using Cons.IH [of "markRecord e kind x (loc x) t"] Cons.prems mem by simp
  qed
qed

lemma map_of_keys_filter: "map_of (filter (\<lambda>(k, _). P k) m) k = (if P k then map_of m k else None)"
  by (induction m) auto

lemma forget_deleted_keeps:
  assumes "r \<in> set theirs"
  shows "map_of (tf_marks (forget_deleted kind theirs t)) (mark_key kind (rec_id r)) = map_of (tf_marks t) (mark_key kind (rec_id r))"
proof -
  have "mark_key kind (rec_id r) \<in> set (map (\<lambda>r. mark_key kind (rec_id r)) theirs)" using assms by auto
  then show ?thesis by (simp add: forget_deleted_def Let_def map_of_keys_filter)
qed

lemma rec_id_non_empty: "filled_text (field_of r ''id'') = Some i \<Longrightarrow> rec_id r = i \<and> as_string (field_of r ''id'') = Some i"
  by (auto simp: filled_text_def rec_id_def str_def split: option.splits if_splits)

lemma ids_refused_False:
  assumes "\<not> ids_refused seen rs"
  shows "distinct (map rec_id (with_ids rs)) \<and> set (map rec_id (with_ids rs)) \<inter> set seen = {}
    \<and> with_ids rs = filter is_object rs"
  using assms
proof (induction seen rs rule: ids_refused.induct)
  case (1 seen)
  then show ?case by (simp add: with_ids_def)
next
  case (2 seen r rs)
  show ?case
  proof (cases "is_object r")
    case False
    then have skip: "with_ids (r # rs) = with_ids rs" "filter is_object (r # rs) = filter is_object rs"
      by (simp_all add: with_ids_def)
    have "distinct (map rec_id (with_ids rs)) \<and> set (map rec_id (with_ids rs)) \<inter> set seen = {}
        \<and> with_ids rs = filter is_object rs"
      by (rule 2(1) [OF False]) (use 2(3) False in simp)
    then show ?thesis unfolding skip .
  next
    case True
    obtain i where i: "filled_text (field_of r ''id'') = Some i" "i \<notin> set seen" "\<not> ids_refused (i # seen) rs"
      using 2(3) True by (auto split: option.splits)
    have ids: "rec_id r = i" "as_string (field_of r ''id'') = Some i" using rec_id_non_empty [OF i(1)] by auto
    have w: "with_ids (r # rs) = r # with_ids rs" using True ids by (simp add: with_ids_def)
    have "distinct (map rec_id (with_ids rs)) \<and> set (map rec_id (with_ids rs)) \<inter> set (i # seen) = {}
        \<and> with_ids rs = filter is_object rs"
      by (rule 2(2)) (use i True in simp_all)
    then have IH: "distinct (map rec_id (with_ids rs))" "rec_id ` set (with_ids rs) \<inter> insert i (set seen) = {}"
        "with_ids rs = filter is_object rs"
      unfolding set_map list.set(2) by blast+
    then have "i \<notin> rec_id ` set (with_ids rs)" "rec_id ` set (with_ids rs) \<inter> set seen = {}" by blast+
    then have "distinct (map rec_id (r # with_ids rs)) \<and> set (map rec_id (r # with_ids rs)) \<inter> set seen = {}"
      using IH(1) i(2) ids(1) by simp
    moreover have "r # with_ids rs = filter is_object (r # rs)" using IH(3) True by simp
    ultimately show ?thesis unfolding w by blast
  qed
qed

lemma by_id_snoc: "by_id (rs @ [r]) = AList.update (rec_id r) r (by_id rs)"
  by (simp add: by_id_def)

lemma by_id_Some: "map_of (by_id rs) i = Some r \<Longrightarrow> r \<in> set rs \<and> rec_id r = i"
  by (induction rs rule: rev_induct) (auto simp: by_id_snoc map_of_update_eq by_id_def split: if_splits)

subsection \<open>The file rebuilt from damage\<close>

lemma rebuilding_holds:
  "map_of (by_id (map snd (filter (\<lambda>p. fst p = kind) ps))) i = Some l \<Longrightarrow>
   map_of (fields_or_none (te_num e) kind l) f = Some v \<Longrightarrow>
   held_in e (foldl (\<lambda>t (kind, r). markRecord e kind r None t) t ps) kind i f v"
proof (induction ps rule: rev_induct)
  case Nil
  then show ?case by (simp add: by_id_def)
next
  case (snoc p ps)
  obtain k r where p: "p = (k, r)" by (cases p)
  let ?t = "foldl (\<lambda>t (kind, r). markRecord e kind r None t) t ps"
  show ?case
  proof (cases "k = kind \<and> rec_id r = i")
    case True
    then have "l = r" using snoc.prems(1) by (simp add: p by_id_snoc map_of_update_eq)
    then show ?thesis using held_after_mark [OF snoc.prems(2), of None ?t] True by (simp add: p)
  next
    case False
    then have "map_of (by_id (map snd (filter (\<lambda>p. fst p = kind) ps))) i = Some l"
      using snoc.prems(1) by (auto simp: p by_id_snoc map_of_update_eq split: if_splits)
    then have "held_in e ?t kind i f v" using snoc.IH snoc.prems(2) by blast
    moreover have "held_in e (markRecord e k r None ?t) kind i f v = held_in e ?t kind i f v"
      by (intro held_in_cong markRecord_other) (use False in auto)
    ultimately show ?thesis by (simp add: p)
  qed
qed

lemma all_kinds: "map snd (filter (\<lambda>p. fst p = kind) (concat (map (\<lambda>kind. map (Pair kind) (rs kind)) KINDS))) = rs kind"
proof -
  have "filter (\<lambda>p. fst p = kind) (map (Pair k) xs) = (if k = kind then map (Pair k) xs else [])" for k and xs :: "'a list"
    by (induction xs) auto
  then show ?thesis by (cases kind) (simp_all add: KINDS_def comp_def)
qed

lemma rebuilt_holds:
  "map_of (by_id (recordsOf (te_data e) kind)) i = Some l \<Longrightarrow>
   map_of (fields_or_none (te_num e) kind l) f = Some v \<Longrightarrow> held_in e (rebuilt e t) kind i f v"
  unfolding rebuilt_def by (rule rebuilding_holds) (simp_all add: all_kinds)

subsection \<open>The marks after an arrival\<close>

lemma heldFields_iff:
  assumes "map_of now f = Some v" "distinct (map fst now)"
  shows "f \<in> set (heldFields e d kind i now) \<longleftrightarrow> tf_unreadable (read_trust d) \<or> held_in e (read_trust d) kind i f v"
proof -
  have "f \<in> fst ` set now" using assms(1) by (metis map_of_eq_None_iff option.distinct(1))
  moreover have "(\<exists>v'. (f, v') \<in> set now \<and> field_held e (read_trust d) kind i f v') \<longleftrightarrow> field_held e (read_trust d) kind i f v"
    using assms by (metis map_of_SomeD map_of_is_SomeI option.inject)
  ultimately show ?thesis
    by (auto simp: heldFields_def Let_def field_held_eq image_iff)
qed

lemma heldFields_stored:
  "map_of now f = Some v \<Longrightarrow> distinct (map fst now) \<Longrightarrow> \<not> tf_unreadable t \<Longrightarrow>
   f \<in> set (heldFields e (TrustOn t) kind i now) \<longleftrightarrow> held_in e t kind i f v"
  by (simp add: heldFields_iff held_in_def)

lemma mark_all_held:
  assumes "distinct (map rec_id theirs)" "r \<in> set theirs"
    and "map_of (fields_or_none (te_num e) kind r) f = Some v"
  shows "held_in e (mark_all e kind local theirs t) kind (rec_id r) f v \<longleftrightarrow>
     \<not> (\<exists>l. map_of (by_id local) (rec_id r) = Some l \<and> map_of (fields_or_none (te_num e) kind l) f = Some v
          \<and> \<not> held_in e t kind (rec_id r) f v)"
proof -
  have "held_in e (mark_all e kind local theirs t) kind (rec_id r) f v
      = held_in e (foldl (\<lambda>t r. markRecord e kind r (map_of (by_id local) (rec_id r)) t) t theirs) kind (rec_id r) f v"
    unfolding mark_all_def by (intro held_in_cong forget_deleted_keeps assms(2))
  then show ?thesis
    using held_after_all [OF assms, of "\<lambda>r. map_of (by_id local) (rec_id r)" t] by auto
qed

lemma markRecord_readable [simp]: "tf_unreadable (markRecord e kind r local t) = tf_unreadable t"
  by (simp add: markRecord_def Let_def)

lemma foldl_readable:
  "(\<And>x t. tf_unreadable (g t x) = tf_unreadable t) \<Longrightarrow> tf_unreadable (foldl g t xs) = tf_unreadable t"
  by (induction xs arbitrary: t) auto

lemma open_trust_readable [simp]: "\<not> tf_unreadable (open_trust e d)"
proof -
  have "tf_unreadable (rebuilt e t) = False" for t
    unfolding rebuilt_def by (subst foldl_readable) auto
  then show ?thesis by (simp add: open_trust_def Let_def)
qed

lemma mark_all_readable [simp]: "tf_unreadable (mark_all e kind local theirs t) = tf_unreadable t"
  by (simp add: mark_all_def forget_deleted_def Let_def foldl_readable)

text \<open>When sync lands a collection, a field that decides where a credential goes is held in
  the new marks, unless this device already had the record with exactly that value and had not
  been holding it. That includes records that are new here, a change on top of an unconfirmed
  change, and a marks file that was there and could not be read.\<close>

lemma arrivals_are_held:
  assumes "markArrivals e kind local incoming d = Some d'"
    and "r \<in> set incoming" "is_object r"
    and "map_of (fields_or_none (te_num e) kind r) f = Some v"
    and "d = DamagedTrust \<longrightarrow> with_ids local = recordsOf (te_data e) kind"
  shows "f \<in> set (heldFields e d' kind (rec_id r) (fields_or_none (te_num e) kind r)) \<longleftrightarrow>
     \<not> (\<exists>l. map_of (by_id (with_ids local)) (rec_id r) = Some l
          \<and> map_of (fields_or_none (te_num e) kind l) f = Some v
          \<and> f \<notin> set (heldFields e d kind (rec_id r) (fields_or_none (te_num e) kind l)))"
proof -
  have ok: "\<not> ids_refused [] incoming"
    and d': "d' = TrustOn (mark_all e kind (with_ids local) (with_ids incoming) (open_trust e d))"
    using assms(1) by (auto simp: markArrivals_def mutate_def split: if_splits)
  have ids: "distinct (map rec_id (with_ids incoming))" "r \<in> set (with_ids incoming)"
    using ids_refused_False [OF ok] assms(2,3) by auto
  have after: "f \<in> set (heldFields e d' kind (rec_id r) (fields_or_none (te_num e) kind r)) \<longleftrightarrow>
      \<not> (\<exists>l. map_of (by_id (with_ids local)) (rec_id r) = Some l \<and> map_of (fields_or_none (te_num e) kind l) f = Some v
          \<and> \<not> held_in e (open_trust e d) kind (rec_id r) f v)"
    unfolding d' using mark_all_held [OF ids assms(4)] heldFields_stored [OF assms(4) fields_distinct] by simp
  have before: "held_in e (open_trust e d) kind (rec_id r) f v \<longleftrightarrow>
      f \<in> set (heldFields e d kind (rec_id r) (fields_or_none (te_num e) kind l))"
    if l: "map_of (by_id (with_ids local)) (rec_id r) = Some l" "map_of (fields_or_none (te_num e) kind l) f = Some v" for l
  proof (cases "d = DamagedTrust")
    case True
    then have "held_in e (open_trust e d) kind (rec_id r) f v"
      using l assms(5) by (simp add: open_trust_def Let_def rebuilt_holds)
    then show ?thesis using True by (simp add: heldFields_iff [OF l(2) fields_distinct])
  next
    case False
    then show ?thesis
      by (cases d) (simp_all add: heldFields_iff [OF l(2) fields_distinct] open_trust_def Let_def empty_trust_def)
  qed
  show ?thesis using after before by blast
qed

subsection \<open>What a source leaves on the disk\<close>

definition data_records :: "device \<Rightarrow> HeldKind \<Rightarrow> json list" where
  "data_records dv kind = recordsOf (loadData dv) kind"

lemma write_key_lands:
  "write_key e key (Doc v) dv = (dv', None) \<Longrightarrow>
   Option.bind (loadData dv') (\<lambda>d. field_of d key) = Some v \<and> dv_trust dv' = dv_trust dv"
  by (cases "dv_data dv") (auto simp: write_key_def blobOrRefuse_def loadData_def Let_def split: if_splits)

lemma read_key_records:
  assumes "read_key (COLLECTION kind) dv = Inr mine"
  shows "with_ids (parseList mine) = data_records dv kind"
proof -
  have "with_ids (filter is_object xs) = with_ids xs" for xs by (simp add: with_ids_def conj_commute)
  then show ?thesis
    using assms
    by (cases "dv_data dv")
       (auto simp: read_key_def blobOrRefuse_def data_records_def recordsOf_def loadData_def parseList_def
          with_ids_def split: option.splits payload.splits json.splits)
qed

lemma entries_id_text:
  assumes "as_string (map_of (js_entries r) ''id'') = Some i"
  obtains kvs where "r = JObj kvs" "as_string (map_of kvs ''id'') = Some i"
proof -
  have no: "map_of (zip (map show_nat [0..<n]) xs) ''id'' = None" for n and xs :: "json list"
  proof -
    have "\<not> list_all is_digit ''id''" by (simp add: is_digit_def code_def)
    then have "show_nat m \<noteq> ''id''" for m using show_nat_digits [of m] by metis
    then have "''id'' \<notin> set (map show_nat [0..<n])" by (metis imageE set_map)
    then have "''id'' \<notin> fst ` set (zip (map show_nat [0..<n]) xs)" by (auto dest: set_zip_leftD)
    then show ?thesis by (simp add: map_of_eq_None_iff)
  qed
  show thesis
  proof (cases r)
    case (JObj kvs)
    then show ?thesis using assms that by simp
  next
    case (JStr s)
    then show ?thesis using assms no by simp
  next
    case (JArr xs)
    then show ?thesis using assms no by simp
  qed (use assms in auto)
qed

lemma offline_record:
  assumes "as_string (field_of (arrive_offline x) ''id'') = Some i"
  shows "is_object x \<and> rec_id (arrive_offline x) = rec_id x
    \<and> fields_or_none num KServer (arrive_offline x) = fields_or_none num KServer x"
proof -
  have "as_string (map_of (js_entries x) ''id'') = Some i"
    using assms by (simp add: arrive_offline_def map_of_update_eq)
  then obtain kvs where x: "x = JObj kvs" by (rule entries_id_text)
  show ?thesis
    by (simp add: x arrive_offline_def rec_id_def fields_or_none_def fieldsOf_def server_fields_def map_of_update_eq)
qed

lemma without_without: "set b \<subseteq> set a \<Longrightarrow> without a (without b kvs) = without a kvs"
  by (induction kvs) (auto simp: without_def)

lemma openvpn_connection:
  "is_object spec \<Longrightarrow>
   vpnConnectionKey num (Some (JObj (without [''binaryPath'', ''sourcePath''] (js_entries spec)))) = vpnConnectionKey num (Some spec)"
proof -
  assume "is_object spec"
  moreover have "without [''binaryPath'', ''sourcePath'', ''strippedDirectives''] (without [''binaryPath'', ''sourcePath''] kvs)
      = without [''binaryPath'', ''sourcePath'', ''strippedDirectives''] kvs" for kvs
    by (rule without_without) simp
  ultimately show ?thesis by (simp add: vpnConnectionKey_def)
qed

lemma vpn_fields_cong:
  "field_of r ''spec'' = field_of q ''spec'' \<Longrightarrow> field_of r ''workspaceId'' = field_of q ''workspaceId'' \<Longrightarrow>
   vpn_fields num r = vpn_fields num q"
  by (cases "field_of q ''spec''") (simp_all add: vpn_fields_def Let_def)

lemma vpn_fields_connection:
  "field_of r ''spec'' = Some a \<Longrightarrow> field_of q ''spec'' = Some b \<Longrightarrow> is_object a \<Longrightarrow> is_object b \<Longrightarrow>
   vpnConnectionKey num (Some a) = vpnConnectionKey num (Some b) \<Longrightarrow>
   field_of r ''workspaceId'' = field_of q ''workspaceId'' \<Longrightarrow> vpn_fields num r = vpn_fields num q"
  by (simp add: vpn_fields_def Let_def)

lemma stop_auto_keys: "k \<noteq> ''autoStart'' \<Longrightarrow> map_of (stop_auto c p) k = map_of p k"
  by (simp add: stop_auto_def no_auto_start_def map_of_update_eq)

lemma landed_profile:
  assumes "is_object raw" "landProfile num before raw = y"
  shows "\<exists>kvs. y = JObj kvs \<and> map_of kvs ''id'' = map_of (js_entries raw) ''id''
    \<and> map_of kvs ''workspaceId'' = map_of (js_entries raw) ''workspaceId''
    \<and> (map_of kvs ''spec'' = map_of (js_entries raw) ''spec''
       \<or> (\<exists>spec. map_of (js_entries raw) ''spec'' = Some spec \<and> is_object spec
            \<and> map_of kvs ''spec'' = Some (JObj (without [''binaryPath'', ''sourcePath''] (js_entries spec)))))"
proof -
  show ?thesis
  proof (cases "\<exists>spec. map_of (js_entries raw) ''spec'' = Some spec \<and> is_object spec")
    case False
    then have "y = JObj (js_entries raw)" using assms by (auto simp: landProfile_def Let_def split: option.splits)
    then show ?thesis by simp
  next
    case True
    then obtain spec where spec: "map_of (js_entries raw) ''spec'' = Some spec" "is_object spec" by blast
    then obtain c1 c2 where y: "y = JObj (stop_auto c2 (stop_auto c1 (strip_paths spec (js_entries raw))))"
      using assms by (auto simp: landProfile_def Let_def)
    then show ?thesis
      using spec by (simp add: stop_auto_keys strip_paths_def map_of_update_eq)
  qed
qed

lemma profile_record:
  assumes "as_string (field_of (landProfile num before x) ''id'') = Some i"
  shows "is_object x \<and> rec_id (landProfile num before x) = rec_id x
    \<and> fields_or_none num KVpn (landProfile num before x) = fields_or_none num KVpn x"
proof -
  have obj: "is_object x"
    using assms by (cases x) (simp_all add: landProfile_def)
  obtain kvs where y: "landProfile num before x = JObj kvs" "map_of kvs ''id'' = map_of (js_entries x) ''id''"
      "map_of kvs ''workspaceId'' = map_of (js_entries x) ''workspaceId''"
    and spec: "map_of kvs ''spec'' = map_of (js_entries x) ''spec''
       \<or> (\<exists>spec. map_of (js_entries x) ''spec'' = Some spec \<and> is_object spec
            \<and> map_of kvs ''spec'' = Some (JObj (without [''binaryPath'', ''sourcePath''] (js_entries spec))))"
    using landed_profile [OF obj refl] by blast
  have "as_string (map_of (js_entries x) ''id'') = Some i" using assms y by simp
  then obtain kvs' where x: "x = JObj kvs'" by (rule entries_id_text)
  have "vpn_fields num (JObj kvs) = vpn_fields num x"
    using spec
  proof
    assume "map_of kvs ''spec'' = map_of (js_entries x) ''spec''"
    then show ?thesis using y(3) by (intro vpn_fields_cong) (simp_all add: x)
  next
    assume "\<exists>spec. map_of (js_entries x) ''spec'' = Some spec \<and> is_object spec
            \<and> map_of kvs ''spec'' = Some (JObj (without [''binaryPath'', ''sourcePath''] (js_entries spec)))"
    then obtain spec where "map_of (js_entries x) ''spec'' = Some spec" "is_object spec"
        "map_of kvs ''spec'' = Some (JObj (without [''binaryPath'', ''sourcePath''] (js_entries spec)))" by blast
    then show ?thesis
      using y(3) openvpn_connection [of spec num] 
      by (intro vpn_fields_connection [of _ "JObj (without [''binaryPath'', ''sourcePath''] (js_entries spec))" _ spec])
         (simp_all add: x)
  qed
  then show ?thesis using obj y x by (simp add: rec_id_def fields_or_none_def fieldsOf_def)
qed

subsection \<open>Written collections\<close>

definition landed :: "device_env \<Rightarrow> HeldKind \<Rightarrow> device \<Rightarrow> json \<Rightarrow> json" where
  "landed e kind dv x =
     (case kind of
        KServer \<Rightarrow> arrive_offline x
      | KVpn \<Rightarrow> landProfile (te_num e)
          (case read_key ''vpns'' dv of Inr mine \<Rightarrow> connections_by_id (te_num e) (parseList mine) | Inl _ \<Rightarrow> []) x
      | _ \<Rightarrow> x)"

lemma landed_record:
  assumes "as_string (field_of (landed e kind dv x) ''id'') = Some i" "is_object (landed e kind dv x)"
  shows "is_object x \<and> rec_id (landed e kind dv x) = rec_id x
    \<and> fields_or_none (te_num e) kind (landed e kind dv x) = fields_or_none (te_num e) kind x"
  using assms offline_record [of x i "te_num e"] profile_record [of "te_num e" _ x i]
  by (cases kind) (auto simp: landed_def)

lemma SOURCES_marked:
  "SOURCES e (COLLECTION kind) = Some (marking e kind
     (case kind of KServer \<Rightarrow> serversSource e | KVpn \<Rightarrow> vpnsSource e | _ \<Rightarrow> blobKey e (COLLECTION kind)))"
  by (cases kind) (simp_all add: SOURCES_def)

lemma read_key_trust [simp]: "read_key key (dv\<lparr>dv_trust := t\<rparr>) = read_key key dv"
  by (simp add: read_key_def blobOrRefuse_def)

lemma marked_write:
  assumes "SOURCES e (COLLECTION kind) = Some s" "src_write s (Doc (JArr xs)) dv = (dv', None)"
  obtains mine where "read_key (COLLECTION kind) dv = Inr mine"
    "markArrivals (trust_env.truncate (env_at e dv)) kind (parseList mine) xs (dv_trust dv) = Some (dv_trust dv')"
    "Option.bind (loadData dv') (\<lambda>d. field_of d (COLLECTION kind)) = Some (JArr (map (landed e kind dv) xs))"
proof -
  let ?inner = "case kind of KServer \<Rightarrow> serversSource e | KVpn \<Rightarrow> vpnsSource e | _ \<Rightarrow> blobKey e (COLLECTION kind)"
  have s: "s = marking e kind ?inner" using assms(1) by (simp add: SOURCES_marked)
  have reads: "src_read ?inner = read_key (COLLECTION kind)"
    by (cases kind) (simp_all add: serversSource_def vpnsSource_def blobKey_def)
  obtain mine t where mine: "read_key (COLLECTION kind) dv = Inr mine"
    and t: "markArrivals (trust_env.truncate (env_at e dv)) kind (parseList mine) xs (dv_trust dv) = Some t"
    and w: "src_write ?inner (Doc (JArr xs)) (dv\<lparr>dv_trust := t\<rparr>) = (dv', None)"
    using assms(2) by (simp add: s marking_def reads split: sum.splits option.splits)
  have "write_key e (COLLECTION kind) (Doc (JArr (map (landed e kind dv) xs))) (dv\<lparr>dv_trust := t\<rparr>) = (dv', None)"
    using w mine
    by (cases kind) (simp_all add: serversSource_def vpnsSource_def blobKey_def landed_def [abs_def])
  from write_key_lands [OF this] show thesis
    using that [OF mine] t by simp
qed

lemma fields_truncate: "te_num (trust_env.truncate (env_at e dv)) = te_num e"
  by (simp add: trust_env.defs env_at_def)

lemma heldFields_env: "te_digest a = te_digest b \<Longrightarrow> heldFields a d kind i now = heldFields b d kind i now"
proof -
  assume "te_digest a = te_digest b"
  then have "field_held a = field_held b" by (intro ext) (simp only: field_held_def)
  then show ?thesis by (simp only: heldFields_def)
qed

lemma heldFields_truncate: "heldFields (trust_env.truncate (env_at e dv)) d kind i now = heldFields (trust_env.truncate e) d kind i now"
  by (rule heldFields_env) (simp add: trust_env.defs env_at_def)

text \<open>C4: Whatever a synced collection of servers, databases, CI connections or VPN profiles leaves
  in the data file, a field of a record on disk that decides where a credential goes is held until
  a person confirms it, unless this device had that very value for that record before and was not
  holding it. The rewriting on landing (offline servers, stripped profiles) opens no gap between
  what is marked and what is on disk.\<close>

theorem what_lands_is_held:
  assumes "SOURCES e (COLLECTION kind) = Some s" "src_write s (Doc (JArr xs)) dv = (dv', None)"
    and "r \<in> set (data_records dv' kind)"
    and "map_of (fields_or_none (te_num e) kind r) f = Some v"
  shows "f \<in> set (heldFields (trust_env.truncate e) (dv_trust dv') kind (rec_id r) (fields_or_none (te_num e) kind r)) \<longleftrightarrow>
     \<not> (\<exists>l. map_of (by_id (data_records dv kind)) (rec_id r) = Some l
          \<and> map_of (fields_or_none (te_num e) kind l) f = Some v
          \<and> f \<notin> set (heldFields (trust_env.truncate e) (dv_trust dv) kind (rec_id r) (fields_or_none (te_num e) kind l)))"
proof -
  obtain mine where mine: "read_key (COLLECTION kind) dv = Inr mine"
    and marks: "markArrivals (trust_env.truncate (env_at e dv)) kind (parseList mine) xs (dv_trust dv) = Some (dv_trust dv')"
    and disk: "Option.bind (loadData dv') (\<lambda>d. field_of d (COLLECTION kind)) = Some (JArr (map (landed e kind dv) xs))"
    by (rule marked_write [OF assms(1,2)])
  have "data_records dv' kind = with_ids (map (landed e kind dv) xs)"
    by (simp add: data_records_def recordsOf_def disk)
  then obtain x i where x: "x \<in> set xs" "r = landed e kind dv x" "is_object r" "as_string (field_of r ''id'') = Some i"
    using assms(3) by (auto simp: with_ids_def)
  have same: "is_object x" "rec_id r = rec_id x" "fields_or_none (te_num e) kind r = fields_or_none (te_num e) kind x"
    using landed_record [of e kind dv x i] x by simp_all
  have local: "with_ids (parseList mine) = data_records dv kind" using read_key_records [OF mine] .
  have "recordsOf (te_data (trust_env.truncate (env_at e dv))) kind = data_records dv kind"
    by (simp add: trust_env.defs env_at_def data_records_def)
  then show ?thesis
    using arrivals_are_held [OF marks x(1) same(1), of f v] assms(4) local
    by (simp add: same fields_truncate heldFields_truncate)
qed

end
