(* ===== verification/Sync_Source_Laws.thy ===== *)
theory Sync_Source_Laws
  imports Sync_Trust_Laws
begin

section \<open>What another device cannot decide for this one\<close>

text \<open>
  The witness of the marks, the three sources that keep this machine's own answer to a setting
  (automatic start, certificate checks, pointers to secrets), and the keys a late save of the
  window may not put back.
\<close>

subsection \<open>Samples\<close>

definition sample_env :: device_env where
  "sample_env = \<lparr>te_num = (\<lambda>_. ''0''), te_digest = (\<lambda>s. s), te_data = None, te_writable = True,
     te_secrets = (\<lambda>_. None), de_saves = True, de_file_ok = True, de_now = 5\<rparr>"

definition sample_server :: "string \<Rightarrow> json" where
  "sample_server host = JObj [(''id'', JStr ''s1''), (''host'', JStr host), (''status'', JStr ''online'')]"

definition sample_device :: device where
  "sample_device = \<lparr>dv_data = DataOf [(''servers'', JArr [sample_server ''good.example''])],
     dv_files = [], dv_trust = NoTrust, dv_awaiting = []\<rparr>"

definition sample_landing :: device where
  "sample_landing = fst (src_write (marking sample_env KServer (serversSource sample_env))
     (Doc (JArr [sample_server ''evil.example''])) sample_device)"

theorem what_lands_is_held_witness:
  "''host'' \<in> set (heldFields (trust_env.truncate sample_env) (dv_trust sample_landing) KServer ''s1''
     (fields_or_none (\<lambda>_. ''0'') KServer (arrive_offline (sample_server ''evil.example''))))"
proof -
  let ?r = "arrive_offline (sample_server ''evil.example'')"
  have src: "SOURCES sample_env (COLLECTION KServer) = Some (marking sample_env KServer (serversSource sample_env))"
    by (simp add: SOURCES_def)
  have wrote: "src_write (marking sample_env KServer (serversSource sample_env))
      (Doc (JArr [sample_server ''evil.example''])) sample_device = (sample_landing, None)"
    unfolding sample_landing_def by code_simp
  have r: "?r \<in> set (data_records sample_landing KServer)" by code_simp
  have f: "map_of (fields_or_none (te_num sample_env) KServer ?r) ''host'' = Some ''evil.example''" by code_simp
  have num: "te_num sample_env = (\<lambda>_. ''0'')" by (simp add: sample_env_def)
  have i: "rec_id ?r = ''s1''" by code_simp
  have mine: "map_of (by_id (data_records sample_device KServer)) ''s1'' = Some (sample_server ''good.example'')" by code_simp
  have other: "map_of (fields_or_none (\<lambda>_. ''0'') KServer (sample_server ''good.example'')) ''host'' = Some ''good.example''"
    by code_simp
  show ?thesis
    using what_lands_is_held [OF src wrote r f] by (simp add: i mine num other)
qed

subsection \<open>Profiles that publish a port\<close>

lemma stop_auto_stops: "c \<Longrightarrow> map_of (stop_auto c p) ''autoStart'' = Some (JBool False)"
  by (simp add: stop_auto_def no_auto_start_def map_of_update_eq)

lemma stop_auto_stays:
  "map_of p ''autoStart'' = Some (JBool False) \<Longrightarrow> map_of (stop_auto c p) ''autoStart'' = Some (JBool False)"
  by (simp add: stop_auto_def no_auto_start_def map_of_update_eq)

lemma strip_paths_kind:
  assumes "map_of p ''spec'' = Some spec" "is_object spec"
  shows "\<exists>spec'. map_of (strip_paths spec p) ''spec'' = Some spec' \<and> is_object spec' \<and> field_of spec' ''kind'' = field_of spec ''kind''"
proof -
  have "map_of (without [''binaryPath'', ''sourcePath''] kvs) ''kind'' = map_of kvs ''kind''" for kvs
    by (induction kvs) (auto simp: without_def)
  then show ?thesis
    using assms by (cases spec) (auto simp: strip_paths_def map_of_update_eq)
qed

lemma landed_profile_shape:
  assumes "field_of (landProfile num before raw) ''spec'' = Some spec'" "is_object spec'"
  obtains spec p where "map_of (js_entries raw) ''spec'' = Some spec" "is_object spec"
    "p = stop_auto (isReverseProxyKind (field_of spec ''kind'')) (strip_paths spec (js_entries raw))"
    "landProfile num before raw = JObj (stop_auto (Option.bind (as_string (map_of p ''id'')) (map_of before) \<noteq> None
        \<and> Option.bind (as_string (map_of p ''id'')) (map_of before) \<noteq> Some (vpnConnectionKey num (map_of p ''spec''))) p)"
    "map_of p ''spec'' = Some spec'" "field_of spec' ''kind'' = field_of spec ''kind''"
proof -
  have obj: "is_object raw" using assms by (cases raw) (simp_all add: landProfile_def)
  have "\<exists>spec. map_of (js_entries raw) ''spec'' = Some spec \<and> is_object spec"
    using assms obj by (auto simp: landProfile_def Let_def split: option.splits if_splits)
  then obtain spec where spec: "map_of (js_entries raw) ''spec'' = Some spec" "is_object spec" by blast
  define p where "p = stop_auto (isReverseProxyKind (field_of spec ''kind'')) (strip_paths spec (js_entries raw))"
  have land: "landProfile num before raw = JObj (stop_auto (Option.bind (as_string (map_of p ''id'')) (map_of before) \<noteq> None
        \<and> Option.bind (as_string (map_of p ''id'')) (map_of before) \<noteq> Some (vpnConnectionKey num (map_of p ''spec''))) p)"
    using obj spec by (simp add: landProfile_def Let_def p_def)
  have "map_of p ''spec'' = Some spec'"
    using assms(1) unfolding land by (simp add: stop_auto_keys)
  moreover have "field_of spec' ''kind'' = field_of spec ''kind''"
    using strip_paths_kind [OF spec] calculation by (auto simp: p_def stop_auto_keys)
  ultimately show thesis using that [OF spec p_def land] by blast
qed

text \<open>After a synced list of VPN profiles has landed, no reverse proxy starts by itself on this
  machine, and no profile whose connection settings differ from the ones this device had under that
  id does.\<close>

theorem rewritten_profiles_do_not_start_alone:
  assumes "SOURCES e ''vpns'' = Some s" "src_write s (Doc (JArr xs)) dv = (dv', None)"
    and "r \<in> set (data_records dv' KVpn)" "field_of r ''spec'' = Some spec" "is_object spec"
    and "isReverseProxyKind (field_of spec ''kind'')
      \<or> (\<exists>was. map_of (connections_by_id (te_num e) (data_records dv KVpn)) (rec_id r) = Some was
            \<and> was \<noteq> vpnConnectionKey (te_num e) (Some spec))"
  shows "field_of r ''autoStart'' = Some (JBool False)"
proof -
  have src: "SOURCES e (COLLECTION KVpn) = Some s" using assms(1) by simp
  obtain mine where mine: "read_key (COLLECTION KVpn) dv = Inr mine"
    and disk: "Option.bind (loadData dv') (\<lambda>d. field_of d (COLLECTION KVpn)) = Some (JArr (map (landed e KVpn dv) xs))"
    by (rule marked_write [OF src assms(2)])
  define before where "before = connections_by_id (te_num e) (parseList mine)"
  have "data_records dv' KVpn = with_ids (map (landed e KVpn dv) xs)"
    using disk by (simp add: data_records_def recordsOf_def)
  then obtain x i where r: "r = landProfile (te_num e) before x" "as_string (field_of r ''id'') = Some i"
    using assms(3) mine by (auto simp: with_ids_def landed_def before_def)
  have same_before: "map_of before j = map_of (connections_by_id (te_num e) (data_records dv KVpn)) j" for j
  proof -
    have "connections_by_id num (filter is_object ys) = connections_by_id num (with_ids ys)" for num ys
      unfolding connections_by_id_def with_ids_def
      by (induction ys rule: rev_induct) (auto split: option.split)
    then have "connections_by_id (te_num e) (parseList mine) = connections_by_id (te_num e) (with_ids (parseList mine))"
      by (cases "\<exists>ys. mine = Some (Doc (JArr ys))")
         (auto simp: parseList_def with_ids_def conj_commute split: option.splits payload.splits json.splits)
    then show ?thesis using read_key_records [OF mine] by (simp add: before_def)
  qed
  obtain spec0 p where p: "p = stop_auto (isReverseProxyKind (field_of spec0 ''kind'')) (strip_paths spec0 (js_entries x))"
    and land: "landProfile (te_num e) before x = JObj (stop_auto (Option.bind (as_string (map_of p ''id'')) (map_of before) \<noteq> None
        \<and> Option.bind (as_string (map_of p ''id'')) (map_of before) \<noteq> Some (vpnConnectionKey (te_num e) (map_of p ''spec''))) p)"
    and spec: "map_of p ''spec'' = Some spec" "field_of spec ''kind'' = field_of spec0 ''kind''"
    using landed_profile_shape [of "te_num e" before x spec] assms(4,5) r(1) by metis
  have "as_string (map_of p ''id'') = Some i" using r(2) unfolding r(1) land by (simp add: stop_auto_keys)
  moreover have "rec_id r = i" using r(2) by (simp add: rec_id_def str_def)
  ultimately have "(\<exists>was. map_of before i = Some was \<and> was \<noteq> vpnConnectionKey (te_num e) (map_of p ''spec'')) \<Longrightarrow> ?thesis"
    unfolding r(1) land by (auto simp: stop_auto_stops)
  moreover have "isReverseProxyKind (field_of spec0 ''kind'') \<Longrightarrow> ?thesis"
    unfolding r(1) land by (simp add: stop_auto_stays p stop_auto_stops)
  ultimately show ?thesis
    using assms(6) spec \<open>rec_id r = i\<close> by (auto simp: same_before)
qed

definition sample_profile :: "string \<Rightarrow> json" where
  "sample_profile kind = JObj [(''id'', JStr ''p1''), (''spec'', JObj [(''kind'', JStr kind)]), (''autoStart'', JBool True)]"

definition sample_vpn_landing :: device where
  "sample_vpn_landing = fst (src_write (marking sample_env KVpn (vpnsSource sample_env))
     (Doc (JArr [sample_profile ''ngrok''])) sample_device)"

theorem rewritten_profiles_do_not_start_alone_witness:
  "field_of (landProfile (\<lambda>_. ''0'') [] (sample_profile ''ngrok'')) ''autoStart'' = Some (JBool False)"
proof -
  let ?r = "landProfile (\<lambda>_. ''0'') [] (sample_profile ''ngrok'')"
  have src: "SOURCES sample_env ''vpns'' = Some (marking sample_env KVpn (vpnsSource sample_env))"
    by (simp add: SOURCES_def)
  have wrote: "src_write (marking sample_env KVpn (vpnsSource sample_env))
      (Doc (JArr [sample_profile ''ngrok''])) sample_device = (sample_vpn_landing, None)"
    unfolding sample_vpn_landing_def by code_simp
  have r: "?r \<in> set (data_records sample_vpn_landing KVpn)" by code_simp
  have spec: "field_of ?r ''spec'' = Some (JObj [(''kind'', JStr ''ngrok'')])" by code_simp
  show ?thesis
    by (rule rewritten_profiles_do_not_start_alone [OF src wrote r spec]) (simp_all add: isReverseProxyKind_def)
qed

subsection \<open>Pointers to secrets\<close>

lemma keep_ref_grows: "set merged \<subseteq> set (keep_ref merged ref)"
  by (auto simp: keep_ref_def)

lemma keep_refs_grow: "set merged \<subseteq> set (foldl keep_ref merged refs)"
proof (induction refs arbitrary: merged)
  case (Cons ref refs)
  then show ?case using keep_ref_grows [of merged ref] by fastforce
qed simp

lemma keep_refs_has:
  "ref \<in> set refs \<Longrightarrow> ref \<in> set (foldl keep_ref merged refs) \<or> (\<exists>r \<in> set (foldl keep_ref merged refs). is_object r \<and> same_ref r ref)"
proof (induction refs arbitrary: merged)
  case Nil
  then show ?case by simp
next
  case (Cons a refs)
  show ?case
  proof (cases "ref = a")
    case True
    have "ref \<in> set (keep_ref merged ref) \<or> (\<exists>r \<in> set (keep_ref merged ref). is_object r \<and> same_ref r ref)"
      by (auto simp: keep_ref_def list_ex_iff)
    then show ?thesis using keep_refs_grow [of "keep_ref merged a" refs] True by auto
  next
    case False
    then show ?thesis using Cons by simp
  qed
qed

text \<open>A synced copy of the pointers to secrets written on servers never removes one: every
  pointer this device had is still in its file after the copy has landed, itself or as one naming
  the same server, vault entry, slot and field. So no device can switch off the redaction of a value
  on another.\<close>

theorem secret_pointers_never_shrink:
  assumes "src_write (envSource e) (Doc (JArr xs)) dv = (dv', None)"
    and "ref \<in> set (parseList (map_of (dv_files dv) ENV_FILE))"
  shows "\<exists>ys. map_of (dv_files dv') ENV_FILE = Some (Doc (JArr ys)) \<and> set xs \<subseteq> set ys \<and>
     (ref \<in> set ys \<or> list_ex (\<lambda>r. is_object r \<and> same_ref r ref) ys)"
proof -
  let ?ys = "foldl keep_ref xs (parseList (map_of (dv_files dv) ENV_FILE))"
  have "map_of (dv_files dv') ENV_FILE = Some (Doc (JArr ?ys))"
    using assms(1) by (auto simp: envSource_def write_file_def map_of_update_eq split: if_splits)
  then show ?thesis
    using keep_refs_grow [of xs] keep_refs_has [OF assms(2), of xs] by (auto simp: list_ex_iff)
qed

definition sample_ref :: "string \<Rightarrow> json" where
  "sample_ref i = JObj [(''serverId'', JStr i), (''vaultEntryId'', JStr ''v''), (''fieldKey'', JStr ''K'')]"

theorem secret_pointers_never_shrink_witness:
  "\<exists>ys. map_of (dv_files (fst (src_write (envSource sample_env) (Doc (JArr []))
       (sample_device\<lparr>dv_files := [(ENV_FILE, Doc (JArr [sample_ref ''s1'']))]\<rparr>)))) ENV_FILE = Some (Doc (JArr ys))
     \<and> set [] \<subseteq> set ys \<and> (sample_ref ''s1'' \<in> set ys \<or> list_ex (\<lambda>r. is_object r \<and> same_ref r (sample_ref ''s1'')) ys)"
  by (rule secret_pointers_never_shrink [of sample_env _ "sample_device\<lparr>dv_files := [(ENV_FILE, Doc (JArr [sample_ref ''s1'']))]\<rparr>"];
      code_simp)

subsection \<open>Checks\<close>

lemma check_interval_bounds: "60 \<le> check_interval v \<and> check_interval v \<le> 86400"
  by (auto simp: check_interval_def min_def max_def split: jsnum.split)

text \<open>The pace of a check that arrives is within the bounds, and certificate checks are skipped
  only where this device had chosen that itself.\<close>

lemma checks_keep_this_machines_answer:
  assumes "src_write (httpChecksSource e) (Doc (JArr xs)) dv = (dv', None)"
    and "Option.bind (loadData dv') (\<lambda>d. field_of d ''httpChecks'') = Some (JArr ys)"
    and "c \<in> set ys" "is_object c"
  shows "(\<exists>n. field_of c ''intervalSec'' = Some (JNum (Fin n)) \<and> 60 \<le> n \<and> n \<le> 86400)
     \<and> (field_of c ''insecureTls'' = None
        \<or> (\<exists>mine. read_key ''httpChecks'' dv = Inr mine \<and> insecure_here (parseList mine) (field_of c ''id'')))"
proof -
  obtain mine where mine: "read_key ''httpChecks'' dv = Inr mine"
    and w: "write_key e ''httpChecks'' (Doc (JArr (map (land_check (parseList mine)) xs))) dv = (dv', None)"
    using assms(1) by (simp add: httpChecksSource_def split: sum.splits)
  have "ys = map (land_check (parseList mine)) xs" using write_key_lands [OF w] assms(2) by simp
  then obtain x where x: "c = land_check (parseList mine) x" "is_object x"
    using assms(3,4) by (auto simp: land_check_def)
  let ?check = "AList.update ''intervalSec'' (JNum (Fin (check_interval (map_of (js_entries x) ''intervalSec'')))) (js_entries x)"
  have i: "map_of ?check ''intervalSec'' = Some (JNum (Fin (check_interval (map_of (js_entries x) ''intervalSec''))))"
    by (simp add: map_of_update_eq)
  show ?thesis
  proof (cases "insecure_here (parseList mine) (map_of ?check ''id'')")
    case True
    then have c: "c = JObj (AList.update ''insecureTls'' (JBool True) ?check)" using x by (simp add: land_check_def Let_def)
    then show ?thesis
      using True i mine check_interval_bounds by (simp add: map_of_update_eq)
  next
    case False
    then have c: "c = JObj (AList.delete ''insecureTls'' ?check)" using x by (simp add: land_check_def Let_def)
    then show ?thesis
      using i check_interval_bounds by (simp add: map_of_delete_eq)
  qed
qed

subsection \<open>A late save of the window\<close>

lemma held_keys_fold:
  assumes "field_of disk key = Some x" "key \<in> fst ` set waiting"
  shows "map_of (foldl (\<lambda>held (key, _). case field_of disk key of Some x \<Rightarrow> AList.update key x held | None \<Rightarrow> held) m waiting) key = Some x"
  using assms(2)
proof (induction waiting arbitrary: m rule: rev_induct)
  case (snoc p ps)
  obtain k w where p: "p = (k, w)" by (cases p)
  show ?case
  proof (cases "k = key")
    case True
    then show ?thesis using assms(1) by (simp add: p map_of_update_eq)
  next
    case False
    then show ?thesis using snoc by (auto simp: p map_of_update_eq split: option.split)
  qed
qed simp



end
