(* ===== verification/Known_Hosts.thy ===== *)
theory Known_Hosts
  imports Sync_Source_Laws
begin

section \<open>Host keys (main/services/knownhosts.ts)\<close>

text \<open>
  Which verdict a presented host key gets, and what changes it: a person who trusts or replaces
  a key, a person who forgets a host, a synced copy of the file, and every other write of the
  marks. The state is the device and, as a ghost, the pairs of host and key a person on this
  device has accepted. A fingerprint is the text the code computes of the key, never empty.
  A fingerprint in the file that is no string counts as absent.
\<close>

subsection \<open>The verdict\<close>

datatype KeyVerdict = KeyTrusted | KeyChanged string | KeyRefused | KeyAsked | KeyError

definition read_hosts :: "device \<Rightarrow> json" where
  "read_hosts dv = (case map_of (dv_files dv) KNOWN_HOSTS_FILE of Some (Doc v) \<Rightarrow> v | _ \<Rightarrow> JObj [])"

definition host_key_id :: "string option \<Rightarrow> string \<Rightarrow> nat \<Rightarrow> string" where
  "host_key_id identity host port = nullish identity (host @ '':'' @ show_nat (if port = 0 then 22 else port))"

text \<open>Reading a member of \<open>null\<close> throws; \<open>revoked\<close> is what OpenSSH's own files say.\<close>

definition verifyHostKey :: "device \<Rightarrow> string \<Rightarrow> string \<Rightarrow> bool \<Rightarrow> bool \<Rightarrow> KeyVerdict" where
  "verifyHostKey dv i fp allowPrompt revoked =
     (let m = read_hosts dv
      in if m = JNull then KeyError
         else let known = fpOf (Some m) i;
                  trusted = hostKeyExpected (dv_trust dv) i known
              in if trusted = Some fp then KeyTrusted
                 else let expected = (case trusted of Some t \<Rightarrow> Some t
                            | None \<Rightarrow> if known \<noteq> Some fp then known else None)
                      in if expected \<noteq> None \<and> expected \<noteq> Some [] then KeyChanged (the expected)
                         else if \<not> allowPrompt then KeyRefused
                         else if revoked then KeyRefused
                         else KeyAsked)"

subsection \<open>What a person decides\<close>

definition host_entry :: "string \<Rightarrow> string \<Rightarrow> string \<Rightarrow> json" where
  "host_entry i fp addedAt = JObj [(''id'', JStr i), (''fingerprint'', JStr fp), (''addedAt'', JStr addedAt)]"

text \<open>The yes to a first sighting, and the two yeses that replace a changed key, do the same.\<close>

definition accept_key :: "device_env \<Rightarrow> string \<Rightarrow> string \<Rightarrow> string \<Rightarrow> device \<Rightarrow> device option" where
  "accept_key e i fp addedAt dv =
     (if \<not> de_file_ok e then None
      else map_option (\<lambda>t. dv\<lparr>dv_trust := t, dv_files := AList.update KNOWN_HOSTS_FILE
               (Doc (JObj (AList.update i (host_entry i fp addedAt) (js_entries (read_hosts dv))))) (dv_files dv)\<rparr>)
             (clearHostKeyMark (trust_env.truncate (env_at e dv)) i (dv_trust dv)))"

text \<open>The answers of the dialogs: trust, copy or cancel at a first sighting; copy, replace or
  cancel at a change, where replacing is asked once more and only of a person.\<close>

datatype ChangedAnswer = AnswerCopy | AnswerReplace bool | AnswerCancel

fun replaces :: "bool \<Rightarrow> ChangedAnswer list \<Rightarrow> bool" where
  "replaces person [] = False"
| "replaces person (AnswerCopy # rest) = replaces person rest"
| "replaces person (AnswerReplace sure # rest) = (person \<and> sure)"
| "replaces person (AnswerCancel # rest) = False"

definition knownHostForget :: "device_env \<Rightarrow> string \<Rightarrow> device \<Rightarrow> device option" where
  "knownHostForget e i dv =
     Option.bind (clearHostKeyMark (trust_env.truncate (env_at e dv)) i (dv_trust dv))
       (\<lambda>t. let m = js_entries (read_hosts dv)
            in if \<not> js_truthy (map_of m i) then Some (dv\<lparr>dv_trust := t\<rparr>)
               else if \<not> de_file_ok e then None
               else Some (dv\<lparr>dv_trust := t, dv_files := AList.update KNOWN_HOSTS_FILE
                      (Doc (JObj (AList.delete i m))) (dv_files dv)\<rparr>))"

subsection \<open>Every way the state moves\<close>

text \<open>A copy whose file cannot be written is left to a theorem of its own; the names of a parsed
  object are distinct.\<close>

type_synonym host_state = "device \<times> (string \<times> string) set"

inductive host_step :: "device_env \<Rightarrow> host_state \<Rightarrow> host_state \<Rightarrow> bool" for e where
  accepts: "accept_key e i fp addedAt dv = Some dv' \<Longrightarrow> host_step e (dv, A) (dv', insert (i, fp) A)"
| forgets: "knownHostForget e i dv = Some dv' \<Longrightarrow> host_step e (dv, A) (dv', A)"
| synced: "src_write (knownHostsSource e) (Doc v) dv = (dv', None) \<Longrightarrow> jsmap_wf (js_entries v) \<Longrightarrow>
    host_step e (dv, A) (dv', A)"
| marks: "tf_hostKeys t = tf_hostKeys (open_trust (trust_env.truncate (env_at e dv)) (dv_trust dv)) \<Longrightarrow>
    host_step e (dv, A) (dv\<lparr>dv_trust := TrustOn t\<rparr>, A)"

inductive host_reachable :: "device_env \<Rightarrow> host_state \<Rightarrow> bool" for e where
  begins: "dv_trust dv = NoTrust \<Longrightarrow>
    host_reachable e (dv, {(i, fp). fpOf (Some (read_hosts dv)) i = Some fp})"
| moves: "host_reachable e s \<Longrightarrow> host_step e s s' \<Longrightarrow> host_reachable e s'"

subsection \<open>What a synced copy does to one host\<close>

definition expected_key :: "device \<Rightarrow> string \<Rightarrow> string option" where
  "expected_key dv i = hostKeyExpected (dv_trust dv) i (fpOf (Some (read_hosts dv)) i)"

lemma arrived_other: "i \<noteq> j \<Longrightarrow> map_of (tf_hostKeys (mark_arrived_key l n t j)) i = map_of (tf_hostKeys t) i"
  by (auto simp: mark_arrived_key_def Let_def map_of_update_eq split: option.split)

lemma removed_other: "i \<noteq> j \<Longrightarrow> map_of (tf_hostKeys (mark_removed_key l n t j)) i = map_of (tf_hostKeys t) i"
  by (auto simp: mark_removed_key_def map_of_update_eq split: option.split)

text \<open>Marking one host twice is marking it once, so a fold over the names is a single step.\<close>

definition arrival_mark :: "string option \<Rightarrow> string option \<Rightarrow> HostMark option \<Rightarrow> HostMark option" where
  "arrival_mark mine fp prev =
     (case fp of
        None \<Rightarrow> prev
      | Some n \<Rightarrow>
          if n = [] \<or> mine = Some n then prev
          else let before = (case prev of
                   Some p \<Rightarrow> if mine = Some (hm_fp p) \<or> hm_fp p = REMOVED \<and> mine = None then hm_mine p else mine
                 | None \<Rightarrow> mine)
               in Some \<lparr>hm_fp = n, hm_mine = (if before = Some [] then None else before)\<rparr>)"

lemma mark_arrived_same:
  "map_of (tf_hostKeys (mark_arrived_key l n t i)) i = arrival_mark (fpOf l i) (fpOf n i) (map_of (tf_hostKeys t) i)"
  by (auto simp: mark_arrived_key_def arrival_mark_def Let_def map_of_update_eq split: option.split)

lemma mark_arrived_all:
  assumes "distinct names" "fpOf n i \<noteq> None \<longrightarrow> i \<in> set names"
  shows "map_of (tf_hostKeys (foldl (mark_arrived_key l n) t names)) i = arrival_mark (fpOf l i) (fpOf n i) (map_of (tf_hostKeys t) i)"
proof -
  have skip: "i \<notin> set names \<Longrightarrow> map_of (tf_hostKeys (foldl (mark_arrived_key l n) t names)) i = map_of (tf_hostKeys t) i" for names t
    by (induction names arbitrary: t) (auto simp: arrived_other)
  show ?thesis
  proof (cases "i \<in> set names")
    case False
    then have "fpOf n i = None" using assms(2) by auto
    then show ?thesis using skip [OF False] by (simp add: arrival_mark_def)
  next
    case True
    then show ?thesis
      using assms(1)
    proof (induction names arbitrary: t)
      case (Cons j names)
      show ?case
      proof (cases "i = j")
        case True
        then show ?thesis using Cons.prems skip by (simp add: mark_arrived_same)
      next
        case False
        then show ?thesis using Cons by (simp add: arrived_other)
      qed
    qed simp
  qed
qed

definition removal_mark :: "string option \<Rightarrow> string option \<Rightarrow> HostMark option \<Rightarrow> HostMark option" where
  "removal_mark mine fp prev =
     (case mine of
        None \<Rightarrow> prev
      | Some m \<Rightarrow> if m \<noteq> [] \<and> fp = None \<and> prev = None then Some \<lparr>hm_fp = REMOVED, hm_mine = Some m\<rparr> else prev)"

lemma mark_removed_same:
  "map_of (tf_hostKeys (mark_removed_key l n t i)) i = removal_mark (fpOf l i) (fpOf n i) (map_of (tf_hostKeys t) i)"
  by (auto simp: mark_removed_key_def removal_mark_def map_of_update_eq split: option.split)

lemma removal_mark_twice [simp]: "removal_mark m f (removal_mark m f p) = removal_mark m f p"
  by (auto simp: removal_mark_def split: option.split)

lemma mark_removed_all:
  assumes "fpOf l i \<noteq> None \<longrightarrow> i \<in> set names"
  shows "map_of (tf_hostKeys (foldl (mark_removed_key l n) t names)) i = removal_mark (fpOf l i) (fpOf n i) (map_of (tf_hostKeys t) i)"
proof -
  have skip: "i \<notin> set names \<Longrightarrow> map_of (tf_hostKeys (foldl (mark_removed_key l n) t names)) i = map_of (tf_hostKeys t) i" for names t
    by (induction names arbitrary: t) (auto simp: removed_other)
  have hit: "i \<in> set names \<Longrightarrow>
      map_of (tf_hostKeys (foldl (mark_removed_key l n) t names)) i = removal_mark (fpOf l i) (fpOf n i) (map_of (tf_hostKeys t) i)" for names t
  proof (induction names arbitrary: t)
    case (Cons j names)
    show ?case
    proof (cases "i \<in> set names")
      case True
      then show ?thesis using Cons.IH by (cases "i = j") (simp_all add: mark_removed_same removed_other)
    next
      case False
      then show ?thesis using Cons.prems skip by (simp add: mark_removed_same)
    qed
  qed simp
  show ?thesis
  proof (cases "i \<in> set names")
    case True
    then show ?thesis by (rule hit)
  next
    case False
    then have "fpOf l i = None" using assms by auto
    then show ?thesis using skip [OF False] by (simp add: removal_mark_def)
  qed
qed

definition synced_mark :: "string option \<Rightarrow> string option \<Rightarrow> HostMark option \<Rightarrow> HostMark option" where
  "synced_mark mine fp prev = removal_mark mine fp (arrival_mark mine fp prev)"

lemma fpOf_named: "fpOf n i \<noteq> None \<longrightarrow> i \<in> set (key_names n)"
  by (auto simp: fpOf_def key_names_def split: option.splits bind_splits dest!: map_of_SomeD) force

lemma mark_host_keys_one:
  "distinct (key_names n) \<Longrightarrow>
   map_of (tf_hostKeys (mark_host_keys l n t)) i = synced_mark (fpOf l i) (fpOf n i) (map_of (tf_hostKeys t) i)"
  by (simp add: mark_host_keys_def synced_mark_def mark_removed_all [OF fpOf_named] mark_arrived_all [OF _ fpOf_named])

text \<open>What a mark makes of the file's word for one host.\<close>

definition under_mark :: "HostMark option \<Rightarrow> string option \<Rightarrow> string option" where
  "under_mark m fileFp =
     (case m of
        None \<Rightarrow> fileFp
      | Some k \<Rightarrow> if fileFp = Some (hm_fp k) \<or> hm_fp k = REMOVED \<and> fileFp = None then hm_mine k else fileFp)"

lemma expected_under_mark:
  "\<not> tf_unreadable (read_trust d) \<Longrightarrow> hostKeyExpected d i f = under_mark (map_of (tf_hostKeys (read_trust d)) i) f"
  by (simp add: hostKeyExpected_def under_mark_def Let_def)

lemma synced_mark_mine:
  "synced_mark mine fp prev = Some k \<Longrightarrow> hm_mine k = Some x \<Longrightarrow>
   (\<exists>p. prev = Some p \<and> hm_mine p = Some x) \<or> x \<noteq> [] \<and> under_mark prev mine = Some x"
  by (cases mine; cases fp; cases prev)
     (auto simp: synced_mark_def removal_mark_def arrival_mark_def under_mark_def Let_def split: if_splits)

lemma under_synced_mark:
  "under_mark (synced_mark mine fp prev) fp = Some x \<Longrightarrow> x \<noteq> [] \<Longrightarrow>
   (\<exists>p. prev = Some p \<and> hm_mine p = Some x) \<or> under_mark prev mine = Some x"
  by (cases mine; cases fp; cases prev)
     (auto simp: synced_mark_def removal_mark_def arrival_mark_def under_mark_def Let_def split: if_splits)

subsection \<open>The invariant\<close>

definition host_inv :: "host_state \<Rightarrow> bool" where
  "host_inv s =
     (case s of (dv, A) \<Rightarrow>
        dv_trust dv \<noteq> DamagedTrust
        \<and> (\<forall>i k x. map_of (tf_hostKeys (read_trust (dv_trust dv))) i = Some k \<and> hm_mine k = Some x \<longrightarrow> (i, x) \<in> A)
        \<and> (\<forall>i x. x \<noteq> [] \<and> expected_key dv i = Some x \<longrightarrow> (i, x) \<in> A))"

lemma host_invI:
  assumes "dv_trust dv \<noteq> DamagedTrust"
    and "\<And>i k x. map_of (tf_hostKeys (read_trust (dv_trust dv))) i = Some k \<Longrightarrow> hm_mine k = Some x \<Longrightarrow> (i, x) \<in> A"
    and "\<And>i x. x \<noteq> [] \<Longrightarrow> under_mark (map_of (tf_hostKeys (read_trust (dv_trust dv))) i) (fpOf (Some (read_hosts dv)) i) = Some x
        \<Longrightarrow> (i, x) \<in> A"
  shows "host_inv (dv, A)"
proof -
  have "\<not> tf_unreadable (read_trust (dv_trust dv))" using assms(1) by (cases "dv_trust dv") (simp_all add: empty_trust_def)
  then show ?thesis using assms by (simp add: host_inv_def expected_key_def expected_under_mark)
qed

lemma host_inv_readable: "host_inv (dv, A) \<Longrightarrow> \<not> tf_unreadable (read_trust (dv_trust dv))"
  by (cases "dv_trust dv") (simp_all add: host_inv_def empty_trust_def)

lemma host_inv_mine:
  "host_inv (dv, A) \<Longrightarrow> map_of (tf_hostKeys (read_trust (dv_trust dv))) i = Some k \<Longrightarrow> hm_mine k = Some x \<Longrightarrow> (i, x) \<in> A"
  by (auto simp: host_inv_def)

lemma host_inv_expected:
  assumes "host_inv (dv, A)" "x \<noteq> []"
    and "under_mark (map_of (tf_hostKeys (read_trust (dv_trust dv))) i) (fpOf (Some (read_hosts dv)) i) = Some x"
  shows "(i, x) \<in> A"
proof -
  have "expected_key dv i = Some x"
    unfolding expected_key_def expected_under_mark [OF host_inv_readable [OF assms(1)]] by (rule assms(3))
  then show ?thesis using assms(1,2) unfolding host_inv_def by blast
qed

lemma open_readable: "\<not> tf_unreadable (read_trust d) \<Longrightarrow> open_trust e d = read_trust d"
  by (simp add: open_trust_def Let_def)

lemma cleared_marks:
  assumes "clearHostKeyMark e i d = Some d'" "\<not> tf_unreadable (read_trust d)" "d \<noteq> DamagedTrust"
  shows "d' \<noteq> DamagedTrust \<and> map_of (tf_hostKeys (read_trust d')) j = (if j = i then None else map_of (tf_hostKeys (read_trust d)) j)"
  using assms
  by (auto simp: clearHostKeyMark_def mutate_def open_readable map_of_delete_eq split: if_splits)

lemma fpOf_entry:
  "fpOf (Some (JObj (AList.update i (host_entry i fp at0) m))) j =
     (if j = i then Some fp else Option.bind (map_of m j) (\<lambda>r. as_string (field_of r ''fingerprint'')))"
  by (simp add: fpOf_def map_of_update_eq host_entry_def)

lemma fpOf_entries: "fpOf (Some v) j = Option.bind (map_of (js_entries v) j) (\<lambda>r. as_string (field_of r ''fingerprint''))"
  by (simp add: fpOf_def)

lemma falsy_has_no_key: "\<not> js_truthy (map_of (js_entries v) i) \<Longrightarrow> fpOf (Some v) i = None"
  by (cases "map_of (js_entries v) i") (auto simp: fpOf_def elim: js_truthy.elims)

lemma host_inv_accepts:
  assumes accepts: "accept_key e i fp addedAt dv = Some dv'" and inv: "host_inv (dv, A)"
  shows "host_inv (dv', insert (i, fp) A)"
proof -
  obtain t where t: "clearHostKeyMark (trust_env.truncate (env_at e dv)) i (dv_trust dv) = Some t"
    and dv': "dv' = dv\<lparr>dv_trust := t, dv_files := AList.update KNOWN_HOSTS_FILE
               (Doc (JObj (AList.update i (host_entry i fp addedAt) (js_entries (read_hosts dv))))) (dv_files dv)\<rparr>"
    using accepts by (auto simp: accept_key_def split: if_splits)
  have cleared: "t \<noteq> DamagedTrust" "map_of (tf_hostKeys (read_trust t)) j =
      (if j = i then None else map_of (tf_hostKeys (read_trust (dv_trust dv))) j)" for j
    using cleared_marks [OF t host_inv_readable [OF inv]] inv by (auto simp: host_inv_def)
  have disk: "fpOf (Some (read_hosts dv')) j = (if j = i then Some fp else fpOf (Some (read_hosts dv)) j)" for j
    by (simp add: dv' read_hosts_def map_of_update_eq fpOf_entry fpOf_entries host_entry_def)
  show "host_inv (dv', insert (i, fp) A)"
  proof (rule host_invI)
    show "dv_trust dv' \<noteq> DamagedTrust" using cleared(1) by (simp add: dv')
  next
    fix j k x
    assume "map_of (tf_hostKeys (read_trust (dv_trust dv'))) j = Some k" "hm_mine k = Some x"
    then show "(j, x) \<in> insert (i, fp) A" using host_inv_mine [OF inv] by (auto simp: dv' cleared split: if_splits)
  next
    fix j x
    assume "x \<noteq> []" "under_mark (map_of (tf_hostKeys (read_trust (dv_trust dv'))) j) (fpOf (Some (read_hosts dv')) j) = Some x"
    then show "(j, x) \<in> insert (i, fp) A"
      using host_inv_expected [OF inv, of x j]
      unfolding disk by (auto simp: dv' cleared under_mark_def split: if_splits)
  qed
qed

lemma host_inv_forgets:
  assumes forgets: "knownHostForget e i dv = Some dv'" and inv: "host_inv (dv, A)"
  shows "host_inv (dv', A)"
proof -
  obtain t where t: "clearHostKeyMark (trust_env.truncate (env_at e dv)) i (dv_trust dv) = Some t"
    and trust: "dv_trust dv' = t"
    and disk: "fpOf (Some (read_hosts dv')) j = (if j = i then None else fpOf (Some (read_hosts dv)) j)" for j
  proof -
    obtain t where t: "clearHostKeyMark (trust_env.truncate (env_at e dv)) i (dv_trust dv) = Some t"
      using forgets by (auto simp: knownHostForget_def split: bind_splits)
    have "dv_trust dv' = t \<and> (\<forall>j. fpOf (Some (read_hosts dv')) j = (if j = i then None else fpOf (Some (read_hosts dv)) j))"
    proof (cases "js_truthy (map_of (js_entries (read_hosts dv)) i)")
      case True
      then have "dv' = dv\<lparr>dv_trust := t, dv_files := AList.update KNOWN_HOSTS_FILE
             (Doc (JObj (AList.delete i (js_entries (read_hosts dv))))) (dv_files dv)\<rparr>"
        using forgets t by (auto simp: knownHostForget_def Let_def split: if_splits)
      moreover from this have "read_hosts dv' = JObj (AList.delete i (js_entries (read_hosts dv)))"
        by (simp add: read_hosts_def map_of_update_eq)
      ultimately show ?thesis by (simp add: fpOf_entries map_of_delete_eq)
    next
      case False
      then have "dv' = dv\<lparr>dv_trust := t\<rparr>" using forgets t by (simp add: knownHostForget_def Let_def)
      then show ?thesis using falsy_has_no_key [OF False] by (simp add: read_hosts_def)
    qed
    then show thesis using that t by blast
  qed
  have cleared: "t \<noteq> DamagedTrust" "map_of (tf_hostKeys (read_trust t)) j =
      (if j = i then None else map_of (tf_hostKeys (read_trust (dv_trust dv))) j)" for j
    using cleared_marks [OF t host_inv_readable [OF inv]] inv by (auto simp: host_inv_def)
  show "host_inv (dv', A)"
  proof (rule host_invI)
    show "dv_trust dv' \<noteq> DamagedTrust" using cleared(1) by (simp add: trust)
  next
    fix j k x
    assume "map_of (tf_hostKeys (read_trust (dv_trust dv'))) j = Some k" "hm_mine k = Some x"
    then show "(j, x) \<in> A" using host_inv_mine [OF inv] by (auto simp: trust cleared split: if_splits)
  next
    fix j x
    assume "x \<noteq> []" "under_mark (map_of (tf_hostKeys (read_trust (dv_trust dv'))) j) (fpOf (Some (read_hosts dv')) j) = Some x"
    then show "(j, x) \<in> A"
      using host_inv_expected [OF inv, of x j]
      unfolding disk by (auto simp: trust cleared under_mark_def split: if_splits)
  qed
qed

lemma synced_state:
  assumes "src_write (knownHostsSource e) (Doc v) dv = (dv', None)" "jsmap_wf (js_entries v)"
    and "\<not> tf_unreadable (read_trust (dv_trust dv))"
  shows "read_hosts dv' = v \<and> dv_trust dv' \<noteq> DamagedTrust \<and> \<not> tf_unreadable (read_trust (dv_trust dv'))
    \<and> map_of (tf_hostKeys (read_trust (dv_trust dv'))) i =
        synced_mark (fpOf (Some (read_hosts dv)) i) (fpOf (Some v) i) (map_of (tf_hostKeys (read_trust (dv_trust dv))) i)"
proof -
  obtain t where t: "markHostKeyArrivals (trust_env.truncate (env_at e dv)) (Some (read_hosts dv)) (Some v) (dv_trust dv) = Some t"
    and w: "write_file e KNOWN_HOSTS_FILE (Doc v) (dv\<lparr>dv_trust := t\<rparr>) = (dv', None)"
    using assms(1) by (auto simp: knownHostsSource_def read_hosts_def Let_def split: option.splits)
  have t': "t = TrustOn (mark_host_keys (Some (read_hosts dv)) (Some v) (read_trust (dv_trust dv)))"
    using t open_readable [OF assms(3)] by (auto simp: markHostKeyArrivals_def mutate_def split: if_splits)
  have dv': "dv' = dv\<lparr>dv_trust := t, dv_files := AList.update KNOWN_HOSTS_FILE (Doc v) (dv_files dv)\<rparr>"
    using w by (auto simp: write_file_def split: if_splits)
  have "read_hosts dv' = v" by (simp add: dv' read_hosts_def map_of_update_eq)
  moreover have "dv_trust dv' = t" by (simp add: dv')
  ultimately show ?thesis using assms(2) by (simp add: t' mark_host_keys_one key_names_def)
qed

lemma host_inv_synced:
  assumes synced: "src_write (knownHostsSource e) (Doc v) dv = (dv', None)" "jsmap_wf (js_entries v)"
    and inv: "host_inv (dv, A)"
  shows "host_inv (dv', A)"
proof -
  let ?t = "read_trust (dv_trust dv)"
  have state: "read_hosts dv' = v \<and> dv_trust dv' \<noteq> DamagedTrust \<and> \<not> tf_unreadable (read_trust (dv_trust dv'))
    \<and> map_of (tf_hostKeys (read_trust (dv_trust dv'))) j =
        synced_mark (fpOf (Some (read_hosts dv)) j) (fpOf (Some v) j) (map_of (tf_hostKeys ?t) j)" for j
    by (rule synced_state [OF synced host_inv_readable [OF inv]])
  then have disk: "read_hosts dv' = v" and ok: "dv_trust dv' \<noteq> DamagedTrust"
    and marks: "map_of (tf_hostKeys (read_trust (dv_trust dv'))) j =
      synced_mark (fpOf (Some (read_hosts dv)) j) (fpOf (Some v) j) (map_of (tf_hostKeys ?t) j)" for j
    by blast+
  show "host_inv (dv', A)"
  proof (rule host_invI)
    show "dv_trust dv' \<noteq> DamagedTrust" by (rule ok)
  next
    fix j k x
    assume "map_of (tf_hostKeys (read_trust (dv_trust dv'))) j = Some k" and x: "hm_mine k = Some x"
    then have k: "synced_mark (fpOf (Some (read_hosts dv)) j) (fpOf (Some v) j) (map_of (tf_hostKeys ?t) j) = Some k"
      by (simp add: marks)
    show "(j, x) \<in> A"
      using synced_mark_mine [OF k x] host_inv_mine [OF inv] host_inv_expected [OF inv, of x j] by blast
  next
    fix j x
    assume x: "x \<noteq> []" "under_mark (map_of (tf_hostKeys (read_trust (dv_trust dv'))) j) (fpOf (Some (read_hosts dv')) j) = Some x"
    then have "under_mark (synced_mark (fpOf (Some (read_hosts dv)) j) (fpOf (Some v) j) (map_of (tf_hostKeys ?t) j)) (fpOf (Some v) j) = Some x"
      by (simp add: marks disk)
    then show "(j, x) \<in> A"
      using under_synced_mark x(1) host_inv_mine [OF inv] host_inv_expected [OF inv x(1), of j] by blast
  qed
qed

lemma host_inv_marks:
  assumes marks: "tf_hostKeys t = tf_hostKeys (open_trust (trust_env.truncate (env_at e dv)) (dv_trust dv))"
    and inv: "host_inv (dv, A)"
  shows "host_inv (dv\<lparr>dv_trust := TrustOn t\<rparr>, A)"
proof -
  have same: "tf_hostKeys t = tf_hostKeys (read_trust (dv_trust dv))"
    using marks open_readable [OF host_inv_readable [OF inv]] by simp
  show "host_inv (dv\<lparr>dv_trust := TrustOn t\<rparr>, A)"
    by (rule host_invI) (use host_inv_mine [OF inv] host_inv_expected [OF inv] in \<open>auto simp: same read_hosts_def\<close>)
qed

lemma host_inv_step: "host_step e s s' \<Longrightarrow> host_inv s \<Longrightarrow> host_inv s'"
  by (induction rule: host_step.induct)
     (simp_all add: host_inv_accepts host_inv_forgets host_inv_synced host_inv_marks)

lemma host_inv_begins:
  "dv_trust dv = NoTrust \<Longrightarrow> host_inv (dv, {(i, fp). fpOf (Some (read_hosts dv)) i = Some fp})"
  by (rule host_invI) (simp_all add: empty_trust_def under_mark_def)

lemma host_inv_reachable: "host_reachable e s \<Longrightarrow> host_inv s"
  by (induction rule: host_reachable.induct) (auto simp: host_inv_begins intro: host_inv_step)

subsection \<open>Which keys are trusted without a question\<close>

lemma trusted_is_expected: "verifyHostKey dv i fp p r = KeyTrusted \<Longrightarrow> expected_key dv i = Some fp"
  by (auto simp: verifyHostKey_def expected_key_def Let_def split: if_splits)


definition hosts_doc :: "string \<Rightarrow> json" where
  "hosts_doc fp = JObj [(''h:22'', host_entry ''h:22'' fp ''t'')]"

definition hosts_device :: device where
  "hosts_device = \<lparr>dv_data = NoData, dv_files = [(KNOWN_HOSTS_FILE, Doc (hosts_doc ''K0''))],
     dv_trust = NoTrust, dv_awaiting = []\<rparr>"

definition hosts_synced :: device where
  "hosts_synced = fst (src_write (knownHostsSource sample_env) (Doc (hosts_doc ''K1'')) hosts_device)"


subsection \<open>Where what was trusted is lost\<close>


definition hosts_emptied :: device where
  "hosts_emptied = fst (src_write (knownHostsSource sample_env) (Doc (JObj [])) hosts_synced)"


text \<open>A file that was damaged trusts no key of the known-hosts file; the first write of a mark, for
  any record, rebuilds it without the host keys, and every key the file holds is trusted again.\<close>

lemma damage_releases_host_keys:
  assumes "confirmRecord e kind j DamagedTrust = Some d"
  shows "hostKeyExpected DamagedTrust i f = None \<and> hostKeyExpected d i f = f"
proof -
  have "tf_hostKeys (foldl (\<lambda>t (kind, r). markRecord e kind r None t) t ps) = tf_hostKeys t" for t ps
    by (induction ps arbitrary: t) (auto simp: markRecord_def Let_def)
  then have "tf_hostKeys (open_trust e DamagedTrust) = []"
    by (simp add: open_trust_def Let_def rebuilt_def empty_trust_def)
  then show ?thesis
    using assms by (auto simp: confirmRecord_def mutate_def hostKeyExpected_def split: if_splits)
qed

text \<open>A copy whose marks were saved and whose file could not be written has replaced the mark of the
  value that is still there: the key an earlier copy brought is trusted although nobody accepted it.\<close>

lemma failed_copy_releases_the_key:
  "let e = sample_env\<lparr>de_file_ok := False\<rparr>;
       failed = fst (src_write (knownHostsSource e) (Doc (hosts_doc ''K2'')) hosts_synced)
   in verifyHostKey hosts_synced ''h:22'' ''K1'' True False = KeyChanged ''K0''
      \<and> verifyHostKey failed ''h:22'' ''K1'' True False = KeyTrusted"
  by code_simp

text \<open>An entry whose fingerprint is empty is not marked, and hides the key that was trusted.\<close>

lemma empty_fingerprint_is_a_first_sighting:
  "verifyHostKey (fst (src_write (knownHostsSource sample_env) (Doc (hosts_doc [])) hosts_device)) ''h:22'' ''K2'' True False = KeyAsked"
  by code_simp

end
