(* ===== verification/Sync_Gate.thy ===== *)
theory Sync_Gate
  imports Known_Hosts Gate_Tools
begin

section \<open>A move that sync made, at the gate\<close>

text \<open>
  The gate reads from the marks only which workspace a server was in before an unconfirmed move.
  Here the marks file is that source, so that what a synced copy of the servers does and what an
  agent may then do are one statement.
\<close>

definition marks_of :: "trust_disk \<Rightarrow> sync_marks" where
  "marks_of d =
     \<lparr>tm_unreadable = tf_unreadable (read_trust d),
      tm_moves = List.map_filter (\<lambda>(key, m). case mk_ws m of
          Some move \<Rightarrow> if starts_with ''server:'' key then Some (drop 7 key, move) else None
        | None \<Rightarrow> None) (tf_marks (read_trust d))\<rparr>"

definition home :: "trust_disk \<Rightarrow> string \<Rightarrow> string \<Rightarrow> string" where
  "home d i ws = nullish (pendingWorkspace (marks_of d) i ws) ws"

lemma moves_of_marks:
  "jsmap_wf marks \<Longrightarrow>
   map_of (List.map_filter (\<lambda>(key, m). case mk_ws m of
          Some move \<Rightarrow> if starts_with ''server:'' key then Some (drop 7 key, move) else None
        | None \<Rightarrow> None) marks) i = Option.bind (map_of marks (mark_key KServer i)) mk_ws"
proof (induction marks)
  case Nil
  then show ?case by simp
next
  case (Cons p marks)
  obtain key m where p: "p = (key, m)" by (cases p)
  show ?case
  proof (cases "key = mark_key KServer i")
    case True
    have gone: "map_of marks (mark_key KServer i) = None" using Cons.prems by (simp add: p True map_of_eq_None_iff)
    show ?thesis
      using Cons gone by (cases "mk_ws m") (simp_all add: p True mark_key_def map_filter_simps)
  next
    case False
    then have "starts_with ''server:'' key \<Longrightarrow> drop 7 key \<noteq> i" by (auto simp: starts_with_iff mark_key_def)
    then show ?thesis
      using Cons False by (cases "mk_ws m") (auto simp: p map_filter_simps)
  qed
qed

lemma pending_of_marks:
  assumes "jsmap_wf (tf_marks (read_trust d))" "\<not> tf_unreadable (read_trust d)"
  shows "pendingWorkspace (marks_of d) i ws =
     (case pendingMove d i of Some (was, now) \<Rightarrow> if now = ws then Some was else None | None \<Rightarrow> None)"
  using assms(2) moves_of_marks [OF assms(1)]
  by (simp add: pendingWorkspace_def marks_of_def pendingMove_def)

subsection \<open>One record among many\<close>

lemma markRecord_key:
  "map_of (tf_marks t) (mark_key kind (rec_id r)) = map_of (tf_marks t') (mark_key kind (rec_id r)) \<Longrightarrow>
   map_of (tf_marks (markRecord e kind r local t)) (mark_key kind (rec_id r))
     = map_of (tf_marks (markRecord e kind r local t')) (mark_key kind (rec_id r))"
  by (simp add: markRecord_def Let_def map_of_update_eq)

lemma marked_among:
  "distinct (map rec_id rs) \<Longrightarrow> r \<in> set rs \<Longrightarrow>
   map_of (tf_marks (foldl (\<lambda>t r. markRecord e kind r (loc r) t) t rs)) (mark_key kind (rec_id r))
     = map_of (tf_marks (markRecord e kind r (loc r) t)) (mark_key kind (rec_id r))"
proof (induction rs arbitrary: t)
  case Nil
  then show ?case by simp
next
  case (Cons x rs)
  show ?case
  proof (cases "r = x")
    case True
    then have "rec_id r \<notin> rec_id ` set rs" using Cons.prems(1) by simp
    then show ?thesis using True by (simp add: marks_of_others)
  next
    case False
    then have "r \<in> set rs" "rec_id x \<noteq> rec_id r" using Cons.prems by auto
    then show ?thesis
      using Cons by (simp add: markRecord_key [of "markRecord e kind x (loc x) t" kind r t] markRecord_other)
  qed
qed

lemma mark_all_key:
  "distinct (map rec_id theirs) \<Longrightarrow> r \<in> set theirs \<Longrightarrow>
   map_of (tf_marks (mark_all e kind local theirs t)) (mark_key kind (rec_id r))
     = map_of (tf_marks (markRecord e kind r (map_of (by_id local) (rec_id r)) t)) (mark_key kind (rec_id r))"
  unfolding mark_all_def by (simp add: forget_deleted_keeps marked_among)

lemma jsmap_wf_marks:
  "jsmap_wf (tf_marks t) \<Longrightarrow> jsmap_wf (tf_marks (mark_all e kind local theirs t))"
proof -
  have "jsmap_wf (tf_marks t) \<Longrightarrow> jsmap_wf (tf_marks (foldl (\<lambda>t r. markRecord e kind r (loc r) t) t rs))" for loc rs t
    by (induction rs arbitrary: t) (simp_all add: markRecord_def Let_def)
  moreover have "jsmap_wf m \<Longrightarrow> jsmap_wf (filter P m)" for m :: "(string, Mark) jsmap" and P
    by (induction m) (auto simp: image_iff)
  ultimately show "jsmap_wf (tf_marks t) \<Longrightarrow> ?thesis" by (simp add: mark_all_def forget_deleted_def Let_def)
qed

subsection \<open>The workspace a person here knows\<close>

lemma moved_mark:
  assumes "here \<noteq> []" "now \<noteq> []" "here = str (field_of l ''workspaceId'')" "now = str (field_of r ''workspaceId'')"
    and "was = (case Option.bind prev mk_ws of Some (w, n) \<Rightarrow> if n = here then w else here | None \<Rightarrow> here)" "was \<noteq> []"
  shows "moved_by_sync prev r l = (if was \<noteq> now then Some (was, now) else None)"
  unfolding moved_by_sync_def Let_def assms(3) [symmetric] assms(4) [symmetric] assms(5) [symmetric]
  using assms(2,6) by simp

lemma home_after_mark:
  assumes "map_of (tf_marks (markRecord e KServer r (Some l) t)) (mark_key KServer (rec_id r)) = m'"
    and "here = str (field_of l ''workspaceId'')" "now = str (field_of r ''workspaceId'')" "here \<noteq> []" "now \<noteq> []"
    and "prev = map_of (tf_marks t) (mark_key KServer (rec_id r))"
    and "was = (case Option.bind prev mk_ws of Some (w, n) \<Rightarrow> if n = here then w else here | None \<Rightarrow> here)" "was \<noteq> []"
  shows "(case Option.bind m' mk_ws of Some (w, n) \<Rightarrow> if n = now then w else now | None \<Rightarrow> now) = was"
proof -
  let ?mark = "new_mark e prev KServer r (Some l)"
  have ws: "mk_ws ?mark = (if was \<noteq> now then Some (was, now) else None)"
    using moved_mark [OF assms(4,5,2,3,7,8)] by (simp add: new_mark_def)
  show ?thesis
  proof (cases "mk_fields ?mark \<noteq> [] \<or> mk_ws ?mark \<noteq> None")
    case True
    then have "m' = Some ?mark"
      using assms(1,6) by (simp add: markRecord_def Let_def map_of_update_eq)
    then show ?thesis by (simp add: ws)
  next
    case False
    then have "mk_ws ?mark = None" by blast
    moreover have "m' = prev" using False assms(1,6) by (simp add: markRecord_def Let_def)
    ultimately have "m' = prev" "mk_ws ?mark = None" by simp_all
    moreover from this have "was = now" using ws by (simp split: if_splits)
    ultimately have "m' = prev" "was = now" by simp_all
    then show ?thesis using assms(7) by (auto split: option.splits if_splits)
  qed
qed

lemma home_of_marks:
  assumes "jsmap_wf (tf_marks (read_trust d))" "\<not> tf_unreadable (read_trust d)"
  shows "home d i ws = (case Option.bind (map_of (tf_marks (read_trust d)) (mark_key KServer i)) mk_ws of
      Some (w, n) \<Rightarrow> if n = ws then w else ws | None \<Rightarrow> ws)"
  by (simp add: home_def pending_of_marks [OF assms] pendingMove_def split: option.split)

text \<open>A synced copy moves a server between two named workspaces: the workspace a person here knows
  it in, which the gate goes by, stays the same.\<close>

lemma home_is_kept:
  assumes "SOURCES e ''servers'' = Some s" "src_write s (Doc (JArr xs)) dv = (dv', None)"
    and marks: "jsmap_wf (tf_marks (read_trust (dv_trust dv)))" "\<not> tf_unreadable (read_trust (dv_trust dv))"
    and l: "map_of (by_id (data_records dv KServer)) i = Some l"
    and r: "r \<in> set (data_records dv' KServer)" "rec_id r = i"
    and ws: "here = str (field_of l ''workspaceId'')" "now = str (field_of r ''workspaceId'')"
    and named: "here \<noteq> []" "now \<noteq> []" "home (dv_trust dv) i here \<noteq> []"
  shows "home (dv_trust dv') i now = home (dv_trust dv) i here"
proof -
  have src: "SOURCES e (COLLECTION KServer) = Some s" using assms(1) by simp
  obtain mine where mine: "read_key (COLLECTION KServer) dv = Inr mine"
    and marked: "markArrivals (trust_env.truncate (env_at e dv)) KServer (parseList mine) xs (dv_trust dv) = Some (dv_trust dv')"
    and disk: "Option.bind (loadData dv') (\<lambda>d. field_of d (COLLECTION KServer)) = Some (JArr (map (landed e KServer dv) xs))"
    by (rule marked_write [OF src assms(2)])
  let ?e = "trust_env.truncate (env_at e dv)" and ?t = "read_trust (dv_trust dv)"
  have ok: "\<not> ids_refused [] xs" using marked by (auto simp: markArrivals_def split: if_splits)
  have "dv_trust dv' = TrustOn (mark_all ?e KServer (data_records dv KServer) (with_ids xs) ?t)"
    using marked ok open_readable [OF marks(2)] read_key_records [OF mine]
    by (auto simp: markArrivals_def mutate_def split: if_splits)
  then have t': "read_trust (dv_trust dv') = (mark_all ?e KServer (data_records dv KServer) (with_ids xs) ?t)\<lparr>tf_unreadable := False\<rparr>"
    by simp
  have "data_records dv' KServer = with_ids (map (landed e KServer dv) xs)"
    using disk by (simp add: data_records_def recordsOf_def)
  then obtain x j where x: "x \<in> set xs" "r = landed e KServer dv x" "is_object r" "as_string (field_of r ''id'') = Some j"
    using r(1) by (auto simp: with_ids_def)
  have same: "is_object x" "rec_id x = i" "field_of x ''workspaceId'' = field_of r ''workspaceId''"
  proof -
    show "is_object x" "rec_id x = i" using landed_record [of e KServer dv x j] x r(2) by simp_all
    have "as_string (map_of (js_entries x) ''id'') = Some j"
      using x(2,4) by (simp add: landed_def arrive_offline_def map_of_update_eq)
    then obtain kvs where "x = JObj kvs" by (rule entries_id_text)
    then show "field_of x ''workspaceId'' = field_of r ''workspaceId''"
      using x(2) by (simp add: landed_def arrive_offline_def map_of_update_eq)
  qed
  have ids: "distinct (map rec_id (with_ids xs))" "x \<in> set (with_ids xs)"
    using ids_refused_False [OF ok] x(1) same(1) by auto
  have marked_x: "map_of (tf_marks (mark_all ?e KServer (data_records dv KServer) (with_ids xs) ?t)) (mark_key KServer i)
      = map_of (tf_marks (markRecord ?e KServer x (Some l) ?t)) (mark_key KServer i)"
    using mark_all_key [OF ids, of ?e KServer "data_records dv KServer" ?t] l by (simp add: same(2))
  have h: "home (dv_trust dv) i here = (case Option.bind (map_of (tf_marks ?t) (mark_key KServer i)) mk_ws of
      Some (w, n) \<Rightarrow> if n = here then w else here | None \<Rightarrow> here)"
    by (rule home_of_marks [OF marks])
  have "home (dv_trust dv') i now = (case Option.bind (map_of (tf_marks (markRecord ?e KServer x (Some l) ?t)) (mark_key KServer i)) mk_ws of
      Some (w, n) \<Rightarrow> if n = now then w else now | None \<Rightarrow> now)"
    using home_of_marks [of "dv_trust dv'" i now] jsmap_wf_marks [OF marks(1)] marked_x by (simp add: t')
  also have "\<dots> = home (dv_trust dv) i here"
  proof -
    have now: "now = str (field_of x ''workspaceId'')" by (simp only: same(3) ws(2))
    have was: "home (dv_trust dv) i here = (case Option.bind (map_of (tf_marks ?t) (mark_key KServer (rec_id x))) mk_ws of
        Some (w, n) \<Rightarrow> if n = here then w else here | None \<Rightarrow> here)" by (simp only: same(2) h)
    show ?thesis
      using home_after_mark [OF refl ws(1) now named(1,2) refl was named(3), of ?e] by (simp only: same(2))
  qed
  finally show ?thesis .
qed

lemma restricted_at_home:
  assumes "server_assignment assignments i = None" "workspace_assignment assignments (nullish former now) = Some a"
    and "restriction_of a = NoAiAccess" "nullish former now \<noteq> []"
  shows "resolveRestriction assignments i now former = NoAiAccess"
proof (cases former)
  case None
  then show ?thesis using assms by (simp add: resolveRestriction_def Let_def truthy_def)
next
  case (Some w)
  have "pa_groupId n = pa_groupId a \<Longrightarrow> restriction_of n = NoAiAccess" for n
    using assms(3) by (simp add: restriction_of_def)
  then show ?thesis
    using assms Some by (auto simp: resolveRestriction_def Let_def truthy_def split: option.splits)
qed


definition placed_server :: "string \<Rightarrow> json" where
  "placed_server w = JObj [(''id'', JStr ''db''), (''workspaceId'', JStr w), (''name'', JStr ''DB''), (''host'', JStr ''10.0.0.5'')]"

definition placed_device :: device where
  "placed_device = sample_device\<lparr>dv_data := DataOf [(''servers'', JArr [placed_server ''closed''])]\<rparr>"

definition land_servers :: "json list \<Rightarrow> device \<Rightarrow> device" where
  "land_servers xs dv = fst (src_write (marking sample_env KServer (serversSource sample_env)) (Doc (JArr xs)) dv)"

definition bridge_on :: "device \<Rightarrow> bridge" where
  "bridge_on dv = sample_bridge\<lparr>br_cache := refreshMcpDataCache (loadData dv), br_marks := marks_of (dv_trust dv),
     br_policy := setAssignment ''a'' (ScopeWorkspace ''closed'') None (seed (\<lambda>_. ''u''))\<rparr>"


text \<open>The two workspaces have to be named. A copy that first takes the server out of every workspace
  and a second one that puts it into another leave no mark, and nothing restricts the server.\<close>

lemma move_through_no_workspace_is_not_noticed:
  "let dv1 = land_servers [placed_server []] placed_device; dv2 = land_servers [placed_server ''open''] dv1
   in restrictionOf (bridge_on dv1) ''db'' [] = NoRestriction \<and> restrictionOf (bridge_on dv2) ''db'' ''open'' = NoRestriction"
  by code_simp

end
