(* ===== verification/Addy_Sync.thy ===== *)
theory Addy_Sync
  imports Sync_Sources
begin

section \<open>One pass of the account sync (main/services/addy/sync.ts)\<close>

text \<open>
  Every collection of this device against the copy the relay holds. The relay, the sidecar that
  seals and opens, and everything else that happens while the pass waits are arguments: an answer
  is a function of the trace of what has been asked and done so far, so a relay may answer
  anything at all, and \<open>sd_meanwhile\<close> may change the disk at every await. The state of a pass is
  the disk, the sync state it will save and the trace.
\<close>

subsection \<open>What a device remembers\<close>

record CollectionState =
  cl_etag :: string
  cl_counter :: nat
  cl_localHash :: string
  cl_at :: int
  cl_base :: "base_map option"
  cl_conflictedEtag :: "string option"

record SyncState =
  ss_accountId :: "string option"
  ss_collections :: "(string, CollectionState) jsmap"
  ss_floors :: "(string, nat) jsmap"

datatype sync_file = NoSync | BadSync | SyncOn SyncState

definition known_of :: "SyncState \<Rightarrow> string \<Rightarrow> CollectionState option" where
  "known_of st name = map_of (ss_collections st) name"

definition floorOf :: "SyncState \<Rightarrow> string \<Rightarrow> nat" where
  "floorOf st name =
     max (case known_of st name of Some c \<Rightarrow> cl_counter c | None \<Rightarrow> 0) (nullish (map_of (ss_floors st) name) 0)"

definition fresh_state :: "string option \<Rightarrow> SyncState" where
  "fresh_state account = \<lparr>ss_accountId = account, ss_collections = [], ss_floors = []\<rparr>"

definition loadState :: "string option \<Rightarrow> sync_file \<Rightarrow> SyncState" where
  "loadState forAccount f =
     (case f of
        SyncOn st \<Rightarrow> if forAccount \<noteq> None \<and> ss_accountId st \<noteq> forAccount then fresh_state forAccount else st
      | _ \<Rightarrow> fresh_state forAccount)"

definition raise_floors :: "SyncState \<Rightarrow> (string, nat) jsmap" where
  "raise_floors st =
     foldl (\<lambda>floors (name, entry). AList.update name (max (nullish (map_of floors name) 0) (cl_counter entry)) floors)
       (ss_floors st) (ss_collections st)"

definition saveState :: "SyncState \<Rightarrow> sync_file" where
  "saveState st = SyncOn (st\<lparr>ss_floors := raise_floors st\<rparr>)"

subsection \<open>Payloads\<close>

definition removesMost :: "payload \<Rightarrow> payload \<Rightarrow> bool" where
  "removesMost before after =
     (case (asRecords before, asRecords after) of
        (Some was, Some now) \<Rightarrow>
          \<not> length was \<le> 5
          \<and> length (filter (\<lambda>(i, _). i \<notin> fst ` set now) was) * 2 > length was
      | _ \<Rightarrow> False)"

definition isEmptyish :: "payload \<Rightarrow> bool" where
  "isEmptyish body =
     (case body of
        NotJson s \<Rightarrow> trim s = []
      | Doc v \<Rightarrow> v = JNull \<or> v = JArr [] \<or> v = JObj [])"

subsection \<open>What is asked and done\<close>

datatype conflict_reason = BulkRemoval

datatype sync_effect =
    EvGet string "(string \<times> string) option"
  | EvPut string nat payload "string option" "string option"
  | EvKeep string nat payload "conflict_reason option" bool
  | EvLand string payload
  | EvApplied string

type_synonym sync_trace = "sync_effect list"

record 'd sync_deps =
  sd_get :: "sync_trace \<Rightarrow> string \<Rightarrow> nat \<Rightarrow> addy_error + (string \<times> string) option"
  sd_put :: "sync_trace \<Rightarrow> string \<Rightarrow> nat \<Rightarrow> nat \<Rightarrow> string \<Rightarrow> string option \<Rightarrow> addy_error + string"
  sd_keep :: "sync_trace \<Rightarrow> string \<Rightarrow> nat \<Rightarrow> nat \<Rightarrow> string \<Rightarrow> addy_error + unit"
  sd_seal :: "sync_trace \<Rightarrow> string \<Rightarrow> nat \<Rightarrow> nat \<Rightarrow> payload \<Rightarrow> addy_error + string"
  sd_seal_conflict :: "sync_trace \<Rightarrow> string \<Rightarrow> nat \<Rightarrow> nat \<Rightarrow> payload \<Rightarrow> conflict_reason option \<Rightarrow> addy_error + string"
  sd_open :: "sync_trace \<Rightarrow> string \<Rightarrow> nat \<Rightarrow> string \<Rightarrow> nat \<Rightarrow> addy_error + payload \<times> nat"
  sd_epoch :: "sync_trace \<Rightarrow> nat"
  sd_now :: "sync_trace \<Rightarrow> int"
  sd_forgets :: "sync_trace \<Rightarrow> nat"
  sd_meanwhile :: "sync_trace \<Rightarrow> 'd \<Rightarrow> 'd"
  sd_hash :: "payload \<Rightarrow> string"
  sd_fp :: "json \<Rightarrow> string"

record 'd sync_world =
  sw_disk :: 'd
  sw_state :: SyncState
  sw_trace :: sync_trace

type_synonym ('d, 'a) sync = "'d sync_world \<Rightarrow> (addy_error + 'a) \<times> 'd sync_world"

definition return :: "'a \<Rightarrow> ('d, 'a) sync" where
  "return x w = (Inr x, w)"

definition throw :: "addy_error \<Rightarrow> ('d, 'a) sync" where
  "throw err w = (Inl err, w)"

definition and_then :: "('d, 'a) sync \<Rightarrow> ('a \<Rightarrow> ('d, 'b) sync) \<Rightarrow> ('d, 'b) sync" where
  "and_then m f w = (case m w of (Inl err, w') \<Rightarrow> (Inl err, w') | (Inr x, w') \<Rightarrow> f x w')"

definition catching :: "('d, 'a) sync \<Rightarrow> (addy_error \<Rightarrow> ('d, 'a) sync) \<Rightarrow> ('d, 'a) sync" where
  "catching m h w = (case m w of (Inl err, w') \<Rightarrow> h err w' | (Inr x, w') \<Rightarrow> (Inr x, w'))"

text \<open>An await: the answer, what is noted of it, and what others did to the disk meanwhile.\<close>

definition await :: "'d sync_deps \<Rightarrow> (sync_trace \<Rightarrow> addy_error + 'a) \<Rightarrow> (addy_error + 'a \<Rightarrow> sync_effect list) \<Rightarrow> ('d, 'a) sync" where
  "await deps ask note w =
     (let r = ask (sw_trace w)
      in (r, w\<lparr>sw_trace := sw_trace w @ note r, sw_disk := sd_meanwhile deps (sw_trace w) (sw_disk w)\<rparr>))"

definition getting :: "('d sync_world \<Rightarrow> 'a) \<Rightarrow> ('d, 'a) sync" where
  "getting f w = (Inr (f w), w)"

definition read_local :: "'d source \<Rightarrow> ('d, payload option) sync" where
  "read_local source w = (src_read source (sw_disk w), w)"

definition get_object :: "'d sync_deps \<Rightarrow> string \<Rightarrow> nat \<Rightarrow> ('d, (string \<times> string) option) sync" where
  "get_object deps name epoch =
     await deps (\<lambda>t. sd_get deps t name epoch) (\<lambda>r. case r of Inr a \<Rightarrow> [EvGet name a] | Inl _ \<Rightarrow> [])"

subsection \<open>Sealing and opening\<close>

definition isConflict :: "addy_error \<Rightarrow> bool" where
  "isConflict err = (case err of AddyError c _ \<Rightarrow> c = ''conflict'' | OtherError _ \<Rightarrow> False)"

definition message_of :: "addy_error \<Rightarrow> string" where
  "message_of err = (case err of AddyError _ m \<Rightarrow> m | OtherError m \<Rightarrow> m)"

definition rolled_back :: "addy_error \<Rightarrow> bool" where
  "rolled_back err =
     ((case err of AddyError c _ \<Rightarrow> c = ''roster-rewound'' | OtherError _ \<Rightarrow> False)
      \<or> has_text ''counter is behind'' (message_of err) \<or> has_text ''went backwards'' (message_of err))"

definition putSealed :: "'d sync_deps \<Rightarrow> string \<Rightarrow> nat \<Rightarrow> nat \<Rightarrow> payload \<Rightarrow> string option \<Rightarrow> ('d, string) sync" where
  "putSealed deps name epoch counter payload ifMatch =
     and_then (await deps (\<lambda>t. sd_seal deps t name epoch counter payload) (\<lambda>_. []))
       (\<lambda>sealed. await deps (\<lambda>t. sd_put deps t name epoch counter sealed ifMatch)
          (\<lambda>r. [EvPut name counter payload ifMatch (case r of Inr etag \<Rightarrow> Some etag | Inl _ \<Rightarrow> None)]))"

definition openObject :: "'d sync_deps \<Rightarrow> string \<Rightarrow> nat \<Rightarrow> string \<Rightarrow> nat \<Rightarrow> ('d, payload \<times> nat) sync" where
  "openObject deps name epoch sealed seenCounter =
     catching (await deps (\<lambda>t. sd_open deps t name epoch sealed seenCounter) (\<lambda>_. []))
       (\<lambda>err. throw (if rolled_back err then AddyError ''rolled-back'' ''main.addy.sync.rolledBack'' else err))"

definition keepAsConflict :: "'d sync_deps \<Rightarrow> string \<Rightarrow> nat \<Rightarrow> nat \<Rightarrow> payload \<Rightarrow> conflict_reason option \<Rightarrow> ('d, unit) sync" where
  "keepAsConflict deps name epoch counter payload why =
     and_then (await deps (\<lambda>t. sd_seal_conflict deps t name epoch counter payload why) (\<lambda>_. []))
       (\<lambda>sealed. await deps (\<lambda>t. sd_keep deps t name epoch counter sealed)
          (\<lambda>r. [EvKeep name counter payload why (\<not> isl r)]))"

subsection \<open>Landing and agreeing\<close>

definition write_local :: "'d source \<Rightarrow> string \<Rightarrow> payload \<Rightarrow> ('d, unit) sync" where
  "write_local source name payload w =
     (let (d, err) = src_write source payload (sw_disk w)
      in (case err of Some x \<Rightarrow> Inl x | None \<Rightarrow> Inr (),
          w\<lparr>sw_disk := d, sw_trace := sw_trace w @ [EvLand name payload]\<rparr>))"

definition applied :: "string \<Rightarrow> ('d, unit) sync" where
  "applied name w = (Inr (), w\<lparr>sw_trace := sw_trace w @ [EvApplied name]\<rparr>)"

definition writeBack :: "'d source \<Rightarrow> string \<Rightarrow> payload \<Rightarrow> ('d, payload) sync" where
  "writeBack source name payload =
     and_then (write_local source name payload) (\<lambda>_.
     and_then (applied name) (\<lambda>_.
     and_then (read_local source) (\<lambda>back. return (nullish back payload))))"

definition set_entry :: "string \<Rightarrow> CollectionState \<Rightarrow> ('d, unit) sync" where
  "set_entry name c w =
     (Inr (), w\<lparr>sw_state := (sw_state w)\<lparr>ss_collections := AList.update name c (ss_collections (sw_state w))\<rparr>\<rparr>)"

definition entry_for :: "'d sync_deps \<Rightarrow> string \<Rightarrow> nat \<Rightarrow> payload \<Rightarrow> 'd sync_world \<Rightarrow> CollectionState" where
  "entry_for deps etag counter landed w =
     \<lparr>cl_etag = etag, cl_counter = counter, cl_localHash = sd_hash deps landed, cl_at = sd_now deps (sw_trace w),
      cl_base = baseOf (sd_fp deps) landed, cl_conflictedEtag = None\<rparr>"

definition agree :: "'d sync_deps \<Rightarrow> string \<Rightarrow> string \<Rightarrow> nat \<Rightarrow> payload \<Rightarrow> ('d, unit) sync" where
  "agree deps name etag counter landed =
     and_then (getting (entry_for deps etag counter landed)) (set_entry name)"

definition floor_now :: "string \<Rightarrow> ('d, nat) sync" where
  "floor_now name = getting (\<lambda>w. floorOf (sw_state w) name)"

subsection \<open>The branches\<close>

datatype CollectionOutcome =
    Unchanged | Pushed | Pulled | Adopted | Merged | Conflicted | Skipped | Failed

text \<open>Three endings the branches share: what is pushed is what this device has, what landed is
  recorded as it is on the disk, and a copy already kept against one remote copy is not kept twice.\<close>

definition pushAs :: "'d sync_deps \<Rightarrow> string \<Rightarrow> nat \<Rightarrow> nat \<Rightarrow> payload \<Rightarrow> string option \<Rightarrow> ('d, CollectionOutcome) sync" where
  "pushAs deps name epoch counter body ifMatch =
     and_then (putSealed deps name epoch counter body ifMatch) (\<lambda>etag.
     and_then (agree deps name etag counter body) (\<lambda>_. return Pushed))"

definition landAs :: "'d sync_deps \<Rightarrow> string \<Rightarrow> 'd source \<Rightarrow> string \<Rightarrow> nat \<Rightarrow> payload \<Rightarrow> CollectionOutcome
    \<Rightarrow> ('d, CollectionOutcome) sync" where
  "landAs deps name source etag counter payload out =
     and_then (writeBack source name payload) (\<lambda>landed.
     and_then (agree deps name etag counter landed) (\<lambda>_. return out))"

definition keepOnce :: "'d sync_deps \<Rightarrow> string \<Rightarrow> nat \<Rightarrow> nat \<Rightarrow> payload \<Rightarrow> string \<Rightarrow> ('d, unit) sync" where
  "keepOnce deps name epoch counter local freshEtag =
     and_then (getting (\<lambda>w. known_of (sw_state w) name)) (\<lambda>held.
       if Option.bind held cl_conflictedEtag \<noteq> Some freshEtag then
         and_then (keepAsConflict deps name epoch counter local None) (\<lambda>_.
         set_entry name
           ((nullish held \<lparr>cl_etag = [], cl_counter = 0, cl_localHash = [], cl_at = 0, cl_base = None,
              cl_conflictedEtag = None\<rparr>)\<lparr>cl_conflictedEtag := Some freshEtag\<rparr>))
       else return ())"

definition conflictOver :: "'d sync_deps \<Rightarrow> string \<Rightarrow> nat \<Rightarrow> 'd source \<Rightarrow> payload \<Rightarrow> string \<Rightarrow> string \<Rightarrow> ('d, CollectionOutcome) sync" where
  "conflictOver deps name epoch source local body freshEtag =
     and_then (floor_now name) (\<lambda>floor.
     and_then (openObject deps name epoch body floor) (\<lambda>opened.
       let payload = fst opened; counter = snd opened in
       if payload = local then
         and_then (floor_now name) (\<lambda>floor.
         and_then (agree deps name freshEtag (max counter floor) local) (\<lambda>_. return Unchanged))
       else
         and_then (keepOnce deps name epoch (counter + 1) local freshEtag) (\<lambda>_.
         and_then (writeBack source name payload) (\<lambda>landed.
         and_then (floor_now name) (\<lambda>floor.
         and_then (agree deps name freshEtag (max counter floor) landed) (\<lambda>_. return Conflicted))))))"

definition conflictWithRemote :: "'d sync_deps \<Rightarrow> string \<Rightarrow> nat \<Rightarrow> 'd source \<Rightarrow> payload \<Rightarrow> ('d, CollectionOutcome) sync" where
  "conflictWithRemote deps name epoch source local =
     and_then (get_object deps name epoch) (\<lambda>fresh.
       case fresh of
         None \<Rightarrow> and_then (floor_now name) (\<lambda>floor. pushAs deps name epoch (floor + 1) local None)
       | Some f \<Rightarrow> conflictOver deps name epoch source local (fst f) (snd f))"

definition mergeOver :: "'d sync_deps \<Rightarrow> string \<Rightarrow> nat \<Rightarrow> 'd source \<Rightarrow> payload \<Rightarrow> CollectionState \<Rightarrow> payload \<Rightarrow> nat \<Rightarrow> string
    \<Rightarrow> ('d, CollectionOutcome) sync" where
  "mergeOver deps name epoch source body known payload counter freshEtag =
     (if payload = body then
        and_then (agree deps name freshEtag counter body) (\<lambda>_. return Unchanged)
      else if sd_hash deps payload = cl_localHash known then
        and_then (floor_now name) (\<lambda>floor. pushAs deps name epoch (max counter floor + 1) body (Some freshEtag))
      else case mergeCollections (sd_fp deps) (cl_base known) body payload of
          None \<Rightarrow> conflictWithRemote deps name epoch source body
        | Some merged \<Rightarrow>
            and_then (floor_now name) (\<lambda>floor.
            and_then (putSealed deps name epoch (max counter floor + 1) (mr_merged merged) (Some freshEtag)) (\<lambda>etag.
            landAs deps name source etag (max counter floor + 1) (mr_merged merged) Merged)))"

definition mergeOrConflict :: "'d sync_deps \<Rightarrow> string \<Rightarrow> nat \<Rightarrow> 'd source \<Rightarrow> payload \<Rightarrow> CollectionState
    \<Rightarrow> ('d, CollectionOutcome) sync" where
  "mergeOrConflict deps name epoch source body known =
     and_then (get_object deps name epoch) (\<lambda>fresh.
       case fresh of
         None \<Rightarrow> conflictWithRemote deps name epoch source body
       | Some f \<Rightarrow>
           and_then (floor_now name) (\<lambda>floor.
           and_then (catching (and_then (openObject deps name epoch (fst f) floor) (\<lambda>x. return (Some x))) (\<lambda>_. return None))
             (\<lambda>opened. case opened of
               None \<Rightarrow> conflictWithRemote deps name epoch source body
             | Some x \<Rightarrow> mergeOver deps name epoch source body known (fst x) (snd x) (snd f))))"

text \<open>A write that another device was faster than: the error goes on, a conflict is handled.\<close>

definition on_conflict :: "('d, 'a) sync \<Rightarrow> ('d, 'a) sync \<Rightarrow> ('d, 'a) sync" where
  "on_conflict m handle = catching m (\<lambda>err. if \<not> isConflict err then throw err else handle)"

text \<open>First contact: data on both sides and nothing agreed before.\<close>

definition firstContact :: "'d sync_deps \<Rightarrow> string \<Rightarrow> nat \<Rightarrow> 'd source \<Rightarrow> payload \<Rightarrow> string \<Rightarrow> string \<Rightarrow> ('d, CollectionOutcome) sync" where
  "firstContact deps name epoch source body sealed remoteEtag =
     and_then (floor_now name) (\<lambda>floor.
     and_then (openObject deps name epoch sealed floor) (\<lambda>opened.
       let payload = fst opened; counter = snd opened in
       if isEmptyish body \<and> payload \<noteq> body then landAs deps name source remoteEtag counter payload Adopted
       else if payload \<noteq> body then
         and_then (getting (\<lambda>w. nullish (map_of (ss_floors (sw_state w)) name) 0)) (\<lambda>old.
         case (if old > 0 then None else mergeCollections (sd_fp deps) (Some []) body payload) of
           Some joined \<Rightarrow>
             on_conflict
               (and_then (putSealed deps name epoch (counter + 1) (mr_merged joined) (Some remoteEtag)) (\<lambda>etag.
                landAs deps name source etag (counter + 1) (mr_merged joined) Merged))
               (conflictWithRemote deps name epoch source body)
         | None \<Rightarrow>
             and_then (keepAsConflict deps name epoch (counter + 1) body None) (\<lambda>_.
             landAs deps name source remoteEtag counter payload Conflicted))
       else and_then (agree deps name remoteEtag counter body) (\<lambda>_. return Unchanged)))"

definition pullRemote :: "'d sync_deps \<Rightarrow> string \<Rightarrow> nat \<Rightarrow> 'd source \<Rightarrow> payload \<Rightarrow> CollectionState \<Rightarrow> string \<Rightarrow> string
    \<Rightarrow> ('d, CollectionOutcome) sync" where
  "pullRemote deps name epoch source body known sealed remoteEtag =
     and_then (floor_now name) (\<lambda>floor.
     and_then (openObject deps name epoch sealed floor) (\<lambda>opened.
       let payload = fst opened; counter = snd opened;
           keep = (removesMost body payload \<and> cl_conflictedEtag known \<noteq> Some remoteEtag) in
       and_then (if keep then
           and_then (keepAsConflict deps name epoch (counter + 1) body (Some BulkRemoval)) (\<lambda>_.
           set_entry name (known\<lparr>cl_conflictedEtag := Some remoteEtag\<rparr>))
         else return ()) (\<lambda>_.
       and_then (writeBack source name payload) (\<lambda>landed.
       and_then (getting (\<lambda>w. (entry_for deps remoteEtag counter landed w)
             \<lparr>cl_conflictedEtag := (if keep then Some remoteEtag else None)\<rparr>)) (\<lambda>entry.
       and_then (set_entry name entry) (\<lambda>_. return Pulled))))))"

definition bothSides :: "'d sync_deps \<Rightarrow> string \<Rightarrow> nat \<Rightarrow> 'd source \<Rightarrow> payload \<Rightarrow> CollectionState \<Rightarrow> string \<Rightarrow> string
    \<Rightarrow> ('d, CollectionOutcome) sync" where
  "bothSides deps name epoch source body k sealed remoteEtag =
     (let localChanged = (sd_hash deps body \<noteq> cl_localHash k);
          remoteChanged = (remoteEtag \<noteq> cl_etag k)
      in if \<not> localChanged \<and> \<not> remoteChanged then return Unchanged
         else if localChanged \<and> \<not> remoteChanged then
           and_then (floor_now name) (\<lambda>floor.
           on_conflict (pushAs deps name epoch (floor + 1) body (Some (cl_etag k)))
             (mergeOrConflict deps name epoch source body k))
         else if \<not> localChanged \<and> remoteChanged then
           pullRemote deps name epoch source body k sealed remoteEtag
         else mergeOrConflict deps name epoch source body k)"

definition onlyHere :: "'d sync_deps \<Rightarrow> string \<Rightarrow> nat \<Rightarrow> 'd source \<Rightarrow> payload \<Rightarrow> CollectionState option \<Rightarrow> ('d, CollectionOutcome) sync" where
  "onlyHere deps name epoch source body known =
     (if known = None \<and> isEmptyish body then return Unchanged
      else and_then (floor_now name) (\<lambda>floor.
           on_conflict (pushAs deps name epoch (floor + 1) body None)
             (conflictWithRemote deps name epoch source body)))"

definition onlyThere :: "'d sync_deps \<Rightarrow> string \<Rightarrow> nat \<Rightarrow> 'd source \<Rightarrow> string \<Rightarrow> string \<Rightarrow> ('d, CollectionOutcome) sync" where
  "onlyThere deps name epoch source sealed remoteEtag =
     and_then (floor_now name) (\<lambda>floor.
     and_then (openObject deps name epoch sealed floor) (\<lambda>opened.
     landAs deps name source remoteEtag (snd opened) (fst opened) Adopted))"

definition syncCollection :: "'d sync_deps \<Rightarrow> string \<Rightarrow> 'd source \<Rightarrow> ('d, CollectionOutcome) sync" where
  "syncCollection deps name source =
     and_then (getting (\<lambda>w. sd_epoch deps (sw_trace w))) (\<lambda>epoch.
     and_then (getting (\<lambda>w. known_of (sw_state w) name)) (\<lambda>known.
     and_then (read_local source) (\<lambda>local.
     and_then (get_object deps name epoch) (\<lambda>remote.
       case (local, remote) of
         (None, None) \<Rightarrow> return Unchanged
       | (None, Some r) \<Rightarrow> onlyThere deps name epoch source (fst r) (snd r)
       | (Some body, None) \<Rightarrow> onlyHere deps name epoch source body known
       | (Some body, Some r) \<Rightarrow>
           (case known of
              None \<Rightarrow> firstContact deps name epoch source body (fst r) (snd r)
            | Some k \<Rightarrow> bothSides deps name epoch source body k (fst r) (snd r))))))"

subsection \<open>The pass\<close>

record SyncResult =
  sr_outcomes :: "(string, CollectionOutcome) jsmap"
  sr_carried :: nat
  sr_conflicts :: "string list"
  sr_error :: "(string \<times> addy_error) option"

definition carries :: "CollectionOutcome \<Rightarrow> bool" where
  "carries out = (out \<in> {Pushed, Pulled, Adopted, Merged})"

definition note_outcome :: "string \<Rightarrow> CollectionOutcome \<Rightarrow> SyncResult \<Rightarrow> SyncResult" where
  "note_outcome name out r =
     r\<lparr>sr_outcomes := AList.update name out (sr_outcomes r),
       sr_carried := (if carries out then Suc (sr_carried r) else sr_carried r),
       sr_conflicts := (if out = Conflicted then sr_conflicts r @ [name] else sr_conflicts r)\<rparr>"

definition note_error :: "string \<Rightarrow> addy_error \<Rightarrow> SyncResult \<Rightarrow> SyncResult" where
  "note_error name err r =
     r\<lparr>sr_outcomes := AList.update name Failed (sr_outcomes r),
       sr_error := (case sr_error r of None \<Rightarrow> Some (name, err) | Some old \<Rightarrow> Some old)\<rparr>"

definition pass_step :: "'d sync_deps \<Rightarrow> (string \<Rightarrow> 'd source option) \<Rightarrow> SyncResult \<times> 'd sync_world \<Rightarrow> string
    \<Rightarrow> SyncResult \<times> 'd sync_world" where
  "pass_step deps sources rw name =
     (let (r, w) = rw
      in case sources name of
           None \<Rightarrow> (r\<lparr>sr_outcomes := AList.update name Skipped (sr_outcomes r)\<rparr>, w)
         | Some source \<Rightarrow>
             (case syncCollection deps name source w of
                (Inr out, w') \<Rightarrow> (note_outcome name out r, w')
              | (Inl err, w') \<Rightarrow> (note_error name err r, w')))"

definition empty_result :: SyncResult where
  "empty_result = \<lparr>sr_outcomes = [], sr_carried = 0, sr_conflicts = [], sr_error = None\<rparr>"

text \<open>The state is saved at the end, unless it was deliberately forgotten while the pass ran;
  \<open>saves\<close> is whether its file can be written.\<close>

definition syncOnce :: "'d sync_deps \<Rightarrow> (string \<Rightarrow> 'd source option) \<Rightarrow> string \<Rightarrow> bool \<Rightarrow> 'd \<times> sync_file \<times> sync_trace
    \<Rightarrow> SyncResult \<times> 'd \<times> sync_file \<times> sync_trace" where
  "syncOnce deps sources account saves s =
     (let (disk, f, t) = s;
          start = \<lparr>sw_disk = disk, sw_state = loadState (Some account) f, sw_trace = t\<rparr>;
          (r, w) = foldl (pass_step deps sources) (empty_result, start) SYNCED_COLLECTIONS;
          forgotten = (sd_forgets deps (sw_trace w) \<noteq> sd_forgets deps t);
          err = (if forgotten then Some (AddyError ''config-invalid'' ''main.addy.sync.stateReset'')
                 else if \<not> saves then Some (OtherError []) else None)
      in (case err of
            None \<Rightarrow> (r, sw_disk w, saveState (sw_state w), sw_trace w)
          | Some x \<Rightarrow>
              (r\<lparr>sr_error := (case sr_error r of None \<Rightarrow> Some (''sync state'', x) | Some old \<Rightarrow> Some old)\<rparr>,
               sw_disk w, f, sw_trace w)))"

subsection \<open>Forgetting\<close>

definition counterFloor :: "sync_file \<Rightarrow> string \<Rightarrow> nat" where
  "counterFloor f collection = floorOf (loadState None f) collection"

definition floorsOf :: "SyncState \<Rightarrow> (string, nat) jsmap" where
  "floorsOf st =
     map (\<lambda>name. (name, floorOf st name)) (dedup (map fst (ss_collections st) @ map fst (ss_floors st)))"

definition leaveAccount :: "sync_file \<Rightarrow> sync_file" where
  "leaveAccount f = saveState (fresh_state None)"

definition forgetSyncState :: "string list option \<Rightarrow> sync_file \<Rightarrow> sync_file" where
  "forgetSyncState only f =
     (let st = (loadState None f)\<lparr>ss_floors := floorsOf (loadState None f)\<rparr>
      in case only of
           Some names \<Rightarrow> saveState (st\<lparr>ss_collections := foldl (\<lambda>m name. AList.delete name m) (ss_collections st) names\<rparr>)
         | None \<Rightarrow> saveState (st\<lparr>ss_floors := floorsOf st, ss_collections := []\<rparr>))"

definition forgetEpochState :: "sync_file \<Rightarrow> sync_file" where
  "forgetEpochState f =
     (let st = loadState None f
      in saveState (st\<lparr>ss_floors := floorsOf st,
           ss_collections := map (\<lambda>(name, c). (name, c\<lparr>cl_etag := [], cl_counter := 0, cl_conflictedEtag := None\<rparr>))
             (ss_collections st)\<rparr>))"

end
