(* ===== verification/Sync_Pass_Laws.thy ===== *)
theory Sync_Pass_Laws
  imports Addy_Sync
begin

section \<open>Reasoning about a pass\<close>

text \<open>
  A triple says what holds after a step of the pass, with an answer or with an error. Its rules
  are applied forwards, from the first call to the last.
\<close>

definition triple :: "('d sync_world \<Rightarrow> bool) \<Rightarrow> ('d, 'a) sync \<Rightarrow> ('a \<Rightarrow> 'd sync_world \<Rightarrow> bool)
    \<Rightarrow> ('d sync_world \<Rightarrow> bool) \<Rightarrow> bool" where
  "triple P m Q E = (\<forall>w. P w \<longrightarrow> (case m w of (Inr x, w') \<Rightarrow> Q x w' | (Inl _, w') \<Rightarrow> E w'))"

named_theorems forward "triples whose postcondition is read off the step"

lemma triple_and_then:
  "triple P m R E \<Longrightarrow> (\<And>x. triple (R x) (f x) Q E) \<Longrightarrow> triple P (and_then m f) Q E"
  by (fastforce simp: triple_def and_then_def split: prod.splits sum.splits)

lemma triple_catching:
  "triple P m Q R \<Longrightarrow> (\<And>err. triple R (h err) Q E) \<Longrightarrow> triple P (catching m h) Q E"
  by (fastforce simp: triple_def catching_def split: prod.splits sum.splits)

lemma triple_return: "(\<And>w. P w \<Longrightarrow> Q x w) \<Longrightarrow> triple P (return x) Q E"
  by (simp add: triple_def return_def)

lemma triple_throw: "(\<And>w. P w \<Longrightarrow> E w) \<Longrightarrow> triple P (throw err) Q E"
  by (simp add: triple_def throw_def)

lemma triple_weaken: "triple P' m Q' E' \<Longrightarrow> (\<And>w. P w \<Longrightarrow> P' w) \<Longrightarrow> (\<And>x w. Q' x w \<Longrightarrow> Q x w) \<Longrightarrow> (\<And>w. E' w \<Longrightarrow> E w) \<Longrightarrow> triple P m Q E"
  by (fastforce simp: triple_def split: prod.splits sum.splits)

lemma triple_pre: "triple P' m Q E \<Longrightarrow> (\<And>w. P w \<Longrightarrow> P' w) \<Longrightarrow> triple P m Q E"
  by (fastforce simp: triple_def)

lemma triple_if: "(c \<Longrightarrow> triple P a Q E) \<Longrightarrow> (\<not> c \<Longrightarrow> triple P b Q E) \<Longrightarrow> triple P (if c then a else b) Q E"
  by simp

lemma triple_option:
  "(x = None \<Longrightarrow> triple P a Q E) \<Longrightarrow> (\<And>y. x = Some y \<Longrightarrow> triple P (b y) Q E) \<Longrightarrow>
   triple P (case x of None \<Rightarrow> a | Some y \<Rightarrow> b y) Q E"
  by (cases x) simp_all

lemma triple_assume: "(\<And>w0. P w0 \<Longrightarrow> triple (\<lambda>w. w = w0) m Q E) \<Longrightarrow> triple P m Q E"
  by (fastforce simp: triple_def)

lemma tripleD: "triple P m Q E \<Longrightarrow> P w \<Longrightarrow> m w = (Inr x, w') \<Longrightarrow> Q x w'"
  by (fastforce simp: triple_def)

lemma tripleE: "triple P m Q E \<Longrightarrow> P w \<Longrightarrow> m w = (Inl err, w') \<Longrightarrow> E w'"
  by (fastforce simp: triple_def)

section \<open>Counters never go back\<close>

definition rises :: "SyncState \<Rightarrow> SyncState \<Rightarrow> bool" where
  "rises st st' = (ss_accountId st' = ss_accountId st \<and> (\<forall>n. floorOf st n \<le> floorOf st' n))"

lemma rises_refl [simp]: "rises st st" by (simp add: rises_def)

lemma rises_trans: "rises a b \<Longrightarrow> rises b c \<Longrightarrow> rises a c" by (auto simp: rises_def intro: order_trans)

definition opens_above :: "'d sync_deps \<Rightarrow> bool" where
  "opens_above deps =
     (\<forall>t name epoch sealed seen payload counter.
        sd_open deps t name epoch sealed seen = Inr (payload, counter) \<longrightarrow> seen \<le> counter)"

text \<open>A step leaves the state alone.\<close>

definition state_kept :: "('d, 'a) sync \<Rightarrow> bool" where
  "state_kept m = (\<forall>w. sw_state (snd (m w)) = sw_state w)"

lemma state_kept_basic [simp]:
  "state_kept (return x)" "state_kept (throw err)" "state_kept (getting f)" "state_kept (await deps ask note)"
  "state_kept (read_local source)" "state_kept (write_local source name p)" "state_kept (applied name)"
  by (simp_all add: state_kept_def return_def throw_def getting_def await_def read_local_def write_local_def applied_def
      Let_def split: prod.splits)

lemma state_kept_and_then [simp]: "state_kept m \<Longrightarrow> (\<And>x. state_kept (f x)) \<Longrightarrow> state_kept (and_then m f)"
  by (auto simp: state_kept_def and_then_def split: prod.splits sum.splits) (metis snd_conv)+

lemma state_kept_catching [simp]: "state_kept m \<Longrightarrow> (\<And>x. state_kept (h x)) \<Longrightarrow> state_kept (catching m h)"
  by (auto simp: state_kept_def catching_def split: prod.splits sum.splits) (metis snd_conv)+

lemma state_kept_calls [simp]:
  "state_kept (get_object deps name epoch)" "state_kept (putSealed deps name epoch c p im)"
  "state_kept (openObject deps name epoch sealed seen)" "state_kept (keepAsConflict deps name epoch c p why)"
  "state_kept (writeBack source name p)" "state_kept (floor_now name)"
  by (simp_all add: get_object_def putSealed_def openObject_def keepAsConflict_def writeBack_def floor_now_def)

text \<open>Forward rules over the state, with the error case weakened to what the callers keep.\<close>

lemma state_kept_triple:
  "state_kept m \<Longrightarrow> (\<And>st. R st \<Longrightarrow> E st) \<Longrightarrow>
   triple (\<lambda>w. R (sw_state w)) m (\<lambda>_ w. R (sw_state w)) (\<lambda>w. E (sw_state w))"
  by (auto simp: triple_def state_kept_def split: prod.splits sum.splits) (metis snd_conv)+

lemma openObject_counter:
  assumes "opens_above deps" "\<And>st. R st \<Longrightarrow> E st"
  shows "triple (\<lambda>w. R (sw_state w)) (openObject deps name epoch sealed seen)
     (\<lambda>o' w. R (sw_state w) \<and> seen \<le> snd o') (\<lambda>w. E (sw_state w))"
  using assms
  by (auto simp: triple_def openObject_def catching_def await_def throw_def opens_above_def Let_def split: sum.splits)

lemma floor_now_triple:
  "triple (\<lambda>w. R (sw_state w)) (floor_now name) (\<lambda>f w. R (sw_state w) \<and> f = floorOf (sw_state w) name) (\<lambda>w. E (sw_state w))"
  by (simp add: triple_def floor_now_def getting_def)

lemma getting_state_triple:
  "triple (\<lambda>w. R (sw_state w)) (getting (\<lambda>w. f (sw_state w))) (\<lambda>x w. R (sw_state w) \<and> x = f (sw_state w)) (\<lambda>w. E (sw_state w))"
  by (simp add: triple_def getting_def)

lemma known_of_set [simp]:
  "known_of (st\<lparr>ss_collections := AList.update name c (ss_collections st)\<rparr>) n = (if n = name then Some c else known_of st n)"
  by (simp add: known_of_def map_of_update_eq)

lemma floorOf_set:
  "floorOf (st\<lparr>ss_collections := AList.update name c (ss_collections st)\<rparr>) n =
     (if n = name then max (cl_counter c) (nullish (map_of (ss_floors st) n) 0) else floorOf st n)"
  by (simp add: floorOf_def)

lemma set_entry_rises:
  "rises st0 st \<Longrightarrow> floorOf st name \<le> cl_counter c \<or> map_option cl_counter (known_of st name) = Some (cl_counter c)
     \<or> known_of st name = None \<Longrightarrow>
   rises st0 (st\<lparr>ss_collections := AList.update name c (ss_collections st)\<rparr>)"
proof -
  assume a: "rises st0 st" and c: "floorOf st name \<le> cl_counter c \<or> map_option cl_counter (known_of st name) = Some (cl_counter c)
     \<or> known_of st name = None"
  have "rises st (st\<lparr>ss_collections := AList.update name c (ss_collections st)\<rparr>)"
    using c by (auto simp: rises_def floorOf_set) (auto simp: floorOf_def)
  with a show ?thesis by (rule rises_trans)
qed

lemma set_entry_triple:
  assumes "\<And>st. R st \<Longrightarrow> rises st0 st \<and> (floorOf st name \<le> cl_counter c \<or> map_option cl_counter (known_of st name) = Some (cl_counter c)
     \<or> known_of st name = None)"
  shows "triple (\<lambda>w. R (sw_state w)) (set_entry name c) (\<lambda>_ w. rises st0 (sw_state w)) E"
  unfolding triple_def set_entry_def using set_entry_rises assms by fastforce

lemma agree_triple:
  assumes "\<And>st. R st \<Longrightarrow> rises st0 st \<and> floorOf st name \<le> counter"
  shows "triple (\<lambda>w. R (sw_state w)) (agree deps name etag counter landed) (\<lambda>_ w. rises st0 (sw_state w)) E"
  unfolding agree_def
proof (rule triple_and_then)
  show "triple (\<lambda>w. R (sw_state w)) (getting (entry_for deps etag counter landed))
      (\<lambda>c w. R (sw_state w) \<and> cl_counter c = counter) E"
    by (simp add: triple_def getting_def entry_for_def)
next
  fix c
  show "triple (\<lambda>w. R (sw_state w) \<and> cl_counter c = counter) (set_entry name c) (\<lambda>_ w. rises st0 (sw_state w)) E"
    by (rule set_entry_triple [where R = "\<lambda>st. R st \<and> cl_counter c = counter"]) (use assms in auto)
qed

lemmas kept_rises = state_kept_triple [where E = "rises st0" for st0]
lemmas opened_rises = openObject_counter [where E = "rises st0" for st0]
lemmas floor_rises = floor_now_triple [where E = "rises st0" for st0]
lemmas getting_rises = getting_state_triple [where E = "rises st0" for st0]

text \<open>The endings and the branches keep every counter at or above what it was.\<close>

abbreviation risen :: "SyncState \<Rightarrow> 'd sync_world \<Rightarrow> bool" where
  "risen st0 w \<equiv> rises st0 (sw_state w)"

lemma pushAs_rises:
  "triple (\<lambda>w. risen st0 w \<and> floorOf (sw_state w) name \<le> counter) (pushAs deps name epoch counter body im)
     (\<lambda>_. risen st0) (risen st0)"
  unfolding pushAs_def
  by (rule triple_and_then [OF kept_rises [where R = "\<lambda>st. rises st0 st \<and> floorOf st name \<le> counter"]], simp, simp,
      rule triple_and_then [OF agree_triple [where R = "\<lambda>st. rises st0 st \<and> floorOf st name \<le> counter" and ?st0.0 = st0]], simp,
      rule triple_return)

lemma landAs_rises:
  "triple (\<lambda>w. risen st0 w \<and> floorOf (sw_state w) name \<le> counter) (landAs deps name source etag counter payload out)
     (\<lambda>_. risen st0) (risen st0)"
  unfolding landAs_def
  by (rule triple_and_then [OF kept_rises [where R = "\<lambda>st. rises st0 st \<and> floorOf st name \<le> counter"]], simp, simp,
      rule triple_and_then [OF agree_triple [where R = "\<lambda>st. rises st0 st \<and> floorOf st name \<le> counter" and ?st0.0 = st0]], simp,
      rule triple_return)

lemma agree_return_rises:
  "triple (\<lambda>w. risen st0 w \<and> floorOf (sw_state w) name \<le> counter)
     (and_then (agree deps name etag counter landed) (\<lambda>_. return out)) (\<lambda>_. risen st0) (risen st0)"
  by (rule triple_and_then [OF agree_triple [where R = "\<lambda>st. rises st0 st \<and> floorOf st name \<le> counter" and ?st0.0 = st0]], simp,
      rule triple_return)

lemma keepOnce_rises: "triple (risen st0) (keepOnce deps name epoch counter local e) (\<lambda>_. risen st0) (risen st0)"
  unfolding keepOnce_def
proof (rule triple_and_then [OF getting_rises [where R = "rises st0" and f = "\<lambda>st. known_of st name"]])
  fix held
  let ?R = "\<lambda>st. rises st0 st \<and> held = known_of st name"
  show "triple (\<lambda>w. ?R (sw_state w)) (if Option.bind held cl_conflictedEtag \<noteq> Some e then
         and_then (keepAsConflict deps name epoch counter local None) (\<lambda>_.
         set_entry name
           ((nullish held \<lparr>cl_etag = [], cl_counter = 0, cl_localHash = [], cl_at = 0, cl_base = None,
              cl_conflictedEtag = None\<rparr>)\<lparr>cl_conflictedEtag := Some e\<rparr>))
       else return ()) (\<lambda>_. risen st0) (risen st0)"
  proof (cases "Option.bind held cl_conflictedEtag \<noteq> Some e")
    case True
    show ?thesis
      unfolding if_P [OF True]
      by (rule triple_and_then [OF kept_rises [where R = ?R]], simp, simp, rule set_entry_triple [where R = ?R and ?st0.0 = st0])
         (auto split: option.splits)
  next
    case False
    show ?thesis unfolding if_not_P [OF False] by (rule triple_return) simp
  qed
qed

lemma conflictOver_rises:
  assumes "opens_above deps"
  shows "triple (risen st0) (conflictOver deps name epoch source local body e) (\<lambda>_. risen st0) (risen st0)"
  unfolding conflictOver_def Let_def
proof (rule triple_and_then [OF floor_rises [where R = "rises st0"]],
       rule triple_and_then [OF opened_rises [OF assms]])
  fix floor opened
  let ?R = "\<lambda>st. (rises st0 st \<and> floor = floorOf st name) \<and> floor \<le> snd (opened :: payload \<times> nat)"
  show "triple (\<lambda>w. ?R (sw_state w)) (if fst opened = local then
         and_then (floor_now name) (\<lambda>floor.
         and_then (agree deps name e (max (snd opened) floor) local) (\<lambda>_. return Unchanged))
       else
         and_then (keepOnce deps name epoch (snd opened + 1) local e) (\<lambda>_.
         and_then (writeBack source name (fst opened)) (\<lambda>landed.
         and_then (floor_now name) (\<lambda>floor.
         and_then (agree deps name e (max (snd opened) floor) landed) (\<lambda>_. return Conflicted)))))
     (\<lambda>_. risen st0) (risen st0)"
  proof (cases "fst opened = local")
    case True
    show ?thesis
      unfolding if_P [OF True]
      by (rule triple_and_then [OF floor_rises [where R = ?R]], rule triple_pre [OF agree_return_rises]) simp
  next
    case False
    show ?thesis
      unfolding if_not_P [OF False]
      by (rule triple_and_then [OF triple_pre [OF keepOnce_rises]], simp,
          rule triple_and_then [OF kept_rises [where R = "rises st0"]], simp, simp,
          rule triple_and_then [OF floor_rises [where R = "rises st0"]], rule triple_pre [OF agree_return_rises]) simp
  qed
qed simp

lemma conflictWithRemote_rises:
  assumes "opens_above deps"
  shows "triple (risen st0) (conflictWithRemote deps name epoch source local) (\<lambda>_. risen st0) (risen st0)"
  unfolding conflictWithRemote_def
proof (rule triple_and_then [OF kept_rises [where R = "rises st0"]])
  fix fresh :: "(string \<times> string) option"
  show "triple (risen st0) (case fresh of
         None \<Rightarrow> and_then (floor_now name) (\<lambda>floor. pushAs deps name epoch (floor + 1) local None)
       | Some f \<Rightarrow> conflictOver deps name epoch source local (fst f) (snd f)) (\<lambda>_. risen st0) (risen st0)"
  proof (cases fresh)
    case None
    show ?thesis
      unfolding None option.case
      by (rule triple_and_then [OF floor_rises [where R = "rises st0"]], rule triple_pre [OF pushAs_rises]) simp
  next
    case (Some f)
    show ?thesis unfolding Some option.case by (rule conflictOver_rises [OF assms])
  qed
qed simp_all

lemma on_conflict_rises:
  "triple P m (\<lambda>_. risen st0) (risen st0) \<Longrightarrow> triple (risen st0) handle (\<lambda>_. risen st0) (risen st0) \<Longrightarrow>
   triple P (on_conflict m handle) (\<lambda>_. risen st0) (risen st0)"
proof -
  assume m: "triple P m (\<lambda>_. risen st0) (risen st0)" and handle: "triple (risen st0) handle (\<lambda>_. risen st0) (risen st0)"
  have "triple (risen st0) (if \<not> isConflict err then throw err else handle) (\<lambda>_. risen st0) (risen st0)" for err
  proof (cases "isConflict err")
    case True
    show ?thesis unfolding not_not if_not_P [OF not_not [THEN iffD2, OF True]] by (rule handle)
  next
    case False
    show ?thesis unfolding if_P [OF False] by (rule triple_throw)
  qed
  then show ?thesis unfolding on_conflict_def by (rule triple_catching [OF m])
qed

lemma mergeOver_rises:
  assumes "opens_above deps"
  shows "triple (\<lambda>w. risen st0 w \<and> floorOf (sw_state w) name \<le> counter)
     (mergeOver deps name epoch source body known payload counter e) (\<lambda>_. risen st0) (risen st0)"
proof -
  let ?R = "\<lambda>st. rises st0 st \<and> floorOf st name \<le> counter"
  consider (same) "payload = body" | (moved) "payload \<noteq> body" "sd_hash deps payload = cl_localHash known"
    | (refused) "payload \<noteq> body" "sd_hash deps payload \<noteq> cl_localHash known"
        "mergeCollections (sd_fp deps) (cl_base known) body payload = None"
    | (merged) m where "payload \<noteq> body" "sd_hash deps payload \<noteq> cl_localHash known"
        "mergeCollections (sd_fp deps) (cl_base known) body payload = Some m"
    by (cases "mergeCollections (sd_fp deps) (cl_base known) body payload") blast+
  then show ?thesis
  proof cases
    case same
    then show ?thesis unfolding mergeOver_def by (simp add: agree_return_rises)
  next
    case moved
    have "triple (\<lambda>w. ?R (sw_state w)) (and_then (floor_now name) (\<lambda>floor. pushAs deps name epoch (max counter floor + 1) body (Some e)))
        (\<lambda>_. risen st0) (risen st0)"
      by (rule triple_and_then [OF floor_rises [where R = ?R]], rule triple_pre [OF pushAs_rises]) simp
    then show ?thesis unfolding mergeOver_def using moved by simp
  next
    case refused
    have "triple (\<lambda>w. ?R (sw_state w)) (conflictWithRemote deps name epoch source body) (\<lambda>_. risen st0) (risen st0)"
      by (rule triple_pre [OF conflictWithRemote_rises [OF assms]]) simp
    then show ?thesis unfolding mergeOver_def using refused by simp
  next
    case (merged m)
    have "triple (\<lambda>w. ?R (sw_state w)) (and_then (floor_now name) (\<lambda>floor.
            and_then (putSealed deps name epoch (max counter floor + 1) (mr_merged m) (Some e)) (\<lambda>etag.
            landAs deps name source etag (max counter floor + 1) (mr_merged m) Merged))) (\<lambda>_. risen st0) (risen st0)"
      by (rule triple_and_then [OF floor_rises [where R = ?R]],
          rule triple_and_then [OF kept_rises [where R = "\<lambda>st. ?R st \<and> x = floorOf st name" for x]], simp, simp,
          rule triple_pre [OF landAs_rises]) simp
    then show ?thesis unfolding mergeOver_def using merged by simp
  qed
qed

lemma mergeOrConflict_rises:
  assumes "opens_above deps"
  shows "triple (risen st0) (mergeOrConflict deps name epoch source body known) (\<lambda>_. risen st0) (risen st0)"
  unfolding mergeOrConflict_def
proof (rule triple_and_then [OF kept_rises [where R = "rises st0"]])
  fix fresh :: "(string \<times> string) option"
  show "triple (risen st0) (case fresh of None \<Rightarrow> conflictWithRemote deps name epoch source body
       | Some f \<Rightarrow>
           and_then (floor_now name) (\<lambda>floor.
           and_then (catching (and_then (openObject deps name epoch (fst f) floor) (\<lambda>x. return (Some x))) (\<lambda>_. return None))
             (\<lambda>opened. case opened of
               None \<Rightarrow> conflictWithRemote deps name epoch source body
             | Some x \<Rightarrow> mergeOver deps name epoch source body known (fst x) (snd x) (snd f)))) (\<lambda>_. risen st0) (risen st0)"
  proof (cases fresh)
    case None
    then show ?thesis by (simp add: conflictWithRemote_rises [OF assms])
  next
    case (Some f)
    have opens: "triple (\<lambda>w. risen st0 w \<and> floor = floorOf (sw_state w) name)
        (catching (and_then (openObject deps name epoch (fst f) floor) (\<lambda>x. return (Some x))) (\<lambda>_. return None))
        (\<lambda>o' w. risen st0 w \<and> (case o' of Some x \<Rightarrow> floorOf (sw_state w) name \<le> snd x | None \<Rightarrow> True)) (risen st0)" for floor
      by (rule triple_catching [where R = "risen st0"],
          rule triple_and_then [OF opened_rises [OF assms, where R = "\<lambda>st. rises st0 st \<and> floor = floorOf st name"]], simp,
          rule triple_return, simp, rule triple_return) simp
    show ?thesis
      unfolding Some option.case
    proof (rule triple_and_then [OF floor_rises [where R = "rises st0"]], rule triple_and_then [OF opens])
      fix opened :: "(payload \<times> nat) option"
      show "triple (\<lambda>w. risen st0 w \<and> (case opened of Some x \<Rightarrow> floorOf (sw_state w) name \<le> snd x | None \<Rightarrow> True))
          (case opened of None \<Rightarrow> conflictWithRemote deps name epoch source body
             | Some x \<Rightarrow> mergeOver deps name epoch source body known (fst x) (snd x) (snd f)) (\<lambda>_. risen st0) (risen st0)"
        by (cases opened) (simp_all add: conflictWithRemote_rises [OF assms] mergeOver_rises [OF assms])
    qed
  qed
qed simp_all

lemma firstContact_rises:
  assumes "opens_above deps"
  shows "triple (risen st0) (firstContact deps name epoch source body sealed e) (\<lambda>_. risen st0) (risen st0)"
  unfolding firstContact_def Let_def
proof (rule triple_and_then [OF floor_rises [where R = "rises st0"]],
       rule triple_and_then [OF opened_rises [OF assms]])
  fix floor and opened :: "payload \<times> nat"
  let ?R = "\<lambda>st. (rises st0 st \<and> floor = floorOf st name) \<and> floor \<le> snd opened"
  let ?union = "\<lambda>old. if old > (0::nat) then None else mergeCollections (sd_fp deps) (Some []) body (fst opened)"
  have keep: "triple (\<lambda>w. ?R (sw_state w)) (and_then (keepAsConflict deps name epoch (snd opened + 1) body None) (\<lambda>_.
             landAs deps name source e (snd opened) (fst opened) Conflicted)) (\<lambda>_. risen st0) (risen st0)"
    by (rule triple_and_then [OF kept_rises [where R = ?R]], simp, simp, rule triple_pre [OF landAs_rises]) simp
  have join: "triple (\<lambda>w. ?R (sw_state w)) (on_conflict
               (and_then (putSealed deps name epoch (snd opened + 1) p (Some e)) (\<lambda>etag.
                landAs deps name source etag (snd opened + 1) p Merged))
               (conflictWithRemote deps name epoch source body)) (\<lambda>_. risen st0) (risen st0)" for p
    by (rule on_conflict_rises [OF _ conflictWithRemote_rises [OF assms]],
        rule triple_and_then [OF kept_rises [where R = ?R]], simp, simp, rule triple_pre [OF landAs_rises]) simp
  have differ: "triple (\<lambda>w. ?R (sw_state w)) (and_then (getting (\<lambda>w. nullish (map_of (ss_floors (sw_state w)) name) 0)) (\<lambda>old.
         case ?union old of
           None \<Rightarrow> and_then (keepAsConflict deps name epoch (snd opened + 1) body None) (\<lambda>_.
             landAs deps name source e (snd opened) (fst opened) Conflicted)
         | Some joined \<Rightarrow> on_conflict
               (and_then (putSealed deps name epoch (snd opened + 1) (mr_merged joined) (Some e)) (\<lambda>etag.
                landAs deps name source etag (snd opened + 1) (mr_merged joined) Merged))
               (conflictWithRemote deps name epoch source body))) (\<lambda>_. risen st0) (risen st0)"
  proof (rule triple_and_then [OF getting_rises [where R = ?R and f = "\<lambda>st. nullish (map_of (ss_floors st) name) 0"]])
    fix old
    show "triple (\<lambda>w. ?R (sw_state w) \<and> old = nullish (map_of (ss_floors (sw_state w)) name) 0) (case ?union old of
           None \<Rightarrow> and_then (keepAsConflict deps name epoch (snd opened + 1) body None) (\<lambda>_.
             landAs deps name source e (snd opened) (fst opened) Conflicted)
         | Some joined \<Rightarrow> on_conflict
               (and_then (putSealed deps name epoch (snd opened + 1) (mr_merged joined) (Some e)) (\<lambda>etag.
                landAs deps name source etag (snd opened + 1) (mr_merged joined) Merged))
               (conflictWithRemote deps name epoch source body)) (\<lambda>_. risen st0) (risen st0)"
    proof (cases "?union old")
      case None
      show ?thesis unfolding None option.case by (rule triple_pre [OF keep]) simp
    next
      case (Some joined)
      show ?thesis unfolding Some option.case by (rule triple_pre [OF join]) simp
    qed
  qed
  show "triple (\<lambda>w. ?R (sw_state w)) (if isEmptyish body \<and> fst opened \<noteq> body
        then landAs deps name source e (snd opened) (fst opened) Adopted
       else if fst opened \<noteq> body then
         and_then (getting (\<lambda>w. nullish (map_of (ss_floors (sw_state w)) name) 0)) (\<lambda>old.
         case ?union old of
           None \<Rightarrow> and_then (keepAsConflict deps name epoch (snd opened + 1) body None) (\<lambda>_.
             landAs deps name source e (snd opened) (fst opened) Conflicted)
         | Some joined \<Rightarrow> on_conflict
               (and_then (putSealed deps name epoch (snd opened + 1) (mr_merged joined) (Some e)) (\<lambda>etag.
                landAs deps name source etag (snd opened + 1) (mr_merged joined) Merged))
               (conflictWithRemote deps name epoch source body))
       else and_then (agree deps name e (snd opened) body) (\<lambda>_. return Unchanged)) (\<lambda>_. risen st0) (risen st0)"
  proof (intro triple_if differ)
    show "triple (\<lambda>w. ?R (sw_state w)) (landAs deps name source e (snd opened) (fst opened) Adopted) (\<lambda>_. risen st0) (risen st0)"
      by (rule triple_pre [OF landAs_rises]) simp
    show "triple (\<lambda>w. ?R (sw_state w)) (and_then (agree deps name e (snd opened) body) (\<lambda>_. return Unchanged))
        (\<lambda>_. risen st0) (risen st0)"
      by (rule triple_pre [OF agree_return_rises]) simp
  qed
qed simp

lemma pullRemote_rises:
  assumes "opens_above deps"
  shows "triple (\<lambda>w. risen st0 w \<and> known_of (sw_state w) name = Some k)
     (pullRemote deps name epoch source body k sealed e) (\<lambda>_. risen st0) (risen st0)"
  unfolding pullRemote_def Let_def
proof (rule triple_and_then [OF floor_rises [where R = "\<lambda>st. rises st0 st \<and> known_of st name = Some k"]],
       rule triple_and_then [OF opened_rises [OF assms]])
  fix floor and opened :: "payload \<times> nat"
  let ?K = "removesMost body (fst opened) \<and> cl_conflictedEtag k \<noteq> Some e"
  let ?R = "\<lambda>st. ((rises st0 st \<and> known_of st name = Some k) \<and> floor = floorOf st name) \<and> floor \<le> snd opened"
  let ?S = "\<lambda>st. rises st0 st \<and> floorOf st name \<le> snd opened"
  have keeping: "triple (\<lambda>w. ?R (sw_state w)) (if ?K then
           and_then (keepAsConflict deps name epoch (snd opened + 1) body (Some BulkRemoval)) (\<lambda>_.
           set_entry name (k\<lparr>cl_conflictedEtag := Some e\<rparr>))
         else return ()) (\<lambda>_ w. ?S (sw_state w)) (risen st0)"
  proof (rule triple_if)
    have set: "triple (\<lambda>w. ?R (sw_state w)) (set_entry name (k\<lparr>cl_conflictedEtag := Some e\<rparr>)) (\<lambda>_ w. ?S (sw_state w)) (risen st0)"
    proof -
      have "rises st0 (st\<lparr>ss_collections := AList.update name (k\<lparr>cl_conflictedEtag := Some e\<rparr>) (ss_collections st)\<rparr>)
          \<and> floorOf (st\<lparr>ss_collections := AList.update name (k\<lparr>cl_conflictedEtag := Some e\<rparr>) (ss_collections st)\<rparr>) name \<le> snd opened"
        if "?R st" for st
        using that set_entry_rises [of st0 st name "k\<lparr>cl_conflictedEtag := Some e\<rparr>"]
        by (auto simp: floorOf_set) (auto simp: floorOf_def)
      then show ?thesis by (simp add: triple_def set_entry_def)
    qed
    show "triple (\<lambda>w. ?R (sw_state w)) (and_then (keepAsConflict deps name epoch (snd opened + 1) body (Some BulkRemoval)) (\<lambda>_.
           set_entry name (k\<lparr>cl_conflictedEtag := Some e\<rparr>))) (\<lambda>_ w. ?S (sw_state w)) (risen st0)"
      by (rule triple_and_then [OF kept_rises [where R = ?R]], simp, simp, rule set)
    show "triple (\<lambda>w. ?R (sw_state w)) (return ()) (\<lambda>_ w. ?S (sw_state w)) (risen st0)"
      by (rule triple_return) simp
  qed
  show "triple (\<lambda>w. ?R (sw_state w)) (and_then (if ?K then
           and_then (keepAsConflict deps name epoch (snd opened + 1) body (Some BulkRemoval)) (\<lambda>_.
           set_entry name (k\<lparr>cl_conflictedEtag := Some e\<rparr>))
         else return ()) (\<lambda>_.
       and_then (writeBack source name (fst opened)) (\<lambda>landed.
       and_then (getting (\<lambda>w. (entry_for deps e (snd opened) landed w)
             \<lparr>cl_conflictedEtag := (if ?K then Some e else None)\<rparr>)) (\<lambda>entry.
       and_then (set_entry name entry) (\<lambda>_. return Pulled))))) (\<lambda>_. risen st0) (risen st0)"
  proof (rule triple_and_then [OF keeping], rule triple_and_then [OF kept_rises [where R = ?S]], simp, simp)
    fix landed
    have entry: "triple (\<lambda>w. ?S (sw_state w)) (getting (\<lambda>w. (entry_for deps e (snd opened) landed w)
             \<lparr>cl_conflictedEtag := (if ?K then Some e else None)\<rparr>))
        (\<lambda>c w. ?S (sw_state w) \<and> cl_counter c = snd opened) (risen st0)"
      by (simp add: triple_def getting_def entry_for_def)
    show "triple (\<lambda>w. ?S (sw_state w)) (and_then (getting (\<lambda>w. (entry_for deps e (snd opened) landed w)
             \<lparr>cl_conflictedEtag := (if ?K then Some e else None)\<rparr>)) (\<lambda>entry.
       and_then (set_entry name entry) (\<lambda>_. return Pulled))) (\<lambda>_. risen st0) (risen st0)"
      by (rule triple_and_then [OF entry],
          rule triple_and_then [OF set_entry_triple [where R = "\<lambda>st. ?S st \<and> cl_counter c = snd opened" and ?st0.0 = st0 for c]],
          simp, rule triple_return)
  qed
qed simp

lemma bothSides_rises:
  assumes "opens_above deps"
  shows "triple (\<lambda>w. risen st0 w \<and> known_of (sw_state w) name = Some k)
     (bothSides deps name epoch source body k sealed e) (\<lambda>_. risen st0) (risen st0)"
  unfolding bothSides_def Let_def
proof (intro triple_if)
  let ?P = "\<lambda>w. risen st0 w \<and> known_of (sw_state w) name = Some k"
  show "triple ?P (return Unchanged) (\<lambda>_. risen st0) (risen st0)" by (rule triple_return) simp
  show "triple ?P (and_then (floor_now name) (\<lambda>floor.
           on_conflict (pushAs deps name epoch (floor + 1) body (Some (cl_etag k)))
             (mergeOrConflict deps name epoch source body k))) (\<lambda>_. risen st0) (risen st0)"
    by (rule triple_and_then [OF triple_pre [OF floor_rises [where R = "rises st0"]]], simp,
        rule on_conflict_rises [OF triple_pre [OF pushAs_rises] mergeOrConflict_rises [OF assms]]) simp
  show "triple ?P (pullRemote deps name epoch source body k sealed e) (\<lambda>_. risen st0) (risen st0)"
    by (rule pullRemote_rises [OF assms])
  show "triple ?P (mergeOrConflict deps name epoch source body k) (\<lambda>_. risen st0) (risen st0)"
    by (rule triple_pre [OF mergeOrConflict_rises [OF assms]]) simp
qed

lemma onlyHere_rises:
  assumes "opens_above deps"
  shows "triple (risen st0) (onlyHere deps name epoch source body known) (\<lambda>_. risen st0) (risen st0)"
  unfolding onlyHere_def
proof (rule triple_if)
  show "triple (risen st0) (return Unchanged) (\<lambda>_. risen st0) (risen st0)" by (rule triple_return)
  show "triple (risen st0) (and_then (floor_now name) (\<lambda>floor.
           on_conflict (pushAs deps name epoch (floor + 1) body None)
             (conflictWithRemote deps name epoch source body))) (\<lambda>_. risen st0) (risen st0)"
    by (rule triple_and_then [OF floor_rises [where R = "rises st0"]],
        rule on_conflict_rises [OF triple_pre [OF pushAs_rises] conflictWithRemote_rises [OF assms]]) simp
qed

lemma onlyThere_rises:
  assumes "opens_above deps"
  shows "triple (risen st0) (onlyThere deps name epoch source sealed e) (\<lambda>_. risen st0) (risen st0)"
  unfolding onlyThere_def
  by (rule triple_and_then [OF floor_rises [where R = "rises st0"]], rule triple_and_then [OF opened_rises [OF assms]], simp,
      rule triple_pre [OF landAs_rises]) simp

lemma syncCollection_rises:
  assumes "opens_above deps"
  shows "triple (risen st0) (syncCollection deps name source) (\<lambda>_. risen st0) (risen st0)"
  unfolding syncCollection_def
proof (rule triple_and_then [OF kept_rises [where R = "rises st0"]],
    simp, simp, rule triple_and_then [OF getting_rises [where R = "rises st0" and f = "\<lambda>st. known_of st name"]])
  fix epoch known
  let ?R = "\<lambda>st. rises st0 st \<and> known = known_of st name"
  show "triple (\<lambda>w. ?R (sw_state w)) (and_then (read_local source) (\<lambda>local.
     and_then (get_object deps name epoch) (\<lambda>remote.
       case (local, remote) of
         (None, None) \<Rightarrow> return Unchanged
       | (None, Some r) \<Rightarrow> onlyThere deps name epoch source (fst r) (snd r)
       | (Some body, None) \<Rightarrow> onlyHere deps name epoch source body known
       | (Some body, Some r) \<Rightarrow>
           (case known of
              None \<Rightarrow> firstContact deps name epoch source body (fst r) (snd r)
            | Some k \<Rightarrow> bothSides deps name epoch source body k (fst r) (snd r))))) (\<lambda>_. risen st0) (risen st0)"
  proof (rule triple_and_then [OF kept_rises [where R = ?R]], simp, simp,
      rule triple_and_then [OF kept_rises [where R = ?R]], simp, simp, unfold prod.case, intro triple_option)
    show "triple (\<lambda>w. ?R (sw_state w)) (return Unchanged) (\<lambda>_. risen st0) (risen st0)" by (rule triple_return) simp
    show "triple (\<lambda>w. ?R (sw_state w)) (onlyThere deps name epoch source (fst r) (snd r)) (\<lambda>_. risen st0) (risen st0)" for r
      by (rule triple_pre [OF onlyThere_rises [OF assms]]) simp
    show "triple (\<lambda>w. ?R (sw_state w)) (onlyHere deps name epoch source body known) (\<lambda>_. risen st0) (risen st0)" for body
      by (rule triple_pre [OF onlyHere_rises [OF assms]]) simp
    show "triple (\<lambda>w. ?R (sw_state w)) (firstContact deps name epoch source body (fst r) (snd r)) (\<lambda>_. risen st0) (risen st0)" for body r
      by (rule triple_pre [OF firstContact_rises [OF assms]]) simp
    show "triple (\<lambda>w. ?R (sw_state w)) (bothSides deps name epoch source body k (fst r) (snd r)) (\<lambda>_. risen st0) (risen st0)"
      if "known = Some k" for body r k
      by (rule triple_pre [OF bothSides_rises [OF assms]]) (simp add: that [symmetric])
  qed
qed

subsection \<open>Saving, forgetting, and passes in any order\<close>

lemma raise_floors_ge: "nullish (map_of (ss_floors st) n) 0 \<le> nullish (map_of (raise_floors st) n) 0"
proof -
  have "nullish (map_of m n) 0 \<le> nullish (map_of (foldl (\<lambda>floors (name, entry).
      AList.update name (max (nullish (map_of floors name) 0) (cl_counter entry)) floors) m cs) n) 0" for m cs
  proof (induction cs arbitrary: m)
    case (Cons c cs)
    obtain name entry where c: "c = (name, entry)" by (cases c)
    let ?m = "AList.update name (max (nullish (map_of m name) 0) (cl_counter entry)) m"
    have "nullish (map_of m n) 0 \<le> nullish (map_of ?m n) 0" by (simp add: map_of_update_eq)
    also have "\<dots> \<le> nullish (map_of (foldl (\<lambda>floors (name, entry).
      AList.update name (max (nullish (map_of floors name) 0) (cl_counter entry)) floors) ?m cs) n) 0" by (rule Cons.IH)
    finally show ?case by (simp add: c)
  qed simp
  then show ?thesis by (simp add: raise_floors_def)
qed

lemma saved_floor: "floorOf st n \<le> counterFloor (saveState st) n"
  using raise_floors_ge [of st n]
  by (auto simp: counterFloor_def saveState_def loadState_def floorOf_def known_of_def)

lemma fresh_floor [simp]: "floorOf (fresh_state account) n = 0"
  by (simp add: floorOf_def known_of_def fresh_state_def)

lemma floorsOf_has: "nullish (map_of (floorsOf st) n) 0 = floorOf st n"
proof -
  let ?names = "dedup (map fst (ss_collections st) @ map fst (ss_floors st))"
  have "map_of (map (\<lambda>name. (name, floorOf st name)) ns) n = (if n \<in> set ns then Some (floorOf st n) else None)" for ns
    by (induction ns) auto
  moreover have "floorOf st n = 0" if "n \<notin> set ?names"
  proof -
    have "map_of (ss_collections st) n = None" "map_of (ss_floors st) n = None" using that by (auto simp: map_of_eq_None_iff)
    then show ?thesis by (simp add: floorOf_def known_of_def)
  qed
  ultimately show ?thesis by (simp add: floorsOf_def)
qed

lemma floors_kept:
  "floorOf st0 n \<le> floorOf (st\<lparr>ss_floors := floorsOf st0\<rparr>) n"
  "floorOf st0 n \<le> floorOf (st\<lparr>ss_floors := floorsOf st0, ss_collections := cs\<rparr>) n"
  by (simp_all add: floorOf_def [of "st\<lparr>ss_floors := _\<rparr>"] floorOf_def [of "st\<lparr>ss_floors := _, ss_collections := _\<rparr>"] floorsOf_has)

lemma forgetSyncState_floor: "counterFloor f n \<le> counterFloor (forgetSyncState only f) n"
proof -
  let ?old = "loadState None f"
  let ?st = "?old\<lparr>ss_floors := floorsOf ?old\<rparr>"
  show ?thesis
  proof (cases only)
    case None
    have "floorOf ?old n \<le> floorOf ?st n" by (rule floors_kept)
    also have "\<dots> \<le> floorOf (?st\<lparr>ss_floors := floorsOf ?st, ss_collections := []\<rparr>) n" by (rule floors_kept)
    also have "\<dots> \<le> counterFloor (saveState (?st\<lparr>ss_floors := floorsOf ?st, ss_collections := []\<rparr>)) n" by (rule saved_floor)
    finally show ?thesis by (simp add: None forgetSyncState_def counterFloor_def [of f] Let_def)
  next
    case (Some names)
    let ?new = "?old\<lparr>ss_floors := floorsOf ?old, ss_collections := foldl (\<lambda>m name. AList.delete name m) (ss_collections ?old) names\<rparr>"
    have "floorOf ?old n \<le> floorOf ?new n" by (rule floors_kept)
    also have "\<dots> \<le> counterFloor (saveState ?new) n" by (rule saved_floor)
    finally show ?thesis by (simp add: Some forgetSyncState_def counterFloor_def [of f] Let_def)
  qed
qed

lemma forgetEpochState_floor: "counterFloor f n \<le> counterFloor (forgetEpochState f) n"
proof -
  let ?st = "loadState None f"
  let ?new = "?st\<lparr>ss_floors := floorsOf ?st, ss_collections := map (\<lambda>(name, c). (name, c\<lparr>cl_etag := [], cl_counter := 0,
      cl_conflictedEtag := None\<rparr>)) (ss_collections ?st)\<rparr>"
  have "floorOf ?st n \<le> floorOf ?new n" by (rule floors_kept)
  also have "\<dots> \<le> counterFloor (saveState ?new) n" by (rule saved_floor)
  finally show ?thesis by (simp add: forgetEpochState_def counterFloor_def [of f] Let_def)
qed

lemma pass_rises:
  assumes "opens_above deps"
  shows "rises (sw_state w) (sw_state (snd (foldl (pass_step deps sources) (r, w) names)))"
proof (induction names arbitrary: r w)
  case (Cons name names)
  obtain r1 w1 where one: "pass_step deps sources (r, w) name = (r1, w1)" by fastforce
  have "rises (sw_state w) (sw_state w1)"
  proof (cases "sources name")
    case None
    then show ?thesis using one by (simp add: pass_step_def)
  next
    case (Some source)
    show ?thesis
    proof (cases "syncCollection deps name source w")
      case (Pair x w')
      have "rises (sw_state w) (sw_state w')"
        using tripleD [OF syncCollection_rises [OF assms, of "sw_state w" name source], of w]
          tripleE [OF syncCollection_rises [OF assms, of "sw_state w" name source], of w] Pair
        by (cases x) simp_all
      then show ?thesis using one Some Pair by (cases x) (simp_all add: pass_step_def)
    qed
  qed
  also have "rises (sw_state w1) (sw_state (snd (foldl (pass_step deps sources) (r1, w1) names)))" by (rule Cons.IH)
  finally (rises_trans) show ?case by (simp add: one)
qed simp

text \<open>A file of this account, or one that has seen nothing.\<close>

definition belongs :: "string \<Rightarrow> sync_file \<Rightarrow> bool" where
  "belongs account f = (\<forall>st. f = SyncOn st \<longrightarrow> ss_accountId st = Some account
     \<or> ss_collections st = [] \<and> ss_floors st = [])"

lemma syncOnce_floor:
  assumes "opens_above deps" "belongs account f" "syncOnce deps sources account saves (disk, f, t) = (r, disk', f', t')"
  shows "counterFloor f n \<le> counterFloor f' n"
proof -
  let ?start = "\<lparr>sw_disk = disk, sw_state = loadState (Some account) f, sw_trace = t\<rparr>"
  obtain r1 w where w: "foldl (pass_step deps sources) (empty_result, ?start) SYNCED_COLLECTIONS = (r1, w)" by fastforce
  have "f' = f \<or> f' = saveState (sw_state w)"
    using assms(3) by (auto simp: syncOnce_def Let_def w split: if_splits)
  moreover have "counterFloor f n \<le> counterFloor (saveState (sw_state w)) n"
  proof -
    have "counterFloor f n \<le> floorOf (loadState (Some account) f) n"
      using assms(2)
      by (cases f) (auto simp: counterFloor_def loadState_def belongs_def floorOf_def known_of_def fresh_state_def)
    also have "\<dots> \<le> floorOf (sw_state w) n"
      using pass_rises [OF assms(1), of ?start sources empty_result SYNCED_COLLECTIONS] by (simp add: w rises_def)
    also have "\<dots> \<le> counterFloor (saveState (sw_state w)) n" by (rule saved_floor)
    finally show ?thesis .
  qed
  ultimately show ?thesis by auto
qed

inductive sync_moves :: "string \<Rightarrow> sync_file \<Rightarrow> sync_file \<Rightarrow> bool" for account where
  passes: "opens_above deps \<Longrightarrow> syncOnce deps (SOURCES e) account saves (disk, f, t) = (r, disk', f', t') \<Longrightarrow>
    sync_moves account f f'"
| forgets: "sync_moves account f (forgetSyncState only f)"
| rekeys: "sync_moves account f (forgetEpochState f)"

lemma loadState_account [simp]: "ss_accountId (loadState (Some account) f) = Some account"
  by (simp add: loadState_def fresh_state_def split: sync_file.split)

lemma syncOnce_belongs:
  assumes "opens_above deps" "belongs account f" "syncOnce deps sources account saves (disk, f, t) = (r, disk', f', t')"
  shows "belongs account f'"
proof -
  let ?start = "\<lparr>sw_disk = disk, sw_state = loadState (Some account) f, sw_trace = t\<rparr>"
  obtain r1 w where w: "foldl (pass_step deps sources) (empty_result, ?start) SYNCED_COLLECTIONS = (r1, w)" by fastforce
  have "f' = f \<or> f' = saveState (sw_state w)"
    using assms(3) by (auto simp: syncOnce_def Let_def w split: if_splits)
  moreover have "ss_accountId (sw_state w) = Some account"
    using pass_rises [OF assms(1), of ?start sources empty_result SYNCED_COLLECTIONS] by (simp add: w rises_def)
  ultimately show ?thesis using assms(2) by (auto simp: belongs_def saveState_def)
qed

lemma belongs_loaded:
  "belongs account f \<Longrightarrow> ss_accountId (loadState None f) = Some account
     \<or> ss_collections (loadState None f) = [] \<and> ss_floors (loadState None f) = []"
  by (auto simp: belongs_def loadState_def fresh_state_def split: sync_file.split)

lemma deleted_nothing: "foldl (\<lambda>m name. AList.delete name m) [] names = []"
  by (induction names) simp_all

lemma belongs_moves: "sync_moves account f f' \<Longrightarrow> belongs account f \<Longrightarrow> belongs account f'"
proof (induction rule: sync_moves.induct)
  case (forgets f only)
  then show ?case
    using belongs_loaded [OF forgets]
    by (cases only) (auto simp: belongs_def forgetSyncState_def saveState_def Let_def floorsOf_def raise_floors_def
        dedup_def deleted_nothing)
next
  case (rekeys f)
  then show ?case
    using belongs_loaded [OF rekeys]
    by (auto simp: belongs_def forgetEpochState_def saveState_def Let_def floorsOf_def raise_floors_def dedup_def)
qed (rule syncOnce_belongs)


text \<open>A device that has seen revision 7 of its servers, resynced and rekeyed.\<close>

definition seen_seven :: sync_file where
  "seen_seven = SyncOn \<lparr>ss_accountId = Some ''a'',
     ss_collections = [(''servers'', \<lparr>cl_etag = ''e'', cl_counter = 7, cl_localHash = [], cl_at = 0, cl_base = None,
       cl_conflictedEtag = None\<rparr>)], ss_floors = []\<rparr>"


end
