(* ===== verification/Sync_Loss.thy ===== *)
theory Sync_Loss
  imports Sync_Pass_Laws Sync_Source_Laws
begin

section \<open>No edit of this device is lost in a pass\<close>

text \<open>
  The trace of a pass over one collection, read backwards from every write to this device's disk:
  what was there had not been edited, or is on the relay as a conflict copy, or is part of a merge
  the relay already holds.
\<close>

definition no_land :: "sync_trace \<Rightarrow> bool" where
  "no_land u = (\<forall>name p. EvLand name p \<notin> set u)"

definition quiet :: "('d, 'a) sync \<Rightarrow> bool" where
  "quiet m = (\<forall>w. sw_state (snd (m w)) = sw_state w \<and> (\<exists>u. sw_trace (snd (m w)) = sw_trace w @ u \<and> no_land u))"

lemma quiet_basic [simp]:
  "quiet (return x)" "quiet (throw err)" "quiet (getting f)" "quiet (read_local source)" "quiet (applied name)"
  by (auto simp: quiet_def no_land_def return_def throw_def getting_def read_local_def applied_def)

lemma quiet_await [simp]: "(\<And>r. no_land (note' r)) \<Longrightarrow> quiet (await deps ask note')"
  by (auto simp: quiet_def await_def Let_def)

lemma quietD: "quiet m \<Longrightarrow> m w = (x, w') \<Longrightarrow> sw_state w' = sw_state w \<and> (\<exists>u. sw_trace w' = sw_trace w @ u \<and> no_land u)"
  unfolding quiet_def by (metis snd_conv)

lemma no_land_append [simp]: "no_land (u @ v) \<longleftrightarrow> no_land u \<and> no_land v"
  by (auto simp: no_land_def)

lemma no_land_single [simp]:
  "no_land []" "no_land [EvGet n a]" "no_land [EvPut n c p i o']" "no_land [EvKeep n c p y b]" "no_land [EvApplied n]"
  by (simp_all add: no_land_def)

lemma quiet_two:
  assumes "quiet m" "m w = (x, w1)" "sw_state w2 = sw_state w1" "sw_trace w2 = sw_trace w1 @ v" "no_land v"
  shows "sw_state w2 = sw_state w \<and> (\<exists>u. sw_trace w2 = sw_trace w @ u \<and> no_land u)"
proof -
  obtain u where u: "sw_state w1 = sw_state w" "sw_trace w1 = sw_trace w @ u" "no_land u"
    using quietD [OF assms(1,2)] by blast
  have "sw_trace w2 = sw_trace w @ (u @ v)" using u(2) assms(4) by simp
  moreover have "no_land (u @ v)" using u(3) assms(5) by simp
  ultimately show ?thesis using u(1) assms(3) by auto
qed

lemma quiet_and_then [simp]:
  assumes "quiet m" "\<And>x. quiet (f x)"
  shows "quiet (and_then m f)"
  unfolding quiet_def
proof
  fix w
  obtain x w1 where m: "m w = (x, w1)" by fastforce
  show "sw_state (snd (and_then m f w)) = sw_state w \<and> (\<exists>u. sw_trace (snd (and_then m f w)) = sw_trace w @ u \<and> no_land u)"
  proof (cases x)
    case (Inl e)
    then show ?thesis using quietD [OF assms(1) m] m by (simp add: and_then_def)
  next
    case (Inr y)
    obtain z w2 where f: "f y w1 = (z, w2)" by fastforce
    then obtain v where "sw_state w2 = sw_state w1" "sw_trace w2 = sw_trace w1 @ v" "no_land v"
      using quietD [OF assms(2) f] by blast
    from quiet_two [OF assms(1) m this] show ?thesis by (simp add: and_then_def m f Inr)
  qed
qed

lemma quiet_catching [simp]:
  assumes "quiet m" "\<And>e. quiet (h e)"
  shows "quiet (catching m h)"
  unfolding quiet_def
proof
  fix w
  obtain x w1 where m: "m w = (x, w1)" by fastforce
  show "sw_state (snd (catching m h w)) = sw_state w \<and> (\<exists>u. sw_trace (snd (catching m h w)) = sw_trace w @ u \<and> no_land u)"
  proof (cases x)
    case (Inr y)
    then show ?thesis using quietD [OF assms(1) m] m by (simp add: catching_def)
  next
    case (Inl e)
    obtain z w2 where h: "h e w1 = (z, w2)" by fastforce
    then obtain v where "sw_state w2 = sw_state w1" "sw_trace w2 = sw_trace w1 @ v" "no_land v"
      using quietD [OF assms(2) h] by blast
    from quiet_two [OF assms(1) m this] show ?thesis by (simp add: catching_def m h Inl)
  qed
qed

lemma quiet_calls [simp]:
  "quiet (get_object deps name epoch)" "quiet (putSealed deps name epoch c p im)"
  "quiet (openObject deps name epoch sealed seen)" "quiet (keepAsConflict deps name epoch c p why)"
  "quiet (floor_now name)"
  by (simp_all add: get_object_def putSealed_def openObject_def keepAsConflict_def floor_now_def split: sum.split)

subsection \<open>Facts about the state and the trace\<close>

definition holds :: "(SyncState \<Rightarrow> sync_trace \<Rightarrow> bool) \<Rightarrow> 'd sync_world \<Rightarrow> bool" where
  "holds G w = G (sw_state w) (sw_trace w)"

definition undisturbed :: "(SyncState \<Rightarrow> sync_trace \<Rightarrow> bool) \<Rightarrow> bool" where
  "undisturbed G = (\<forall>st t u. no_land u \<longrightarrow> G st t \<longrightarrow> G st (t @ u))"

definition seen :: "sync_trace \<Rightarrow> sync_effect \<Rightarrow> SyncState \<Rightarrow> sync_trace \<Rightarrow> bool" where
  "seen t0 ev st t = (\<exists>u. t = t0 @ u \<and> ev \<in> set u)"

definition known_is :: "string \<Rightarrow> CollectionState option \<Rightarrow> SyncState \<Rightarrow> sync_trace \<Rightarrow> bool" where
  "known_is name known st t = (known_of st name = known)"

definition since :: "sync_trace \<Rightarrow> SyncState \<Rightarrow> sync_trace \<Rightarrow> bool" where
  "since t0 st t = (\<exists>u. t = t0 @ u)"

lemma undisturbed_seen [simp]: "undisturbed (seen t0 ev)"
  by (fastforce simp: undisturbed_def seen_def)

lemma undisturbed_since [simp]: "undisturbed (since t0)"
  by (auto simp: undisturbed_def since_def)

lemma undisturbed_known_is [simp]: "undisturbed (known_is name known)"
  by (simp add: undisturbed_def known_is_def)

lemma undisturbed_conj [simp]: "undisturbed G \<Longrightarrow> undisturbed H \<Longrightarrow> undisturbed (\<lambda>st t. G st t \<and> H st t)"
  by (simp add: undisturbed_def)

lemma quiet_triple:
  assumes "quiet m" "undisturbed G" "\<And>st t. G st t \<Longrightarrow> E st t"
  shows "triple (holds G) m (\<lambda>_. holds G) (holds E)"
  unfolding triple_def holds_def
proof (intro allI impI)
  fix w :: "'a sync_world"
  assume g: "G (sw_state w) (sw_trace w)"
  obtain x w' where m: "m w = (x, w')" by fastforce
  obtain u where u: "sw_state w' = sw_state w" "sw_trace w' = sw_trace w @ u" "no_land u"
    using quietD [OF assms(1) m] by blast
  have "G (sw_state w') (sw_trace w')"
    using assms(2) g u(3) unfolding undisturbed_def u(1,2) by blast
  then show "case m w of (Inl _, w') \<Rightarrow> E (sw_state w') (sw_trace w') | (Inr x, w') \<Rightarrow> G (sw_state w') (sw_trace w')"
    using m assms(3) by (cases x) auto
qed

lemma triple_both:
  "triple P m Q E \<Longrightarrow> triple P m R E' \<Longrightarrow> triple P m (\<lambda>x w. Q x w \<and> R x w) (\<lambda>w. E w \<and> E' w)"
  by (fastforce simp: triple_def split: prod.splits sum.splits)

lemma holds_conj: "holds (\<lambda>st t. G st t \<and> H st t) w \<longleftrightarrow> holds G w \<and> holds H w"
  by (simp add: holds_def)

text \<open>A call that succeeds leaves its own event behind.\<close>

lemma leaves_event:
  assumes "undisturbed G" "quiet m" "\<And>st t. G st t \<Longrightarrow> since t0 st t" "\<And>st t. G st t \<Longrightarrow> E st t"
    and "\<And>w x w'. m w = (Inr x, w') \<Longrightarrow> \<exists>u. sw_trace w' = sw_trace w @ u \<and> ev x \<in> set u"
  shows "triple (holds G) m (\<lambda>x. holds (\<lambda>st t. G st t \<and> seen t0 (ev x) st t)) (holds E)"
  unfolding triple_def
proof (intro allI impI)
  fix w :: "'a sync_world"
  assume g: "holds G w"
  obtain x w' where m: "m w = (x, w')" by fastforce
  have after: "case m w of (Inr x, w') \<Rightarrow> holds G w' | (Inl _, w') \<Rightarrow> holds E w'"
  proof -
    have "triple (holds G) m (\<lambda>_. holds G) (holds E)" by (rule quiet_triple [OF assms(2,1)]) (rule assms(4))
    from this [unfolded triple_def, rule_format, OF g] show ?thesis .
  qed
  show "case m w of (Inr x, w') \<Rightarrow> holds (\<lambda>st t. G st t \<and> seen t0 (ev x) st t) w' | (Inl _, w') \<Rightarrow> holds E w'"
  proof (cases x)
    case (Inl e)
    then show ?thesis using after m by simp
  next
    case (Inr y)
    obtain u where w': "sw_trace w' = sw_trace w @ u" "ev y \<in> set u" using assms(5) m Inr by blast
    obtain u0 where "sw_trace w = t0 @ u0" using assms(3) g by (auto simp: holds_def since_def)
    then have "seen t0 (ev y) (sw_state w') (sw_trace w')" using w' by (auto simp: seen_def)
    then show ?thesis using after m Inr by (simp add: holds_def)
  qed
qed

lemma get_leaves: "get_object deps name epoch w = (Inr x, w') \<Longrightarrow> \<exists>u. sw_trace w' = sw_trace w @ u \<and> EvGet name x \<in> set u"
  by (auto simp: get_object_def await_def Let_def split: sum.splits)

lemma put_leaves:
  "putSealed deps name epoch c p im w = (Inr x, w') \<Longrightarrow> \<exists>u. sw_trace w' = sw_trace w @ u \<and> EvPut name c p im (Some x) \<in> set u"
  by (auto simp: putSealed_def and_then_def await_def Let_def split: sum.splits prod.splits)

lemma keep_leaves:
  "keepAsConflict deps name epoch c p why w = (Inr x, w') \<Longrightarrow> \<exists>u. sw_trace w' = sw_trace w @ u \<and> EvKeep name c p why True \<in> set u"
  by (auto simp: keepAsConflict_def and_then_def await_def Let_def split: sum.splits prod.splits)

subsection \<open>Why a write may replace what this device had\<close>

definition edited :: "'d sync_deps \<Rightarrow> payload \<Rightarrow> CollectionState option \<Rightarrow> bool" where
  "edited deps body known =
     (case known of Some k \<Rightarrow> sd_hash deps body \<noteq> cl_localHash k | None \<Rightarrow> \<not> isEmptyish body)"

definition merged_on_relay :: "'d sync_deps \<Rightarrow> string \<Rightarrow> payload \<Rightarrow> CollectionState option \<Rightarrow> sync_trace \<Rightarrow> payload \<Rightarrow> bool" where
  "merged_on_relay deps name body known pre p =
     (\<exists>remote m c im etag.
        mergeCollections (sd_fp deps) (case known of Some k \<Rightarrow> cl_base k | None \<Rightarrow> Some []) body remote = Some m
        \<and> mr_merged m = p \<and> EvPut name c p im (Some etag) \<in> set pre)"

definition kept_before :: "string \<Rightarrow> CollectionState option \<Rightarrow> sync_trace \<Rightarrow> bool" where
  "kept_before name known pre =
     (\<exists>k etag sealed. known = Some k \<and> cl_conflictedEtag k = Some etag \<and> EvGet name (Some (sealed, etag)) \<in> set pre)"

definition overwrite_ok :: "'d sync_deps \<Rightarrow> string \<Rightarrow> payload \<Rightarrow> CollectionState option \<Rightarrow> sync_trace \<Rightarrow> payload \<Rightarrow> bool" where
  "overwrite_ok deps name body known pre p =
     (\<not> edited deps body known
      \<or> (\<exists>c why. EvKeep name c body why True \<in> set pre)
      \<or> merged_on_relay deps name body known pre p
      \<or> kept_before name known pre)"

definition safe :: "'d sync_deps \<Rightarrow> string \<Rightarrow> payload \<Rightarrow> CollectionState option \<Rightarrow> sync_trace \<Rightarrow> SyncState \<Rightarrow> sync_trace \<Rightarrow> bool" where
  "safe deps name body known t0 st t =
     (\<exists>u. t = t0 @ u \<and> (\<forall>pre p post. u = pre @ EvLand name p # post \<longrightarrow> overwrite_ok deps name body known pre p))"

definition can_land :: "'d sync_deps \<Rightarrow> string \<Rightarrow> payload \<Rightarrow> CollectionState option \<Rightarrow> sync_trace \<Rightarrow> payload \<Rightarrow> SyncState \<Rightarrow> sync_trace \<Rightarrow> bool" where
  "can_land deps name body known t0 p st t = (\<exists>u. t = t0 @ u \<and> overwrite_ok deps name body known u p)"

text \<open>The facts a branch starts from: nothing wrong so far and the entry still what it was.\<close>

definition at_start :: "'d sync_deps \<Rightarrow> string \<Rightarrow> payload \<Rightarrow> CollectionState option \<Rightarrow> sync_trace \<Rightarrow> SyncState \<Rightarrow> sync_trace \<Rightarrow> bool" where
  "at_start deps name body known t0 st t = (safe deps name body known t0 st t \<and> known_of st name = known)"

lemma at_start_safe: "at_start deps name body known t0 st t \<Longrightarrow> safe deps name body known t0 st t"
  by (simp add: at_start_def)

lemma overwrite_ok_mono: "overwrite_ok deps name body known pre p \<Longrightarrow> overwrite_ok deps name body known (pre @ u) p"
  by (fastforce simp: overwrite_ok_def merged_on_relay_def kept_before_def)

lemma safe_since: "safe deps name body known t0 st t \<Longrightarrow> since t0 st t"
  by (auto simp: safe_def since_def)

lemma undisturbed_safe [simp]: "undisturbed (safe deps name body known t0)"
  unfolding undisturbed_def
proof (intro allI impI)
  fix st t v
  assume v: "no_land v" and "safe deps name body known t0 st t"
  then obtain u where u: "t = t0 @ u" "\<And>pre p post. u = pre @ EvLand name p # post \<Longrightarrow> overwrite_ok deps name body known pre p"
    by (auto simp: safe_def)
  have "overwrite_ok deps name body known pre p" if "u @ v = pre @ EvLand name p # post" for pre p post
  proof -
    have none: "EvLand name p \<notin> set v" using v by (simp add: no_land_def)
    from that obtain w where "u = pre @ w \<and> w @ v = EvLand name p # post \<or> u @ w = pre \<and> v = w @ EvLand name p # post"
      by (auto simp: append_eq_append_conv2)
    then show ?thesis
    proof
      assume w: "u = pre @ w \<and> w @ v = EvLand name p # post"
      then have "w \<noteq> []" using none by fastforce
      then show ?thesis using w u(2) by (cases w) simp_all
    next
      assume "u @ w = pre \<and> v = w @ EvLand name p # post"
      then show ?thesis using none by simp
    qed
  qed
  then show "safe deps name body known t0 st (t @ v)" using u(1) by (auto simp: safe_def)
qed

lemma undisturbed_can_land [simp]: "undisturbed (can_land deps name body known t0 p)"
  using overwrite_ok_mono by (fastforce simp: undisturbed_def can_land_def)

lemma undisturbed_all [simp]: "(\<And>x. undisturbed (G x)) \<Longrightarrow> undisturbed (\<lambda>st t. \<forall>x. G x st t)"
  by (simp add: undisturbed_def)

lemma undisturbed_at_start [simp]: "undisturbed (at_start deps name body known t0)"
  using undisturbed_safe unfolding undisturbed_def at_start_def by blast

lemma safe_snoc:
  assumes "safe deps name body known t0 st t" "can_land deps name body known t0 p st t"
  shows "safe deps name body known t0 st' (t @ [EvLand name p])"
proof -
  obtain u where u: "t = t0 @ u" "\<And>pre p post. u = pre @ EvLand name p # post \<Longrightarrow> overwrite_ok deps name body known pre p"
    using assms(1) by (auto simp: safe_def)
  have j: "overwrite_ok deps name body known u p" using assms(2) u(1) by (auto simp: can_land_def)
  have "overwrite_ok deps name body known pre q" if "u @ [EvLand name p] = pre @ EvLand name q # post" for pre q post
    using that u(2) j by (cases post rule: rev_cases) auto
  then show ?thesis using u(1) by (auto simp: safe_def)
qed

lemma safe_state: "safe deps name body known t0 st t = safe deps name body known t0 st' t"
  by (simp add: safe_def)

subsection \<open>The steps\<close>

lemma writeBack_safe:
  "triple (holds (\<lambda>st t. at_start deps name body known t0 st t \<and> can_land deps name body known t0 p st t))
     (writeBack source name p) (\<lambda>_. holds (at_start deps name body known t0)) (holds (at_start deps name body known t0))"
proof -
  have land: "triple (holds (\<lambda>st t. at_start deps name body known t0 st t \<and> can_land deps name body known t0 p st t))
     (write_local source name p) (\<lambda>_. holds (at_start deps name body known t0)) (holds (at_start deps name body known t0))"
    by (auto simp: triple_def write_local_def holds_def at_start_def intro: safe_snoc split: prod.splits option.splits)
  show ?thesis
    unfolding writeBack_def
    by (rule triple_and_then [OF land], rule triple_and_then [OF quiet_triple], simp_all,
        rule triple_and_then [OF quiet_triple], simp_all add: triple_return)
qed

lemma writeBack_later:
  "triple (holds (\<lambda>st t. safe deps name body known t0 st t \<and> can_land deps name body known t0 p st t))
     (writeBack source name p) (\<lambda>_. holds (safe deps name body known t0)) (holds (safe deps name body known t0))"
proof -
  have land: "triple (holds (\<lambda>st t. safe deps name body known t0 st t \<and> can_land deps name body known t0 p st t))
     (write_local source name p) (\<lambda>_. holds (safe deps name body known t0)) (holds (safe deps name body known t0))"
    by (auto simp: triple_def write_local_def holds_def intro: safe_snoc split: prod.splits option.splits)
  show ?thesis
    unfolding writeBack_def
    by (rule triple_and_then [OF land], rule triple_and_then [OF quiet_triple], simp_all,
        rule triple_and_then [OF quiet_triple], simp_all add: triple_return)
qed

lemma set_entry_safe:
  "triple (holds (safe deps name body known t0)) (set_entry n c) (\<lambda>_. holds (safe deps name body known t0)) E"
  by (simp add: triple_def set_entry_def holds_def safe_def)

lemma agree_safe:
  "triple (holds (safe deps name body known t0)) (and_then (agree d n etag counter q) (\<lambda>_. return out))
     (\<lambda>_. holds (safe deps name body known t0)) E"
  by (auto simp: triple_def agree_def and_then_def getting_def set_entry_def return_def holds_def safe_def)

lemma start_safe: "holds (at_start deps name body known t0) w \<Longrightarrow> holds (safe deps name body known t0) w"
  by (simp add: holds_def at_start_def)

lemma pushAs_safe:
  "triple (holds (at_start deps name body known t0)) (pushAs deps name epoch counter p im)
     (\<lambda>_. holds (safe deps name body known t0)) (holds (at_start deps name body known t0))"
  unfolding pushAs_def
  by (rule triple_and_then [OF quiet_triple], simp_all, rule triple_pre [OF agree_safe start_safe])

lemma landAs_safe:
  "triple (holds (\<lambda>st t. at_start deps name body known t0 st t \<and> can_land deps name body known t0 p st t))
     (landAs deps name source etag counter p out)
     (\<lambda>_. holds (safe deps name body known t0)) (holds (at_start deps name body known t0))"
  unfolding landAs_def
  by (rule triple_and_then [OF writeBack_safe], rule triple_pre [OF agree_safe start_safe])

subsection \<open>The branches\<close>

abbreviation kept_or_merged where
  "kept_or_merged deps name body known t0 \<equiv> (\<lambda>st t. safe deps name body known t0 st t \<and> (\<forall>p. can_land deps name body known t0 p st t))"

lemma keep_can_land:
  "since t0 st t \<Longrightarrow> seen t0 (EvKeep name c body why True) st t \<Longrightarrow> can_land deps name body known t0 p st t"
  by (auto simp: seen_def can_land_def overwrite_ok_def)

lemma kept_can_land:
  "seen t0 (EvGet name (Some (sealed, etag))) st t \<Longrightarrow> Option.bind known cl_conflictedEtag = Some etag \<Longrightarrow>
   can_land deps name body known t0 p st t"
  by (cases known) (auto simp: seen_def can_land_def overwrite_ok_def kept_before_def)

lemma keepAs_safe:
  "triple (holds (at_start deps name body known t0)) (keepAsConflict deps name epoch c body why)
     (\<lambda>_. holds (\<lambda>st t. at_start deps name body known t0 st t \<and> (\<forall>p. can_land deps name body known t0 p st t)))
     (holds (safe deps name body known t0))"
proof -
  have "triple (holds (at_start deps name body known t0)) (keepAsConflict deps name epoch c body why)
     (\<lambda>_. holds (\<lambda>st t. at_start deps name body known t0 st t \<and> seen t0 (EvKeep name c body why True) st t))
     (holds (safe deps name body known t0))"
    by (rule leaves_event) (auto simp: at_start_def dest: safe_since keep_leaves)
  then show ?thesis
    by (rule triple_weaken) (auto simp: holds_def at_start_def intro: keep_can_land safe_since)
qed

lemma keepOnce_safe:
  "triple (holds (\<lambda>st t. at_start deps name body known t0 st t \<and> seen t0 (EvGet name (Some (sealed, etag))) st t))
     (keepOnce deps name epoch c body etag)
     (\<lambda>_. holds (kept_or_merged deps name body known t0)) (holds (safe deps name body known t0))"
proof (rule triple_assume)
  fix w0 :: "'a sync_world"
  assume w0: "holds (\<lambda>st t. at_start deps name body known t0 st t \<and> seen t0 (EvGet name (Some (sealed, etag))) st t) w0"
  then have k: "known_of (sw_state w0) name = known" by (simp add: holds_def at_start_def)
  show "triple (\<lambda>w. w = w0) (keepOnce deps name epoch c body etag)
     (\<lambda>_. holds (kept_or_merged deps name body known t0)) (holds (safe deps name body known t0))"
  proof (cases "Option.bind known cl_conflictedEtag = Some etag")
    case True
    have "keepOnce deps name epoch c body etag w0 = (Inr (), w0)"
      using True k by (simp add: keepOnce_def and_then_def getting_def return_def)
    moreover have "can_land deps name body known t0 p (sw_state w0) (sw_trace w0)" for p
      by (rule kept_can_land [OF _ True, where sealed = sealed]) (use w0 in \<open>simp add: holds_def\<close>)
    then have "holds (kept_or_merged deps name body known t0) w0" using w0 by (simp add: holds_def at_start_def)
    ultimately show ?thesis by (simp add: triple_def)
  next
    case False
    have at: "holds (at_start deps name body known t0) w0" using w0 by (simp add: holds_def)
    have later: "triple (holds (\<lambda>st t. at_start deps name body known t0 st t \<and> (\<forall>p. can_land deps name body known t0 p st t)))
        (set_entry name x) (\<lambda>_. holds (kept_or_merged deps name body known t0)) (holds (safe deps name body known t0))" for x
      by (simp add: triple_def set_entry_def holds_def at_start_def safe_def can_land_def)
    have "triple (holds (at_start deps name body known t0))
        (and_then (keepAsConflict deps name epoch c body None) (\<lambda>_. set_entry name x))
        (\<lambda>_. holds (kept_or_merged deps name body known t0)) (holds (safe deps name body known t0))" for x
      by (rule triple_and_then [OF keepAs_safe later])
    then show ?thesis
      using False k at by (simp add: triple_def keepOnce_def and_then_def [where m = "getting f" for f] getting_def)
  qed
qed

lemma land_anyway:
  "triple (holds (kept_or_merged deps name body known t0)) (writeBack source name p)
     (\<lambda>_. holds (safe deps name body known t0)) (holds (safe deps name body known t0))"
  by (rule triple_pre [OF writeBack_later]) (simp add: holds_def)

lemma conflictOver_safe:
  "triple (holds (\<lambda>st t. at_start deps name body known t0 st t \<and> seen t0 (EvGet name (Some (sealed, etag))) st t))
     (conflictOver deps name epoch source body sealed etag)
     (\<lambda>_. holds (safe deps name body known t0)) (holds (safe deps name body known t0))"
  unfolding conflictOver_def Let_def
proof (rule triple_and_then [OF quiet_triple])
  fix floor
  show "triple (holds (\<lambda>st t. at_start deps name body known t0 st t \<and> seen t0 (EvGet name (Some (sealed, etag))) st t))
     (and_then (openObject deps name epoch sealed floor) (\<lambda>opened.
       if fst opened = body then
         and_then (floor_now name) (\<lambda>floor.
         and_then (agree deps name etag (max (snd opened) floor) body) (\<lambda>_. return Unchanged))
       else
         and_then (keepOnce deps name epoch (snd opened + 1) body etag) (\<lambda>_.
         and_then (writeBack source name (fst opened)) (\<lambda>landed.
         and_then (floor_now name) (\<lambda>floor.
         and_then (agree deps name etag (max (snd opened) floor) landed) (\<lambda>_. return Conflicted))))))
     (\<lambda>_. holds (safe deps name body known t0)) (holds (safe deps name body known t0))"
  proof (rule triple_and_then [OF quiet_triple], goal_cases)
    case (4 opened)
    show ?case
    proof (rule triple_if)
      show "triple (holds (\<lambda>st t. at_start deps name body known t0 st t \<and> seen t0 (EvGet name (Some (sealed, etag))) st t))
         (and_then (floor_now name) (\<lambda>floor.
         and_then (agree deps name etag (max (snd opened) floor) body) (\<lambda>_. return Unchanged)))
        (\<lambda>_. holds (safe deps name body known t0)) (holds (safe deps name body known t0))"
        by (rule triple_and_then [OF quiet_triple])
          (auto dest: at_start_safe intro!: triple_pre [OF agree_safe] simp: holds_def)
      show "triple (holds (\<lambda>st t. at_start deps name body known t0 st t \<and> seen t0 (EvGet name (Some (sealed, etag))) st t))
         (and_then (keepOnce deps name epoch (snd opened + 1) body etag) (\<lambda>_.
         and_then (writeBack source name (fst opened)) (\<lambda>landed.
         and_then (floor_now name) (\<lambda>floor.
         and_then (agree deps name etag (max (snd opened) floor) landed) (\<lambda>_. return Conflicted)))))
        (\<lambda>_. holds (safe deps name body known t0)) (holds (safe deps name body known t0))"
        by (rule triple_and_then [OF keepOnce_safe], rule triple_and_then [OF land_anyway],
            rule triple_and_then [OF quiet_triple], simp_all, rule agree_safe)
    qed
  qed (auto dest: at_start_safe)
qed (auto dest: at_start_safe)

lemma get_safe:
  "triple (holds (at_start deps name body known t0)) (get_object deps name epoch)
     (\<lambda>x. holds (\<lambda>st t. at_start deps name body known t0 st t \<and> seen t0 (EvGet name x) st t)) (holds (safe deps name body known t0))"
  by (rule leaves_event) (auto simp: at_start_def dest: safe_since get_leaves)

lemma pushAs_done:
  "triple (holds (at_start deps name body known t0)) (pushAs deps name epoch counter p im)
     (\<lambda>_. holds (safe deps name body known t0)) (holds (safe deps name body known t0))"
  by (rule triple_weaken [OF pushAs_safe]) (auto intro: start_safe)

lemma floor_then:
  assumes "\<And>floor. triple (holds (at_start deps name body known t0)) (f floor)
     (\<lambda>_. holds (safe deps name body known t0)) (holds (safe deps name body known t0))"
  shows "triple (holds (at_start deps name body known t0)) (and_then (floor_now name) f)
     (\<lambda>_. holds (safe deps name body known t0)) (holds (safe deps name body known t0))"
  by (rule triple_and_then [OF quiet_triple]) (auto simp: at_start_def intro: assms)

lemma conflictWithRemote_safe:
  "triple (holds (at_start deps name body known t0)) (conflictWithRemote deps name epoch source body)
     (\<lambda>_. holds (safe deps name body known t0)) (holds (safe deps name body known t0))"
  unfolding conflictWithRemote_def
proof (rule triple_and_then [OF get_safe])
  fix x
  show "triple (holds (\<lambda>st t. at_start deps name body known t0 st t \<and> seen t0 (EvGet name x) st t))
    (case x of None \<Rightarrow> and_then (floor_now name) (\<lambda>floor. pushAs deps name epoch (floor + 1) body None)
       | Some f \<Rightarrow> conflictOver deps name epoch source body (fst f) (snd f))
    (\<lambda>_. holds (safe deps name body known t0)) (holds (safe deps name body known t0))"
  proof (rule triple_option)
    show "triple (holds (\<lambda>st t. at_start deps name body known t0 st t \<and> seen t0 (EvGet name x) st t))
      (and_then (floor_now name) (\<lambda>floor. pushAs deps name epoch (floor + 1) body None))
      (\<lambda>_. holds (safe deps name body known t0)) (holds (safe deps name body known t0))"
      by (rule triple_pre [OF floor_then [OF pushAs_done]]) (simp add: holds_def)
  next
    fix y
    assume "x = Some y"
    then show "triple (holds (\<lambda>st t. at_start deps name body known t0 st t \<and> seen t0 (EvGet name x) st t))
      (conflictOver deps name epoch source body (fst y) (snd y))
      (\<lambda>_. holds (safe deps name body known t0)) (holds (safe deps name body known t0))"
      using conflictOver_safe [of deps name body known t0 "fst y" "snd y" epoch source] by simp
  qed
qed

lemma on_conflict_safe:
  assumes "triple (holds (at_start deps name body known t0)) m (\<lambda>_. holds (safe deps name body known t0))
     (holds (at_start deps name body known t0))"
    and "triple (holds (at_start deps name body known t0)) handle (\<lambda>_. holds (safe deps name body known t0))
     (holds (safe deps name body known t0))"
  shows "triple (holds (at_start deps name body known t0)) (on_conflict m handle)
     (\<lambda>_. holds (safe deps name body known t0)) (holds (safe deps name body known t0))"
  unfolding on_conflict_def
  by (rule triple_catching [OF assms(1)], rule triple_if, rule triple_throw, erule start_safe, rule assms(2))

lemma merged_can_land:
  assumes "mergeCollections (sd_fp deps) (case known of Some k \<Rightarrow> cl_base k | None \<Rightarrow> Some []) body remote = Some m"
    and "seen t0 (EvPut name c (mr_merged m) im (Some e)) st t"
  shows "can_land deps name body known t0 (mr_merged m) st t"
proof -
  obtain u where "t = t0 @ u" "EvPut name c (mr_merged m) im (Some e) \<in> set u" using assms(2) by (auto simp: seen_def)
  then have "merged_on_relay deps name body known u (mr_merged m)"
    using assms(1) unfolding merged_on_relay_def by blast
  then show ?thesis using \<open>t = t0 @ u\<close> by (auto simp: can_land_def overwrite_ok_def)
qed

lemma put_and_land:
  assumes "mergeCollections (sd_fp deps) (case known of Some k \<Rightarrow> cl_base k | None \<Rightarrow> Some []) body remote = Some m"
  shows "triple (holds (at_start deps name body known t0))
    (and_then (putSealed deps name epoch c (mr_merged m) im) (\<lambda>e. landAs deps name source e c (mr_merged m) out))
    (\<lambda>_. holds (safe deps name body known t0)) (holds (at_start deps name body known t0))"
proof -
  have put: "triple (holds (at_start deps name body known t0)) (putSealed deps name epoch c (mr_merged m) im)
    (\<lambda>e. holds (\<lambda>st t. at_start deps name body known t0 st t \<and> seen t0 (EvPut name c (mr_merged m) im (Some e)) st t))
    (holds (at_start deps name body known t0))"
    by (rule leaves_event) (auto dest: at_start_safe safe_since put_leaves)
  show ?thesis
    by (rule triple_and_then [OF put], rule triple_pre [OF landAs_safe])
      (auto simp: holds_def intro: merged_can_land [OF assms])
qed

lemma mergeOver_safe:
  "triple (holds (at_start deps name body (Some k) t0)) (mergeOver deps name epoch source body k p counter etag)
     (\<lambda>_. holds (safe deps name body (Some k) t0)) (holds (safe deps name body (Some k) t0))"
  unfolding mergeOver_def
proof (rule triple_if, goal_cases)
  case 1
  show ?case by (rule triple_pre [OF agree_safe start_safe])
next
  case 2
  show ?case
  proof (rule triple_if, goal_cases)
    case 1
    show ?case by (rule floor_then [OF pushAs_done])
  next
    case 2
    show ?case
    proof (rule triple_option, goal_cases)
      case 1
      show ?case by (rule conflictWithRemote_safe)
    next
      case (2 m)
      have "triple (holds (at_start deps name body (Some k) t0))
        (and_then (putSealed deps name epoch c (mr_merged m) (Some etag)) (\<lambda>e.
           landAs deps name source e c (mr_merged m) Merged))
        (\<lambda>_. holds (safe deps name body (Some k) t0)) (holds (safe deps name body (Some k) t0))" for c
        by (rule triple_weaken [OF put_and_land])
          (use 2 in \<open>auto dest: start_safe\<close>)
      then show ?case by (rule floor_then)
    qed
  qed
qed

lemma mergeOrConflict_safe:
  "triple (holds (at_start deps name body (Some k) t0)) (mergeOrConflict deps name epoch source body k)
     (\<lambda>_. holds (safe deps name body (Some k) t0)) (holds (safe deps name body (Some k) t0))"
  unfolding mergeOrConflict_def
proof (rule triple_and_then [OF quiet_triple])
  fix x
  show "triple (holds (at_start deps name body (Some k) t0))
    (case x of None \<Rightarrow> conflictWithRemote deps name epoch source body
       | Some f \<Rightarrow>
           and_then (floor_now name) (\<lambda>floor.
           and_then (catching (and_then (openObject deps name epoch (fst f) floor) (\<lambda>x. return (Some x))) (\<lambda>_. return None))
             (\<lambda>opened. case opened of
               None \<Rightarrow> conflictWithRemote deps name epoch source body
             | Some x \<Rightarrow> mergeOver deps name epoch source body k (fst x) (snd x) (snd f))))
    (\<lambda>_. holds (safe deps name body (Some k) t0)) (holds (safe deps name body (Some k) t0))"
  proof (rule triple_option, goal_cases)
    case 1
    show ?case by (rule conflictWithRemote_safe)
  next
    case (2 f)
    show ?case
    proof (rule floor_then, rule triple_and_then [OF quiet_triple], goal_cases)
      case (4 floor opened)
      show ?case by (rule triple_option) (rule conflictWithRemote_safe, rule mergeOver_safe)
    qed (auto dest: at_start_safe)
  qed
qed (auto dest: at_start_safe)

lemma nothing_edited:
  "\<not> edited deps body known \<Longrightarrow> since t0 st t \<Longrightarrow> can_land deps name body known t0 p st t"
  by (auto simp: since_def can_land_def overwrite_ok_def)

lemma land_unedited:
  assumes "\<not> edited deps body known"
  shows "triple (holds (at_start deps name body known t0)) (landAs deps name source etag counter p out)
     (\<lambda>_. holds (safe deps name body known t0)) (holds (safe deps name body known t0))"
  by (rule triple_weaken [OF landAs_safe])
    (auto simp: holds_def dest: at_start_safe intro: nothing_edited [OF assms] safe_since)

lemma opened_then:
  assumes "\<And>opened. triple (holds (at_start deps name body known t0)) (f opened)
     (\<lambda>_. holds (safe deps name body known t0)) (holds (safe deps name body known t0))"
  shows "triple (holds (at_start deps name body known t0))
     (and_then (floor_now name) (\<lambda>floor. and_then (openObject deps name epoch sealed floor) f))
     (\<lambda>_. holds (safe deps name body known t0)) (holds (safe deps name body known t0))"
  by (rule floor_then, rule triple_and_then [OF quiet_triple]) (auto dest: at_start_safe intro: assms)

lemma firstContact_safe:
  "triple (holds (at_start deps name body None t0)) (firstContact deps name epoch source body sealed etag)
     (\<lambda>_. holds (safe deps name body None t0)) (holds (safe deps name body None t0))"
  unfolding firstContact_def Let_def
proof (rule opened_then, rule triple_if, goal_cases)
  case (1 opened)
  then have "\<not> edited deps body None" by (simp add: edited_def)
  then show ?case by (rule land_unedited)
next
  case (2 opened)
  have keep: "triple (holds (at_start deps name body None t0))
      (and_then (keepAsConflict deps name epoch c body None) (\<lambda>_. landAs deps name source etag d p Conflicted))
      (\<lambda>_. holds (safe deps name body None t0)) (holds (safe deps name body None t0))" for c d p
    by (rule triple_and_then [OF keepAs_safe], rule triple_weaken [OF landAs_safe])
      (auto simp: holds_def dest: at_start_safe)
  show ?case
  proof (rule triple_if, rule triple_and_then [OF quiet_triple], goal_cases)
    case (4 old)
    have join: "triple (holds (at_start deps name body None t0))
        (on_conflict
           (and_then (putSealed deps name epoch c (mr_merged joined) (Some etag)) (\<lambda>e.
              landAs deps name source e c (mr_merged joined) Merged))
           (conflictWithRemote deps name epoch source body))
        (\<lambda>_. holds (safe deps name body None t0)) (holds (safe deps name body None t0))"
      if "(if old > 0 then None else mergeCollections (sd_fp deps) (Some []) body (fst opened)) = Some joined" for joined c
      by (rule on_conflict_safe [OF put_and_land conflictWithRemote_safe]) (use that in \<open>simp split: if_splits\<close>)
    show ?case by (rule triple_option) (rule keep, erule join)
  next
    case 5
    show ?case by (rule triple_pre [OF agree_safe start_safe])
  qed (auto dest: at_start_safe)
qed

lemma pullRemote_safe:
  assumes "\<not> edited deps body (Some k)"
  shows "triple (holds (at_start deps name body (Some k) t0)) (pullRemote deps name epoch source body k sealed etag)
     (\<lambda>_. holds (safe deps name body (Some k) t0)) (holds (safe deps name body (Some k) t0))"
  unfolding pullRemote_def Let_def
proof (rule opened_then)
  fix opened :: "payload \<times> nat"
  let ?S = "holds (safe deps name body (Some k) t0)"
  have can: "kept_or_merged deps name body (Some k) t0 st t" if "safe deps name body (Some k) t0 st t" for st t
    using that nothing_edited [OF assms safe_since [OF that]] by blast
  have keep: "triple (holds (at_start deps name body (Some k) t0))
      (if c then and_then (keepAsConflict deps name epoch n body (Some BulkRemoval)) (\<lambda>_. set_entry name x) else return ())
      (\<lambda>_. ?S) ?S" for c n x
    by (rule triple_if, rule triple_and_then [OF keepAs_safe], rule triple_pre [OF set_entry_safe])
      (auto simp: holds_def intro!: triple_return dest: at_start_safe)
  have land: "triple ?S (and_then (writeBack source name p) (\<lambda>landed.
      and_then (getting (g landed)) (\<lambda>entry. and_then (set_entry name entry) (\<lambda>_. return Pulled)))) (\<lambda>_. ?S) ?S" for p g
  proof (rule triple_and_then [OF triple_pre [OF land_anyway]], goal_cases)
    case (1 w)
    then show ?case by (simp add: holds_def can)
  next
    case (2 landed)
    show ?case
      by (rule triple_and_then [OF quiet_triple], simp_all, rule triple_and_then [OF set_entry_safe])
        (simp add: triple_return)
  qed
  show "triple (holds (at_start deps name body (Some k) t0))
     (and_then (if removesMost body (fst opened) \<and> cl_conflictedEtag k \<noteq> Some etag
         then and_then (keepAsConflict deps name epoch (snd opened + 1) body (Some BulkRemoval)) (\<lambda>_.
           set_entry name (k\<lparr>cl_conflictedEtag := Some etag\<rparr>))
         else return ()) (\<lambda>_.
       and_then (writeBack source name (fst opened)) (\<lambda>landed.
       and_then (getting (\<lambda>w. (entry_for deps etag (snd opened) landed w)
             \<lparr>cl_conflictedEtag := (if removesMost body (fst opened) \<and> cl_conflictedEtag k \<noteq> Some etag then Some etag else None)\<rparr>)) (\<lambda>entry.
       and_then (set_entry name entry) (\<lambda>_. return Pulled)))))
     (\<lambda>_. ?S) ?S"
    by (rule triple_and_then [OF keep land])
qed

lemma bothSides_safe:
  "triple (holds (at_start deps name body (Some k) t0)) (bothSides deps name epoch source body k sealed etag)
     (\<lambda>_. holds (safe deps name body (Some k) t0)) (holds (safe deps name body (Some k) t0))"
  unfolding bothSides_def Let_def
proof (rule triple_if, goal_cases)
  case 1
  show ?case by (rule triple_return) (erule start_safe)
next
  case 2
  show ?case
  proof (rule triple_if, goal_cases)
    case 1
    show ?case by (rule floor_then, rule on_conflict_safe [OF pushAs_safe mergeOrConflict_safe])
  next
    case 2
    show ?case
    proof (rule triple_if, goal_cases)
      case 1
      then show ?case by (intro pullRemote_safe) (simp add: edited_def)
    next
      case 2
      show ?case by (rule mergeOrConflict_safe)
    qed
  qed
qed

lemma onlyHere_safe:
  "triple (holds (at_start deps name body known t0)) (onlyHere deps name epoch source body known)
     (\<lambda>_. holds (safe deps name body known t0)) (holds (safe deps name body known t0))"
  unfolding onlyHere_def
proof (rule triple_if, goal_cases)
  case 1
  show ?case by (rule triple_return) (erule start_safe)
next
  case 2
  show ?case by (rule floor_then, rule on_conflict_safe [OF pushAs_safe conflictWithRemote_safe])
qed

lemma collection_safe:
  assumes "src_read source (sw_disk w) = Inr (Some body)" "syncCollection deps name source w = (r, w')"
  shows "safe deps name body (known_of (sw_state w) name) (sw_trace w) (sw_state w') (sw_trace w')"
proof -
  let ?k = "known_of (sw_state w) name" and ?t = "sw_trace w"
  let ?epoch = "sd_epoch deps (sw_trace w)"
  have at: "holds (at_start deps name body ?k ?t) w" by (simp add: holds_def at_start_def safe_def)
  obtain x w1 where g: "get_object deps name ?epoch w = (x, w1)" by fastforce
  have run: "syncCollection deps name source w =
      and_then (get_object deps name ?epoch) (\<lambda>remote. case remote of
         None \<Rightarrow> onlyHere deps name ?epoch source body ?k
       | Some o' \<Rightarrow> (case ?k of None \<Rightarrow> firstContact deps name ?epoch source body (fst o') (snd o')
                   | Some k \<Rightarrow> bothSides deps name ?epoch source body k (fst o') (snd o'))) w"
    using assms(1)
    by (simp add: syncCollection_def and_then_def getting_def read_local_def g split: sum.split option.split)
  have "triple (holds (at_start deps name body ?k ?t))
     (and_then (get_object deps name ?epoch) (\<lambda>remote. case remote of
         None \<Rightarrow> onlyHere deps name ?epoch source body ?k
       | Some o' \<Rightarrow> (case ?k of None \<Rightarrow> firstContact deps name ?epoch source body (fst o') (snd o')
                   | Some k \<Rightarrow> bothSides deps name ?epoch source body k (fst o') (snd o'))))
     (\<lambda>_. holds (safe deps name body ?k ?t)) (holds (safe deps name body ?k ?t))"
  proof (rule triple_and_then [OF quiet_triple], goal_cases)
    case (4 remote)
    show ?case
    proof (rule triple_option, rule onlyHere_safe)
      fix y
      show "triple (holds (at_start deps name body ?k ?t))
        (case ?k of None \<Rightarrow> firstContact deps name ?epoch source body (fst y) (snd y)
           | Some k \<Rightarrow> bothSides deps name ?epoch source body k (fst y) (snd y))
        (\<lambda>_. holds (safe deps name body ?k ?t)) (holds (safe deps name body ?k ?t))"
        by (cases ?k) (simp_all add: firstContact_safe bothSides_safe)
    qed
  qed (auto dest: at_start_safe)
  from this [unfolded triple_def, rule_format, OF at] show ?thesis
    using assms(2) by (cases r) (simp_all add: run [symmetric] holds_def)
qed


subsection \<open>A vault on two machines\<close>

text \<open>The relay holds \<open>theirs\<close> under one etag and takes whatever it is sent.\<close>

definition vault_deps :: "(sync_trace \<Rightarrow> device \<Rightarrow> device) \<Rightarrow> device sync_deps" where
  "vault_deps meanwhile =
     \<lparr>sd_get = (\<lambda>_ _ _. Inr (Some (''sealed'', ''e2''))), sd_put = (\<lambda>_ _ _ _ _ _. Inr ''e3''), sd_keep = (\<lambda>_ _ _ _ _. Inr ()),
      sd_seal = (\<lambda>_ _ _ _ _. Inr ''sealed''), sd_seal_conflict = (\<lambda>_ _ _ _ _ _. Inr ''sealed''),
      sd_open = (\<lambda>_ _ _ _ seen. Inr (Doc (JStr ''theirs''), max 1 seen)), sd_epoch = (\<lambda>_. 1), sd_now = (\<lambda>_. 5),
      sd_forgets = (\<lambda>_. 0), sd_meanwhile = meanwhile,
      sd_hash = (\<lambda>p. case p of Doc (JStr s) \<Rightarrow> s | _ \<Rightarrow> []), sd_fp = (\<lambda>_. [])\<rparr>"

definition set_vault :: "string \<Rightarrow> device \<Rightarrow> device" where
  "set_vault s dv = dv\<lparr>dv_files := AList.update ''opsmaxx-vault.json'' (Doc (JStr s)) (dv_files dv)\<rparr>"

definition vault_world :: "string \<Rightarrow> device sync_world" where
  "vault_world s = \<lparr>sw_disk = set_vault s sample_device, sw_state = fresh_state (Some ''a''), sw_trace = []\<rparr>"

definition vault :: "bool \<Rightarrow> device source" where
  "vault ok = wholeFile (sample_env\<lparr>de_file_ok := ok\<rparr>) ''opsmaxx-vault.json''"


text \<open>
  The two ways an edit does get lost. A copy is kept once per revision of the relay: when the
  landing after it fails, a further edit is overwritten without being kept. And what is saved
  while the pass waits is not what it read at the start.
\<close>

lemma second_edit_after_a_failed_landing:
  "let w1 = snd (syncCollection (vault_deps (\<lambda>_ d. d)) ''vault'' (vault False)
              ((vault_world ''second'')\<lparr>sw_state := \<lparr>ss_accountId = Some ''a'',
                 ss_collections = [(''vault'', \<lparr>cl_etag = ''e1'', cl_counter = 0, cl_localHash = ''first'', cl_at = 0, cl_base = None,
                    cl_conflictedEtag = None\<rparr>)], ss_floors = []\<rparr>\<rparr>));
       w2 = snd (syncCollection (vault_deps (\<lambda>_ d. d)) ''vault'' (vault True) (w1\<lparr>sw_disk := set_vault ''third'' (sw_disk w1)\<rparr>))
   in map_of (dv_files (sw_disk w2)) ''opsmaxx-vault.json'' = Some (Doc (JStr ''theirs''))
      \<and> list_all (\<lambda>ev. case ev of EvKeep _ _ p _ _ \<Rightarrow> p \<noteq> Doc (JStr ''third'') | EvPut _ _ p _ _ \<Rightarrow> p \<noteq> Doc (JStr ''third'')
           | _ \<Rightarrow> True) (sw_trace w2)"
  by code_simp

lemma edit_while_the_pass_waits:
  "let w = snd (syncCollection (vault_deps (\<lambda>t d. if t = [] then d else set_vault ''later'' d)) ''vault'' (vault True) (vault_world ''mine''))
   in map_of (dv_files (sw_disk w)) ''opsmaxx-vault.json'' = Some (Doc (JStr ''theirs''))
      \<and> list_all (\<lambda>ev. case ev of EvKeep _ _ p _ _ \<Rightarrow> p \<noteq> Doc (JStr ''later'') | EvPut _ _ p _ _ \<Rightarrow> p \<noteq> Doc (JStr ''later'')
           | _ \<Rightarrow> True) (sw_trace w)"
  by code_simp

end
