(* ===== verification/Sync_Settled.thy ===== *)
theory Sync_Settled
  imports Sync_Loss
begin

section \<open>A pass that carried something leaves nothing to carry\<close>

text \<open>
  The contract of a collection's source towards the pass, as a locale; every source of the table
  meets it. Inside it: whatever a pass did, what it recorded of this device is what is on the disk.
\<close>

locale collection_source =
  fixes source :: "'d source"
  assumes reads_back: "src_write source p d = (d', None) \<Longrightarrow> \<exists>b. src_read source d' = Inr (Some b)"
    and no_conflict_written: "src_write source p d = (d', Some err) \<Longrightarrow> \<not> isConflict err"
    and no_conflict_read: "src_read source d = Inl err \<Longrightarrow> \<not> isConflict err"

subsection \<open>Runs that succeed\<close>

lemma run_and_then:
  "and_then m f w = (Inr y, w') \<longleftrightarrow> (\<exists>x w1. m w = (Inr x, w1) \<and> f x w1 = (Inr y, w'))"
  by (auto simp: and_then_def split: prod.splits sum.splits)

lemma run_and_then_error:
  "and_then m f w = (Inl e, w') \<longleftrightarrow> m w = (Inl e, w') \<or> (\<exists>x w1. m w = (Inr x, w1) \<and> f x w1 = (Inl e, w'))"
  by (auto simp: and_then_def split: prod.splits sum.splits)

lemma run_on_conflict:
  "on_conflict m handle w = (Inr y, w') \<longleftrightarrow>
     m w = (Inr y, w') \<or> (\<exists>e w1. m w = (Inl e, w1) \<and> isConflict e \<and> handle w1 = (Inr y, w'))"
  by (auto simp: on_conflict_def catching_def throw_def split: prod.splits sum.splits)

lemma run_getting [simp]: "getting f w = (x, w') \<longleftrightarrow> x = Inr (f w) \<and> w' = w"
  by (auto simp: getting_def)

lemma run_return [simp]: "return x w = (y, w') \<longleftrightarrow> y = Inr x \<and> w' = w"
  by (auto simp: return_def)

lemma run_floor [simp]: "floor_now name w = (x, w') \<longleftrightarrow> x = Inr (floorOf (sw_state w) name) \<and> w' = w"
  by (auto simp: floor_now_def)

subsection \<open>Nobody else writes\<close>

definition alone :: "'d sync_deps \<Rightarrow> bool" where
  "alone deps = (\<forall>t d. sd_meanwhile deps t d = d)"

definition disk_kept :: "('d, 'a) sync \<Rightarrow> bool" where
  "disk_kept m = (\<forall>w. sw_disk (snd (m w)) = sw_disk w)"

lemma disk_keptD: "disk_kept m \<Longrightarrow> m w = (x, w') \<Longrightarrow> sw_disk w' = sw_disk w"
  unfolding disk_kept_def by (metis snd_conv)

lemma disk_kept_basic [simp]:
  "disk_kept (return x)" "disk_kept (throw err)" "disk_kept (getting f)" "disk_kept (read_local source)"
  "disk_kept (set_entry name c)" "disk_kept (floor_now name)" "disk_kept (applied name)"
  by (simp_all add: disk_kept_def return_def throw_def getting_def read_local_def set_entry_def floor_now_def applied_def)

lemma disk_kept_await [simp]: "alone deps \<Longrightarrow> disk_kept (await deps ask note')"
  by (simp add: disk_kept_def alone_def await_def Let_def)

lemma disk_kept_and_then [simp]: "disk_kept m \<Longrightarrow> (\<And>x. disk_kept (f x)) \<Longrightarrow> disk_kept (and_then m f)"
  by (auto simp: disk_kept_def and_then_def split: prod.splits sum.splits) (metis snd_conv)+

lemma disk_kept_catching [simp]: "disk_kept m \<Longrightarrow> (\<And>x. disk_kept (h x)) \<Longrightarrow> disk_kept (catching m h)"
  by (auto simp: disk_kept_def catching_def split: prod.splits sum.splits) (metis snd_conv)+

lemma disk_kept_calls [simp]:
  assumes "alone deps"
  shows "disk_kept (get_object deps name epoch)" "disk_kept (putSealed deps name epoch c p im)"
    "disk_kept (openObject deps name epoch sealed low)" "disk_kept (keepAsConflict deps name epoch c p why)"
    "disk_kept (agree deps name etag c p)" "disk_kept (keepOnce deps name epoch c p etag)"
    "disk_kept (pushAs deps name epoch c p im)"
  using assms
  by (simp_all add: get_object_def putSealed_def openObject_def keepAsConflict_def agree_def keepOnce_def pushAs_def)

definition settled :: "'d sync_deps \<Rightarrow> string \<Rightarrow> 'd source \<Rightarrow> 'd sync_world \<Rightarrow> bool" where
  "settled deps name source w =
     (\<exists>c body. known_of (sw_state w) name = Some c \<and> src_read source (sw_disk w) = Inr (Some body)
        \<and> sd_hash deps body = cl_localHash c)"

definition has :: "'d source \<Rightarrow> payload \<Rightarrow> 'd sync_world \<Rightarrow> bool" where
  "has source body w = (src_read source (sw_disk w) = Inr (Some body))"

lemma has_after_calls:
  assumes "alone deps" "has source body w"
  shows "get_object deps name epoch w = (g, w') \<Longrightarrow> has source body w'"
    and "putSealed deps name epoch c p im w = (q, w') \<Longrightarrow> has source body w'"
    and "openObject deps name epoch sealed low w = (r, w') \<Longrightarrow> has source body w'"
    and "pushAs deps name epoch c p im w = (y, w') \<Longrightarrow> has source body w'"
  using assms by (simp_all add: has_def disk_keptD [of "get_object deps name epoch"] disk_keptD [of "putSealed deps name epoch c p im"]
      disk_keptD [of "openObject deps name epoch sealed low"] disk_keptD [of "pushAs deps name epoch c p im"])

lemma set_settles:
  "set_entry name c w = (x, w') \<Longrightarrow> has source body w \<Longrightarrow> cl_localHash c = sd_hash deps body \<Longrightarrow> settled deps name source w'"
  by (auto simp: set_entry_def settled_def has_def)

lemma agree_settles:
  "and_then (agree deps name etag c body) (\<lambda>_. return out) w = (Inr y, w') \<Longrightarrow> has source body w \<Longrightarrow> settled deps name source w'"
  by (auto simp: run_and_then agree_def entry_for_def intro: set_settles)

lemma push_settles:
  assumes "alone deps" "pushAs deps name epoch c body im w = (Inr y, w')" "has source body w"
  shows "settled deps name source w'"
proof -
  obtain etag w1 where put: "putSealed deps name epoch c body im w = (Inr etag, w1)"
    and rest: "and_then (agree deps name etag c body) (\<lambda>_. return Pushed) w1 = (Inr y, w')"
    using assms(2) unfolding pushAs_def run_and_then by blast
  have "has source body w1" by (rule has_after_calls(2) [OF assms(1,3) put])
  then show ?thesis by (rule agree_settles [OF rest])
qed

context collection_source
begin

lemma lands:
  assumes "writeBack source name p w = (Inr b, w')"
  shows "has source b w'"
proof -
  obtain w1 w2 again where run: "write_local source name p w = (Inr (), w1)" "applied name w1 = (Inr (), w2)"
      "read_local source w2 = (Inr again, w')" "b = nullish again p"
    using assms unfolding writeBack_def run_and_then by (auto split: option.splits)
  obtain d where d: "src_write source p (sw_disk w) = (d, None)" "sw_disk w1 = d"
    using run(1) by (auto simp: write_local_def split: prod.splits option.splits)
  obtain c where c: "src_read source d = Inr (Some c)" using reads_back [OF d(1)] by blast
  have "sw_disk w2 = d" using run(2) d(2) by (auto simp: applied_def)
  then show ?thesis using run(3,4) c by (auto simp: read_local_def has_def)
qed

lemma landing_error:
  assumes "writeBack source name p w = (Inl e, w')"
  shows "\<not> isConflict e"
  using assms no_conflict_written no_conflict_read
  by (auto simp: writeBack_def run_and_then_error write_local_def applied_def read_local_def split: prod.splits option.splits sum.splits)

lemma land_settles:
  assumes "landAs deps name source etag c p out w = (Inr y, w')"
  shows "settled deps name source w'"
proof -
  obtain b w1 where run: "writeBack source name p w = (Inr b, w1)"
      "and_then (agree deps name etag c b) (\<lambda>_. return out) w1 = (Inr y, w')"
    using assms unfolding landAs_def run_and_then by blast
  show ?thesis by (rule agree_settles [OF run(2) lands [OF run(1)]])
qed

lemma land_error: "landAs deps name source etag c p out w = (Inl e, w') \<Longrightarrow> \<not> isConflict e"
  by (auto simp: landAs_def run_and_then_error agree_def set_entry_def dest: landing_error)

subsection \<open>The branches\<close>

text \<open>What every branch promises: it ends settled or reports that nothing happened.\<close>

abbreviation ends where
  "ends deps name out w \<equiv> out = Unchanged \<or> settled deps name source w"

lemma keep_then_land:
  assumes "and_then (keepOnce deps name epoch c body etag) (\<lambda>_.
         and_then (writeBack source name p) (\<lambda>b.
         and_then (floor_now name) (\<lambda>floor.
         and_then (agree deps name etag (max d floor) b) (\<lambda>_. return Conflicted)))) w = (Inr y, w')"
  shows "settled deps name source w'"
  using assms by (auto simp: run_and_then [of "keepOnce deps name epoch c body etag"] run_and_then [of "writeBack source name p"]
      run_and_then [of "floor_now name"] intro: agree_settles dest: lands)

lemma conflictWithRemote_ends:
  assumes "alone deps" "conflictWithRemote deps name epoch source body w = (Inr out, w')" "has source body w"
  shows "ends deps name out w'"
proof -
  obtain fresh w1 where get: "get_object deps name epoch w = (Inr fresh, w1)"
    and rest: "(case fresh of None \<Rightarrow> and_then (floor_now name) (\<lambda>floor. pushAs deps name epoch (floor + 1) body None)
       | Some f \<Rightarrow> conflictOver deps name epoch source body (fst f) (snd f)) w1 = (Inr out, w')"
    using assms(2) unfolding conflictWithRemote_def run_and_then by blast
  have h: "has source body w1" by (rule has_after_calls(1) [OF assms(1,3) get])
  show ?thesis
  proof (cases fresh)
    case None
    then show ?thesis using rest h assms(1) by (auto simp: run_and_then [of "floor_now name"] intro: push_settles)
  next
    case (Some f)
    then obtain opened w2 where opened: "openObject deps name epoch (fst f) (floorOf (sw_state w1) name) w1 = (Inr opened, w2)"
      and rest2: "(if fst opened = body then
         and_then (floor_now name) (\<lambda>floor.
         and_then (agree deps name (snd f) (max (snd opened) floor) body) (\<lambda>_. return Unchanged))
       else
         and_then (keepOnce deps name epoch (snd opened + 1) body (snd f)) (\<lambda>_.
         and_then (writeBack source name (fst opened)) (\<lambda>landed.
         and_then (floor_now name) (\<lambda>floor.
         and_then (agree deps name (snd f) (max (snd opened) floor) landed) (\<lambda>_. return Conflicted))))) w2 = (Inr out, w')"
      using rest unfolding Some option.case conflictOver_def run_and_then [of "floor_now name"] run_floor Let_def
        run_and_then [of "openObject deps name epoch (fst f) c" for c] by blast
    show ?thesis
    proof (cases "fst opened = body")
      case True
      then show ?thesis using rest2 by (auto simp: run_and_then)
    next
      case False
      then show ?thesis using rest2 keep_then_land by simp
    qed
  qed
qed

lemma put_then_land_ends:
  assumes "on_conflict (and_then (putSealed deps name epoch c p im) (\<lambda>etag. landAs deps name source etag c p Merged))
      (conflictWithRemote deps name epoch source body) w = (Inr out, w')"
    and "alone deps" "has source body w"
  shows "ends deps name out w'"
  using assms(1) unfolding run_on_conflict
proof (elim disjE exE conjE)
  assume "and_then (putSealed deps name epoch c p im) (\<lambda>etag. landAs deps name source etag c p Merged) w = (Inr out, w')"
  then show ?thesis by (auto simp: run_and_then dest: land_settles)
next
  fix e w1
  assume err: "and_then (putSealed deps name epoch c p im) (\<lambda>etag. landAs deps name source etag c p Merged) w = (Inl e, w1)"
    and "isConflict e" and rest: "conflictWithRemote deps name epoch source body w1 = (Inr out, w')"
  then have "putSealed deps name epoch c p im w = (Inl e, w1)" by (auto simp: run_and_then_error dest: land_error)
  then have "has source body w1" by (rule has_after_calls(2) [OF assms(2,3)])
  with assms(2) rest show ?thesis by (rule conflictWithRemote_ends)
qed

lemma mergeOver_ends:
  assumes "mergeOver deps name epoch source body known p counter etag w = (Inr out, w')" "alone deps" "has source body w"
  shows "ends deps name out w'"
proof (cases "p = body")
  case True
  then show ?thesis using assms(1) by (auto simp: mergeOver_def run_and_then)
next
  case False
  show ?thesis
  proof (cases "sd_hash deps p = cl_localHash known")
    case True
    then show ?thesis using assms False
      by (auto simp: mergeOver_def run_and_then [of "floor_now name"] intro: push_settles)
  next
    case other: False
    show ?thesis
    proof (cases "mergeCollections (sd_fp deps) (cl_base known) body p")
      case None
      then show ?thesis using assms False other conflictWithRemote_ends by (simp add: mergeOver_def)
    next
      case (Some m)
      then show ?thesis using assms(1) False other
        by (auto simp: mergeOver_def run_and_then [of "floor_now name"]
            run_and_then [of "putSealed deps name epoch c q im" for c q im] dest: land_settles)
    qed
  qed
qed

lemma mergeOrConflict_ends:
  assumes "mergeOrConflict deps name epoch source body known w = (Inr out, w')" "alone deps" "has source body w"
  shows "ends deps name out w'"
proof -
  obtain fresh w1 where get: "get_object deps name epoch w = (Inr fresh, w1)"
    and rest: "(case fresh of
         None \<Rightarrow> conflictWithRemote deps name epoch source body
       | Some f \<Rightarrow>
           and_then (floor_now name) (\<lambda>floor.
           and_then (catching (and_then (openObject deps name epoch (fst f) floor) (\<lambda>x. return (Some x))) (\<lambda>_. return None))
             (\<lambda>opened. case opened of
               None \<Rightarrow> conflictWithRemote deps name epoch source body
             | Some x \<Rightarrow> mergeOver deps name epoch source body known (fst x) (snd x) (snd f)))) w1 = (Inr out, w')"
    using assms(1) unfolding mergeOrConflict_def run_and_then by blast
  have h: "has source body w1" by (rule has_after_calls(1) [OF assms(2,3) get])
  show ?thesis
  proof (cases fresh)
    case None
    then show ?thesis using rest conflictWithRemote_ends [OF assms(2) _ h] by simp
  next
    case (Some f)
    let ?open = "catching (and_then (openObject deps name epoch (fst f) (floorOf (sw_state w1) name)) (\<lambda>x. return (Some x)))
        (\<lambda>_. return None)"
    obtain opened w2 where opened: "?open w1 = (Inr opened, w2)"
      and rest2: "(case opened of
               None \<Rightarrow> conflictWithRemote deps name epoch source body
             | Some x \<Rightarrow> mergeOver deps name epoch source body known (fst x) (snd x) (snd f)) w2 = (Inr out, w')"
      using rest unfolding Some option.case run_and_then [of "floor_now name"] run_floor
        run_and_then [of "catching m h" for m h] by blast
    have "disk_kept ?open" using assms(2) by simp
    then have h2: "has source body w2" using h disk_keptD opened unfolding has_def by metis
    show ?thesis
      using rest2 conflictWithRemote_ends [OF assms(2) _ h2] mergeOver_ends [OF _ assms(2) h2] by (cases opened) simp_all
  qed
qed

lemma firstContact_ends:
  assumes "firstContact deps name epoch source body sealed etag w = (Inr out, w')" "alone deps" "has source body w"
  shows "ends deps name out w'"
proof -
  obtain opened w1 where opened: "openObject deps name epoch sealed (floorOf (sw_state w) name) w = (Inr opened, w1)"
    and rest: "(if isEmptyish body \<and> fst opened \<noteq> body then landAs deps name source etag (snd opened) (fst opened) Adopted
       else if fst opened \<noteq> body then
         and_then (getting (\<lambda>w. nullish (map_of (ss_floors (sw_state w)) name) 0)) (\<lambda>old.
         case (if old > 0 then None else mergeCollections (sd_fp deps) (Some []) body (fst opened)) of
           Some joined \<Rightarrow>
             on_conflict
               (and_then (putSealed deps name epoch (snd opened + 1) (mr_merged joined) (Some etag)) (\<lambda>etag.
                landAs deps name source etag (snd opened + 1) (mr_merged joined) Merged))
               (conflictWithRemote deps name epoch source body)
         | None \<Rightarrow>
             and_then (keepAsConflict deps name epoch (snd opened + 1) body None) (\<lambda>_.
             landAs deps name source etag (snd opened) (fst opened) Conflicted))
       else and_then (agree deps name etag (snd opened) body) (\<lambda>_. return Unchanged)) w1 = (Inr out, w')"
    using assms(1) unfolding firstContact_def Let_def run_and_then [of "floor_now name"] run_floor
      run_and_then [of "openObject deps name epoch sealed c" for c] by blast
  have h: "has source body w1" by (rule has_after_calls(3) [OF assms(2,3) opened])
  show ?thesis
  proof (cases "fst opened = body")
    case True
    then show ?thesis using rest by (auto simp: run_and_then)
  next
    case False
    then show ?thesis
      using rest put_then_land_ends [OF _ assms(2) h]
      by (fastforce simp: run_and_then [of "getting f" for f] run_and_then [of "keepAsConflict deps name epoch c body None" for c]
          split: if_splits option.splits dest: land_settles)
  qed
qed

lemma pullRemote_ends:
  assumes "pullRemote deps name epoch source body known sealed etag w = (Inr out, w')"
  shows "ends deps name out w'"
proof -
  obtain p w1 b w2 counter kept where land: "writeBack source name p w1 = (Inr b, w2)"
    and rest: "set_entry name ((entry_for deps etag counter b w2)\<lparr>cl_conflictedEtag := kept\<rparr>) w2 = (Inr (), w')"
    using assms unfolding pullRemote_def Let_def run_and_then run_getting run_return by auto
  have "settled deps name source w'" by (rule set_settles [OF rest lands [OF land]]) (simp add: entry_for_def)
  then show ?thesis ..
qed

lemma push_or_ends:
  assumes "and_then (floor_now name) (\<lambda>floor. on_conflict (pushAs deps name epoch (floor + 1) body im) handle) w = (Inr out, w')"
    and "alone deps" "has source body w"
    and "\<And>w1. has source body w1 \<Longrightarrow> handle w1 = (Inr out, w') \<Longrightarrow> ends deps name out w'"
  shows "ends deps name out w'"
proof -
  have "on_conflict (pushAs deps name epoch (floorOf (sw_state w) name + 1) body im) handle w = (Inr out, w')"
    using assms(1) by (simp add: run_and_then)
  then show ?thesis
    unfolding run_on_conflict
  proof (elim disjE exE conjE)
    assume "pushAs deps name epoch (floorOf (sw_state w) name + 1) body im w = (Inr out, w')"
    from push_settles [OF assms(2) this assms(3)] show ?thesis ..
  next
    fix e w1
    assume push: "pushAs deps name epoch (floorOf (sw_state w) name + 1) body im w = (Inl e, w1)" and "handle w1 = (Inr out, w')"
    then show ?thesis using assms(4) has_after_calls(4) [OF assms(2,3) push] by blast
  qed
qed

lemma bothSides_ends:
  assumes "bothSides deps name epoch source body k sealed etag w = (Inr out, w')" "alone deps" "has source body w"
  shows "ends deps name out w'"
proof (cases "sd_hash deps body \<noteq> cl_localHash k \<and> etag = cl_etag k")
  case True
  then have "and_then (floor_now name) (\<lambda>floor. on_conflict (pushAs deps name epoch (floor + 1) body (Some (cl_etag k)))
      (mergeOrConflict deps name epoch source body k)) w = (Inr out, w')"
    using assms(1) unfolding bothSides_def Let_def by simp
  then show ?thesis by (rule push_or_ends [OF _ assms(2,3)]) (rule mergeOrConflict_ends [OF _ assms(2)])
next
  case False
  then show ?thesis
    using assms(1) mergeOrConflict_ends [OF _ assms(2,3)] pullRemote_ends by (auto simp: bothSides_def Let_def split: if_splits)
qed

lemma onlyHere_ends:
  assumes "onlyHere deps name epoch source body known w = (Inr out, w')" "alone deps" "has source body w"
  shows "ends deps name out w'"
proof (cases "known = None \<and> isEmptyish body")
  case True
  then show ?thesis using assms(1) by (simp add: onlyHere_def)
next
  case False
  then have "and_then (floor_now name) (\<lambda>floor. on_conflict (pushAs deps name epoch (floor + 1) body None)
      (conflictWithRemote deps name epoch source body)) w = (Inr out, w')"
    using assms(1) unfolding onlyHere_def by (simp split: if_splits)
  then show ?thesis by (rule push_or_ends [OF _ assms(2,3)]) (rule conflictWithRemote_ends [OF assms(2)])
qed

lemma onlyThere_settles:
  assumes "onlyThere deps name epoch source sealed etag w = (Inr out, w')"
  shows "settled deps name source w'"
proof -
  obtain c p w1 where "landAs deps name source etag c p Adopted w1 = (Inr out, w')"
    using assms unfolding onlyThere_def run_and_then by blast
  then show ?thesis by (rule land_settles)
qed

lemma collection_ends:
  assumes "syncCollection deps name source w = (Inr out, w')" "alone deps"
  shows "ends deps name out w'"
proof -
  let ?epoch = "sd_epoch deps (sw_trace w)" and ?known = "known_of (sw_state w) name"
  obtain loc remote w1 where read: "src_read source (sw_disk w) = Inr loc"
    and get: "get_object deps name ?epoch w = (Inr remote, w1)"
    and rest: "(case (loc, remote) of
         (None, None) \<Rightarrow> return Unchanged
       | (None, Some r) \<Rightarrow> onlyThere deps name ?epoch source (fst r) (snd r)
       | (Some body, None) \<Rightarrow> onlyHere deps name ?epoch source body ?known
       | (Some body, Some r) \<Rightarrow>
           (case ?known of
              None \<Rightarrow> firstContact deps name ?epoch source body (fst r) (snd r)
            | Some k \<Rightarrow> bothSides deps name ?epoch source body k (fst r) (snd r))) w1 = (Inr out, w')"
    using assms(1)
    by (auto simp: syncCollection_def run_and_then [of "getting f" for f] run_and_then [of "read_local source"]
        run_and_then [of "get_object deps name e" for e] read_local_def)
  show ?thesis
  proof (cases loc)
    case None
    then show ?thesis using rest onlyThere_settles by (cases remote) auto
  next
    case (Some body)
    have h: "has source body w1"
      by (rule has_after_calls(1) [OF assms(2) _ get]) (simp add: has_def read Some)
    show ?thesis
      using rest Some onlyHere_ends [OF _ assms(2) h] firstContact_ends [OF _ assms(2) h] bothSides_ends [OF _ assms(2) h]
      by (cases remote; cases ?known) auto
  qed
qed

end

subsection \<open>The sources of the table\<close>

lemma blobOrRefuse_error: "blobOrRefuse dv = Inl err \<Longrightarrow> \<not> isConflict err"
  by (auto simp: blobOrRefuse_def isConflict_def split: data_file.splits)

lemma read_key_error: "read_key key dv = Inl err \<Longrightarrow> \<not> isConflict err"
  by (auto simp: read_key_def dest: blobOrRefuse_error split: sum.splits option.splits)

lemma write_key_error: "write_key e key body dv = (dv', Some err) \<Longrightarrow> \<not> isConflict err"
  by (auto simp: write_key_def Let_def isConflict_def dest: blobOrRefuse_error [unfolded isConflict_def]
      split: sum.splits payload.splits if_splits)

lemma write_key_reads: "write_key e key body dv = (dv', None) \<Longrightarrow> \<exists>b. read_key key dv' = Inr (Some b)"
  by (auto simp: write_key_def Let_def loadData_def read_key_def blobOrRefuse_def
      split: sum.splits payload.splits if_splits data_file.splits option.splits)

interpretation blob: collection_source "blobKey e key" for e key
  by unfold_locales (auto simp: blobKey_def dest: write_key_reads write_key_error read_key_error)

interpretation whole: collection_source "wholeFile e name" for e name
  by unfold_locales (auto simp: wholeFile_def write_file_def isConflict_def map_of_update_eq split: if_splits)

interpretation servers: collection_source "serversSource e" for e
  by unfold_locales (auto simp: serversSource_def isConflict_def dest: write_key_reads write_key_error [unfolded isConflict_def]
      read_key_error [unfolded isConflict_def] split: payload.splits json.splits)

interpretation vpns: collection_source "vpnsSource e" for e
  by unfold_locales (auto simp: vpnsSource_def isConflict_def dest: write_key_reads write_key_error [unfolded isConflict_def]
      read_key_error [unfolded isConflict_def] split: payload.splits json.splits sum.splits)

interpretation checks: collection_source "httpChecksSource e" for e
  by unfold_locales (auto simp: httpChecksSource_def isConflict_def dest: write_key_reads write_key_error [unfolded isConflict_def]
      read_key_error [unfolded isConflict_def] split: payload.splits json.splits sum.splits)

interpretation pointers: collection_source "envSource e" for e
  by unfold_locales (auto simp: envSource_def write_file_def isConflict_def map_of_update_eq split: payload.splits json.splits if_splits)

interpretation hosts: collection_source "knownHostsSource e" for e
  by unfold_locales (auto simp: knownHostsSource_def write_file_def isConflict_def map_of_update_eq Let_def
      split: payload.splits json.splits if_splits option.splits)

lemma marking_source: "collection_source s \<Longrightarrow> collection_source (marking e kind s)"
  unfolding collection_source_def
  by (auto simp: marking_def isConflict_def split: payload.splits json.splits sum.splits option.splits; blast)

interpretation marked_servers: collection_source "marking e KServer (serversSource e)" for e
  by (rule marking_source) (rule servers.collection_source_axioms)

interpretation marked_vpns: collection_source "marking e KVpn (vpnsSource e)" for e
  by (rule marking_source) (rule vpns.collection_source_axioms)

interpretation marked_blob: collection_source "marking e kind (blobKey e key)" for e kind key
  by (rule marking_source) (rule blob.collection_source_axioms)

lemma every_source: "SOURCES e name = Some s \<Longrightarrow> collection_source s"
  using blob.collection_source_axioms whole.collection_source_axioms pointers.collection_source_axioms
    hosts.collection_source_axioms checks.collection_source_axioms marked_servers.collection_source_axioms
    marked_vpns.collection_source_axioms marked_blob.collection_source_axioms
  by (auto simp: SOURCES_def split: if_splits)

subsection \<open>The second pass\<close>

text \<open>C6: A pass settles. After a pass did anything at all to a collection (pushed, pulled, adopted,
  merged or gave way to the copy of the relay), and when nobody saved meanwhile, a second pass to which
  the relay still answers with the recorded etag finds both sides unchanged: it asks once, writes
  nothing, sends nothing and leaves disk and state as they are. So what a source rewrites on landing
  is not taken for an edit and sent back.\<close>

theorem a_pass_settles:
  assumes "SOURCES e name = Some source" "alone deps"
    and "syncCollection deps name source w = (Inr out, w1)" "out \<noteq> Unchanged"
    and "known_of (sw_state w1) name = Some c"
    and "sd_get deps (sw_trace w1) name (sd_epoch deps (sw_trace w1)) = Inr (Some (sealed, cl_etag c))"
  shows "syncCollection deps name source w1 =
    (Inr Unchanged, w1\<lparr>sw_trace := sw_trace w1 @ [EvGet name (Some (sealed, cl_etag c))]\<rparr>)"
proof -
  have "settled deps name source w1"
    using collection_source.collection_ends [OF every_source [OF assms(1)] assms(3,2)] assms(4) by blast
  then obtain body where body: "src_read source (sw_disk w1) = Inr (Some body)" "sd_hash deps body = cl_localHash c"
    using assms(5) by (auto simp: settled_def)
  show ?thesis
    using assms(2,5,6) body
    by (simp add: syncCollection_def and_then_def getting_def read_local_def get_object_def await_def Let_def return_def
        bothSides_def alone_def)
qed

theorem a_pass_settles_witness:
  "fst (syncCollection (vault_deps (\<lambda>_ d. d)) ''vault'' (vault True)
      (snd (syncCollection (vault_deps (\<lambda>_ d. d)) ''vault'' (vault True) (vault_world ''mine'')))) = Inr Unchanged"
proof -
  let ?d = "vault_deps (\<lambda>_ d. d)" and ?s = "wholeFile sample_env ''opsmaxx-vault.json''"
  define run where "run = syncCollection ?d ''vault'' ?s (vault_world ''mine'')"
  have v: "vault True = ?s" by (simp add: vault_def sample_env_def)
  have src: "SOURCES sample_env ''vault'' = Some ?s" by (simp add: SOURCES_def)
  have alone: "alone ?d" by (simp add: alone_def vault_deps_def)
  have out: "fst run = Inr Conflicted" unfolding run_def by code_simp
  have etag: "map_option cl_etag (known_of (sw_state (snd run)) ''vault'') = Some ''e2''" unfolding run_def by code_simp
  then obtain c where c: "known_of (sw_state (snd run)) ''vault'' = Some c" "cl_etag c = ''e2''" by blast
  have step: "syncCollection ?d ''vault'' ?s (vault_world ''mine'') = (Inr Conflicted, snd run)"
    using out by (simp add: run_def prod_eq_iff)
  have get: "sd_get ?d (sw_trace (snd run)) ''vault'' (sd_epoch ?d (sw_trace (snd run))) = Inr (Some (''sealed'', cl_etag c))"
    using c(2) by (simp add: vault_deps_def)
  show ?thesis
    using a_pass_settles [OF src alone step _ c(1) get] by (simp add: v run_def)
qed

end
