(* ===== verification/Spec2Isabelle.thy ===== *)
theory Spec2Isabelle
  imports Shell_Quoting Broadcast_Runner Job_Wire_Laws Approvals_Laws Policy_Path Policy_Sql Addy_Merge Rule_Properties Gate_Tools Policy_Laws Sync_Gate Sync_Settled
begin

text \<open>
  OpsMaxx is a desktop application for operators: terminals, files, databases, containers and
  jobs on many servers, with a gateway through which an AI agent may do the same. This
  development models the code that decides what may run, on which hosts, in which order,
  with whose consent, and what survives when two devices disagree.

  \<^bold>\<open>The parts and how they meet.\<close> An agent's tool call reaches \<open>main/services/mcpServer.ts\<close>,
  which asks \<open>policyEngine.ts\<close> for a decision: allow, ask or deny. The engine reads the
  command line the way a shell would, takes it apart into segments, steps through wrappers
  and escalators, grades each command (\<open>shared/commandRisk.ts\<close>), looks at the paths it
  touches and narrows the decision by the session's mode. A question goes to the queue of
  \<open>approvals.ts\<close> and waits for a person or for its fuse. A person starting a broadcast
  (\<open>shared/broadcast.ts\<close>, \<open>main/services/broadcast.ts\<close>) or a job (\<open>shared/jobs.ts\<close>) answers a
  confirmation dialog; the answer is stored as an approval record and the runner checks that
  the record is about exactly the run it is about to start. A job runs detached on the host
  and is polled over a text protocol. A rule (\<open>shared/rules.ts\<close>, \<open>main/services/rules.ts\<close>) starts
  such a job by itself when an alert of the history arrives, on an approval given when the rule
  was written.

  A person's devices share their records through a relay that stores sealed copies. A pass
  (\<open>syncOnce\<close> of \<open>addy/sync.ts\<close>) takes each collection, compares this device's copy and the
  relay's with what was last agreed, and pushes, pulls, merges (\<open>addy/merge.ts\<close>) or keeps a
  conflict copy. What comes in lands through a source (\<open>addy/collections.ts\<close>), which rewrites
  what belongs to one machine and marks (\<open>syncTrust.ts\<close>) every value that would send a
  credential somewhere new; the marks hold the credential back (\<open>credentialLink.ts\<close> says which
  one a record uses), keep a moved server under its old workspace's policy and keep a
  host key (\<open>knownhosts.ts\<close>) from being trusted, until a person here confirms.

  In front of the engine stands the gate (\<open>gate\<close> and \<open>gateWorkspaces\<close> of \<open>mcpServer.ts\<close>): it
  checks that the agent is still connected (\<open>mcpAuth.ts\<close>) and that its fence covers the target,
  reads group and mode from the stored policy (\<open>policyStore.ts\<close>) and, on ask, waits in the queue
  and then checks again what may have changed meanwhile. The entities it is asked about come
  from a cache the window feeds (\<open>mcpDataCache.ts\<close>). Cloud commands take their arguments
  through \<open>shared/cloud.ts\<close> and \<open>shared/cloudCommands.ts\<close>.

  \<^bold>\<open>Which theory models what.\<close>
  \<^item> \<open>Prelude\<close>, \<open>Js_Text\<close>, \<open>Regex\<close>, \<open>Json\<close>: what the language gives the code. Insertion-ordered
    maps and sets, string functions, a matcher for the part of \<open>RegExp\<close> the code uses with a
    denotation it is proved equal to, and the values behind \<open>unknown\<close>.
  \<^item> \<open>Command_Risk\<close>: \<open>shared/commandRisk.ts\<close>, both pattern tables and \<open>assessCommand\<close>.
  \<^item> \<open>Shell_Text\<close>, \<open>Shell_Words\<close>, \<open>Shell_Walk\<close>, \<open>Policy_Command\<close>: the reader of command lines in
    \<open>policyEngine.ts\<close>, from the scanners (\<open>closingQuote\<close> to \<open>redirections\<close>) over wrappers
    (\<open>stripRunners\<close>, \<open>unwrapSegment\<close>) and the walk (\<open>walkArgvs\<close>, \<open>walkCommand\<close>,
    \<open>classifyCommand\<close>) to \<open>extractPathAccesses\<close> and \<open>evaluateCommand\<close>. \<open>Shell_Laws\<close> and
    \<open>Shell_Quoting\<close> hold what is proved of them.
  \<^item> \<open>Policy_Core\<close>, \<open>Policy_Path\<close>, \<open>Policy_Sql\<close>: groups, modes, restrictions and the single
    actions; path rules; database statements.
  \<^item> \<open>Approvals\<close>, \<open>Approvals_Laws\<close>: \<open>approvals.ts\<close>, each exported function one state
    transformer, and the reachable states under any interleaving of them.
  \<^item> \<open>Broadcast\<close>, \<open>Broadcast_Runner\<close>: planning, the approval record, the results, and the
    worker pool as a step relation.
  \<^item> \<open>Jobs\<close>, \<open>Job_Wire\<close>, \<open>Job_Wire_Laws\<close>: plan, cohorts and approval of a job; quoting, marker
    directories, the lines that signal and delete them, and the parsers of what a host prints.
  \<^item> \<open>Rules\<close>, \<open>Rule_Engine\<close>: the rule, its limit, its match and its reader, with the reader of an
    alert row (\<open>shared/webhook.ts\<close>); the engine with its file, its sweep over the pages of the
    log (\<open>readEvents\<close> of \<open>history.ts\<close>) and what firing a rule does. \<open>Rule_Laws\<close>, \<open>Rule_Sweep\<close>,
    \<open>Rule_Safety\<close> and \<open>Rule_Properties\<close> hold what is proved of them.
  \<^item> \<open>Policy_Store\<close>: \<open>policyStore.ts\<close>, its seeds, the five upgrade passes, its operations, the
    file and the cached copy. \<open>Policy_Laws\<close> holds what is proved of them.
  \<^item> \<open>Data_Cache\<close>: \<open>mcpDataCache.ts\<close>. \<open>Agent_Sessions\<close>: the sessions of \<open>mcpAuth.ts\<close>, pairing,
    restriction, expiry and stopping.
  \<^item> \<open>Agent_Gate\<close>, \<open>Gate_Machine\<close>: the checks of \<open>mcpServer.ts\<close> in their order, then \<open>gate\<close> and
    \<open>gateWorkspaces\<close> as they stop at the question and go on with its answer. \<open>Gate_Laws\<close> puts
    gate and queue into one step relation with a log; \<open>Gate_Properties\<close> and \<open>Gate_Tools\<close> hold
    what is proved of the reachable states and of the single tools.
  \<^item> \<open>Cloud_Target\<close>: the validation of cloud values and the argument vectors made of them.
  \<^item> \<open>Addy_Merge\<close>: the three-way merge of two collections of records. \<open>Addy_Sync\<close>: the pass, one
    definition per branch, its saved state and the ways to forget it. \<open>Sync_Pass_Laws\<close> (counters),
    \<open>Sync_Loss\<close> (edits) and \<open>Sync_Settled\<close> (the second pass) hold what is proved of it.
  \<^item> \<open>Sync_Sources\<close>: the device and how each collection is read and landed. \<open>Sync_Trust\<close>: the
    marks and every reader of them. \<open>Credential_Link\<close>: which credential a record uses.
    \<open>Sync_Trust_Laws\<close> and \<open>Sync_Source_Laws\<close> hold what is proved of landing.
  \<^item> \<open>Known_Hosts\<close>: host keys under synced copies, with a reachability relation. \<open>Sync_Gate\<close>:
    a synced move and the gate.

  \<^bold>\<open>Interfaces.\<close> The locale \<open>run_approval\<close> is the contract of an approval record (what is minted
  verifies, what verifies was minted for these commands and hosts); broadcasts and jobs are
  its interpretations. The locale \<open>engine_invariant\<close> is what a property of the rule engine has to
  keep for a whole sweep to keep it; the ledgers and the rate limit are its interpretations. The
  locale \<open>confirmed_action\<close> is the contract of an evaluator that may
  turn an allow into a question; five evaluators of \<open>policyEngine.ts\<close> interpret it. The locale
  \<open>collection_source\<close> is what a pass relies on in a source (a landed copy can be read back, no error
  of a source is taken for a conflict of the relay); every source of the table interprets it.

  \<^bold>\<open>How code became definitions.\<close> An interface is a record or, where the code tests
  \<open>undefined\<close>, a record with option fields; a union of string literals is a datatype. A scan
  with an index is a recursion on the rest of the text. A loop with early returns is a
  recursion with an accumulator. A thrown error is None. Module state is a record passed in
  and out, a timer is the instant it is due, \<open>Date.now()\<close> is an argument, and what a promise
  resolves with is recorded in the state. Asynchronous workers are a step relation. The rule
  engine writes every effect into a trace, so that a process that dies has done a prefix of it;
  what it is handed (fresh ids, the job runner, the resolver of a host) is an argument. A pass of
  the sync is a state monad with errors over disk, state and trace; what the relay, the sidecar and
  the rest of the device do at an await is a function of the trace.

  \<^bold>\<open>Bounds.\<close> Nothing runs on fuel that the code does not have. The walk's depth is the code's
  \<open>MAX_DEPTH\<close> of three and its passes are the code's ten; the worklist inside a level ends by a
  multiset measure on the words still to be looked at. The paging
  of the sweep ends because every full page moves the cursor past an event. The matcher of \<open>Regex\<close> follows the
  pattern and the text and is total. Every other recursion is structural or decreases the
  length of a text.

  \<^bold>\<open>What the lemmas show.\<close> That restrictions only narrow; that the command verdict is what the
  group, the grade, the escalation and the paths say, for every line, and that what the walk
  cannot read is asked about; that a stored approval never starts anything but what was
  approved; that a question is answered once, in bounded memory, and never waits for ever; that
  nothing passes the gate on ask without an answer to that very question, and an agent that
  was stopped or fenced meanwhile gets nothing; that an upgrade or a deleted group opens
  nothing; that
  a rule starts only its confirmed
  job, within its limit, from each alert once; that a broadcast keeps its concurrency bound, loses no host and ends; that quoting is read back by
  the shell; that a merge loses no edit and both devices arrive at the same records; that a pass overwrites no
  edit the relay does not hold, lets no relay turn a counter back and settles; that what sync
  brings is held exactly where this device did not already have it, opens no workspace to an agent and
  makes no host key trusted. Where the
  code falls short of what it means to do, the theorem states what it does.

  \<^bold>\<open>Not modelled.\<close> Characters are eight-bit, so the code's treatment of surrogate pairs is out
  of scope. Labels, translated sentences and progress events are left out. The fingerprint of
  a record and the hash of a mark are parameters. The relay client, sessions, pairing, the roster and
  the chooser of conflict copies are left out, as are dialogs (their answers are arguments) and the reading of
  OpenSSH's own files. What a tool answers once
  the gate has passed it, OAuth and the HTTP transport, and the readers of the cloud programs'
  output are left out. Network, terminals, child processes, the window and its
  views, the Go helpers and the command tables of the probes are not modelled.
\<close>

end
